(* ===== verification/JsPrelude.thy ===== *)
theory JsPrelude
  imports Main "HOL-Library.AList" "HOL-Library.Multiset" "HOL-Library.Sublist"
begin

text \<open>
  What every component of the development shares: JavaScript strings, insertion-ordered maps
  and sets, decimal printing, thrown values, and the facts about them that the component
  theories rest on.

  \<^item> A JavaScript string is a list of code units, here \<open>char list\<close>. Code units from 128 on
    occur in the program only in fixed text and as the byte order mark of a CSV file. The two
    beyond Latin-1 have stand-ins among the unused ones: \<open>CHR 0x85\<close> for the ellipsis U+2026 of
    \<open>redactAddress\<close>, \<open>CHR 0xFE\<close> for U+FEFF. Case mapping is the ASCII one.
  \<^item> A \<open>Map\<close> iterates in insertion order, and \<open>set\<close> on a present key keeps its place. That is
    an association list with distinct keys under \<open>AList.update\<close> and \<open>AList.delete\<close>.
  \<^item> A \<open>Set\<close> is a list without repetition, in insertion order.
  \<^item> A function that may throw returns \<open>thrown + 'a\<close>; \<open>Throw\<close> and \<open>Ret\<close> name the two sides.
\<close>

section \<open>Results\<close>

abbreviation Throw :: "'e \<Rightarrow> 'e + 'a" where
  "Throw \<equiv> Inl"

abbreviation Ret :: "'a \<Rightarrow> 'e + 'a" where
  "Ret \<equiv> Inr"

text \<open>
  Sequencing of two fallible computations: \<open>await\<close> inside an \<open>async\<close> function, where a
  rejection leaves the function.
\<close>

definition js_bind :: "('e + 'a) \<Rightarrow> ('a \<Rightarrow> 'e + 'b) \<Rightarrow> 'e + 'b" where
  "js_bind r f = (case r of Throw e \<Rightarrow> Throw e | Ret a \<Rightarrow> f a)"

lemma js_bind_simps [simp]:
  "js_bind (Throw e) f = Throw e"
  "js_bind (Ret a) f = f a"
  by (simp_all add: js_bind_def)

lemma js_bind_Ret_iff: "js_bind r f = Ret b \<longleftrightarrow> (\<exists>a. r = Ret a \<and> f a = Ret b)"
  by (simp add: js_bind_def split: sum.split)

section \<open>Thrown values\<close>

text \<open>
  Anything can be thrown. \<open>Exn\<close> is an instance of \<open>Error\<close> with its \<open>name\<close> and \<open>message\<close>,
  \<open>Val\<close> another object or primitive with its \<open>String()\<close> rendering, \<open>Nullish\<close> the values
  \<open>undefined\<close> and \<open>null\<close>, on which reading a property throws. The numeric HTTP properties that
  clients attach to errors (\<open>status\<close>, \<open>statusCode\<close>, and the same on \<open>response\<close>) are kept;
  \<open>None\<close> is a property that is absent or nullish.
\<close>

record exn_props =
  p_status :: "int option"
  p_statusCode :: "int option"
  p_response_status :: "int option"
  p_response_statusCode :: "int option"

definition no_props :: exn_props where
  "no_props = \<lparr>p_status = None, p_statusCode = None, p_response_status = None,
     p_response_statusCode = None\<rparr>"

datatype thrown =
    Exn (exn_name: string) (exn_message: string) exn_props
  | Val string exn_props
  | Nullish string

text \<open>\<open>new Error(m)\<close>, and the errors the engine itself throws.\<close>

definition mk_error :: "string \<Rightarrow> thrown" where
  "mk_error m = Exn ''Error'' m no_props"

definition reference_error :: "string \<Rightarrow> thrown" where
  "reference_error x = Exn ''ReferenceError'' (x @ '' is not defined'') no_props"

definition type_error :: "string \<Rightarrow> thrown" where
  "type_error m = Exn ''TypeError'' m no_props"

text \<open>\<open>err instanceof Error ? err.message : String(err)\<close>\<close>

fun thrown_message :: "thrown \<Rightarrow> string" where
  "thrown_message (Exn _ m _) = m"
| "thrown_message (Val s _) = s"
| "thrown_message (Nullish s) = s"

fun is_error :: "thrown \<Rightarrow> bool" where
  "is_error (Exn _ _ _) = True"
| "is_error _ = False"

text \<open>\<open>String(err)\<close>\<close>

fun thrown_string :: "thrown \<Rightarrow> string" where
  "thrown_string (Exn name m _) =
     (if name = [] then m else if m = [] then name else name @ '': '' @ m)"
| "thrown_string (Val s _) = s"
| "thrown_string (Nullish s) = s"

text \<open>\<open>err instanceof Error ? err : new Error(String(err))\<close>\<close>

definition to_error :: "thrown \<Rightarrow> thrown" where
  "to_error e = (if is_error e then e else mk_error (thrown_message e))"

lemma thrown_message_mk_error [simp]: "thrown_message (mk_error m) = m"
  by (simp add: mk_error_def)

lemma is_error_simps [simp]: "is_error (mk_error m)" "is_error (to_error e)"
  by (simp_all add: mk_error_def to_error_def)

lemma thrown_message_to_error [simp]: "thrown_message (to_error e) = thrown_message e"
  by (simp add: to_error_def)

section \<open>Characters and strings\<close>

definition is_ws :: "char \<Rightarrow> bool" where
  "is_ws c \<longleftrightarrow> c \<in> {CHR 0x09, CHR 0x0A, CHR 0x0B, CHR 0x0C, CHR 0x0D, CHR 0x20, CHR 0xA0, CHR 0xFE}"

definition to_upper_char :: "char \<Rightarrow> char" where
  "to_upper_char c = (let n = of_char c :: nat in
     if 97 \<le> n \<and> n \<le> 122 then char_of (n - 32) else c)"

definition to_lower_char :: "char \<Rightarrow> char" where
  "to_lower_char c = (let n = of_char c :: nat in
     if 65 \<le> n \<and> n \<le> 90 then char_of (n + 32) else c)"

definition to_upper :: "string \<Rightarrow> string" where
  "to_upper = map to_upper_char"

definition to_lower :: "string \<Rightarrow> string" where
  "to_lower = map to_lower_char"

definition is_digit :: "char \<Rightarrow> bool" where
  "is_digit c \<longleftrightarrow> (let n = of_char c :: nat in 48 \<le> n \<and> n \<le> 57)"

definition trim_left :: "string \<Rightarrow> string" where
  "trim_left = dropWhile is_ws"

definition trim_right :: "string \<Rightarrow> string" where
  "trim_right s = rev (dropWhile is_ws (rev s))"

definition trim :: "string \<Rightarrow> string" where
  "trim s = trim_right (trim_left s)"

text \<open>\<open>s.includes(sub)\<close>, \<open>parts.join(sep)\<close>, \<open>s.split(c)\<close>.\<close>

fun str_includes :: "string \<Rightarrow> string \<Rightarrow> bool" where
  "str_includes sub [] \<longleftrightarrow> sub = []"
| "str_includes sub (c # cs) \<longleftrightarrow> prefix sub (c # cs) \<or> str_includes sub cs"

fun join :: "'a list \<Rightarrow> 'a list list \<Rightarrow> 'a list" where
  "join sep [] = []"
| "join sep [x] = x"
| "join sep (x # y # ys) = x @ sep @ join sep (y # ys)"

fun split_on :: "'a \<Rightarrow> 'a list \<Rightarrow> 'a list list" where
  "split_on d [] = [[]]"
| "split_on d (c # cs) =
     (if c = d then [] # split_on d cs
      else (case split_on d cs of [] \<Rightarrow> [[c]] | w # ws \<Rightarrow> (c # w) # ws))"

subsection \<open>Facts about characters\<close>

lemma of_char_bound: "(of_char c :: nat) < 256"
  using of_char_mod_256 [of c, where 'a = nat] mod_less_divisor [of 256 "of_char c :: nat"]
  by simp

lemma of_char_to_upper_char:
  "of_char (to_upper_char c) =
     (let n = of_char c :: nat in if 97 \<le> n \<and> n \<le> 122 then n - 32 else n)"
  using of_char_bound [of c] by (auto simp: to_upper_char_def Let_def)

lemma char_eq_iff: "c = d \<longleftrightarrow> (of_char c :: nat) = of_char d"
  by simp

lemma to_upper_char_idem [simp]: "to_upper_char (to_upper_char c) = to_upper_char c"
  by (auto simp: char_eq_iff of_char_to_upper_char Let_def simp del: of_char_eq_iff)

lemma is_ws_of_char: "is_ws c \<longleftrightarrow> (of_char c :: nat) \<in> {9, 10, 11, 12, 13, 32, 160, 254}"
  by (simp add: is_ws_def char_eq_iff del: of_char_eq_iff)

lemma is_ws_to_upper_char [simp]: "is_ws (to_upper_char c) \<longleftrightarrow> is_ws c"
  by (auto simp: is_ws_of_char of_char_to_upper_char Let_def)

lemma to_upper_idem [simp]: "to_upper (to_upper s) = to_upper s"
  by (simp add: to_upper_def)

lemma to_upper_append [simp]: "to_upper (s @ t) = to_upper s @ to_upper t"
  by (simp add: to_upper_def)

lemma length_to_upper [simp]: "length (to_upper s) = length s"
  by (simp add: to_upper_def)

subsection \<open>Facts about trimming\<close>

lemma dropWhile_map_upper:
  "dropWhile is_ws (map to_upper_char s) = map to_upper_char (dropWhile is_ws s)"
  by (induction s) auto

lemma trim_to_upper: "trim (to_upper s) = to_upper (trim s)"
  by (simp add: trim_def trim_left_def trim_right_def to_upper_def rev_map dropWhile_map_upper)

lemma hd_trim_right:
  assumes "s \<noteq> []" and "\<not> is_ws (hd s)"
  shows "trim_right s \<noteq> [] \<and> hd (trim_right s) = hd s"
proof -
  from assms obtain c cs where s: "s = c # cs" and c: "\<not> is_ws c"
    by (cases s) auto
  have "dropWhile is_ws (rev cs @ [c]) = dropWhile is_ws (rev cs) @ [c]"
    using c by (induction "rev cs" rule: list.induct) (simp_all add: dropWhile_append)
  then show ?thesis by (simp add: trim_right_def s)
qed

lemma trim_left_trim_right: "trim_left (trim_right (trim_left s)) = trim_right (trim_left s)"
proof (cases "trim_left s = []")
  case True
  have "trim_right [] = []" and "trim_left [] = []"
    by (simp_all add: trim_right_def trim_left_def)
  then show ?thesis unfolding True by simp
next
  case False
  then have "\<not> is_ws (hd (trim_left s))"
    by (simp add: trim_left_def hd_dropWhile)
  with False have "trim_right (trim_left s) \<noteq> [] \<and> \<not> is_ws (hd (trim_right (trim_left s)))"
    using hd_trim_right by metis
  then show ?thesis
    by (simp add: trim_left_def dropWhile_eq_self_iff)
qed

lemma trim_right_idem: "trim_right (trim_right s) = trim_right s"
  by (simp add: trim_right_def)

lemma trim_idem [simp]: "trim (trim s) = trim s"
  by (simp add: trim_def trim_left_trim_right trim_right_idem)

subsection \<open>Facts about splitting and joining\<close>

lemma split_on_nonempty [simp]: "split_on d s \<noteq> []"
  by (induction s) (auto split: list.splits)

lemma join_split_on [simp]: "join [d] (split_on d s) = s"
proof (induction s)
  case Nil
  then show ?case by simp
next
  case (Cons c cs)
  obtain w ws where "split_on d cs = w # ws"
    using split_on_nonempty [of d cs] by (cases "split_on d cs") auto
  with Cons.IH show ?case by (cases ws) auto
qed

lemma join_Cons: "xs \<noteq> [] \<Longrightarrow> join sep (x # xs) = x @ sep @ join sep xs"
  by (cases xs) auto

lemma split_on_notin: "d \<notin> set s \<Longrightarrow> split_on d s = [s]"
  by (induction s) auto

lemma split_on_append_Cons: "d \<notin> set s \<Longrightarrow> split_on d (s @ d # t) = s # split_on d t"
  by (induction s) auto

lemma split_on_join:
  "ws \<noteq> [] \<Longrightarrow> \<forall>w \<in> set ws. d \<notin> set w \<Longrightarrow> split_on d (join [d] ws) = ws"
  by (induction "[d]" ws rule: join.induct) (auto simp: split_on_notin split_on_append_Cons)

section \<open>Decimal notation\<close>

definition digit_char :: "nat \<Rightarrow> char" where
  "digit_char n = char_of (48 + n)"

fun dec_of_nat :: "nat \<Rightarrow> string" where
  "dec_of_nat n = (if n < 10 then [digit_char n] else dec_of_nat (n div 10) @ [digit_char (n mod 10)])"

declare dec_of_nat.simps [simp del]

definition nat_of_dec :: "string \<Rightarrow> nat" where
  "nat_of_dec = foldl (\<lambda>n c. 10 * n + (of_char c - 48)) 0"

definition dec_of_int :: "int \<Rightarrow> string" where
  "dec_of_int i = (if i < 0 then ''-'' @ dec_of_nat (nat (- i)) else dec_of_nat (nat i))"

lemma of_char_digit_char [simp]: "n < 10 \<Longrightarrow> (of_char (digit_char n) :: nat) = 48 + n"
  by (simp add: digit_char_def)

lemma nat_of_dec_snoc [simp]: "nat_of_dec (s @ [c]) = 10 * nat_of_dec s + (of_char c - 48)"
  by (simp add: nat_of_dec_def)

lemma nat_of_dec_of_nat [simp]: "nat_of_dec (dec_of_nat n) = n"
proof (induction n rule: dec_of_nat.induct)
  case (1 n)
  show ?case
  proof (cases "n < 10")
    case True
    then show ?thesis by (subst dec_of_nat.simps) (simp add: nat_of_dec_def)
  next
    case False
    with 1 show ?thesis by (subst dec_of_nat.simps) (simp add: mult_div_mod_eq)
  qed
qed

lemma dec_of_nat_nonempty [simp]: "dec_of_nat n \<noteq> []"
  by (subst dec_of_nat.simps) simp

lemma dec_of_nat_digits: "c \<in> set (dec_of_nat n) \<Longrightarrow> is_digit c"
proof (induction n rule: dec_of_nat.induct)
  case (1 n)
  have "m < 10 \<Longrightarrow> is_digit (digit_char m)" for m
    by (simp add: is_digit_def)
  with 1 show ?case
    by (cases "n < 10") (subst (asm) (2) dec_of_nat.simps, auto)+
qed

lemma dec_of_nat_inj [simp]: "dec_of_nat m = dec_of_nat n \<longleftrightarrow> m = n"
  by (metis nat_of_dec_of_nat)

lemma dec_of_nat_no_minus: "CHR ''-'' # s \<noteq> dec_of_nat n"
proof
  assume "CHR ''-'' # s = dec_of_nat n"
  then have "CHR ''-'' \<in> set (dec_of_nat n)" by (metis list.set_intros(1))
  then have "is_digit (CHR ''-'')" by (rule dec_of_nat_digits)
  then show False by (simp add: is_digit_def)
qed

lemma dec_of_int_inj [simp]: "dec_of_int m = dec_of_int n \<longleftrightarrow> m = n"
  using dec_of_nat_no_minus dec_of_nat_no_minus [symmetric]
  by (simp add: dec_of_int_def nat_eq_iff)

section \<open>Insertion-ordered maps\<close>

type_synonym ('k, 'v) jsmap = "('k \<times> 'v) list"

abbreviation map_get :: "('k, 'v) jsmap \<Rightarrow> 'k \<Rightarrow> 'v option" where
  "map_get m k \<equiv> map_of m k"

abbreviation map_set :: "'k \<Rightarrow> 'v \<Rightarrow> ('k, 'v) jsmap \<Rightarrow> ('k, 'v) jsmap" where
  "map_set \<equiv> AList.update"

abbreviation map_delete :: "'k \<Rightarrow> ('k, 'v) jsmap \<Rightarrow> ('k, 'v) jsmap" where
  "map_delete \<equiv> AList.delete"

abbreviation map_keys :: "('k, 'v) jsmap \<Rightarrow> 'k list" where
  "map_keys \<equiv> map fst"

definition map_has :: "('k, 'v) jsmap \<Rightarrow> 'k \<Rightarrow> bool" where
  "map_has m k \<longleftrightarrow> k \<in> set (map_keys m)"

definition map_wf :: "('k, 'v) jsmap \<Rightarrow> bool" where
  "map_wf m \<longleftrightarrow> distinct (map_keys m)"

named_theorems map_simps \<open>rewriting of operations on insertion-ordered maps\<close>

lemma map_has_iff: "map_has m k \<longleftrightarrow> map_get m k \<noteq> None"
  by (auto simp: map_has_def map_of_eq_None_iff)

lemma map_get_set [map_simps]: "map_get (map_set k v m) k' = (if k' = k then Some v else map_get m k')"
  by (simp add: update_conv')

lemma map_get_delete [map_simps]: "map_get (map_delete k m) k' = (if k' = k then None else map_get m k')"
  by (simp add: delete_conv')

lemma map_wf_Nil [simp]: "map_wf []"
  by (simp add: map_wf_def)

lemma map_wf_set [simp, intro]: "map_wf m \<Longrightarrow> map_wf (map_set k v m)"
  by (simp add: map_wf_def distinct_update)

lemma map_wf_delete [simp, intro]: "map_wf m \<Longrightarrow> map_wf (map_delete k m)"
  by (simp add: map_wf_def distinct_delete)

lemma map_wf_filter [simp, intro]: "map_wf m \<Longrightarrow> map_wf (filter P m)"
  by (simp add: map_wf_def distinct_map_filter)

lemma map_wf_tl [simp, intro]: "map_wf m \<Longrightarrow> map_wf (tl m)"
  by (cases m) (auto simp: map_wf_def)

lemma map_get_filter:
  "map_wf m \<Longrightarrow> map_get (filter P m) k =
     (case map_get m k of None \<Rightarrow> None | Some v \<Rightarrow> if P (k, v) then Some v else None)"
proof (induction m)
  case Nil
  then show ?case by simp
next
  case (Cons a m)
  obtain k' v' where a: "a = (k', v')" by (cases a)
  from Cons.prems have wf: "map_wf m" and fresh: "k' \<notin> set (map_keys m)"
    by (auto simp: a map_wf_def)
  then have "map_get m k' = None" by (simp add: map_of_eq_None_iff)
  with Cons.IH [OF wf] show ?case by (auto simp: a)
qed

lemma length_map_set:
  "length (map_set k v m) = (if map_has m k then length m else Suc (length m))"
proof -
  have "length (map_keys (map_set k v m)) = (if map_has m k then length m else Suc (length m))"
    unfolding update_keys map_has_def by simp
  then show ?thesis by simp
qed

lemma map_set_fresh: "\<not> map_has m k \<Longrightarrow> map_set k v m = m @ [(k, v)]"
  by (induction m) (auto simp: map_has_def)

lemma not_map_has_delete [simp]: "\<not> map_has (map_delete k m) k"
  by (simp add: map_has_iff map_simps)

lemma map_has_set [map_simps]: "map_has (map_set k v m) k' \<longleftrightarrow> k' = k \<or> map_has m k'"
  by (simp add: map_has_iff map_simps)

lemma map_has_delete [map_simps]: "map_has (map_delete k m) k' \<longleftrightarrow> k' \<noteq> k \<and> map_has m k'"
  by (simp add: map_has_iff map_simps)

lemma length_delete_has:
  assumes "map_wf m" and "map_has m k"
  shows "Suc (length (map_delete k m)) = length m"
proof -
  have "length (removeAll k (map_keys m)) = length (remove1 k (map_keys m))"
    using assms(1) by (simp add: map_wf_def distinct_remove1_removeAll)
  then have "length (map_keys (map_delete k m)) = length (map_keys m) - 1"
    using assms(2) by (simp add: delete_keys length_remove1 map_has_def)
  moreover have "length m \<noteq> 0"
    using assms(2) by (auto simp: map_has_def)
  ultimately show ?thesis by simp
qed

section \<open>Insertion-ordered sets\<close>

definition set_add :: "'a \<Rightarrow> 'a list \<Rightarrow> 'a list" where
  "set_add x s = (if x \<in> set s then s else s @ [x])"

definition js_set_of :: "'a list \<Rightarrow> 'a list" where
  "js_set_of xs = foldl (\<lambda>s x. set_add x s) [] xs"

lemma set_set_add [simp]: "set (set_add x s) = insert x (set s)"
  by (auto simp: set_add_def)

lemma distinct_set_add [simp]: "distinct (set_add x s) \<longleftrightarrow> distinct s"
  by (simp add: set_add_def)

lemma set_foldl_set_add: "set (foldl (\<lambda>s x. set_add x s) acc xs) = set acc \<union> set xs"
  by (induction xs arbitrary: acc) auto

lemma distinct_foldl_set_add: "distinct acc \<Longrightarrow> distinct (foldl (\<lambda>s x. set_add x s) acc xs)"
  by (induction xs arbitrary: acc) auto

lemma set_js_set_of [simp]: "set (js_set_of xs) = set xs"
  by (simp add: js_set_of_def set_foldl_set_add)

lemma distinct_js_set_of [simp]: "distinct (js_set_of xs)"
  by (simp add: js_set_of_def distinct_foldl_set_add)

lemma foldl_set_add_distinct:
  "distinct (acc @ xs) \<Longrightarrow> foldl (\<lambda>s x. set_add x s) acc xs = acc @ xs"
  by (induction xs arbitrary: acc) (auto simp: set_add_def)

lemma js_set_of_distinct [simp]: "distinct xs \<Longrightarrow> js_set_of xs = xs"
  by (simp add: js_set_of_def foldl_set_add_distinct)

section \<open>Sorting\<close>

text \<open>\<open>Array.prototype.sort\<close> with a comparator is a stable sort.\<close>

fun js_insert :: "('a \<Rightarrow> 'a \<Rightarrow> int) \<Rightarrow> 'a \<Rightarrow> 'a list \<Rightarrow> 'a list" where
  "js_insert cmp x [] = [x]"
| "js_insert cmp x (y # ys) = (if cmp x y \<le> 0 then x # y # ys else y # js_insert cmp x ys)"

definition js_sort :: "('a \<Rightarrow> 'a \<Rightarrow> int) \<Rightarrow> 'a list \<Rightarrow> 'a list" where
  "js_sort cmp xs = foldr (js_insert cmp) xs []"

lemma mset_js_insert [simp]: "mset (js_insert cmp x ys) = add_mset x (mset ys)"
  by (induction ys) auto

lemma mset_js_sort [simp]: "mset (js_sort cmp xs) = mset xs"
  by (induction xs) (simp_all add: js_sort_def)

lemma set_js_sort [simp]: "set (js_sort cmp xs) = set xs"
  by (metis mset_js_sort set_mset_mset)

lemma distinct_js_sort [simp]: "distinct (js_sort cmp xs) \<longleftrightarrow> distinct xs"
  by (metis mset_js_sort mset_eq_imp_distinct_iff)

lemma js_insert_key:
  assumes "\<And>y. y \<in> set ys \<Longrightarrow> cmp x y \<le> 0 \<longleftrightarrow> f x \<le> f y"
  shows "js_insert cmp x ys = insort_key f x ys"
  using assms by (induction ys) auto

lemma js_sort_key:
  assumes "\<And>x y. x \<in> set xs \<Longrightarrow> y \<in> set xs \<Longrightarrow> cmp x y \<le> 0 \<longleftrightarrow> f x \<le> f y"
  shows "js_sort cmp xs = sort_key f xs"
  using assms
proof (induction xs)
  case Nil
  then show ?case by (simp add: js_sort_def)
next
  case (Cons x xs)
  then have "js_sort cmp xs = sort_key f xs" by simp
  then have "js_sort cmp (x # xs) = js_insert cmp x (sort_key f xs)"
    by (simp add: js_sort_def)
  also have "\<dots> = insort_key f x (sort_key f xs)"
    by (rule js_insert_key) (simp add: Cons.prems)
  finally show ?case by simp
qed

end
