(* ===== verification/Backoff.thy ===== *)
theory Backoff
  imports Complex_Main JsPrelude
begin

text \<open>
  \<open>backoff/src/index.ts\<close> and \<open>sanctions-oracle/src/retry.ts\<close>: the exponential delay, the two
  retry loops and the abort-aware sleep.

  Delays are rationals: the source computes them in floating point, whose rounding (and whose
  overflow to \<open>Infinity\<close>, which the cap \<open>maxMs\<close> absorbs) is not modelled. An attempt is an
  integer or a non-finite number, kept as it is printed. Randomness, sleeping and the wrapped operation act on a world
  \<open>'w\<close> that the caller supplies.
\<close>

section \<open>The delay\<close>

datatype js_int = JInt int | JNonFinite string

datatype jitter_strategy = Half | Full | NoJitter

record backoff_options =
  bo_baseMs :: "rat option"
  bo_maxMs :: "rat option"
  bo_jitter :: "bool option"
  bo_jitterStrategy :: "jitter_strategy option"
  bo_jitterMin :: "rat option"
  bo_jitterMax :: "rat option"

definition default_backoff :: backoff_options where
  "default_backoff = \<lparr>bo_baseMs = None, bo_maxMs = None, bo_jitter = None,
     bo_jitterStrategy = None, bo_jitterMin = None, bo_jitterMax = None\<rparr>"

text \<open>\<open>x ?? d\<close>\<close>

definition or_default :: "'a option \<Rightarrow> 'a \<Rightarrow> 'a" where
  "or_default x d = (case x of None \<Rightarrow> d | Some v \<Rightarrow> v)"

lemma or_default_simps [simp]: "or_default None d = d" "or_default (Some v) d = v"
  by (simp_all add: or_default_def)

definition range_error :: "string \<Rightarrow> thrown" where
  "range_error m = Exn ''RangeError'' m no_props"

definition capped_delay :: "backoff_options \<Rightarrow> int \<Rightarrow> rat" where
  "capped_delay opts attempt =
     min (or_default (bo_maxMs opts) 30000) (or_default (bo_baseMs opts) 500 * 2 ^ nat attempt)"

fun computeBackoffDelayMs ::
  "('w \<Rightarrow> rat \<times> 'w) \<Rightarrow> js_int \<Rightarrow> backoff_options \<Rightarrow> 'w \<Rightarrow> (thrown + rat) \<times> 'w" where
  "computeBackoffDelayMs randomFn (JNonFinite shown) opts w =
     (Throw (range_error (''computeBackoffDelayMs: attempt must be a non-negative finite number, received ''
        @ shown)), w)"
| "computeBackoffDelayMs randomFn (JInt attempt) opts w =
     (if attempt < 0 then
        (Throw (range_error (''computeBackoffDelayMs: attempt must be a non-negative finite number, received ''
           @ dec_of_int attempt)), w)
      else
        let capped = capped_delay opts attempt in
        if \<not> or_default (bo_jitter opts) True \<or> bo_jitterStrategy opts = Some NoJitter then
          (Ret capped, w)
        else
          let defaultMin = (if bo_jitterStrategy opts = Some Full then 0 else 1 / 2);
              mn = or_default (bo_jitterMin opts) defaultMin;
              mx = or_default (bo_jitterMax opts) 1;
              (r, w') = randomFn w
          in (Ret (capped * (mn + r * (mx - mn))), w'))"

text \<open>The default options jitter the capped delay into its upper half.\<close>

lemma computeBackoffDelayMs_default:
  "0 \<le> attempt \<Longrightarrow> computeBackoffDelayMs randomFn (JInt attempt) default_backoff w =
     (let (r, w') = randomFn w
      in (Ret (min 30000 (500 * 2 ^ nat attempt) * (1 / 2 + r / 2)), w'))"
  by (simp add: default_backoff_def capped_delay_def Let_def)

definition jitter_range_ok :: "backoff_options \<Rightarrow> bool" where
  "jitter_range_ok opts \<longleftrightarrow> 0 \<le> or_default (bo_baseMs opts) 500 \<and> 0 \<le> or_default (bo_maxMs opts) 30000
     \<and> (let mn = or_default (bo_jitterMin opts) (if bo_jitterStrategy opts = Some Full then 0 else 1 / 2);
            mx = or_default (bo_jitterMax opts) 1 in 0 \<le> mn \<and> mn \<le> mx \<and> mx \<le> 1)"

lemma capped_delay_nonneg: "jitter_range_ok opts \<Longrightarrow> 0 \<le> capped_delay opts attempt"
  by (simp add: jitter_range_ok_def capped_delay_def)

lemma jitter_factor_bounds:
  fixes r mn mx :: rat
  assumes "0 \<le> r" and "r < 1" and "0 \<le> mn" and "mn \<le> mx" and "mx \<le> 1"
  shows "0 \<le> mn + r * (mx - mn)" and "mn + r * (mx - mn) \<le> 1"
proof -
  have "0 \<le> r * (mx - mn)" using assms by simp
  moreover have "r * (mx - mn) \<le> 1 * (mx - mn)"
    using assms by (intro mult_right_mono) auto
  ultimately show "0 \<le> mn + r * (mx - mn)" and "mn + r * (mx - mn) \<le> 1"
    using assms by auto
qed

text \<open>
  Every delay is between zero and the cap: for a non-negative attempt, a draw in
  \<open>[0, 1)\<close> and a jitter range within \<open>[0, 1]\<close>, the call returns, and what it returns is at most
  \<open>min(maxMs, baseMs * 2 ^ attempt)\<close>.
\<close>

theorem backoff_delay_bounds:
  assumes "0 \<le> attempt" and "jitter_range_ok opts" and "\<And>w. 0 \<le> fst (randomFn w) \<and> fst (randomFn w) < 1"
  shows "\<exists>d w'. computeBackoffDelayMs randomFn (JInt attempt) opts w = (Ret d, w')
           \<and> 0 \<le> d \<and> d \<le> capped_delay opts attempt"
proof (cases "\<not> or_default (bo_jitter opts) True \<or> bo_jitterStrategy opts = Some NoJitter")
  case True
  then show ?thesis using assms(1,2) capped_delay_nonneg by auto
next
  case False
  let ?c = "capped_delay opts attempt"
  let ?mn = "or_default (bo_jitterMin opts) (if bo_jitterStrategy opts = Some Full then 0 else 1 / 2)"
  let ?mx = "or_default (bo_jitterMax opts) 1"
  obtain r w' where r: "randomFn w = (r, w')" by fastforce
  let ?f = "?mn + r * (?mx - ?mn)"
  have "0 \<le> r" and "r < 1" using assms(3) [of w] by (simp_all add: r)
  moreover have "0 \<le> ?mn" and "?mn \<le> ?mx" and "?mx \<le> 1"
    using assms(2) by (simp_all add: jitter_range_ok_def Let_def)
  ultimately have f: "0 \<le> ?f" and "?f \<le> 1"
    by (rule jitter_factor_bounds)+
  then have "0 \<le> ?c * ?f" and "?c * ?f \<le> ?c"
    using capped_delay_nonneg [OF assms(2)] by (simp_all add: mult_left_le)
  moreover have "computeBackoffDelayMs randomFn (JInt attempt) opts w = (Ret (?c * ?f), w')"
    using assms(1) False by (auto simp: Let_def r)
  ultimately show ?thesis by blast
qed

theorem backoff_delay_bounds_witness:
  "\<exists>d w'. computeBackoffDelayMs (\<lambda>w. (1 / 3, w)) (JInt 2) default_backoff () = (Ret d, w')
     \<and> 0 \<le> d \<and> d \<le> capped_delay default_backoff 2"
  by (rule backoff_delay_bounds) (simp_all add: jitter_range_ok_def default_backoff_def)

declare computeBackoffDelayMs.simps [simp del]

lemma capped_delay_mono:
  assumes "jitter_range_ok opts" and "a \<le> b"
  shows "capped_delay opts a \<le> capped_delay opts b"
proof -
  have "(2::rat) ^ nat a \<le> 2 ^ nat b"
    using assms(2) by (intro power_increasing) auto
  then have "or_default (bo_baseMs opts) 500 * 2 ^ nat a \<le> or_default (bo_baseMs opts) 500 * 2 ^ nat b"
    using assms(1) by (intro mult_left_mono) (auto simp: jitter_range_ok_def)
  then show ?thesis unfolding capped_delay_def by (rule min.mono [OF order_refl])
qed

section \<open>\<open>withRetry\<close>\<close>

text \<open>
  The environment of a retry loop: the random source and the sleep function (an injected sleep
  may reject).
\<close>

record 'w retry_env =
  re_random :: "'w \<Rightarrow> rat \<times> 'w"
  re_sleep :: "rat \<Rightarrow> 'w \<Rightarrow> (thrown + unit) \<times> 'w"

text \<open>
  \<open>attempt\<close> counts the failures so far. The loop ends because a failure that does not leave it
  raises \<open>attempt\<close> below \<open>maxAttempts\<close>.
\<close>

function withRetry_loop ::
  "'w retry_env \<Rightarrow> ('w \<Rightarrow> (thrown + 'a) \<times> 'w) \<Rightarrow> backoff_options \<Rightarrow> int \<Rightarrow> int \<Rightarrow> 'w
     \<Rightarrow> (thrown + 'a) \<times> 'w" where
  "withRetry_loop env fn opts maxAttempts attempt w =
     (case fn w of
        (Ret a, w1) \<Rightarrow> (Ret a, w1)
      | (Throw err, w1) \<Rightarrow>
          let attempt' = attempt + 1 in
          if attempt' \<ge> maxAttempts then (Throw err, w1)
          else (case computeBackoffDelayMs (re_random env) (JInt (attempt' - 1)) opts w1 of
                  (Throw e, w2) \<Rightarrow> (Throw e, w2)
                | (Ret delay, w2) \<Rightarrow>
                    (case re_sleep env delay w2 of
                       (Throw e, w3) \<Rightarrow> (Throw e, w3)
                     | (Ret _, w3) \<Rightarrow> withRetry_loop env fn opts maxAttempts attempt' w3)))"
  by pat_completeness auto
termination
  by (relation "measure (\<lambda>(_, _, _, maxAttempts, attempt, _). nat (maxAttempts - attempt))") auto

declare withRetry_loop.simps [simp del]

record retry_options =
  ro_maxAttempts :: "int option"
  ro_baseMs :: "rat option"
  ro_maxMs :: "rat option"
  ro_jitter :: "bool option"

definition retry_backoff :: "retry_options \<Rightarrow> backoff_options" where
  "retry_backoff options = default_backoff\<lparr>bo_baseMs := Some (or_default (ro_baseMs options) 500),
     bo_maxMs := Some (or_default (ro_maxMs options) 30000),
     bo_jitter := Some (or_default (ro_jitter options) True)\<rparr>"

definition withRetry ::
  "'w retry_env \<Rightarrow> ('w \<Rightarrow> (thrown + 'a) \<times> 'w) \<Rightarrow> retry_options \<Rightarrow> 'w \<Rightarrow> (thrown + 'a) \<times> 'w" where
  "withRetry env fn options w =
     withRetry_loop env fn (retry_backoff options) (or_default (ro_maxAttempts options) 3) 0 w"

definition default_retry :: retry_options where
  "default_retry = \<lparr>ro_maxAttempts = None, ro_baseMs = None, ro_maxMs = None, ro_jitter = None\<rparr>"

section \<open>\<open>retryWithBackoff\<close>\<close>

text \<open>The abort signal is read at the top of every iteration; \<open>rb_aborted\<close> gives its reason.\<close>

function retryWithBackoff_loop ::
  "'w retry_env \<Rightarrow> ('w \<Rightarrow> thrown option) \<Rightarrow> (thrown \<Rightarrow> bool)
     \<Rightarrow> (int \<Rightarrow> 'w \<Rightarrow> (thrown + 'a) \<times> 'w) \<Rightarrow> backoff_options \<Rightarrow> int \<Rightarrow> int \<Rightarrow> 'w
     \<Rightarrow> (thrown + 'a) \<times> 'w" where
  "retryWithBackoff_loop env rb_aborted shouldRetry fn options maxAttempts attempt w =
     (if attempt < maxAttempts then
        (case rb_aborted w of
           Some reason \<Rightarrow> (Throw reason, w)
         | None \<Rightarrow>
             (case fn attempt w of
                (Ret a, w1) \<Rightarrow> (Ret a, w1)
              | (Throw err, w1) \<Rightarrow>
                  if attempt + 1 \<ge> maxAttempts \<or> \<not> shouldRetry err then (Throw err, w1)
                  else (case computeBackoffDelayMs (re_random env) (JInt attempt) options w1 of
                          (Throw e, w2) \<Rightarrow> (Throw e, w2)
                        | (Ret delay, w2) \<Rightarrow>
                            (case re_sleep env delay w2 of
                               (Throw e, w3) \<Rightarrow> (Throw e, w3)
                             | (Ret _, w3) \<Rightarrow>
                                 retryWithBackoff_loop env rb_aborted shouldRetry fn options
                                   maxAttempts (attempt + 1) w3))))
      else (Throw (mk_error (''retryWithBackoff: failed after '' @ dec_of_int maxAttempts @ '' attempts'')), w))"
  by pat_completeness auto
termination
  by (relation "measure (\<lambda>(_, _, _, _, _, maxAttempts, attempt, _). nat (maxAttempts - attempt))") auto

declare retryWithBackoff_loop.simps [simp del]

definition retryWithBackoff ::
  "'w retry_env \<Rightarrow> ('w \<Rightarrow> thrown option) \<Rightarrow> (thrown \<Rightarrow> bool) option
     \<Rightarrow> (int \<Rightarrow> 'w \<Rightarrow> (thrown + 'a) \<times> 'w) \<Rightarrow> int option \<Rightarrow> backoff_options \<Rightarrow> 'w
     \<Rightarrow> (thrown + 'a) \<times> 'w" where
  "retryWithBackoff env aborted shouldRetry fn maxAttemptsOpt options w =
     (let maxAttempts = or_default maxAttemptsOpt 3 in
      if maxAttempts < 1 then
        (Throw (range_error (''retryWithBackoff: maxAttempts must be at least 1, received ''
           @ dec_of_int maxAttempts)), w)
      else retryWithBackoff_loop env aborted (or_default shouldRetry (\<lambda>_. True)) fn options
             maxAttempts 0 w)"

section \<open>Retrying a scripted operation\<close>

text \<open>
  A world in which the outcome of every call is written down in advance. It records what the
  loop does to it: how often the operation is called and how long the loop sleeps.
\<close>

record 'a script =
  sc_outcomes :: "(thrown + 'a) list"
  sc_calls :: nat
  sc_slept :: "rat list"

fun script_fn :: "'a script \<Rightarrow> (thrown + 'a) \<times> 'a script" where
  "script_fn w = (case sc_outcomes w of
     [] \<Rightarrow> (Throw (mk_error ''end of script''), w)
   | r # rs \<Rightarrow> (r, w\<lparr>sc_outcomes := rs, sc_calls := Suc (sc_calls w)\<rparr>))"

declare script_fn.simps [simp del]

lemma script_fn_Cons [simp]:
  "script_fn \<lparr>sc_outcomes = r # rs, sc_calls = n, sc_slept = ds\<rparr>
     = (r, \<lparr>sc_outcomes = rs, sc_calls = Suc n, sc_slept = ds\<rparr>)"
  by (simp add: script_fn.simps)

definition script_env :: "rat \<Rightarrow> 'a script retry_env" where
  "script_env r = \<lparr>re_random = (\<lambda>w. (r, w)),
     re_sleep = (\<lambda>ms w. (Ret (), w\<lparr>sc_slept := sc_slept w @ [ms]\<rparr>))\<rparr>"

definition run_script :: "(thrown + 'a) list \<Rightarrow> 'a script" where
  "run_script rs = \<lparr>sc_outcomes = rs, sc_calls = 0, sc_slept = []\<rparr>"

text \<open>The delay after failure number \<open>k\<close> (from 0), with a random source that always draws \<open>r\<close>.\<close>

definition delay_after :: "rat \<Rightarrow> backoff_options \<Rightarrow> int \<Rightarrow> rat" where
  "delay_after r opts k = (case fst (computeBackoffDelayMs (\<lambda>w. (r, w)) (JInt k) opts ()) of
     Throw _ \<Rightarrow> 0 | Ret d \<Rightarrow> d)"

lemma script_delay:
  "0 \<le> k \<Longrightarrow> computeBackoffDelayMs (re_random (script_env r)) (JInt k) opts w
     = (Ret (delay_after r opts k), w)"
  by (simp add: delay_after_def script_env_def Let_def computeBackoffDelayMs.simps)

lemma script_sleep:
  "re_sleep (script_env r) d w = (Ret (), w\<lparr>sc_slept := sc_slept w @ [d]\<rparr>)"
  by (simp add: script_env_def)

lemma withRetry_loop_failures:
  assumes "0 \<le> attempt" and "attempt + int (length es) < maxAttempts"
  shows "withRetry_loop (script_env r) script_fn opts maxAttempts attempt
       \<lparr>sc_outcomes = map Throw es @ rs, sc_calls = n, sc_slept = ds\<rparr>
     = withRetry_loop (script_env r) script_fn opts maxAttempts (attempt + int (length es))
       \<lparr>sc_outcomes = rs, sc_calls = n + length es,
        sc_slept = ds @ map (delay_after r opts) [attempt .. attempt + int (length es) - 1]\<rparr>"
  using assms
proof (induction es arbitrary: attempt n ds)
  case Nil
  then show ?case by simp
next
  case (Cons e es)
  have "withRetry_loop (script_env r) script_fn opts maxAttempts attempt
       \<lparr>sc_outcomes = map Throw (e # es) @ rs, sc_calls = n, sc_slept = ds\<rparr>
     = withRetry_loop (script_env r) script_fn opts maxAttempts (attempt + 1)
       \<lparr>sc_outcomes = map Throw es @ rs, sc_calls = Suc n, sc_slept = ds @ [delay_after r opts attempt]\<rparr>"
    using Cons.prems by (subst withRetry_loop.simps) (simp add: script_delay script_sleep Let_def)
  also have "\<dots> = withRetry_loop (script_env r) script_fn opts maxAttempts (attempt + 1 + int (length es))
       \<lparr>sc_outcomes = rs, sc_calls = Suc n + length es,
        sc_slept = (ds @ [delay_after r opts attempt])
          @ map (delay_after r opts) [attempt + 1 .. attempt + 1 + int (length es) - 1]\<rparr>"
    using Cons.prems by (intro Cons.IH) auto
  finally show ?case
    using upto_rec1 [of attempt "attempt + int (length es)"] by (simp add: ac_simps)
qed

text \<open>
  \<open>withRetry\<close> returns the first success within the attempt budget. If the operation fails
  \<open>length es\<close> times, fewer than \<open>maxAttempts\<close>, and then succeeds, the result is that success;
  the operation is called once more than it failed and the loop slept exactly the backoff
  delays of attempts \<open>0 \<dots> length es - 1\<close>.
\<close>

theorem withRetry_first_success:
  assumes "int (length es) < max 1 (or_default (ro_maxAttempts options) 3)"
  shows "withRetry (script_env r) script_fn options (run_script (map Throw es @ Ret a # rs))
     = (Ret a, \<lparr>sc_outcomes = rs, sc_calls = length es + 1,
          sc_slept = map (delay_after r (retry_backoff options)) [0 .. int (length es) - 1]\<rparr>)"
proof (cases es)
  case Nil
  then show ?thesis
    by (simp add: withRetry_def run_script_def) (subst withRetry_loop.simps, simp)
next
  case (Cons e es')
  with assms have "0 + int (length es) < or_default (ro_maxAttempts options) 3"
    by auto
  from withRetry_loop_failures [OF _ this, of r "retry_backoff options" "Ret a # rs" 0 "[]"]
  show ?thesis
    by (simp add: withRetry_def run_script_def retry_backoff_def)
      (subst withRetry_loop.simps, simp)
qed

theorem withRetry_first_success_witness:
  "withRetry (script_env 0) script_fn default_retry
     (run_script [Throw (mk_error ''429''), Ret (7::nat), Ret 8])
   = (Ret 7, \<lparr>sc_outcomes = [Ret 8], sc_calls = 2, sc_slept = [250]\<rparr>)"
proof -
  have "int (length [mk_error ''429'']) < max 1 (or_default (ro_maxAttempts default_retry) 3)"
    by (simp add: default_retry_def)
  from withRetry_first_success [OF this, of 0 "7::nat" "[Ret 8]"] show ?thesis
    by (simp add: delay_after_def retry_backoff_def default_retry_def default_backoff_def
      capped_delay_def computeBackoffDelayMs.simps Let_def)
qed

text \<open>
  \<open>withRetry\<close> gives up after \<open>max 1 maxAttempts\<close> failures and rethrows the last one, having
  slept between the attempts only.
\<close>

theorem withRetry_gives_up:
  assumes "int (length es) + 1 = max 1 (or_default (ro_maxAttempts options) 3)"
  shows "withRetry (script_env r) script_fn options (run_script (map Throw es @ Throw e # rs))
     = (Throw e, \<lparr>sc_outcomes = rs, sc_calls = length es + 1,
          sc_slept = map (delay_after r (retry_backoff options)) [0 .. int (length es) - 1]\<rparr>)"
proof (cases es)
  case Nil
  with assms show ?thesis
    by (simp add: withRetry_def run_script_def) (subst withRetry_loop.simps, simp add: max_def split: if_splits)
next
  case (Cons e' es')
  with assms have b: "0 + int (length es) < or_default (ro_maxAttempts options) 3"
    and last: "or_default (ro_maxAttempts options) 3 \<le> int (length es) + 1"
    by auto
  from withRetry_loop_failures [OF _ b, of r "retry_backoff options" "Throw e # rs" 0 "[]"] last
  show ?thesis
    by (simp add: withRetry_def run_script_def retry_backoff_def)
      (subst withRetry_loop.simps, simp)
qed

theorem withRetry_gives_up_witness:
  "withRetry (script_env 0) script_fn (default_retry\<lparr>ro_maxAttempts := Some 2\<rparr>)
     (run_script [Throw (mk_error ''a''), Throw (mk_error ''b''), Ret (1::nat)])
   = (Throw (mk_error ''b''), \<lparr>sc_outcomes = [Ret 1], sc_calls = 2, sc_slept = [250]\<rparr>)"
proof -
  let ?o = "default_retry\<lparr>ro_maxAttempts := Some 2\<rparr>"
  have "int (length [mk_error ''a'']) + 1 = max 1 (or_default (ro_maxAttempts ?o) 3)"
    by (simp add: default_retry_def)
  from withRetry_gives_up [OF this, of 0 "mk_error ''b''" "[Ret (1::nat)]"] show ?thesis
    by (simp add: delay_after_def retry_backoff_def default_retry_def default_backoff_def
      capped_delay_def computeBackoffDelayMs.simps Let_def)
qed

section \<open>The two retry loops agree\<close>

lemma retryWithBackoff_loop_eq_withRetry_loop:
  "0 \<le> attempt \<Longrightarrow> attempt < maxAttempts \<Longrightarrow>
   retryWithBackoff_loop env (\<lambda>_. None) (\<lambda>_. True) (\<lambda>_. fn) opts maxAttempts attempt w
     = withRetry_loop env fn opts maxAttempts attempt w"
proof (induction env fn opts maxAttempts attempt w rule: withRetry_loop.induct)
  case (1 env fn opts maxAttempts attempt w)
  then show ?case
    by (subst retryWithBackoff_loop.simps, subst withRetry_loop.simps)
      (auto simp: Let_def split: sum.splits prod.splits)
qed

text \<open>
  Without an abort signal and with the default \<open>shouldRetry\<close>, the generic retry loop of the
  backoff package and the loop of the sanctions oracle compute the same result and perform the
  same effects, for every budget of at least one attempt.
\<close>

theorem retryWithBackoff_eq_withRetry:
  assumes "1 \<le> or_default (ro_maxAttempts options) 3"
  shows "retryWithBackoff env (\<lambda>_. None) None (\<lambda>_. fn) (ro_maxAttempts options)
      (retry_backoff options) w = withRetry env fn options w"
  using assms
  by (simp add: retryWithBackoff_def withRetry_def retryWithBackoff_loop_eq_withRetry_loop Let_def)

theorem retryWithBackoff_eq_withRetry_witness:
  "retryWithBackoff (script_env 0) (\<lambda>_. None) None (\<lambda>_. script_fn) None
      (retry_backoff default_retry) (run_script [Ret (5::nat)])
   = withRetry (script_env 0) script_fn default_retry (run_script [Ret 5])"
  using retryWithBackoff_eq_withRetry [of default_retry "script_env 0" script_fn
    "run_script [Ret (5::nat)]"]
  by (simp add: default_retry_def)

text \<open>
  An aborted signal is honoured before the first attempt, and an error that \<open>shouldRetry\<close>
  refuses is rethrown after one call, without sleeping.
\<close>

lemma retryWithBackoff_aborted:
  assumes "1 \<le> or_default maxAttempts 3" and "aborted w = Some reason"
  shows "retryWithBackoff env aborted shouldRetry fn maxAttempts options w = (Throw reason, w)"
  using assms by (simp add: retryWithBackoff_def retryWithBackoff_loop.simps Let_def)

lemma retryWithBackoff_permanent:
  assumes "1 \<le> or_default maxAttempts 3" and "aborted w = None"
    and "fn 0 w = (Throw e, w1)" and "\<not> shouldRetry e"
  shows "retryWithBackoff env aborted (Some shouldRetry) fn maxAttempts options w = (Throw e, w1)"
  using assms by (simp add: retryWithBackoff_def retryWithBackoff_loop.simps Let_def)

section \<open>The abort-aware sleep\<close>

text \<open>
  \<open>sleep\<close> races a timer against an abort signal. The state keeps what the promise settled to
  (\<open>Some (Ret ())\<close> or \<open>Some (Throw reason)\<close>), whether the timer is armed and whether the abort
  listener is registered. An event that finds its handler gone has no effect.
\<close>

record sleep_state =
  sl_settled :: "(thrown + unit) option"
  sl_timer :: bool
  sl_listener :: bool

datatype sleep_event = TimerFires | SignalAborts thrown

text \<open>
  \<open>has_signal\<close>: a signal was passed; \<open>aborted\<close>: it is aborted already, with its reason.
\<close>

definition sleep_start :: "bool \<Rightarrow> thrown option \<Rightarrow> sleep_state" where
  "sleep_start has_signal aborted = (case aborted of
     Some reason \<Rightarrow> \<lparr>sl_settled = Some (Throw reason), sl_timer = False, sl_listener = False\<rparr>
   | None \<Rightarrow> \<lparr>sl_settled = None, sl_timer = True, sl_listener = has_signal\<rparr>)"

definition sleep_settle :: "(thrown + unit) \<Rightarrow> sleep_state \<Rightarrow> sleep_state" where
  "sleep_settle r s = (case sl_settled s of None \<Rightarrow> s\<lparr>sl_settled := Some r\<rparr> | Some _ \<Rightarrow> s)"

definition sleep_cleanup :: "sleep_state \<Rightarrow> sleep_state" where
  "sleep_cleanup s = s\<lparr>sl_timer := False, sl_listener := False\<rparr>"

fun sleep_step :: "sleep_state \<Rightarrow> sleep_event \<Rightarrow> sleep_state" where
  "sleep_step s TimerFires = (if sl_timer s then sleep_settle (Ret ()) (sleep_cleanup s) else s)"
| "sleep_step s (SignalAborts reason) =
     (if sl_listener s then sleep_settle (Throw reason) (sleep_cleanup s) else s)"

lemma sleep_step_settled_stable:
  "sl_settled s = Some r \<Longrightarrow> sl_settled (sleep_step s e) = Some r"
  by (cases e) (auto simp: sleep_settle_def sleep_cleanup_def)

text \<open>No open handles: the timer and the listener are armed only while the promise is pending.\<close>

definition sleep_inv :: "sleep_state \<Rightarrow> bool" where
  "sleep_inv s \<longleftrightarrow> (sl_timer s \<longleftrightarrow> sl_settled s = None) \<and> (sl_listener s \<longrightarrow> sl_settled s = None)"

lemma sleep_inv_start: "sleep_inv (sleep_start h a)"
  by (cases a) (simp_all add: sleep_start_def sleep_inv_def)

lemma sleep_inv_step: "sleep_inv s \<Longrightarrow> sleep_inv (sleep_step s e)"
  by (cases e) (auto simp: sleep_inv_def sleep_settle_def sleep_cleanup_def split: option.splits)

lemma sleep_inv_run: "sleep_inv (foldl sleep_step (sleep_start h a) es)"
proof (induction es rule: rev_induct)
  case Nil
  then show ?case by (simp add: sleep_inv_start)
next
  case (snoc e es)
  then show ?case by (simp add: sleep_inv_step)
qed

lemma sleep_no_open_handles:
  assumes "sl_settled (foldl sleep_step (sleep_start h a) es) \<noteq> None"
  shows "\<not> sl_timer (foldl sleep_step (sleep_start h a) es)
       \<and> \<not> sl_listener (foldl sleep_step (sleep_start h a) es)"
  using sleep_inv_run [of h a es] assms by (auto simp: sleep_inv_def)

end
