(* ===== verification/Metrics.thy ===== *)
theory Metrics
  imports Complex_Main Backoff
begin

text \<open>
  \<open>metrics/src/index.ts\<close>: counters, histograms and gauges with a bounded number of series, and
  their Prometheus exposition. The three metrics of a registry share the flag of \<open>makeWarnOnce\<close>.
  Durations and gauge values are rationals.
\<close>

section \<open>Escaping\<close>

text \<open>\<open>s.replace(/c/g, r)\<close>\<close>

definition replace_char :: "char \<Rightarrow> string \<Rightarrow> string \<Rightarrow> string" where
  "replace_char c r s = concat (map (\<lambda>x. if x = c then r else [x]) s)"

abbreviation backslash :: char where
  "backslash \<equiv> CHR 0x5C"

abbreviation newline :: char where
  "newline \<equiv> CHR 0x0A"

abbreviation dquote :: char where
  "dquote \<equiv> CHR 0x22"

definition escapeLabelValue :: "string \<Rightarrow> string" where
  "escapeLabelValue v = replace_char dquote [backslash, dquote]
     (replace_char newline [backslash, CHR ''n''] (replace_char backslash [backslash, backslash] v))"

definition escapeHelp :: "string \<Rightarrow> string" where
  "escapeHelp v = replace_char newline [backslash, CHR ''n''] (replace_char backslash [backslash, backslash] v)"

text \<open>How a Prometheus parser reads an escaped label value back.\<close>

fun unescapeLabel :: "string \<Rightarrow> string" where
  "unescapeLabel [] = []"
| "unescapeLabel (c # cs) =
     (if c = backslash then
        (case cs of [] \<Rightarrow> [c]
         | d # ds \<Rightarrow> (if d = CHR ''n'' then newline else d) # unescapeLabel ds)
      else c # unescapeLabel cs)"

definition escape_label_char :: "char \<Rightarrow> string" where
  "escape_label_char c =
     (if c = backslash then [backslash, backslash]
      else if c = newline then [backslash, CHR ''n'']
      else if c = dquote then [backslash, dquote] else [c])"

lemma replace_char_Nil [simp]: "replace_char c r [] = []"
  by (simp add: replace_char_def)

lemma replace_char_Cons [simp]: "replace_char c r (x # s) = (if x = c then r else [x]) @ replace_char c r s"
  by (simp add: replace_char_def)

lemma replace_char_append [simp]: "replace_char c r (s @ t) = replace_char c r s @ replace_char c r t"
  by (simp add: replace_char_def)

lemma escapeLabelValue_chars: "escapeLabelValue v = concat (map escape_label_char v)"
  by (induction v) (simp_all add: escapeLabelValue_def escape_label_char_def)

lemma unescape_escape_char:
  "unescapeLabel (escape_label_char c @ s) = c # unescapeLabel s"
  by (simp add: escape_label_char_def)

text \<open>
  Label values survive the exposition format: a parser that undoes the escapes gets the
  original value back, and the escaped value never contains a line break.
\<close>

theorem escapeLabelValue_roundtrip:
  "unescapeLabel (escapeLabelValue v) = v \<and> newline \<notin> set (escapeLabelValue v)"
proof -
  have "unescapeLabel (escapeLabelValue v) = v"
    unfolding escapeLabelValue_chars by (induction v) (simp_all add: unescape_escape_char)
  moreover have "newline \<notin> set (escapeLabelValue v)"
    unfolding escapeLabelValue_chars by (induction v) (simp_all add: escape_label_char_def)
  ultimately show ?thesis by blast
qed

section \<open>State\<close>

datatype metric_outcome = Success | Failure | Cancelled

fun outcome_name :: "metric_outcome \<Rightarrow> string" where
  "outcome_name Success = ''success''"
| "outcome_name Failure = ''failure''"
| "outcome_name Cancelled = ''cancelled''"

definition OVERFLOW_LABEL :: string where
  "OVERFLOW_LABEL = ''__overflow__''"

record metrics_config =
  mc_prefix :: string
  mc_phases :: "string list"
  mc_buckets :: "rat list"
  mc_maxSeries :: int

record metrics =
  mt_counts :: "(string, nat) jsmap"
  mt_overflowTotal :: nat
  mt_observations :: "(string, rat list) jsmap"
  mt_values :: "(string, rat) jsmap"
  mt_warned :: bool
  mt_warnings :: nat

definition DEFAULT_HISTOGRAM_BUCKETS :: "rat list" where
  "DEFAULT_HISTOGRAM_BUCKETS = [5, 25, 100, 250, 500, 1000, 2500, 5000, 10000]"

text \<open>The constructor sorts the bucket bounds.\<close>

definition new_metrics_config ::
  "string \<Rightarrow> string list \<Rightarrow> rat list option \<Rightarrow> int option \<Rightarrow> metrics_config" where
  "new_metrics_config pfx phases histogramBuckets maxSeries =
     \<lparr>mc_prefix = pfx, mc_phases = phases,
      mc_buckets = sort (or_default histogramBuckets DEFAULT_HISTOGRAM_BUCKETS),
      mc_maxSeries = or_default maxSeries 1000\<rparr>"

definition metrics_init :: metrics where
  "metrics_init = \<lparr>mt_counts = [], mt_overflowTotal = 0, mt_observations = [], mt_values = [],
     mt_warned = False, mt_warnings = 0\<rparr>"

definition warnOnce :: "metrics \<Rightarrow> metrics" where
  "warnOnce s = (if mt_warned s then s else s\<lparr>mt_warned := True, mt_warnings := Suc (mt_warnings s)\<rparr>)"

section \<open>Operations\<close>

definition counter_key :: "string \<Rightarrow> metric_outcome \<Rightarrow> string" where
  "counter_key phase outcome = phase @ '':'' @ outcome_name outcome"

definition counter_inc :: "metrics_config \<Rightarrow> string \<Rightarrow> metric_outcome \<Rightarrow> metrics \<Rightarrow> metrics" where
  "counter_inc c phase outcome s =
     (let k = counter_key phase outcome in
      case map_get (mt_counts s) k of
        Some v \<Rightarrow> s\<lparr>mt_counts := map_set k (v + 1) (mt_counts s)\<rparr>
      | None \<Rightarrow>
          if int (length (mt_counts s)) \<ge> mc_maxSeries c then
            warnOnce (s\<lparr>mt_overflowTotal := mt_overflowTotal s + 1\<rparr>)
          else s\<lparr>mt_counts := map_set k 1 (mt_counts s)\<rparr>)"

definition counter_get :: "string \<Rightarrow> metric_outcome \<Rightarrow> metrics \<Rightarrow> nat" where
  "counter_get phase outcome s =
     (if phase = OVERFLOW_LABEL then mt_overflowTotal s
      else or_default (map_get (mt_counts s) (counter_key phase outcome)) 0)"

text \<open>
  The series an observation or a gauge update goes to. The overflow series does not count towards
  the cap.
\<close>

definition real_size :: "(string, 'v) jsmap \<Rightarrow> int" where
  "real_size m = (if map_has m OVERFLOW_LABEL then int (length m) - 1 else int (length m))"

definition folds :: "metrics_config \<Rightarrow> string \<Rightarrow> (string, 'v) jsmap \<Rightarrow> bool" where
  "folds c phase m \<longleftrightarrow> \<not> map_has m phase \<and> phase \<noteq> OVERFLOW_LABEL \<and> real_size m \<ge> mc_maxSeries c"

definition histogram_observe :: "metrics_config \<Rightarrow> string \<Rightarrow> rat \<Rightarrow> metrics \<Rightarrow> metrics" where
  "histogram_observe c phase durationMs s =
     (let fold = folds c phase (mt_observations s);
          target = (if fold then OVERFLOW_LABEL else phase);
          s = (if fold then warnOnce s else s);
          old = or_default (map_get (mt_observations s) target) []
      in s\<lparr>mt_observations := map_set target (old @ [durationMs]) (mt_observations s)\<rparr>)"

datatype le_bound = Bound rat | PlusInf

record histogram_snapshot =
  hs_count :: nat
  hs_sum :: rat
  hs_buckets :: "(le_bound, nat) jsmap"

definition snapshot_of :: "rat list \<Rightarrow> rat list \<Rightarrow> histogram_snapshot" where
  "snapshot_of buckets obs = \<lparr>hs_count = length obs, hs_sum = sum_list obs,
     hs_buckets = map_set PlusInf (length obs)
       (foldl (\<lambda>m bound. map_set (Bound bound) (length (filter (\<lambda>v. v \<le> bound) obs)) m) [] buckets)\<rparr>"

definition histogram_get :: "metrics_config \<Rightarrow> string \<Rightarrow> metrics \<Rightarrow> histogram_snapshot" where
  "histogram_get c phase s = snapshot_of (mc_buckets c) (or_default (map_get (mt_observations s) phase) [])"

definition gauge_resolve :: "metrics_config \<Rightarrow> string \<Rightarrow> metrics \<Rightarrow> string \<times> metrics" where
  "gauge_resolve c phase s =
     (if folds c phase (mt_values s) then (OVERFLOW_LABEL, warnOnce s) else (phase, s))"

definition gauge_set :: "metrics_config \<Rightarrow> string \<Rightarrow> rat \<Rightarrow> metrics \<Rightarrow> metrics" where
  "gauge_set c phase value s =
     (let (target, s) = gauge_resolve c phase s in s\<lparr>mt_values := map_set target value (mt_values s)\<rparr>)"

definition gauge_inc :: "metrics_config \<Rightarrow> string \<Rightarrow> rat \<Rightarrow> metrics \<Rightarrow> metrics" where
  "gauge_inc c phase amount s =
     (let (target, s) = gauge_resolve c phase s in
      s\<lparr>mt_values := map_set target (or_default (map_get (mt_values s) target) 0 + amount) (mt_values s)\<rparr>)"

definition gauge_dec :: "metrics_config \<Rightarrow> string \<Rightarrow> rat \<Rightarrow> metrics \<Rightarrow> metrics" where
  "gauge_dec c phase amount s =
     (let (target, s) = gauge_resolve c phase s in
      s\<lparr>mt_values := map_set target (or_default (map_get (mt_values s) target) 0 - amount) (mt_values s)\<rparr>)"

definition gauge_get :: "string \<Rightarrow> metrics \<Rightarrow> rat" where
  "gauge_get phase s = or_default (map_get (mt_values s) phase) 0"

section \<open>Exposition\<close>

text \<open>\<open>num\<close> is the printing of a number, the language's own.\<close>

definition q :: "string \<Rightarrow> string" where
  "q s = dquote # s @ [dquote]"

definition expose_counter :: "metrics_config \<Rightarrow> metrics \<Rightarrow> string list" where
  "expose_counter c s =
     (let name = mc_prefix c @ ''_requests_total'' in
      [''# HELP '' @ name @ '' '' @ escapeHelp ''Total requests by phase and outcome'',
       ''# TYPE '' @ name @ '' counter'']
      @ concat (map (\<lambda>phase. map (\<lambda>outcome.
            name @ ''{phase='' @ q (escapeLabelValue phase) @ '',outcome=''
              @ q (escapeLabelValue (outcome_name outcome)) @ ''} ''
              @ dec_of_nat (counter_get phase outcome s))
          [Success, Failure, Cancelled]) (mc_phases c))
      @ (if mt_overflowTotal s > 0 then
           [name @ ''{phase='' @ q OVERFLOW_LABEL @ '',outcome='' @ q ''success'' @ ''} ''
              @ dec_of_nat (mt_overflowTotal s)] else []))"

fun le_name :: "(rat \<Rightarrow> string) \<Rightarrow> le_bound \<Rightarrow> string" where
  "le_name num (Bound b) = num b"
| "le_name num PlusInf = ''+Inf''"

definition expose_phase_histogram ::
  "(rat \<Rightarrow> string) \<Rightarrow> string \<Rightarrow> string \<Rightarrow> histogram_snapshot \<Rightarrow> string list" where
  "expose_phase_histogram num name phase h =
     map (\<lambda>(le, cumCount). name @ ''_bucket{phase='' @ q (escapeLabelValue phase) @ '',le=''
         @ q (escapeLabelValue (le_name num le)) @ ''} '' @ dec_of_nat cumCount) (hs_buckets h)
     @ [name @ ''_sum{phase='' @ q (escapeLabelValue phase) @ ''} '' @ num (hs_sum h),
        name @ ''_count{phase='' @ q (escapeLabelValue phase) @ ''} '' @ dec_of_nat (hs_count h)]"

definition expose_histogram :: "(rat \<Rightarrow> string) \<Rightarrow> metrics_config \<Rightarrow> metrics \<Rightarrow> string list" where
  "expose_histogram num c s =
     (let name = mc_prefix c @ ''_duration_ms'' in
      [''# HELP '' @ name @ ''_bucket '' @ escapeHelp ''Histogram of phase durations in milliseconds'',
       ''# TYPE '' @ name @ '' histogram'']
      @ concat (map (\<lambda>phase. expose_phase_histogram num name phase (histogram_get c phase s)) (mc_phases c)))"

definition expose_gauge :: "(rat \<Rightarrow> string) \<Rightarrow> metrics_config \<Rightarrow> metrics \<Rightarrow> string list" where
  "expose_gauge num c s =
     (let name = mc_prefix c @ ''_gauge'' in
      [''# HELP '' @ name @ '' Current gauge value by phase'', ''# TYPE '' @ name @ '' gauge'']
      @ map (\<lambda>phase. name @ ''{phase='' @ q phase @ ''} '' @ num (gauge_get phase s)) (mc_phases c))"

definition metrics_expose :: "(rat \<Rightarrow> string) \<Rightarrow> metrics_config \<Rightarrow> metrics \<Rightarrow> string" where
  "metrics_expose num c s =
     join [newline] (expose_counter c s @ expose_histogram num c s @ expose_gauge num c s) @ [newline]"

section \<open>Counters\<close>

lemma warnOnce_fields [simp]:
  "mt_counts (warnOnce s) = mt_counts s" "mt_overflowTotal (warnOnce s) = mt_overflowTotal s"
  "mt_observations (warnOnce s) = mt_observations s" "mt_values (warnOnce s) = mt_values s"
  by (simp_all add: warnOnce_def)

lemma counter_key_inj: "counter_key p o1 = counter_key p' o2 \<longleftrightarrow> p = p' \<and> o1 = o2"
proof -
  have "rev (outcome_name o1) @ '':'' @ rev p = rev (outcome_name o2) @ '':'' @ rev p' \<Longrightarrow> p = p' \<and> o1 = o2"
    by (cases o1; cases o2) simp_all
  then show ?thesis
    by (metis counter_key_def rev_append rev_singleton_conv append.assoc rev_rev_ident)
qed

definition counter_run :: "metrics_config \<Rightarrow> (string \<times> metric_outcome) list \<Rightarrow> metrics" where
  "counter_run c es = foldl (\<lambda>s (phase, outcome). counter_inc c phase outcome s) metrics_init es"

lemma counter_run_snoc [simp]:
  "counter_run c (es @ [(p, oc)]) = counter_inc c p oc (counter_run c es)"
  by (simp add: counter_run_def)

abbreviation event_key :: "string \<times> metric_outcome \<Rightarrow> string" where
  "event_key e \<equiv> counter_key (fst e) (snd e)"

abbreviation occurs :: "string \<Rightarrow> (string \<times> metric_outcome) list \<Rightarrow> nat" where
  "occurs k es \<equiv> length (filter (\<lambda>e. event_key e = k) es)"

definition counter_inv :: "metrics_config \<Rightarrow> (string \<times> metric_outcome) list \<Rightarrow> metrics \<Rightarrow> bool" where
  "counter_inv c es s \<longleftrightarrow> map_wf (mt_counts s)
     \<and> int (length (mt_counts s)) \<le> max 0 (mc_maxSeries c)
     \<and> (\<forall>k n. map_get (mt_counts s) k = Some n \<longrightarrow> n = occurs k es)
     \<and> mt_overflowTotal s = length (filter (\<lambda>e. \<not> map_has (mt_counts s) (event_key e)) es)
     \<and> (mt_overflowTotal s > 0 \<longrightarrow> int (length (mt_counts s)) \<ge> mc_maxSeries c)"

lemma counter_inv_inc:
  assumes inv: "counter_inv c es s"
  shows "counter_inv c (es @ [(p, oc)]) (counter_inc c p oc s)"
proof (cases "map_get (mt_counts s) (counter_key p oc)")
  case (Some v)
  then have "map_has (mt_counts s) (counter_key p oc)" by (simp add: map_has_iff)
  moreover from this have "\<And>e. map_has (map_set (counter_key p oc) (v + 1) (mt_counts s)) (event_key e)
      \<longleftrightarrow> map_has (mt_counts s) (event_key e)" by (auto simp: map_simps)
  ultimately show ?thesis
    using inv Some by (auto simp: counter_inv_def counter_inc_def Let_def map_simps length_map_set)
next
  case None
  then have new: "\<not> map_has (mt_counts s) (counter_key p oc)" by (simp add: map_has_iff)
  show ?thesis
  proof (cases "int (length (mt_counts s)) \<ge> mc_maxSeries c")
    case True
    then show ?thesis
      using inv None new by (auto simp: counter_inv_def counter_inc_def Let_def)
  next
    case False
    then have none: "filter (\<lambda>e. \<not> map_has (mt_counts s) (event_key e)) es = []"
      using inv by (auto simp: counter_inv_def)
    then have "occurs (counter_key p oc) es = 0"
      using new by (auto simp: filter_empty_conv)
    moreover have "filter (\<lambda>e. \<not> map_has (map_set (counter_key p oc) 1 (mt_counts s)) (event_key e)) es = []"
      using none by (auto simp: filter_empty_conv map_simps)
    ultimately show ?thesis
      using inv None new False
      by (auto simp: counter_inv_def counter_inc_def Let_def map_simps length_map_set)
  qed
qed

lemma counter_inv_run: "counter_inv c es (counter_run c es)"
proof (induction es rule: rev_induct)
  case Nil
  then show ?case by (simp add: counter_inv_def counter_run_def metrics_init_def)
next
  case (snoc e es)
  obtain p oc where "e = (p, oc)" by (cases e)
  with counter_inv_inc [OF snoc, of p oc] show ?case by simp
qed

text \<open>
  Counters lose nothing and stay bounded. After any sequence of increments there are at most
  \<open>maxSeries\<close> series; a series that was admitted holds exactly the number of its increments, and
  the overflow total is exactly the number of increments of all the others.
\<close>

theorem counter_conservation:
  assumes "s = counter_run c es"
  shows "int (length (mt_counts s)) \<le> max 0 (mc_maxSeries c)
    \<and> (\<forall>phase outcome n. map_get (mt_counts s) (counter_key phase outcome) = Some n
        \<longrightarrow> n = length (filter (\<lambda>e. e = (phase, outcome)) es))
    \<and> mt_overflowTotal s = length (filter (\<lambda>e. \<not> map_has (mt_counts s) (event_key e)) es)"
proof -
  have "occurs (counter_key phase outcome) es = length (filter (\<lambda>e. e = (phase, outcome)) es)"
    for phase outcome
    by (rule arg_cong [where f = length], rule filter_cong) (auto simp: counter_key_inj prod_eq_iff)
  moreover have "counter_inv c es s" using counter_inv_run [of c es] by (simp add: assms)
  ultimately show ?thesis unfolding counter_inv_def by metis
qed

theorem counter_conservation_witness:
  "let s = counter_run (new_metrics_config ''m'' [] None (Some 1))
      [(''a'', Success), (''b'', Success), (''a'', Success)]
   in int (length (mt_counts s)) \<le> max 0 1"
  using counter_conservation [OF refl, of "new_metrics_config ''m'' [] None (Some 1)"
      "[(''a'', Success), (''b'', Success), (''a'', Success)]"]
  by (simp add: Let_def new_metrics_config_def)

section \<open>Histograms\<close>

lemma sum_map_set:
  assumes "map_wf m"
  shows "(\<Sum>(k, v) \<leftarrow> map_set k' v' m. f v) + (case map_get m k' of None \<Rightarrow> 0 | Some v \<Rightarrow> f v)
    = (\<Sum>(k, v) \<leftarrow> m. f v) + (f v' :: nat)"
  using assms
proof (induction m)
  case Nil
  then show ?case by simp
next
  case (Cons a m)
  obtain k v where a: "a = (k, v)" by (cases a)
  have wf: "map_wf m" using Cons.prems by (simp add: map_wf_def)
  show ?case
  proof (cases "k = k'")
    case True
    then show ?thesis by (simp add: a)
  next
    case False
    with Cons.IH [OF wf] show ?thesis by (simp add: a)
  qed
qed

definition observed_total :: "metrics \<Rightarrow> nat" where
  "observed_total s = (\<Sum>(k, obs) \<leftarrow> mt_observations s. length obs)"

definition series_ok :: "metrics_config \<Rightarrow> (string, 'v) jsmap \<Rightarrow> bool" where
  "series_ok c m \<longleftrightarrow> map_wf m \<and> real_size m \<le> max 0 (mc_maxSeries c)"

lemma series_ok_set:
  assumes "series_ok c m"
  shows "series_ok c (map_set (if folds c phase m then OVERFLOW_LABEL else phase) v m)"
proof -
  have pos: "map_has m OVERFLOW_LABEL \<Longrightarrow> 0 < length m"
    by (auto simp: map_has_def)
  show ?thesis using assms pos
    by (auto simp: series_ok_def folds_def real_size_def map_simps length_map_set split: if_splits)
qed

lemma histogram_observe_total:
  assumes "map_wf (mt_observations s)"
  shows "observed_total (histogram_observe c phase d s) = Suc (observed_total s)"
proof -
  let ?t = "if folds c phase (mt_observations s) then OVERFLOW_LABEL else phase"
  have "observed_total (histogram_observe c phase d s) =
      (\<Sum>(k, obs) \<leftarrow> map_set ?t (or_default (map_get (mt_observations s) ?t) [] @ [d]) (mt_observations s). length obs)"
    by (simp add: observed_total_def histogram_observe_def Let_def)
  then show ?thesis
    using sum_map_set [OF assms, of length ?t "or_default (map_get (mt_observations s) ?t) [] @ [d]"]
    by (cases "map_get (mt_observations s) ?t") (simp_all add: observed_total_def)
qed

lemma histogram_observe_ok:
  assumes "series_ok c (mt_observations s)"
  shows "series_ok c (mt_observations (histogram_observe c phase d s))"
  using series_ok_set [OF assms, of phase]
  by (cases "folds c phase (mt_observations s)") (simp_all add: histogram_observe_def Let_def)

text \<open>
  Histograms lose no observation and stay bounded: after any sequence of observations the
  series together hold exactly as many durations as were observed, in at most \<open>maxSeries\<close> series
  besides the overflow series.
\<close>

theorem histogram_conservation:
  assumes "s = foldl (\<lambda>s (phase, d). histogram_observe c phase d s) metrics_init es"
  shows "observed_total s = length es \<and> real_size (mt_observations s) \<le> max 0 (mc_maxSeries c)"
proof -
  have "observed_total s = length es \<and> series_ok c (mt_observations s)"
    unfolding assms
  proof (induction es rule: rev_induct)
    case Nil
    then show ?case
      by (simp add: metrics_init_def observed_total_def series_ok_def real_size_def map_has_def)
  next
    case (snoc e es)
    then have "map_wf (mt_observations (foldl (\<lambda>s (phase, d). histogram_observe c phase d s) metrics_init es))"
      by (simp add: series_ok_def)
    with snoc show ?case by (cases e) (simp add: histogram_observe_total histogram_observe_ok)
  qed
  then show ?thesis by (simp add: series_ok_def)
qed

theorem histogram_conservation_witness:
  "let s = foldl (\<lambda>s (phase, d). histogram_observe (new_metrics_config ''m'' [] None (Some 1)) phase d s)
      metrics_init [(''a'', 1), (''b'', 2), (''c'', 3)]
   in observed_total s = 3 \<and> real_size (mt_observations s) \<le> 1"
  using histogram_conservation [OF refl, of "new_metrics_config ''m'' [] None (Some 1)"
      "[(''a'', 1), (''b'', 2), (''c'', 3)]"]
  by (simp add: Let_def new_metrics_config_def)

lemma snapshot_buckets:
  "map_get (hs_buckets (snapshot_of buckets obs)) le =
     (case le of PlusInf \<Rightarrow> Some (length obs)
      | Bound b \<Rightarrow> if b \<in> set buckets then Some (length (filter (\<lambda>v. v \<le> b) obs)) else None)"
proof -
  have "map_get (foldl (\<lambda>m b. map_set (Bound b) (length (filter (\<lambda>v. v \<le> b) obs)) m) m bs) le =
     (case le of PlusInf \<Rightarrow> map_get m le
      | Bound b \<Rightarrow> if b \<in> set bs then Some (length (filter (\<lambda>v. v \<le> b) obs)) else map_get m le)" for m bs
    by (induction bs arbitrary: m) (auto simp: map_simps split: le_bound.split)
  from this [of "[]" buckets] show ?thesis
    by (simp add: snapshot_of_def map_simps split: le_bound.split)
qed

text \<open>Bucket counts are cumulative: they grow with the bound, and none exceeds \<open>+Inf\<close>.\<close>

lemma snapshot_cumulative:
  assumes "map_get (hs_buckets (snapshot_of buckets obs)) (Bound a) = Some m"
    and "map_get (hs_buckets (snapshot_of buckets obs)) (Bound b) = Some n" and "a \<le> b"
  shows "m \<le> n \<and> n \<le> hs_count (snapshot_of buckets obs)"
proof -
  have "length (filter (\<lambda>v. v \<le> a) obs) \<le> length (filter (\<lambda>v. v \<le> b) obs)"
    using assms(3) by (induction obs) auto
  then show ?thesis
    using assms unfolding snapshot_buckets
    by (auto simp: snapshot_of_def split: if_splits)
qed

section \<open>Gauges and the warning\<close>

lemma gauge_ok:
  assumes "series_ok c (mt_values s)"
  shows "series_ok c (mt_values (gauge_set c phase v s))"
    and "series_ok c (mt_values (gauge_inc c phase v s))"
    and "series_ok c (mt_values (gauge_dec c phase v s))"
  using series_ok_set [OF assms, of phase]
  by (cases "folds c phase (mt_values s)";
    simp add: gauge_set_def gauge_inc_def gauge_dec_def gauge_resolve_def Let_def)+

text \<open>The cap warning is given at most once per registry, whichever metric exceeds it.\<close>

definition warn_inv :: "metrics \<Rightarrow> bool" where
  "warn_inv s \<longleftrightarrow> mt_warnings s = (if mt_warned s then 1 else 0)"

lemma warn_inv_ops:
  assumes "warn_inv s"
  shows "warn_inv (counter_inc c p oc s)" and "warn_inv (histogram_observe c p d s)"
    and "warn_inv (gauge_set c p v s)" and "warn_inv (gauge_inc c p v s)" and "warn_inv (gauge_dec c p v s)"
  using assms by (auto simp: warn_inv_def counter_inc_def histogram_observe_def gauge_set_def gauge_inc_def
      gauge_dec_def gauge_resolve_def warnOnce_def Let_def split: option.splits)

end
