(* ===== verification/Expositions.thy ===== *)
theory Expositions
  imports Metrics
begin

text \<open>
  \<open>shared/src/metrics.ts\<close>: \<open>combineExpositions\<close> merges Prometheus expositions so that the samples
  of one metric stand together under one HELP and one TYPE line. The regular expressions are
  written out as scanners; \<open>localeCompare\<close> is a parameter.
\<close>

section \<open>Scanning a line\<close>

definition name_start :: "char \<Rightarrow> bool" where
  "name_start c \<longleftrightarrow> (let n = of_char c :: nat in
     (65 \<le> n \<and> n \<le> 90) \<or> (97 \<le> n \<and> n \<le> 122) \<or> c = CHR ''_'' \<or> c = CHR '':'')"

definition name_char :: "char \<Rightarrow> bool" where
  "name_char c \<longleftrightarrow> name_start c \<or> is_digit c"

text \<open>\<open>/^([a-zA-Z_:][a-zA-Z0-9_:]*)/\<close>\<close>

fun getMetricName :: "string \<Rightarrow> string option" where
  "getMetricName [] = None"
| "getMetricName (c # cs) = (if name_start c then Some (c # takeWhile name_char cs) else None)"

datatype header_kind = Help | Type

text \<open>\<open>/^#\s*(HELP|TYPE)\s+([a-zA-Z_:][a-zA-Z0-9_:]*)\s*(.*)$/\<close>; the dot matches no line break.\<close>

definition match_header :: "string \<Rightarrow> (header_kind \<times> string) option" where
  "match_header line = (case line of [] \<Rightarrow> None | c # r \<Rightarrow>
     if c \<noteq> CHR 0x23 then None
     else
       let r = dropWhile is_ws r; kind = take 4 r; r = drop 4 r in
       if kind \<noteq> ''HELP'' \<and> kind \<noteq> ''TYPE'' then None
       else if r = [] \<or> \<not> is_ws (hd r) then None
       else
         let r = dropWhile is_ws r in
         (case getMetricName r of None \<Rightarrow> None
          | Some name \<Rightarrow>
              let rest = dropWhile is_ws (drop (length name) r) in
              if CHR 0x0D \<in> set rest \<or> newline \<in> set rest then None
              else Some (if kind = ''HELP'' then Help else Type, name)))"

section \<open>Merging\<close>

record metric_group =
  gr_help :: "string option"
  gr_type :: "string option"
  gr_samples :: "string list"

definition empty_group :: metric_group where
  "empty_group = \<lparr>gr_help = None, gr_type = None, gr_samples = []\<rparr>"

type_synonym groups = "(string, metric_group) jsmap"

definition ends_with :: "string \<Rightarrow> string \<Rightarrow> bool" where
  "ends_with s sfx \<longleftrightarrow> length sfx \<le> length s \<and> drop (length s - length sfx) s = sfx"

fun resolve_suffixes :: "string list \<Rightarrow> string \<Rightarrow> groups \<Rightarrow> string" where
  "resolve_suffixes [] metricName groups = metricName"
| "resolve_suffixes (sfx # sfxs) metricName groups =
     (if ends_with metricName sfx \<and> map_has groups (take (length metricName - length sfx) metricName)
      then take (length metricName - length sfx) metricName
      else resolve_suffixes sfxs metricName groups)"

definition resolveGroupName :: "string \<Rightarrow> groups \<Rightarrow> string" where
  "resolveGroupName = resolve_suffixes [''_bucket'', ''_sum'', ''_count'']"

definition ensureGroup :: "string \<Rightarrow> groups \<Rightarrow> metric_group" where
  "ensureGroup name groups = or_default (map_get groups name) empty_group"

definition add_header :: "header_kind \<Rightarrow> string \<Rightarrow> metric_group \<Rightarrow> metric_group" where
  "add_header kind line g =
     (if kind = Help \<and> gr_help g = None then g\<lparr>gr_help := Some line\<rparr>
      else if kind = Type \<and> gr_type g = None then g\<lparr>gr_type := Some line\<rparr>
      else g)"

definition add_line :: "string \<Rightarrow> groups \<Rightarrow> groups" where
  "add_line rawLine groups =
     (let line = trim rawLine in
      if line = [] then groups
      else case match_header line of
          Some (kind, metricName) \<Rightarrow>
            map_set metricName (add_header kind line (ensureGroup metricName groups)) groups
        | None \<Rightarrow>
            (case getMetricName line of
               None \<Rightarrow> groups
             | Some metricName \<Rightarrow>
                 let groupName = resolveGroupName metricName groups;
                     g = ensureGroup groupName groups
                 in map_set groupName (g\<lparr>gr_samples := gr_samples g @ [line]\<rparr>) groups))"

definition merge_all :: "string list \<Rightarrow> groups" where
  "merge_all expositions =
     foldl (\<lambda>groups line. add_line line groups) []
       (concat (map (split_on newline) expositions))"

definition group_lines :: "metric_group \<Rightarrow> string list" where
  "group_lines g = (case gr_help g of Some l \<Rightarrow> [l] | None \<Rightarrow> [])
     @ (case gr_type g of Some l \<Rightarrow> [l] | None \<Rightarrow> []) @ gr_samples g"

definition combined_lines :: "(string \<Rightarrow> string \<Rightarrow> int) \<Rightarrow> string list \<Rightarrow> string list" where
  "combined_lines localeCompare expositions =
     (let groups = merge_all expositions;
          orderedNames = js_sort localeCompare (map_keys groups)
      in concat (map (\<lambda>name. case map_get groups name of None \<Rightarrow> [] | Some g \<Rightarrow> group_lines g) orderedNames))"

definition combineExpositions :: "(string \<Rightarrow> string \<Rightarrow> int) \<Rightarrow> string list \<Rightarrow> string" where
  "combineExpositions localeCompare expositions =
     (case expositions of
        [] \<Rightarrow> []
      | [e] \<Rightarrow> e
      | _ \<Rightarrow>
          let output = combined_lines localeCompare expositions in
          if 0 < length output then join [newline] output @ [newline] else [])"

section \<open>No sample is lost, invented or repeated\<close>

definition is_sample :: "string \<Rightarrow> bool" where
  "is_sample line \<longleftrightarrow> line \<noteq> [] \<and> match_header line = None \<and> getMetricName line \<noteq> None"

definition input_samples :: "string list \<Rightarrow> string list" where
  "input_samples expositions = filter is_sample (map trim (concat (map (split_on newline) expositions)))"

definition group_ok :: "string \<Rightarrow> metric_group \<Rightarrow> bool" where
  "group_ok name g \<longleftrightarrow> (\<forall>l. gr_help g = Some l \<longrightarrow> match_header l = Some (Help, name))
     \<and> (\<forall>l. gr_type g = Some l \<longrightarrow> match_header l = Some (Type, name))
     \<and> (\<forall>l \<in> set (gr_samples g). is_sample l)"

definition groups_ok :: "groups \<Rightarrow> bool" where
  "groups_ok groups \<longleftrightarrow> map_wf groups \<and> (\<forall>(name, g) \<in> set groups. group_ok name g)"

definition all_samples :: "groups \<Rightarrow> string multiset" where
  "all_samples groups = (\<Sum>(name, g) \<in># mset groups. mset (gr_samples g))"

lemma groups_ok_getD: "groups_ok groups \<Longrightarrow> map_get groups name = Some g \<Longrightarrow> group_ok name g"
  by (auto simp: groups_ok_def dest!: map_of_SomeD)

lemma group_ok_get: "groups_ok groups \<Longrightarrow> group_ok name (ensureGroup name groups)"
  using groups_ok_getD [of groups name]
  by (cases "map_get groups name") (simp_all add: ensureGroup_def group_ok_def empty_group_def)

lemma set_map_set: "(k, v) \<in> set (map_set k' v' m) \<Longrightarrow> map_wf m \<Longrightarrow> (k = k' \<and> v = v') \<or> (k \<noteq> k' \<and> (k, v) \<in> set m)"
proof (induction m)
  case Nil
  then show ?case by simp
next
  case (Cons a m)
  then show ?case by (cases a) (auto simp: map_wf_def image_iff split: if_splits)
qed

lemma groups_ok_set: "groups_ok groups \<Longrightarrow> group_ok name g \<Longrightarrow> groups_ok (map_set name g groups)"
  by (auto simp: groups_ok_def dest!: set_map_set)

lemma all_samples_set:
  "map_wf groups \<Longrightarrow>
   all_samples (map_set name g groups) + mset (gr_samples (ensureGroup name groups))
     = all_samples groups + mset (gr_samples g)"
proof (induction groups)
  case Nil
  then show ?case by (simp add: all_samples_def ensureGroup_def empty_group_def)
next
  case (Cons a groups)
  obtain k v where a: "a = (k, v)" by (cases a)
  have wf: "map_wf groups" using Cons.prems by (simp add: map_wf_def)
  show ?case
    using Cons.IH [OF wf] by (cases "k = name") (simp_all add: a all_samples_def ensureGroup_def)
qed

lemma add_line_ok:
  assumes ok: "groups_ok groups"
  shows "groups_ok (add_line line groups)
    \<and> all_samples (add_line line groups)
        = all_samples groups + mset (filter is_sample [trim line])"
proof -
  let ?l = "trim line"
  have wf: "map_wf groups" using ok by (simp add: groups_ok_def)
  consider (none) "add_line line groups = groups" "\<not> is_sample ?l"
    | (header) kind name where "match_header ?l = Some (kind, name)" "\<not> is_sample ?l"
        "add_line line groups = map_set name (add_header kind ?l (ensureGroup name groups)) groups"
    | (sample) name where "is_sample ?l"
        "add_line line groups = map_set name ((ensureGroup name groups)
           \<lparr>gr_samples := gr_samples (ensureGroup name groups) @ [?l]\<rparr>) groups"
    by (cases "?l = []"; cases "match_header ?l"; cases "getMetricName ?l")
      (auto simp: add_line_def is_sample_def Let_def)
  then show ?thesis
  proof cases
    case none
    then show ?thesis using ok by simp
  next
    case header
    have "group_ok name (add_header kind ?l (ensureGroup name groups))"
      using group_ok_get [OF ok, of name] header(1)
      by (cases kind) (auto simp: add_header_def group_ok_def)
    moreover have "gr_samples (add_header kind ?l (ensureGroup name groups)) = gr_samples (ensureGroup name groups)"
      by (simp add: add_header_def)
    ultimately show ?thesis
      using header all_samples_set [OF wf, of name "add_header kind ?l (ensureGroup name groups)"]
      by (simp add: groups_ok_set [OF ok])
  next
    case sample
    let ?g = "(ensureGroup name groups)\<lparr>gr_samples := gr_samples (ensureGroup name groups) @ [?l]\<rparr>"
    have "group_ok name ?g"
      using group_ok_get [OF ok, of name] sample(1) by (auto simp: group_ok_def)
    then show ?thesis
      using sample all_samples_set [OF wf, of name ?g] by (simp add: groups_ok_set [OF ok])
  qed
qed

lemma merge_ok:
  "groups_ok (foldl (\<lambda>g l. add_line l g) [] ls)
   \<and> all_samples (foldl (\<lambda>g l. add_line l g) [] ls) = mset (filter is_sample (map trim ls))"
proof (induction ls rule: rev_induct)
  case Nil
  then show ?case by (simp add: groups_ok_def all_samples_def)
next
  case (snoc l ls)
  then show ?case using add_line_ok [of "foldl (\<lambda>g l. add_line l g) [] ls" l] by simp
qed

lemma group_lines_samples:
  "group_ok name g \<Longrightarrow> filter is_sample (group_lines g) = gr_samples g"
  by (auto simp: group_lines_def group_ok_def is_sample_def filter_id_conv split: option.split)

lemma concat_names_samples:
  assumes "groups_ok groups"
  shows "mset (filter is_sample (concat (map (\<lambda>name. case map_get groups name of None \<Rightarrow> []
      | Some g \<Rightarrow> group_lines g) (js_sort cmp (map_keys groups))))) = all_samples groups"
proof -
  let ?f = "\<lambda>name. filter is_sample (case map_get groups name of None \<Rightarrow> [] | Some g \<Rightarrow> group_lines g)"
  have "mset (filter is_sample (concat (map (\<lambda>name. case map_get groups name of None \<Rightarrow> []
      | Some g \<Rightarrow> group_lines g) ns))) = (\<Sum>n \<in># mset ns. mset (?f n))" for ns
    by (induction ns) auto
  then have "?thesis \<longleftrightarrow> (\<Sum>n \<in># mset (map_keys groups). mset (?f n)) = all_samples groups" by simp
  also have "\<dots> \<longleftrightarrow> (\<Sum>p \<in># mset groups. mset (?f (fst p))) = all_samples groups"
    by (simp add: image_mset.compositionality comp_def)
  also have "(\<Sum>p \<in># mset groups. mset (?f (fst p))) = all_samples groups"
    unfolding all_samples_def
  proof (rule arg_cong [where f = sum_mset], rule image_mset_cong)
    fix p assume p: "p \<in># mset groups"
    obtain n g where pe: "p = (n, g)" by (cases p)
    from p assms have "map_get groups n = Some g" and "group_ok n g"
      by (auto simp: pe groups_ok_def map_wf_def)
    then show "mset (?f (fst p)) = (case p of (name, g) \<Rightarrow> mset (gr_samples g))"
      by (simp add: pe group_lines_samples)
  qed
  finally show ?thesis by simp
qed

text \<open>
  Combining expositions keeps every sample exactly as often as it occurs in the inputs:
  the samples among the output lines are, as a multiset, the samples of the inputs.
\<close>

theorem combine_keeps_samples:
  "mset (filter is_sample (combined_lines localeCompare expositions)) = mset (input_samples expositions)"
  using merge_ok [of "concat (map (split_on newline) expositions)"]
    concat_names_samples [of "merge_all expositions" localeCompare]
  by (simp add: combined_lines_def Let_def merge_all_def input_samples_def)

text \<open>Each metric has at most one HELP line and at most one TYPE line.\<close>

lemma group_lines_headers:
  assumes "group_ok name g"
  shows "length (filter (\<lambda>l. match_header l = Some (kind, n)) (group_lines g)) \<le> (if name = n then 1 else 0)"
proof -
  have "filter (\<lambda>l. match_header l = Some (kind, n)) (gr_samples g) = []"
    using assms by (auto simp: group_ok_def is_sample_def filter_empty_conv)
  then show ?thesis
    using assms by (cases kind) (auto simp: group_lines_def group_ok_def split: option.split)
qed

lemma combine_one_header:
  "length (filter (\<lambda>l. match_header l = Some (kind, n)) (combined_lines cmp expositions)) \<le> 1"
proof -
  let ?groups = "merge_all expositions"
  let ?P = "\<lambda>l. match_header l = Some (kind, n)"
  have ok: "groups_ok ?groups" using merge_ok by (simp add: merge_all_def)
  have "length (filter ?P (concat (map (\<lambda>name. case map_get ?groups name of None \<Rightarrow> []
      | Some g \<Rightarrow> group_lines g) ns))) \<le> (if n \<in> set ns then 1 else 0)" if "distinct ns" for ns
    using that
  proof (induction ns)
    case Nil
    then show ?case by simp
  next
    case (Cons m ns)
    have "length (filter ?P (case map_get ?groups m of None \<Rightarrow> [] | Some g \<Rightarrow> group_lines g))
        \<le> (if m = n then 1 else 0)"
      using group_lines_headers [OF groups_ok_getD [OF ok], of m _ kind n]
      by (cases "map_get ?groups m") simp_all
    with Cons show ?case by (auto split: if_splits)
  qed
  from this [of "js_sort cmp (map_keys ?groups)"] ok show ?thesis
    by (simp add: combined_lines_def Let_def groups_ok_def map_wf_def split: if_splits)
qed

end
