(* ===== verification/Address.thy ===== *)
theory Address
  imports JsPrelude
begin

text \<open>
  \<open>shared/src/index.ts\<close>: the canonical spelling of a Stellar address, its validation (a
  wrapper around the SDK's StrKey check, a parameter here) and its redaction for logs.
\<close>

section \<open>Operations\<close>

definition isValidStellarAddress :: "(string \<Rightarrow> bool) \<Rightarrow> string \<Rightarrow> bool" where
  "isValidStellarAddress strkey address = strkey address"

definition normalizeStellarAddress :: "string \<Rightarrow> string" where
  "normalizeStellarAddress address = to_upper (trim address)"

datatype js_unknown = Str string | NotString

definition ellipsis :: char where
  "ellipsis = CHR 0x85"

fun redactAddress :: "js_unknown \<Rightarrow> string" where
  "redactAddress NotString = ''[invalid-address]''"
| "redactAddress (Str addr) =
     (if length addr < 8 then ''[invalid-address]''
      else take 4 addr @ [ellipsis] @ drop (length addr - 4) addr)"

section \<open>Normalisation\<close>

lemma normalize_idem [simp]:
  "normalizeStellarAddress (normalizeStellarAddress a) = normalizeStellarAddress a"
  by (simp add: normalizeStellarAddress_def trim_to_upper)

lemma dropWhile_pad: "\<forall>c \<in> set p. is_ws c \<Longrightarrow> dropWhile is_ws (p @ s) = dropWhile is_ws s"
  by (simp add: dropWhile_append)

lemma trim_right_pad: "\<forall>c \<in> set q. is_ws c \<Longrightarrow> trim_right (s @ q) = trim_right s"
  by (simp add: trim_right_def dropWhile_pad)

lemma trim_pad:
  assumes "\<forall>c \<in> set p. is_ws c" and "\<forall>c \<in> set q. is_ws c"
  shows "trim (p @ s @ q) = trim s"
proof (cases "\<forall>c \<in> set s. is_ws c")
  case True
  with assms have "dropWhile is_ws (p @ s @ q) = []" and "dropWhile is_ws s = []"
    by auto
  then show ?thesis by (simp only: trim_def trim_left_def)
next
  case False
  then have "dropWhile is_ws (s @ q) = dropWhile is_ws s @ q"
    by (auto simp: dropWhile_append1)
  with assms show ?thesis
    by (simp add: trim_def trim_left_def dropWhile_pad trim_right_pad)
qed

text \<open>
  Two spellings of one account normalise to the same string: surrounding whitespace and
  letter case do not matter.
\<close>

theorem normalize_spelling:
  assumes "\<forall>c \<in> set p. is_ws c" and "\<forall>c \<in> set q. is_ws c" and "to_upper s = to_upper t"
  shows "normalizeStellarAddress (p @ s @ q) = normalizeStellarAddress t"
proof -
  have "normalizeStellarAddress (p @ s @ q) = trim (to_upper s)"
    using assms(1,2) by (simp add: normalizeStellarAddress_def trim_pad trim_to_upper)
  with assms(3) show ?thesis by (simp add: normalizeStellarAddress_def trim_to_upper)
qed

theorem normalize_spelling_witness:
  "normalizeStellarAddress ('' '' @ ''gAbc'' @ [CHR 0x0A]) = normalizeStellarAddress ''GABC''"
  by (rule normalize_spelling) code_simp+

section \<open>Redaction\<close>

text \<open>
  Redaction depends on the first and the last four characters only: two addresses that agree
  there cannot be told apart in a log line.
\<close>

lemma redactAddress_hides:
  assumes "8 \<le> length a" and "8 \<le> length b"
    and "take 4 a = take 4 b" and "drop (length a - 4) a = drop (length b - 4) b"
  shows "redactAddress (Str a) = redactAddress (Str b)"
  using assms by simp

lemma length_redactAddress:
  "length (redactAddress x) = (case x of Str a \<Rightarrow> if 8 \<le> length a then 9 else 17 | NotString \<Rightarrow> 17)"
  by (cases x) auto

end
