(* ===== verification/Providers.thy ===== *)
theory Providers
  imports Complex_Main Address
begin

text \<open>
  \<open>sanctions-oracle/src/SanctionsProvider.ts\<close> and \<open>mockProvider.ts\<close>: the interface every
  watchlist source implements, what its clients may rely on, and the in-memory provider.

  A provider acts on a world \<open>'w\<close> (the network, the clock, a circuit breaker's state) and
  settles to a result or a thrown value. A JavaScript number in a score is a rational.
\<close>

section \<open>The provider interface\<close>

record check_result =
  cr_flagged :: bool
  cr_source :: string
  cr_score :: "rat option"

type_synonym 'w provider = "string \<Rightarrow> 'w \<Rightarrow> (thrown + check_result) \<times> 'w"

definition unscored :: "bool \<Rightarrow> string \<Rightarrow> check_result" where
  "unscored flagged source = \<lparr>cr_flagged = flagged, cr_source = source, cr_score = None\<rparr>"

text \<open>
  The contract that keeps a padded or lowercase spelling from escaping the watchlist: the answer
  depends on the account, not on how its address is spelled.
\<close>

locale sanctions_provider =
  fixes check :: "string \<Rightarrow> 'w \<Rightarrow> (thrown + check_result) \<times> 'w"
  assumes spelling: "normalizeStellarAddress a = normalizeStellarAddress b \<Longrightarrow> check a w = check b w"
begin

lemma check_normalized: "check (normalizeStellarAddress a) w = check a w"
  by (rule spelling) simp

lemma check_padded:
  "\<forall>c \<in> set p. is_ws c \<Longrightarrow> \<forall>c \<in> set q. is_ws c \<Longrightarrow> check (p @ a @ q) w = check a w"
  by (rule spelling) (simp add: normalizeStellarAddress_def trim_pad)

text \<open>A batch: the addresses are checked in order, the first failure ends it.\<close>

fun check_all :: "string list \<Rightarrow> 'w \<Rightarrow> (thrown + check_result list) \<times> 'w" where
  "check_all [] w = (Ret [], w)"
| "check_all (a # as) w =
     (case check a w of
        (Throw e, w) \<Rightarrow> (Throw e, w)
      | (Ret r, w) \<Rightarrow> (case check_all as w of
            (Throw e, w) \<Rightarrow> (Throw e, w)
          | (Ret rs, w) \<Rightarrow> (Ret (r # rs), w)))"

lemma check_all_spelling:
  "map normalizeStellarAddress as = map normalizeStellarAddress bs \<Longrightarrow> check_all as w = check_all bs w"
proof (induction as arbitrary: bs w)
  case Nil
  then show ?case by simp
next
  case (Cons a as)
  then obtain b bs' where bs: "bs = b # bs'"
    and ab: "normalizeStellarAddress a = normalizeStellarAddress b"
    and rest: "map normalizeStellarAddress as = map normalizeStellarAddress bs'"
    by (cases bs) auto
  have "check_all as = check_all bs'" by (rule ext) (rule Cons.IH [OF rest])
  then show ?case using spelling [OF ab, of w]
    by (simp add: bs split: prod.split sum.split)
qed

end

section \<open>The mock provider\<close>

definition MOCK_SOURCE :: string where
  "MOCK_SOURCE = ''mock-watchlist-v1''"

definition MOCK_FLAGGED_ADDRESSES :: "(string, string) jsmap" where
  "MOCK_FLAGGED_ADDRESSES =
    [(''GCDVWDVSFNX43HOAIMRLPHJAQMPRRDZGRUE6DM6IFSV35BBNMGEZ662M'', MOCK_SOURCE),
     (''GD3AQAE6KUU4W4OMO6QU5LC5MA3E2IQETW6LR2BUHSQE4MNQYAZR6WPS'', MOCK_SOURCE),
     (''GCNM7J7L365GEFEN2DBAIDNXHEZDM7SSQAKDEGCRYUL4LS6OU7DTD3D4'', MOCK_SOURCE),
     (''GARQCALYBJTXSA4CLTI2CTIT2F777ON3KSSYHIIBRZWGTQ2LUFXE56C2'', MOCK_SOURCE)]"

text \<open>
  What \<open>JSON.parse\<close> or the caller can supply: an object (its entries in \<open>Object.entries\<close>
  order), an array of strings, \<open>null\<close> (whose \<open>typeof\<close> is \<open>object\<close>), or another scalar.
\<close>

datatype mock_data = MObj "(string \<times> string) list" | MArr "string list" | MNull | MScalar

datatype mock_option = MPath string | MData mock_data

text \<open>\<open>result[normalizeStellarAddress(address)] = source\<close> for every entry\<close>

fun set_entries :: "(string \<times> string) list \<Rightarrow> (string, string) jsmap \<Rightarrow> (string, string) jsmap" where
  "set_entries [] result = result"
| "set_entries ((address, source) # es) result =
     set_entries es (map_set (normalizeStellarAddress address) source result)"

fun normalizeAddresses :: "mock_data \<Rightarrow> thrown + (string, string) jsmap" where
  "normalizeAddresses (MObj es) = Ret (set_entries es [])"
| "normalizeAddresses MNull = Throw (type_error ''Cannot convert undefined or null to object'')"
| "normalizeAddresses (MArr as) = Ret (set_entries (map (\<lambda>a. (a, MOCK_SOURCE)) as) [])"
| "normalizeAddresses MScalar = Throw (mk_error ''Flagged addresses must be an object or array'')"

text \<open>
  The synchronous and the asynchronous loader differ in the read they perform, a parameter here,
  and agree otherwise. An empty path is falsy and selects the default list.
\<close>

fun loadFlaggedAddresses ::
  "(string \<Rightarrow> thrown + string) \<Rightarrow> (string \<Rightarrow> thrown + mock_data) \<Rightarrow> mock_option option
     \<Rightarrow> thrown + (string, string) jsmap" where
  "loadFlaggedAddresses readFile parseJson None = Ret MOCK_FLAGGED_ADDRESSES"
| "loadFlaggedAddresses readFile parseJson (Some (MPath path)) =
     (if path = [] then Ret MOCK_FLAGGED_ADDRESSES
      else case js_bind (readFile path) (\<lambda>content. js_bind (parseJson content) normalizeAddresses) of
          Ret m \<Rightarrow> Ret m
        | Throw e \<Rightarrow> Throw (mk_error (''Failed to load flagged addresses from file '' @ path @ '': ''
             @ thrown_string e)))"
| "loadFlaggedAddresses readFile parseJson (Some (MData d)) = normalizeAddresses d"

definition mock_checkAddress :: "(string, string) jsmap \<Rightarrow> 'w provider" where
  "mock_checkAddress flaggedAddresses address w =
     (case map_get flaggedAddresses (normalizeStellarAddress address) of
        Some source \<Rightarrow>
          if source \<noteq> [] then (Ret (unscored True source), w)
          else (Ret (unscored False MOCK_SOURCE), w)
      | None \<Rightarrow> (Ret (unscored False MOCK_SOURCE), w))"

interpretation mock: sanctions_provider "mock_checkAddress flaggedAddresses" for flaggedAddresses
  by unfold_locales (simp add: mock_checkAddress_def)

lemma set_entries_get:
  "map_get (set_entries es m) k =
     (case map_get (rev (map (\<lambda>(a, s). (normalizeStellarAddress a, s)) es)) k of
        Some s \<Rightarrow> Some s | None \<Rightarrow> map_get m k)"
  by (induction es m rule: set_entries.induct)
    (auto simp: map_simps map_add_def split: option.splits)

lemma set_entries_array:
  "map_get (set_entries (map (\<lambda>a. (a, src)) as) []) k =
     (if k \<in> normalizeStellarAddress ` set as then Some src else None)"
proof -
  have "map_get (rev (map (\<lambda>(a, s). (normalizeStellarAddress a, s)) (map (\<lambda>a. (a, src)) as))) k
      = (if k \<in> normalizeStellarAddress ` set as then Some src else None)"
    by (induction as rule: rev_induct) auto
  then show ?thesis by (simp add: set_entries_get)
qed

text \<open>
  A mock provider built from an array flags exactly the accounts of the array, under every
  spelling of either side.
\<close>

theorem mock_array_flags:
  assumes "loadFlaggedAddresses readFile parseJson (Some (MData (MArr as))) = Ret m"
  shows "mock_checkAddress m address w =
    (Ret (unscored (\<exists>a \<in> set as. normalizeStellarAddress a = normalizeStellarAddress address)
       MOCK_SOURCE), w)"
proof -
  have m: "m = set_entries (map (\<lambda>a. (a, MOCK_SOURCE)) as) []" using assms by simp
  have eq: "(normalizeStellarAddress address \<in> normalizeStellarAddress ` set as)
      = (\<exists>a \<in> set as. normalizeStellarAddress a = normalizeStellarAddress address)"
    by (auto simp: image_iff) metis
  show ?thesis
    unfolding m mock_checkAddress_def set_entries_array eq
    by (auto simp: MOCK_SOURCE_def)
qed

theorem mock_array_flags_witness:
  "mock_checkAddress [(''GABC'', MOCK_SOURCE)] '' gabc'' () = (Ret (unscored True MOCK_SOURCE), ())"
proof -
  have "loadFlaggedAddresses (\<lambda>_. Throw (mk_error [])) (\<lambda>_. Throw (mk_error []))
      (Some (MData (MArr [''Gabc '']))) = Ret [(''GABC'', MOCK_SOURCE)]"
    by code_simp
  from mock_array_flags [OF this, of "'' gabc''" "()"]
  have "mock_checkAddress [(''GABC'', MOCK_SOURCE)] '' gabc'' () =
    (Ret (unscored (normalizeStellarAddress ''Gabc '' = normalizeStellarAddress '' gabc'') MOCK_SOURCE), ())"
    by simp
  moreover have "normalizeStellarAddress ''Gabc '' = normalizeStellarAddress '' gabc''" by code_simp
  ultimately show ?thesis by simp
qed

end
