(* ===== verification/Csv.thy ===== *)
theory Csv
  imports Providers
begin

text \<open>
  \<open>sanctions-oracle/src/csvProvider.ts\<close>: the RFC 4180 parser, the loader that builds the
  watchlist and the lookup. The file system and StrKey are parameters; the warnings the loader
  logs are returned in order.
\<close>

section \<open>The parser\<close>

text \<open>
  The loop of \<open>parseCsv\<close> over the remaining text, with its variables \<open>field\<close>, \<open>row\<close>, \<open>rows\<close> and
  \<open>inQuotes\<close>.
\<close>

fun csv_loop :: "string \<Rightarrow> string \<Rightarrow> string list \<Rightarrow> string list list \<Rightarrow> bool \<Rightarrow> string list list" where
  "csv_loop [] field row rows inQuotes =
     (if field \<noteq> [] \<or> row \<noteq> [] then rows @ [row @ [field]] else rows)"
| "csv_loop (ch # rest) field row rows inQuotes =
     (if inQuotes then
        (if ch = CHR 0x22 then
           (case rest of
              c # rest' \<Rightarrow>
                if c = CHR 0x22 then csv_loop rest' (field @ [CHR 0x22]) row rows True
                else csv_loop rest field row rows False
            | [] \<Rightarrow> csv_loop rest field row rows False)
         else csv_loop rest (field @ [ch]) row rows True)
      else if ch = CHR 0x22 then csv_loop rest field row rows True
      else if ch = CHR '','' then csv_loop rest [] (row @ [field]) rows False
      else if ch = CHR 0x0A \<or> ch = CHR 0x0D then
        (case rest of
           c # rest' \<Rightarrow>
             if ch = CHR 0x0D \<and> c = CHR 0x0A then csv_loop rest' [] [] (rows @ [row @ [field]]) False
             else csv_loop rest [] [] (rows @ [row @ [field]]) False
         | [] \<Rightarrow> csv_loop rest [] [] (rows @ [row @ [field]]) False)
      else csv_loop rest (field @ [ch]) row rows False)"

definition bom :: char where
  "bom = CHR 0xFE"

definition parseCsv :: "string \<Rightarrow> string list list" where
  "parseCsv content =
     (let text = (case content of c # rest \<Rightarrow> if c = bom then rest else content | [] \<Rightarrow> content)
      in csv_loop text [] [] [] False)"

section \<open>Reading back what was written\<close>

text \<open>
  A CSV writer in the sense of RFC 4180: each field says whether it is quoted, each record ends
  with LF or CRLF. A field may go unquoted when it holds none of the special characters.
\<close>

type_synonym csv_field = "bool \<times> string"

definition csv_special :: "char \<Rightarrow> bool" where
  "csv_special c \<longleftrightarrow> c = CHR 0x22 \<or> c = CHR '','' \<or> c = CHR 0x0A \<or> c = CHR 0x0D \<or> c = bom"

fun escape_quotes :: "string \<Rightarrow> string" where
  "escape_quotes [] = []"
| "escape_quotes (c # cs) = (if c = CHR 0x22 then [c, c] else [c]) @ escape_quotes cs"

fun write_field :: "csv_field \<Rightarrow> string" where
  "write_field (True, s) = CHR 0x22 # escape_quotes s @ [CHR 0x22]"
| "write_field (False, s) = s"

fun field_ok :: "csv_field \<Rightarrow> bool" where
  "field_ok (q, s) \<longleftrightarrow> q \<or> (\<forall>c \<in> set s. \<not> csv_special c)"

definition csv_eol :: "bool \<Rightarrow> string" where
  "csv_eol crlf = (if crlf then [CHR 0x0D, CHR 0x0A] else [CHR 0x0A])"

definition write_record :: "csv_field list \<times> bool \<Rightarrow> string" where
  "write_record r = join '','' (map write_field (fst r)) @ csv_eol (snd r)"

definition write_csv :: "bool \<Rightarrow> (csv_field list \<times> bool) list \<Rightarrow> string" where
  "write_csv with_bom rs = (if with_bom then [bom] else []) @ concat (map write_record rs)"

lemma csv_loop_quoted:
  assumes "\<forall>c rest'. rest = c # rest' \<longrightarrow> c \<noteq> CHR 0x22"
  shows "csv_loop (escape_quotes s @ CHR 0x22 # rest) field row rows True =
    csv_loop rest (field @ s) row rows False"
proof (induction s arbitrary: field)
  case Nil
  with assms show ?case by (cases rest) auto
next
  case (Cons c s)
  then show ?case by simp
qed

lemma csv_loop_plain:
  "\<forall>c \<in> set s. \<not> csv_special c \<Longrightarrow>
   csv_loop (s @ rest) field row rows False = csv_loop rest (field @ s) row rows False"
  by (induction s arbitrary: field) (auto simp: csv_special_def)

lemma csv_loop_field:
  assumes "field_ok f" and "\<forall>c rest'. rest = c # rest' \<longrightarrow> c \<noteq> CHR 0x22"
  shows "csv_loop (write_field f @ rest) [] row rows False = csv_loop rest (snd f) row rows False"
proof (cases f)
  case (Pair q s)
  with assms show ?thesis
    using csv_loop_quoted [OF assms(2), of s "[]"] csv_loop_plain [of s rest "[]"]
    by (cases q) simp_all
qed

lemma csv_loop_eol:
  "csv_loop (csv_eol crlf @ rest) field row rows False = csv_loop rest [] [] (rows @ [row @ [field]]) False"
  by (cases rest) (auto simp: csv_eol_def)

lemma csv_eol_not_quote: "csv_eol crlf @ rest = c # rest' \<Longrightarrow> c \<noteq> CHR 0x22"
  by (auto simp: csv_eol_def split: if_splits)

lemma csv_loop_record:
  assumes "fs \<noteq> []" and "\<forall>f \<in> set fs. field_ok f"
  shows "csv_loop (join '','' (map write_field fs) @ csv_eol crlf @ rest) [] row rows False =
    csv_loop rest [] [] (rows @ [row @ map snd fs]) False"
  using assms
proof (induction fs arbitrary: row)
  case Nil
  then show ?case by simp
next
  case (Cons f fs)
  show ?case
  proof (cases "fs = []")
    case True
    with Cons.prems show ?thesis
      using csv_loop_field [of f "csv_eol crlf @ rest"] csv_eol_not_quote [of crlf rest]
      by (simp add: csv_loop_eol)
  next
    case False
    let ?tail = "join '','' (map write_field fs) @ csv_eol crlf @ rest"
    have "csv_loop (write_field f @ CHR '','' # ?tail) [] row rows False
        = csv_loop (CHR '','' # ?tail) (snd f) row rows False"
      using Cons.prems by (intro csv_loop_field) auto
    also have "\<dots> = csv_loop ?tail [] (row @ [snd f]) rows False" by simp
    also have "\<dots> = csv_loop rest [] [] (rows @ [(row @ [snd f]) @ map snd fs]) False"
      using Cons.prems False by (intro Cons.IH) auto
    finally show ?thesis using False by (simp add: join_Cons)
  qed
qed

lemma csv_loop_records:
  assumes "\<forall>r \<in> set rs. fst r \<noteq> [] \<and> (\<forall>f \<in> set (fst r). field_ok f)"
  shows "csv_loop (concat (map write_record rs)) [] [] rows False = rows @ map (map snd \<circ> fst) rs"
  using assms
proof (induction rs arbitrary: rows)
  case Nil
  then show ?case by simp
next
  case (Cons r rs)
  have "csv_loop (write_record r @ concat (map write_record rs)) [] [] rows False =
      csv_loop (concat (map write_record rs)) [] [] (rows @ [map snd (fst r)]) False"
    using csv_loop_record [of "fst r" "snd r" "concat (map write_record rs)" "[]" rows] Cons.prems
    by (simp add: write_record_def [of r])
  with Cons show ?case by simp
qed

lemma write_csv_no_bom:
  assumes "\<forall>r \<in> set rs. fst r \<noteq> [] \<and> (\<forall>f \<in> set (fst r). field_ok f)"
    and "concat (map write_record rs) = c # rest"
  shows "c \<noteq> bom"
proof (cases rs)
  case Nil
  with assms(2) show ?thesis by simp
next
  case (Cons r rs')
  then obtain f fs where fs: "fst r = f # fs" and ok: "field_ok f"
    using assms(1) by (cases "fst r") auto
  have sp: "c \<noteq> bom" if "write_field f @ x = c # rest" "x = [] \<or> hd x \<noteq> bom" "x \<noteq> []" for x
    using that ok by (cases f, cases "fst f"; cases "snd f")
      (auto simp: csv_special_def bom_def Cons_eq_append_conv)
  have "concat (map write_record rs) = write_field f @
      (if fs = [] then csv_eol (snd r) else '','' @ join '','' (map write_field fs) @ csv_eol (snd r))
      @ concat (map write_record rs')"
    by (simp add: Cons write_record_def fs join_Cons)
  with assms(2) show ?thesis
    by (intro sp) (auto simp: csv_eol_def bom_def split: if_splits)
qed



section \<open>The loader\<close>

definition CSV_SOURCE :: string where
  "CSV_SOURCE = ''csv-watchlist-v1''"

text \<open>The address and the source of a row; a row of the parser has at least one field.\<close>

definition row_address :: "string list \<Rightarrow> string" where
  "row_address cells = normalizeStellarAddress (hd cells)"

definition row_source :: "string list \<Rightarrow> string" where
  "row_source cells =
     (case cells of _ # f # _ \<Rightarrow> (let s = trim f in if s = [] then CSV_SOURCE else s) | _ \<Rightarrow> CSV_SOURCE)"

definition row_blank :: "string list \<Rightarrow> bool" where
  "row_blank cells \<longleftrightarrow> length cells = 1 \<and> trim (hd cells) = []"

definition warn_invalid :: "string \<Rightarrow> nat \<Rightarrow> string \<Rightarrow> string" where
  "warn_invalid path i address = ''sanctions-oracle: skipping invalid address at line ''
     @ dec_of_nat (i + 1) @ '' of '' @ path @ '': '' @ [CHR 0x22] @ address @ [CHR 0x22]
     @ '' is not a valid Stellar G... address''"

definition warn_duplicate :: "string \<Rightarrow> nat \<Rightarrow> string \<Rightarrow> string \<Rightarrow> string" where
  "warn_duplicate path i address source = ''sanctions-oracle: address '' @ address
     @ '' appears more than once with source '' @ [CHR 0x22] @ source @ [CHR 0x22] @ '' at line ''
     @ dec_of_nat (i + 1) @ '' of '' @ path @ ''; the duplicate row was ignored''"

definition warn_aggregated :: "string \<Rightarrow> nat \<Rightarrow> string \<Rightarrow> string \<Rightarrow> string" where
  "warn_aggregated path i address source = ''sanctions-oracle: address '' @ address
     @ '' appears more than once at line '' @ dec_of_nat (i + 1) @ '' of '' @ path
     @ ''; aggregating source '' @ [CHR 0x22] @ source @ [CHR 0x22] @ '' with existing sources''"

type_synonym watchlist = "(string, string list) jsmap"

definition load_row ::
  "(string \<Rightarrow> bool) \<Rightarrow> string \<Rightarrow> nat \<Rightarrow> string list \<Rightarrow> watchlist \<times> string list \<Rightarrow> watchlist \<times> string list" where
  "load_row strkey path i cells st = (case st of (m, ws) \<Rightarrow>
     if row_blank cells then (m, ws)
     else
       let address = row_address cells in
       if \<not> isValidStellarAddress strkey address then (m, ws @ [warn_invalid path i address])
       else
         let source = row_source cells in
         case map_get m address of
           None \<Rightarrow> (map_set address [source] m, ws)
         | Some existing \<Rightarrow>
             if source \<in> set existing then (m, ws @ [warn_duplicate path i address source])
             else (map_set address (existing @ [source]) m, ws @ [warn_aggregated path i address source]))"

fun load_rows ::
  "(string \<Rightarrow> bool) \<Rightarrow> string \<Rightarrow> nat \<Rightarrow> string list list \<Rightarrow> watchlist \<times> string list \<Rightarrow> watchlist \<times> string list" where
  "load_rows strkey path i [] st = st"
| "load_rows strkey path i (cells # rows) st =
     load_rows strkey path (Suc i) rows (load_row strkey path i cells st)"

record file_system =
  fs_existsSync :: "string \<Rightarrow> thrown + bool"
  fs_readFileSync :: "string \<Rightarrow> thrown + string"

text \<open>\<open>loadCsv\<close>: the watchlist and the warnings, in the order they were logged.\<close>

definition loadCsv :: "file_system \<Rightarrow> (string \<Rightarrow> bool) \<Rightarrow> string \<Rightarrow> watchlist \<times> string list" where
  "loadCsv fs strkey csvPath =
     (case js_bind (fs_existsSync fs csvPath) (\<lambda>exists.
              if exists then js_bind (fs_readFileSync fs csvPath) (\<lambda>content. Ret (Some content))
              else Ret None) of
        Throw error \<Rightarrow> ([], [''sanctions-oracle: Failed to load CSV from '' @ csvPath @ '': ''
             @ thrown_message error @ '', no addresses will be flagged''])
      | Ret None \<Rightarrow> ([], [''sanctions-oracle: CSV file not found at path: '' @ csvPath
             @ '', no addresses will be flagged''])
      | Ret (Some content) \<Rightarrow> load_rows strkey csvPath 1 (tl (parseCsv content)) ([], []))"

definition csv_checkAddress :: "watchlist \<Rightarrow> 'w provider" where
  "csv_checkAddress flaggedAddresses address w =
     (case map_get flaggedAddresses (normalizeStellarAddress address) of
        Some sources \<Rightarrow>
          if 0 < length sources then (Ret (unscored True (join '','' sources)), w)
          else (Ret (unscored False CSV_SOURCE), w)
      | None \<Rightarrow> (Ret (unscored False CSV_SOURCE), w))"

interpretation csv: sanctions_provider "csv_checkAddress flaggedAddresses" for flaggedAddresses
  by unfold_locales (simp add: csv_checkAddress_def)

section \<open>What the loader computes\<close>

text \<open>
  The specification: the sources of an account are the sources of its valid rows, each once, in
  the order of the file.
\<close>

definition rows_of :: "(string \<Rightarrow> bool) \<Rightarrow> string list list \<Rightarrow> string \<Rightarrow> string list list" where
  "rows_of strkey rows a =
     filter (\<lambda>cells. \<not> row_blank cells \<and> strkey (row_address cells) \<and> row_address cells = a) rows"

definition sources_of :: "(string \<Rightarrow> bool) \<Rightarrow> string list list \<Rightarrow> string \<Rightarrow> string list" where
  "sources_of strkey rows a = js_set_of (map row_source (rows_of strkey rows a))"

lemma load_row_get:
  "map_get (fst (load_row strkey path i cells st)) a =
     (if \<not> row_blank cells \<and> strkey (row_address cells) \<and> row_address cells = a
      then Some (set_add (row_source cells) (case map_get (fst st) a of None \<Rightarrow> [] | Some ss \<Rightarrow> ss))
      else map_get (fst st) a)"
  by (cases st)
    (auto simp: load_row_def Let_def map_simps set_add_def isValidStellarAddress_def split: option.splits)

lemma load_rows_get:
  "map_get (fst (load_rows strkey path i rows st)) a =
     (if rows_of strkey rows a = [] then map_get (fst st) a
      else Some (foldl (\<lambda>s x. set_add x s) (case map_get (fst st) a of None \<Rightarrow> [] | Some ss \<Rightarrow> ss)
        (map row_source (rows_of strkey rows a))))"
proof (induction rows arbitrary: i st)
  case Nil
  then show ?case by (simp add: rows_of_def)
next
  case (Cons cells rows)
  show ?case
    unfolding load_rows.simps Cons.IH load_row_get
    by (auto simp: rows_of_def)
qed

lemma sources_of_empty_iff: "sources_of strkey rows a = [] \<longleftrightarrow> rows_of strkey rows a = []"
proof -
  have "set (sources_of strkey rows a) = row_source ` set (rows_of strkey rows a)"
    by (simp add: sources_of_def)
  then show ?thesis by (metis image_is_empty set_empty)
qed

lemma load_rows_sources:
  "map_get (fst (load_rows strkey path i rows ([], ws))) a =
     (if sources_of strkey rows a = [] then None else Some (sources_of strkey rows a))"
  unfolding load_rows_get sources_of_empty_iff by (simp add: sources_of_def js_set_of_def)

text \<open>
  The provider built from a readable file flags an account exactly when a data row of the
  file names it under some spelling, and reports the sources of those rows, each once, in file
  order.
\<close>

theorem csv_provider_correct:
  assumes "fs_existsSync fs path = Ret True" and "fs_readFileSync fs path = Ret content"
  shows "csv_checkAddress (fst (loadCsv fs strkey path)) address w =
    (let sources = sources_of strkey (tl (parseCsv content)) (normalizeStellarAddress address) in
     (Ret (if sources = [] then unscored False CSV_SOURCE else unscored True (join '','' sources)), w))"
proof -
  have "fst (loadCsv fs strkey path) = fst (load_rows strkey path 1 (tl (parseCsv content)) ([], []))"
    using assms by (simp add: loadCsv_def)
  then show ?thesis
    by (simp add: csv_checkAddress_def load_rows_sources Let_def)
qed

theorem csv_provider_correct_witness:
  "csv_checkAddress (fst (loadCsv \<lparr>fs_existsSync = \<lambda>_. Ret True,
       fs_readFileSync = \<lambda>_. Ret (''address,source'' @ [CHR 0x0A] @ ''ga,ofac'' @ [CHR 0x0A] @ ''GA,eu'')\<rparr>
     (\<lambda>a. a = ''GA'') ''list.csv'')) '' Ga '' () = (Ret (unscored True ''ofac,eu''), ())"
proof -
  let ?fs = "\<lparr>fs_existsSync = \<lambda>_. Ret True,
       fs_readFileSync = \<lambda>_. Ret (''address,source'' @ [CHR 0x0A] @ ''ga,ofac'' @ [CHR 0x0A] @ ''GA,eu'')\<rparr>
     :: file_system"
  have "fs_existsSync ?fs ''list.csv'' = Ret True" by simp
  moreover have "fs_readFileSync ?fs ''list.csv'' =
      Ret (''address,source'' @ [CHR 0x0A] @ ''ga,ofac'' @ [CHR 0x0A] @ ''GA,eu'')" by simp
  moreover have "sources_of (\<lambda>a. a = ''GA'')
      (tl (parseCsv (''address,source'' @ [CHR 0x0A] @ ''ga,ofac'' @ [CHR 0x0A] @ ''GA,eu'')))
      (normalizeStellarAddress '' Ga '') = [''ofac'', ''eu'']"
    by code_simp
  ultimately show ?thesis
    using csv_provider_correct [of ?fs "''list.csv''" _ "\<lambda>a. a = ''GA''" "'' Ga ''" "()"]
    by (simp add: Let_def)
qed

text \<open>The loader never throws: an unreadable file leaves the watchlist empty, with one warning.\<close>

lemma csv_unreadable_flags_nothing:
  assumes "fs_existsSync fs path = Throw e \<or> fs_existsSync fs path = Ret False
    \<or> (fs_existsSync fs path = Ret True \<and> fs_readFileSync fs path = Throw e)"
  shows "csv_checkAddress (fst (loadCsv fs strkey path)) address w = (Ret (unscored False CSV_SOURCE), w)
    \<and> length (snd (loadCsv fs strkey path)) = 1"
  using assms by (auto simp: loadCsv_def csv_checkAddress_def)

end
