(* ===== verification/Gate.thy ===== *)
theory Gate
  imports JsPrelude
begin

text \<open>
  The interface of a first-come-first-served concurrency gate, shared by the semaphore of
  \<open>shared/src/semaphore.ts\<close> and the slot queue of \<open>sanctions-oracle/src/rateLimitedProvider.ts\<close>.

  Requests are numbered in order of arrival. \<open>running\<close> lists the requests that hold a slot,
  \<open>waiting\<close> those that queue for one. The laws say what an arrival and a release do to the two
  lists; the lemmas derive once, for every provider, that the number of holders never exceeds
  the capacity, that nobody queues while a slot is free, and that nobody is overtaken.
\<close>

datatype gate_op = Arrive | Leave nat

fun gate_run ::
  "('s \<Rightarrow> 's) \<Rightarrow> (nat \<Rightarrow> 's \<Rightarrow> 's) \<Rightarrow> ('s \<Rightarrow> nat list) \<Rightarrow> gate_op list \<Rightarrow> 's \<Rightarrow> 's" where
  "gate_run acquire release running [] s = s"
| "gate_run acquire release running (Arrive # ops) s =
     gate_run acquire release running ops (acquire s)"
| "gate_run acquire release running (Leave i # ops) s =
     gate_run acquire release running ops (if i \<in> set (running s) then release i s else s)"

definition gate_ok :: "nat \<Rightarrow> nat list \<Rightarrow> nat list \<Rightarrow> nat \<Rightarrow> bool" where
  "gate_ok cap running waiting next_id \<longleftrightarrow>
     length running \<le> cap \<and> (waiting \<noteq> [] \<longrightarrow> length running = cap)
     \<and> distinct running \<and> sorted_wrt (<) waiting
     \<and> (\<forall>i \<in> set running. \<forall>j \<in> set waiting. i < j)
     \<and> (\<forall>i \<in> set running \<union> set waiting. i < next_id)"

lemma gate_ok_Nil [simp]: "gate_ok cap [] [] n"
  by (simp add: gate_ok_def)

lemma gate_ok_arrive:
  assumes "gate_ok cap running waiting n"
  shows "gate_ok cap (if length running < cap then running @ [n] else running)
       (if length running < cap then waiting else waiting @ [n]) (Suc n)"
proof (cases "length running < cap")
  case True
  with assms have "waiting = []" by (auto simp: gate_ok_def)
  with True assms show ?thesis by (auto simp: gate_ok_def less_Suc_eq)
next
  case False
  with assms show ?thesis by (auto simp: gate_ok_def less_Suc_eq sorted_wrt_append)
qed

lemma gate_ok_leave:
  assumes ok: "gate_ok cap running waiting n" and i: "i \<in> set running"
  shows "gate_ok cap (remove1 i running @ take 1 waiting) (drop 1 waiting) n"
proof (cases waiting)
  case Nil
  with assms show ?thesis
    by (auto simp: gate_ok_def length_remove1 dest: notin_set_remove1)
next
  case (Cons w ws)
  have "length (remove1 i running) + 1 = length running"
    using i length_pos_if_in_set [OF i] by (simp add: length_remove1)
  with Cons ok show ?thesis
    by (auto simp: gate_ok_def dest: notin_set_remove1)
qed

lemma gate_ok_cancel:
  assumes ok: "gate_ok cap running waiting n"
  shows "gate_ok cap running (filter (\<lambda>j. j \<noteq> i) waiting) n"
proof -
  have "filter (\<lambda>j. j \<noteq> i) waiting \<noteq> [] \<longrightarrow> waiting \<noteq> []" by auto
  with ok show ?thesis by (auto simp: gate_ok_def sorted_wrt_filter)
qed

section \<open>The interface\<close>

locale fifo_gate =
  fixes acquire :: "'s \<Rightarrow> 's"
    and release :: "nat \<Rightarrow> 's \<Rightarrow> 's"
    and running :: "'s \<Rightarrow> nat list"
    and waiting :: "'s \<Rightarrow> nat list"
    and next_id :: "'s \<Rightarrow> nat"
    and init :: 's
    and inv :: "'s \<Rightarrow> bool"
    and cap :: nat
  assumes init_inv: "inv init"
    and init_running: "running init = []"
    and init_waiting: "waiting init = []"
    and acquire_inv: "inv s \<Longrightarrow> inv (acquire s)"
    and acquire_running: "inv s \<Longrightarrow>
      running (acquire s) = (if length (running s) < cap then running s @ [next_id s] else running s)"
    and acquire_waiting: "inv s \<Longrightarrow>
      waiting (acquire s) = (if length (running s) < cap then waiting s else waiting s @ [next_id s])"
    and acquire_next: "inv s \<Longrightarrow> next_id (acquire s) = Suc (next_id s)"
    and release_inv: "inv s \<Longrightarrow> i \<in> set (running s) \<Longrightarrow> inv (release i s)"
    and release_running: "inv s \<Longrightarrow> gate_ok cap (running s) (waiting s) (next_id s) \<Longrightarrow>
      i \<in> set (running s) \<Longrightarrow>
      running (release i s) = remove1 i (running s) @ take 1 (waiting s)"
    and release_waiting: "inv s \<Longrightarrow> gate_ok cap (running s) (waiting s) (next_id s) \<Longrightarrow>
      i \<in> set (running s) \<Longrightarrow> waiting (release i s) = drop 1 (waiting s)"
    and release_next: "inv s \<Longrightarrow> i \<in> set (running s) \<Longrightarrow> next_id (release i s) = next_id s"
begin

abbreviation ok :: "'s \<Rightarrow> bool" where
  "ok s \<equiv> inv s \<and> gate_ok cap (running s) (waiting s) (next_id s)"

lemma ok_init: "ok init"
  by (simp add: init_inv init_running init_waiting)

lemma ok_acquire: "ok s \<Longrightarrow> ok (acquire s)"
  using gate_ok_arrive [of cap "running s" "waiting s" "next_id s"]
  by (simp add: acquire_inv acquire_running acquire_waiting acquire_next)

lemma ok_release: "ok s \<Longrightarrow> i \<in> set (running s) \<Longrightarrow> ok (release i s)"
  using gate_ok_leave [of cap "running s" "waiting s" "next_id s" i]
  by (simp add: release_inv release_running release_waiting release_next)

lemma ok_run: "ok s \<Longrightarrow> ok (gate_run acquire release running ops s)"
proof (induction ops arbitrary: s)
  case Nil
  then show ?case by simp
next
  case (Cons op ops)
  then show ?case by (cases op) (auto simp: ok_acquire ok_release)
qed

lemma run_bounded: "length (running (gate_run acquire release running ops init)) \<le> cap"
  using ok_run [OF ok_init, of ops] by (simp add: gate_ok_def)

lemma run_no_idle_slot:
  "waiting (gate_run acquire release running ops init) \<noteq> [] \<Longrightarrow>
   length (running (gate_run acquire release running ops init)) = cap"
  using ok_run [OF ok_init, of ops] by (simp add: gate_ok_def)

lemma run_no_overtaking:
  "i \<in> set (running (gate_run acquire release running ops init)) \<Longrightarrow>
   j \<in> set (waiting (gate_run acquire release running ops init)) \<Longrightarrow> i < j"
  using ok_run [OF ok_init, of ops] by (simp add: gate_ok_def)

text \<open>A release hands the slot to the request that has waited longest.\<close>

lemma release_admits_head:
  assumes "ok s" and "i \<in> set (running s)" and "waiting s = j # js"
  shows "j \<in> set (running (release i s)) \<and> waiting (release i s) = js"
  using assms by (simp add: release_running release_waiting)

end

text \<open>A gate whose waiting requests can give up (timeout, abort).\<close>

locale cancellable_gate = fifo_gate +
  fixes cancel :: "nat \<Rightarrow> 'a \<Rightarrow> 'a"
  assumes cancel_inv: "inv s \<Longrightarrow> inv (cancel i s)"
    and cancel_running: "inv s \<Longrightarrow> running (cancel i s) = running s"
    and cancel_waiting: "inv s \<Longrightarrow> waiting (cancel i s) = filter (\<lambda>j. j \<noteq> i) (waiting s)"
    and cancel_next: "inv s \<Longrightarrow> next_id (cancel i s) = next_id s"
begin

lemma ok_cancel: "ok s \<Longrightarrow> ok (cancel i s)"
  by (simp add: cancel_inv cancel_running cancel_waiting cancel_next gate_ok_cancel)

lemma cancel_keeps_slots: "ok s \<Longrightarrow> running (cancel i s) = running s"
  by (simp add: cancel_running)

end

end
