(* ===== verification/Semaphore.thy ===== *)
theory Semaphore
  imports Complex_Main Gate
begin

text \<open>
  \<open>shared/src/semaphore.ts\<close>: \<open>createSemaphore\<close>, a first-come-first-served semaphore whose
  waiters can time out or be aborted and whose release function is idempotent.

  The closure state of \<open>createSemaphore\<close> is a record: \<open>inUse\<close>, the queue of waiters, and, per
  request number, the flags that the source keeps in closures (\<open>settled\<close> of a waiter,
  \<open>released\<close> of a release function). \<open>sem_granted\<close> and \<open>sem_rejected\<close> record the promises that
  resolved and rejected. The events are the calls a client makes and the firing of a waiter's
  timer or abort listener.
\<close>

section \<open>Construction\<close>

datatype js_limit = Finite rat | Infinite | NotANumber

datatype semaphore_kind = Unlimited | Limited rat

definition createSemaphore :: "js_limit \<Rightarrow> thrown + semaphore_kind" where
  "createSemaphore limit = (case limit of
     Infinite \<Rightarrow> Ret Unlimited
   | NotANumber \<Rightarrow> Throw (mk_error ''semaphore limit must be a positive number or Infinity'')
   | Finite l \<Rightarrow> (if l \<le> 0 then Throw (mk_error ''semaphore limit must be a positive number or Infinity'')
                 else Ret (Limited l)))"

section \<open>State and operations\<close>

record sem_state =
  sem_next :: nat
  sem_inUse :: nat
  sem_queue :: "nat list"
  sem_settled :: "nat list"
  sem_released :: "nat list"
  sem_granted :: "nat list"
  sem_rejected :: "(nat \<times> thrown) list"

definition sem_init :: sem_state where
  "sem_init = \<lparr>sem_next = 0, sem_inUse = 0, sem_queue = [], sem_settled = [], sem_released = [],
     sem_granted = [], sem_rejected = []\<rparr>"

definition semaphore_timeout_error :: "nat \<Rightarrow> thrown" where
  "semaphore_timeout_error timeoutMs = Exn ''SemaphoreTimeoutError''
     (''semaphore acquire timed out after '' @ dec_of_nat timeoutMs @ ''ms'') no_props"

text \<open>\<open>waiter.grant()\<close>, and the loop of \<open>drain\<close> over the queue.\<close>

definition sem_grant :: "nat \<Rightarrow> sem_state \<Rightarrow> sem_state" where
  "sem_grant w s = s\<lparr>sem_inUse := Suc (sem_inUse s), sem_granted := sem_granted s @ [w]\<rparr>"

fun drain_loop :: "rat \<Rightarrow> nat list \<Rightarrow> sem_state \<Rightarrow> sem_state" where
  "drain_loop limit [] s = s\<lparr>sem_queue := []\<rparr>"
| "drain_loop limit (w # ws) s =
     (if of_nat (sem_inUse s) < limit then
        (if w \<in> set (sem_settled s) then drain_loop limit ws s
         else drain_loop limit ws (sem_grant w (s\<lparr>sem_settled := w # sem_settled s\<rparr>)))
      else s\<lparr>sem_queue := w # ws\<rparr>)"

definition drain :: "rat \<Rightarrow> sem_state \<Rightarrow> sem_state" where
  "drain limit s = drain_loop limit (sem_queue s) s"

text \<open>\<open>acquire\<close> with a signal that is not aborted: a free slot is taken at once, otherwise a
  waiter joins the queue.\<close>

definition sem_acquire :: "rat \<Rightarrow> sem_state \<Rightarrow> sem_state" where
  "sem_acquire limit s =
     (let w = sem_next s; s = s\<lparr>sem_next := Suc w\<rparr> in
      if of_nat (sem_inUse s) < limit then
        s\<lparr>sem_inUse := Suc (sem_inUse s), sem_granted := sem_granted s @ [w]\<rparr>
      else s\<lparr>sem_queue := sem_queue s @ [w]\<rparr>)"

text \<open>\<open>acquire\<close> with an aborted signal throws before it touches the state.\<close>

definition sem_acquire_signal :: "rat \<Rightarrow> thrown option \<Rightarrow> sem_state \<Rightarrow> thrown + sem_state" where
  "sem_acquire_signal limit aborted s = (case aborted of
     Some reason \<Rightarrow> Throw reason
   | None \<Rightarrow> Ret (sem_acquire limit s))"

text \<open>The release function of request \<open>i\<close>.\<close>

definition sem_release :: "rat \<Rightarrow> nat \<Rightarrow> sem_state \<Rightarrow> sem_state" where
  "sem_release limit i s =
     (if i \<in> set (sem_released s) then s
      else let s = s\<lparr>sem_released := i # sem_released s\<rparr>;
               s = (if sem_inUse s > 0 then s\<lparr>sem_inUse := sem_inUse s - 1\<rparr> else s)
           in drain limit s)"

text \<open>\<open>fail(err)\<close> of waiter \<open>i\<close>: what its timer and its abort listener run.\<close>

definition sem_fail :: "thrown \<Rightarrow> nat \<Rightarrow> sem_state \<Rightarrow> sem_state" where
  "sem_fail err i s =
     (if i \<in> set (sem_settled s) then s
      else s\<lparr>sem_settled := i # sem_settled s, sem_queue := remove1 i (sem_queue s),
             sem_rejected := sem_rejected s @ [(i, err)]\<rparr>)"

text \<open>A timer or listener exists only for requests that were queued.\<close>

definition sem_cancel :: "thrown \<Rightarrow> nat \<Rightarrow> sem_state \<Rightarrow> sem_state" where
  "sem_cancel err i s = (if i \<in> set (sem_queue s) then sem_fail err i s else s)"

definition sem_running :: "sem_state \<Rightarrow> nat list" where
  "sem_running s = filter (\<lambda>i. i \<notin> set (sem_released s)) (sem_granted s)"

section \<open>Invariant\<close>

definition sem_cap :: "rat \<Rightarrow> nat" where
  "sem_cap limit = nat \<lceil>limit\<rceil>"

lemma below_cap: "0 < limit \<Longrightarrow> of_nat n < limit \<longleftrightarrow> n < sem_cap limit"
  unfolding sem_cap_def by (metis less_ceiling_iff of_int_of_nat_eq zless_nat_eq_int_zless)

definition sem_inv :: "sem_state \<Rightarrow> bool" where
  "sem_inv s \<longleftrightarrow> sem_inUse s = length (sem_running s)
     \<and> distinct (sem_granted s @ sem_queue s)
     \<and> (\<forall>i \<in> set (sem_granted s) \<union> set (sem_queue s) \<union> set (sem_settled s) \<union> set (sem_released s).
          i < sem_next s)
     \<and> set (sem_queue s) \<inter> set (sem_settled s) = {}
     \<and> set (sem_queue s) \<inter> set (sem_released s) = {}"

lemma sem_inv_init: "sem_inv sem_init"
  by (simp add: sem_inv_def sem_init_def sem_running_def)

lemma sem_inv_acquire:
  "sem_inv s \<Longrightarrow> sem_inv (sem_acquire limit s)"
  by (auto simp: sem_inv_def sem_acquire_def Let_def sem_running_def less_Suc_eq)

lemma sem_running_acquire:
  "sem_inv s \<Longrightarrow> 0 < limit \<Longrightarrow> sem_running (sem_acquire limit s) =
     (if length (sem_running s) < sem_cap limit then sem_running s @ [sem_next s] else sem_running s)"
  by (auto simp: sem_inv_def sem_acquire_def Let_def sem_running_def below_cap)

lemma sem_queue_acquire:
  "sem_inv s \<Longrightarrow> 0 < limit \<Longrightarrow> sem_queue (sem_acquire limit s) =
     (if length (sem_running s) < sem_cap limit then sem_queue s else sem_queue s @ [sem_next s])"
  by (auto simp: sem_inv_def sem_acquire_def Let_def below_cap)

lemma sem_next_acquire [simp]: "sem_next (sem_acquire limit s) = Suc (sem_next s)"
  by (simp add: sem_acquire_def Let_def)

subsection \<open>Draining\<close>

text \<open>
  Draining a queue of unsettled waiters admits as many of them as there are free slots, in
  order.
\<close>

lemma drain_loop_eq:
  assumes "0 < limit" and "distinct ws" and "set ws \<inter> set (sem_settled s) = {}"
  shows "drain_loop limit ws s =
     (let k = sem_cap limit - sem_inUse s in
      s\<lparr>sem_queue := drop k ws, sem_settled := rev (take k ws) @ sem_settled s,
        sem_inUse := sem_inUse s + min k (length ws), sem_granted := sem_granted s @ take k ws\<rparr>)"
  using assms(2,3)
proof (induction ws arbitrary: s)
  case Nil
  then show ?case by simp
next
  case (Cons w ws)
  show ?case
  proof (cases "sem_inUse s < sem_cap limit")
    case True
    let ?s = "sem_grant w (s\<lparr>sem_settled := w # sem_settled s\<rparr>)"
    obtain k where k: "sem_cap limit - sem_inUse s = Suc k"
      using True by (metis Suc_diff_Suc)
    then have k': "sem_cap limit - sem_inUse ?s = k"
      by (simp add: sem_grant_def)
    have "drain_loop limit (w # ws) s = drain_loop limit ws ?s"
      using True Cons.prems by (simp add: below_cap assms(1))
    also have "\<dots> = (let k = sem_cap limit - sem_inUse ?s in
        ?s\<lparr>sem_queue := drop k ws, sem_settled := rev (take k ws) @ sem_settled ?s,
          sem_inUse := sem_inUse ?s + min k (length ws), sem_granted := sem_granted ?s @ take k ws\<rparr>)"
      using Cons.prems by (intro Cons.IH) (auto simp: sem_grant_def)
    finally show ?thesis
      by (simp only: k k' Let_def) (simp add: sem_grant_def)
  next
    case False
    then show ?thesis by (simp add: below_cap assms(1))
  qed
qed

lemma sem_release_eq:
  assumes inv: "sem_inv s" and limit: "0 < limit"
    and ok: "gate_ok (sem_cap limit) (sem_running s) (sem_queue s) (sem_next s)"
    and i: "i \<in> set (sem_running s)"
  shows "sem_release limit i s =
     s\<lparr>sem_released := i # sem_released s, sem_queue := drop 1 (sem_queue s),
       sem_settled := rev (take 1 (sem_queue s)) @ sem_settled s,
       sem_inUse := sem_inUse s - 1 + length (take 1 (sem_queue s)),
       sem_granted := sem_granted s @ take 1 (sem_queue s)\<rparr>"
proof -
  let ?s = "s\<lparr>sem_released := i # sem_released s, sem_inUse := sem_inUse s - 1\<rparr>"
  have use: "sem_inUse s = length (sem_running s)" using inv by (simp add: sem_inv_def)
  then have pos: "0 < sem_inUse s" using i by (cases "sem_running s") auto
  have notrel: "i \<notin> set (sem_released s)" using i by (simp add: sem_running_def)
  from notrel pos have "sem_release limit i s = drain_loop limit (sem_queue s) ?s"
    by (simp add: sem_release_def drain_def Let_def)
  also have "\<dots> = (let k = sem_cap limit - sem_inUse ?s in
      ?s\<lparr>sem_queue := drop k (sem_queue s), sem_settled := rev (take k (sem_queue s)) @ sem_settled ?s,
        sem_inUse := sem_inUse ?s + min k (length (sem_queue s)),
        sem_granted := sem_granted ?s @ take k (sem_queue s)\<rparr>)"
    using inv limit by (intro drain_loop_eq) (auto simp: sem_inv_def)
  finally have eq: "sem_release limit i s = \<dots>" .
  show ?thesis
  proof (cases "sem_queue s")
    case Nil
    then show ?thesis by (simp add: eq Let_def)
  next
    case (Cons w ws)
    with ok use have "sem_inUse s = sem_cap limit" by (simp add: gate_ok_def)
    with pos have "sem_cap limit - (sem_inUse s - 1) = 1" by simp
    then show ?thesis by (simp add: eq Let_def Cons)
  qed
qed

lemma filter_released_remove1:
  "distinct xs \<Longrightarrow> filter (\<lambda>j. j \<notin> set (i # rel)) xs = remove1 i (filter (\<lambda>j. j \<notin> set rel) xs)"
  by (simp add: distinct_remove1_removeAll removeAll_filter_not_eq) (metis (lifting))

lemma filter_released_take:
  "\<forall>w \<in> set ws. w \<notin> set rel \<and> w \<noteq> i \<Longrightarrow> filter (\<lambda>j. j \<notin> set (i # rel)) (take n ws) = take n ws"
  by (metis (no_types, lifting) filter_True in_set_takeD set_ConsD)

lemma sem_release_fields:
  assumes "sem_inv s" and "0 < limit"
    and "gate_ok (sem_cap limit) (sem_running s) (sem_queue s) (sem_next s)"
    and "i \<in> set (sem_running s)"
  shows "sem_next (sem_release limit i s) = sem_next s"
    and "sem_queue (sem_release limit i s) = drop 1 (sem_queue s)"
    and "sem_settled (sem_release limit i s) = rev (take 1 (sem_queue s)) @ sem_settled s"
    and "sem_released (sem_release limit i s) = i # sem_released s"
    and "sem_inUse (sem_release limit i s) = sem_inUse s - 1 + length (take 1 (sem_queue s))"
    and "sem_granted (sem_release limit i s) = sem_granted s @ take 1 (sem_queue s)"
  unfolding sem_release_eq [OF assms] by simp_all

lemma sem_release_running:
  assumes inv: "sem_inv s" and limit: "0 < limit"
    and ok: "gate_ok (sem_cap limit) (sem_running s) (sem_queue s) (sem_next s)"
    and i: "i \<in> set (sem_running s)"
  shows "sem_running (sem_release limit i s) = remove1 i (sem_running s) @ take 1 (sem_queue s)"
proof -
  have "i \<in> set (sem_granted s)" using i by (simp add: sem_running_def)
  then have "\<forall>w \<in> set (sem_queue s). w \<notin> set (sem_released s) \<and> w \<noteq> i"
    using inv by (auto simp: sem_inv_def)
  moreover have "distinct (sem_granted s)" using inv by (simp add: sem_inv_def)
  ultimately show ?thesis
    unfolding sem_running_def sem_release_fields [OF assms]
    by (simp only: filter_append filter_released_remove1 filter_released_take)
qed

lemma sem_release_inv:
  assumes inv: "sem_inv s" and limit: "0 < limit"
    and ok: "gate_ok (sem_cap limit) (sem_running s) (sem_queue s) (sem_next s)"
    and i: "i \<in> set (sem_running s)"
  shows "sem_inv (sem_release limit i s)"
proof -
  let ?q = "sem_queue s"
  note fields = sem_release_fields [OF assms]
  have q: "set (take 1 ?q) \<subseteq> set ?q" "set (drop 1 ?q) \<subseteq> set ?q"
    by (rule set_take_subset, rule set_drop_subset)
  have g: "distinct (sem_granted s @ take 1 ?q @ drop 1 ?q)"
    using inv by (simp add: sem_inv_def)
  have i': "i \<in> set (sem_granted s)" using i by (simp add: sem_running_def)
  have len: "length (remove1 i (sem_running s)) = sem_inUse s - 1"
    using i inv by (simp add: length_remove1 sem_inv_def)
  show ?thesis
    unfolding sem_inv_def fields
  proof (intro conjI)
    show "sem_inUse s - 1 + length (take 1 ?q) = length (sem_running (sem_release limit i s))"
      unfolding sem_release_running [OF assms] by (simp only: length_append len)
    show "distinct ((sem_granted s @ take 1 ?q) @ drop 1 ?q)" using g by simp
    show "\<forall>j \<in> set (sem_granted s @ take 1 ?q) \<union> set (drop 1 ?q)
        \<union> set (rev (take 1 ?q) @ sem_settled s) \<union> set (i # sem_released s). j < sem_next s"
      using inv q i' unfolding sem_inv_def set_append set_rev list.set by blast
    show "set (drop 1 ?q) \<inter> set (rev (take 1 ?q) @ sem_settled s) = {}"
      using inv g q unfolding sem_inv_def set_append set_rev distinct_append by blast
    show "set (drop 1 ?q) \<inter> set (i # sem_released s) = {}"
      using inv q i' unfolding sem_inv_def distinct_append list.set by blast
  qed
qed

lemma filter_neq_remove1: "distinct xs \<Longrightarrow> remove1 i xs = filter (\<lambda>j. j \<noteq> i) xs"
  by (simp add: distinct_remove1_removeAll removeAll_filter_not_eq) (metis (lifting))

lemma filter_neq_id: "i \<notin> set xs \<Longrightarrow> filter (\<lambda>j. j \<noteq> i) xs = xs"
  by (induction xs) auto

lemma sem_cancel_fields:
  assumes "sem_inv s"
  shows "sem_next (sem_cancel err i s) = sem_next s"
    and "sem_queue (sem_cancel err i s) = filter (\<lambda>j. j \<noteq> i) (sem_queue s)"
    and "sem_granted (sem_cancel err i s) = sem_granted s"
    and "sem_released (sem_cancel err i s) = sem_released s"
    and "sem_inUse (sem_cancel err i s) = sem_inUse s"
    and "sem_settled (sem_cancel err i s) =
      (if i \<in> set (sem_queue s) then [i] else []) @ sem_settled s"
  using assms filter_neq_id [of i "sem_queue s"]
  by (auto simp: sem_cancel_def sem_fail_def sem_inv_def filter_neq_remove1)

lemma sem_cancel_running: "sem_inv s \<Longrightarrow> sem_running (sem_cancel err i s) = sem_running s"
  by (simp add: sem_running_def sem_cancel_fields)

lemma sem_cancel_inv: "sem_inv s \<Longrightarrow> sem_inv (sem_cancel err i s)"
  unfolding sem_inv_def [of "sem_cancel err i s"]
  by (simp add: sem_cancel_running sem_cancel_fields) (auto simp: sem_inv_def)

section \<open>The semaphore is a first-come-first-served gate\<close>

text \<open>
  The gate's laws for releases assume that the capacity invariant holds; the invariant of the
  provider carries it.
\<close>

definition sem_gate_inv :: "rat \<Rightarrow> sem_state \<Rightarrow> bool" where
  "sem_gate_inv limit s \<longleftrightarrow> sem_inv s
     \<and> gate_ok (sem_cap limit) (sem_running s) (sem_queue s) (sem_next s)"

lemma sem_gate_inv_acquire:
  "0 < limit \<Longrightarrow> sem_gate_inv limit s \<Longrightarrow> sem_gate_inv limit (sem_acquire limit s)"
  using gate_ok_arrive [of "sem_cap limit" "sem_running s" "sem_queue s" "sem_next s"]
  by (simp add: sem_gate_inv_def sem_inv_acquire sem_running_acquire sem_queue_acquire)

lemma sem_gate_inv_release:
  assumes "0 < limit" and "sem_gate_inv limit s" and "i \<in> set (sem_running s)"
  shows "sem_gate_inv limit (sem_release limit i s)"
proof -
  have inv: "sem_inv s"
    and ok: "gate_ok (sem_cap limit) (sem_running s) (sem_queue s) (sem_next s)"
    using assms by (auto simp: sem_gate_inv_def)
  note a = inv assms(1) ok assms(3)
  show ?thesis
    using gate_ok_leave [OF ok assms(3)] sem_release_inv [OF a]
    unfolding sem_gate_inv_def sem_release_running [OF a] sem_release_fields [OF a] by blast
qed

lemma sem_gate_inv_cancel: "sem_gate_inv limit s \<Longrightarrow> sem_gate_inv limit (sem_cancel err i s)"
  by (simp add: sem_gate_inv_def sem_cancel_inv sem_cancel_running sem_cancel_fields gate_ok_cancel)

text \<open>
  \<open>createSemaphore\<close> lets only positive limits through. \<open>checked_limit\<close> is the identity on them;
  it makes the interpretation below total in its parameter.
\<close>

definition checked_limit :: "rat \<Rightarrow> rat" where
  "checked_limit l = (case createSemaphore (Finite l) of Ret (Limited l') \<Rightarrow> l' | _ \<Rightarrow> 1)"

lemma checked_limit_pos [simp]: "0 < checked_limit l"
  by (simp add: checked_limit_def createSemaphore_def)

lemma checked_limit_id: "0 < l \<Longrightarrow> checked_limit l = l"
  by (simp add: checked_limit_def createSemaphore_def)

lemma sem_gate_inv_init: "sem_gate_inv limit sem_init"
  using sem_inv_init by (simp add: sem_gate_inv_def sem_init_def sem_running_def)

interpretation sem: cancellable_gate "sem_acquire (checked_limit l)" "sem_release (checked_limit l)"
    sem_running sem_queue sem_next sem_init "sem_gate_inv (checked_limit l)"
    "sem_cap (checked_limit l)" "sem_cancel err" for l err
proof (unfold_locales, goal_cases)
  case 1
  then show ?case by (rule sem_gate_inv_init)
next
  case 2
  then show ?case by (simp add: sem_init_def sem_running_def)
next
  case 3
  then show ?case by (simp add: sem_init_def)
next
  case (4 s)
  then show ?case by (simp add: sem_gate_inv_acquire)
next
  case (5 s)
  then show ?case by (simp add: sem_gate_inv_def sem_running_acquire)
next
  case (6 s)
  then show ?case by (simp add: sem_gate_inv_def sem_queue_acquire)
next
  case (7 s)
  then show ?case by simp
next
  case (8 s i)
  then show ?case by (simp add: sem_gate_inv_release)
next
  case (9 s i)
  then show ?case using sem_release_running [of s "checked_limit l" i] by (simp add: sem_gate_inv_def)
next
  case (10 s i)
  then show ?case using sem_release_fields(2) [of s "checked_limit l" i] by (simp add: sem_gate_inv_def)
next
  case (11 s i)
  then show ?case using sem_release_fields(1) [of s "checked_limit l" i] by (simp add: sem_gate_inv_def)
next
  case (12 s i)
  then show ?case by (rule sem_gate_inv_cancel)
next
  case (13 s i)
  then show ?case by (simp add: sem_gate_inv_def sem_cancel_running)
next
  case (14 s i)
  then show ?case by (simp add: sem_gate_inv_def sem_cancel_fields)
next
  case (15 s i)
  then show ?case by (simp add: sem_gate_inv_def sem_cancel_fields)
qed

section \<open>Runs of the semaphore\<close>

text \<open>
  What can happen to a semaphore: a call of \<open>acquire\<close>, a call of the release function of a
  request (any number of times, once it was granted), the timeout or the abort of a request.
\<close>

datatype sem_event = Acquire | Release nat | Timeout nat nat | Abort nat thrown

fun sem_step :: "rat \<Rightarrow> sem_state \<Rightarrow> sem_event \<Rightarrow> sem_state" where
  "sem_step limit s Acquire = sem_acquire limit s"
| "sem_step limit s (Release i) = (if i \<in> set (sem_granted s) then sem_release limit i s else s)"
| "sem_step limit s (Timeout i ms) = sem_cancel (semaphore_timeout_error ms) i s"
| "sem_step limit s (Abort i reason) = sem_cancel reason i s"

lemma sem_release_again: "i \<in> set (sem_released s) \<Longrightarrow> sem_release limit i s = s"
  by (simp add: sem_release_def)

lemma sem_step_release:
  "sem_step limit s (Release i) = (if i \<in> set (sem_running s) then sem_release limit i s else s)"
  by (auto simp: sem_running_def sem_release_again)

lemma sem_step_ok:
  assumes "0 < limit" and "sem_gate_inv limit s"
  shows "sem_gate_inv limit (sem_step limit s e)"
proof (cases e)
  case (Release i)
  then show ?thesis using assms by (simp only: sem_step_release) (simp add: sem_gate_inv_release)
qed (use assms in \<open>simp_all add: sem_gate_inv_acquire sem_gate_inv_cancel\<close>)

lemma sem_run_ok: "0 < limit \<Longrightarrow> sem_gate_inv limit (foldl (sem_step limit) sem_init es)"
  by (induction es rule: rev_induct) (simp_all add: sem_gate_inv_init sem_step_ok del: sem_step.simps)

text \<open>
  C34. Under every sequence of acquires, releases (double releases included), timeouts and
  aborts, a semaphore accepted by \<open>createSemaphore\<close> never has more holders than its limit, its
  counter \<open>inUse\<close> is exactly the number of holders, and nobody queues while a slot is free.
\<close>

theorem semaphore_bounded:
  assumes "createSemaphore (Finite l) = Ret (Limited limit)"
    and s_def: "s = foldl (sem_step limit) sem_init es"
  shows "length (sem_running s) \<le> sem_cap limit \<and> sem_inUse s = length (sem_running s)
    \<and> (sem_queue s = [] \<or> length (sem_running s) = sem_cap limit)"
proof -
  have "0 < limit" using assms(1) by (simp add: createSemaphore_def split: if_splits)
  from sem_run_ok [OF this, of es] show ?thesis
    by (auto simp: s_def sem_gate_inv_def gate_ok_def sem_inv_def)
qed

theorem semaphore_bounded_witness:
  "let s = foldl (sem_step 2) sem_init [Acquire, Acquire, Acquire, Release 0, Release 0]
   in length (sem_running s) \<le> sem_cap 2 \<and> sem_inUse s = length (sem_running s)
     \<and> (sem_queue s = [] \<or> length (sem_running s) = sem_cap 2)"
proof -
  have "createSemaphore (Finite 2) = Ret (Limited 2)" by (simp add: createSemaphore_def)
  from semaphore_bounded [OF this refl] show ?thesis by (simp only: Let_def)
qed

text \<open>
  A release hands the slot to the request that has waited longest: with \<open>j\<close> at the head of the
  queue, releasing a held slot makes \<open>j\<close> a holder and leaves the rest of the queue waiting, and
  every holder arrived before every request that still waits.
\<close>

theorem semaphore_fifo:
  assumes "0 < limit" and "sem_gate_inv limit s"
    and "i \<in> set (sem_running s)" and "sem_queue s = j # js"
  shows "sem_running (sem_release limit i s) = remove1 i (sem_running s) @ [j]
    \<and> sem_queue (sem_release limit i s) = js
    \<and> (\<forall>a \<in> set (sem_running (sem_release limit i s)). \<forall>b \<in> set js. a < b)"
proof -
  have inv: "sem_gate_inv (checked_limit limit) s"
    using assms by (simp add: checked_limit_id)
  then have ok: "sem.ok limit s" by (simp add: sem_gate_inv_def)
  have run: "sem_running (sem_release limit i s) = remove1 i (sem_running s) @ [j]"
    using sem.release_running [of limit s i] ok assms by (simp add: checked_limit_id)
  have wait: "sem_queue (sem_release limit i s) = js"
    using sem.release_waiting [of limit s i] ok assms by (simp add: checked_limit_id)
  have "gate_ok (sem_cap limit) (sem_running (sem_release limit i s))
      (sem_queue (sem_release limit i s)) (sem_next (sem_release limit i s))"
    using sem.ok_release [OF ok assms(3)] assms(1) by (simp add: checked_limit_id)
  with run wait show ?thesis unfolding gate_ok_def by blast
qed

theorem semaphore_fifo_witness:
  "sem_running (sem_release 1 0 (foldl (sem_step 1) sem_init [Acquire, Acquire, Acquire])) = [1]"
proof -
  let ?s = "foldl (sem_step 1) sem_init [Acquire, Acquire, Acquire]"
  have "sem_gate_inv 1 ?s" by (rule sem_run_ok) simp
  moreover have "0 \<in> set (sem_running ?s)" "sem_queue ?s = 1 # [2]" "remove1 0 (sem_running ?s) = []"
    by (simp_all add: sem_init_def sem_acquire_def Let_def sem_running_def numeral_2_eq_2)
  ultimately show ?thesis using semaphore_fifo [of 1 ?s 0 1 "[2]"] by simp
qed

lemma semaphore_unlimited_or_limited:
  "createSemaphore l = Ret k \<Longrightarrow> (l = Infinite \<and> k = Unlimited) \<or> (\<exists>r > 0. l = Finite r \<and> k = Limited r)"
  by (auto simp: createSemaphore_def split: js_limit.splits if_splits)

end
