(* ===== verification/RateLimited.thy ===== *)
theory RateLimited
  imports Csv Backoff Semaphore
begin

text \<open>
  \<open>sanctions-oracle/src/rateLimitedProvider.ts\<close>: the wrapper that retries a provider on HTTP 429
  and limits the number of calls in flight. The slot queue is a second instance of the gate of
  theory \<open>Gate\<close>; the retry loop runs in the world of the wrapped provider.
\<close>

section \<open>Which errors are retried\<close>

fun first_some :: "'a option list \<Rightarrow> 'a option" where
  "first_some [] = None"
| "first_some (Some x # xs) = Some x"
| "first_some (None # xs) = first_some xs"

definition rate_limit_message :: "string \<Rightarrow> bool" where
  "rate_limit_message m = (let msg = to_lower m in
     str_includes ''429'' msg \<or> str_includes ''rate limit'' msg \<or> str_includes ''too many requests'' msg)"

definition status_code :: "exn_props \<Rightarrow> int option" where
  "status_code p = first_some [p_status p, p_statusCode p, p_response_status p, p_response_statusCode p]"

text \<open>Reading \<open>response\<close> of \<open>undefined\<close> or \<open>null\<close> throws.\<close>

fun isRateLimitError :: "thrown \<Rightarrow> thrown + bool" where
  "isRateLimitError (Exn _ m p) = Ret (rate_limit_message m \<or> status_code p = Some 429)"
| "isRateLimitError (Val _ p) = Ret (status_code p = Some 429)"
| "isRateLimitError (Nullish s) =
     Throw (type_error (''Cannot read properties of '' @ s @ '' (reading 'response')''))"

section \<open>The retry loop\<close>

record rate_limit_options =
  rl_maxRetries :: "int option"
  rl_baseDelayMs :: "rat option"
  rl_maxDelayMs :: "rat option"
  rl_concurrency :: "js_limit option"

record rate_limit_config =
  rc_maxRetries :: int
  rc_baseDelayMs :: rat
  rc_maxDelayMs :: rat
  rc_concurrency :: js_limit

definition new_rate_limited :: "rate_limit_options \<Rightarrow> thrown + rate_limit_config" where
  "new_rate_limited options =
     (let concurrency = or_default (rl_concurrency options) Infinite;
          config = \<lparr>rc_maxRetries = or_default (rl_maxRetries options) 4,
            rc_baseDelayMs = or_default (rl_baseDelayMs options) 250,
            rc_maxDelayMs = or_default (rl_maxDelayMs options) 16000,
            rc_concurrency = concurrency\<rparr>
      in case concurrency of
           Infinite \<Rightarrow> Ret config
         | NotANumber \<Rightarrow> Throw (mk_error ''concurrency must be a positive number or Infinity'')
         | Finite l \<Rightarrow> if l \<le> 0 then Throw (mk_error ''concurrency must be a positive number or Infinity'')
                      else Ret config)"

text \<open>\<open>Math.round\<close> is \<open>floor(x + 1/2)\<close>.\<close>

definition backoffDelay :: "('w \<Rightarrow> rat \<times> 'w) \<Rightarrow> rate_limit_config \<Rightarrow> int \<Rightarrow> 'w \<Rightarrow> rat \<times> 'w" where
  "backoffDelay randomFn c attempt w =
     (let exponential = rc_baseDelayMs c * 2 ^ nat attempt;
          capped = min exponential (rc_maxDelayMs c);
          (r, w) = randomFn w;
          jitter = r * rc_baseDelayMs c
      in (of_int \<lfloor>capped + jitter + 1 / 2\<rfloor>, w))"

function checkWithRetry_loop ::
  "'w retry_env \<Rightarrow> rate_limit_config \<Rightarrow> 'w provider \<Rightarrow> string \<Rightarrow> int \<Rightarrow> thrown \<Rightarrow> 'w
     \<Rightarrow> (thrown + check_result) \<times> 'w" where
  "checkWithRetry_loop env c inner address attempt lastError w =
     (if attempt < rc_maxRetries c then
        (case inner address w of
           (Ret r, w1) \<Rightarrow> (Ret r, w1)
         | (Throw err, w1) \<Rightarrow>
             (case isRateLimitError err of
                Throw e \<Rightarrow> (Throw e, w1)
              | Ret False \<Rightarrow> (Throw err, w1)
              | Ret True \<Rightarrow>
                  (case backoffDelay (re_random env) c attempt w1 of (delay, w2) \<Rightarrow>
                     (case re_sleep env delay w2 of
                        (Throw e, w3) \<Rightarrow> (Throw e, w3)
                      | (Ret _, w3) \<Rightarrow> checkWithRetry_loop env c inner address (attempt + 1) err w3))))
      else (Throw lastError, w))"
  by pat_completeness auto
termination
  by (relation "measure (\<lambda>(_, c, _, _, attempt, _, _). nat (rc_maxRetries c - attempt))") auto

declare checkWithRetry_loop.simps [simp del]

definition checkWithRetry ::
  "'w retry_env \<Rightarrow> rate_limit_config \<Rightarrow> 'w provider \<Rightarrow> 'w provider" where
  "checkWithRetry env c inner address w =
     checkWithRetry_loop env c inner address 0 (Nullish ''undefined'') w"

section \<open>The slot queue\<close>

text \<open>
  \<open>inFlight\<close> and \<open>waiting\<close>, with the calls numbered in order of arrival; \<open>rs_running\<close> are the
  calls between their \<open>acquireSemaphore\<close> and their \<open>releaseSemaphore\<close>.
\<close>

record slot_state =
  rs_next :: nat
  rs_inFlight :: int
  rs_waiting :: "nat list"
  rs_running :: "nat list"

definition slot_init :: slot_state where
  "slot_init = \<lparr>rs_next = 0, rs_inFlight = 0, rs_waiting = [], rs_running = []\<rparr>"

fun below_limit :: "int \<Rightarrow> js_limit \<Rightarrow> bool" where
  "below_limit n Infinite \<longleftrightarrow> True"
| "below_limit n NotANumber \<longleftrightarrow> False"
| "below_limit n (Finite l) \<longleftrightarrow> of_int n < l"

definition acquireSemaphore :: "js_limit \<Rightarrow> slot_state \<Rightarrow> slot_state" where
  "acquireSemaphore concurrency s =
     (let i = rs_next s; s = s\<lparr>rs_next := Suc i\<rparr> in
      if below_limit (rs_inFlight s) concurrency then
        s\<lparr>rs_inFlight := rs_inFlight s + 1, rs_running := rs_running s @ [i]\<rparr>
      else s\<lparr>rs_waiting := rs_waiting s @ [i]\<rparr>)"

definition releaseSemaphore :: "nat \<Rightarrow> slot_state \<Rightarrow> slot_state" where
  "releaseSemaphore i s =
     (let s = s\<lparr>rs_running := remove1 i (rs_running s)\<rparr> in
      case rs_waiting s of
        j # js \<Rightarrow> s\<lparr>rs_waiting := js, rs_running := rs_running s @ [j]\<rparr>
      | [] \<Rightarrow> s\<lparr>rs_inFlight := rs_inFlight s - 1\<rparr>)"

definition slot_inv :: "slot_state \<Rightarrow> bool" where
  "slot_inv s \<longleftrightarrow> rs_inFlight s = int (length (rs_running s))"

lemma below_limit_cap:
  "0 < l \<Longrightarrow> below_limit (int n) (Finite l) \<longleftrightarrow> n < sem_cap l"
  using below_cap [of l n] by simp

lemma slot_inv_release:
  assumes "slot_inv s" and "i \<in> set (rs_running s)"
  shows "slot_inv (releaseSemaphore i s)"
proof -
  have "length (remove1 i (rs_running s)) + 1 = length (rs_running s)"
    using assms(2) length_pos_if_in_set [OF assms(2)] by (simp add: length_remove1)
  then show ?thesis
    using assms(1) by (auto simp: slot_inv_def releaseSemaphore_def Let_def split: list.split)
qed

interpretation slots: fifo_gate "acquireSemaphore (Finite (checked_limit l))" releaseSemaphore
    rs_running rs_waiting rs_next slot_init slot_inv "sem_cap (checked_limit l)" for l
proof (unfold_locales, goal_cases)
  case (8 s i)
  then show ?case by (rule slot_inv_release)
next
  case (9 s i)
  then show ?case by (simp add: releaseSemaphore_def Let_def split: list.split)
next
  case (10 s i)
  then show ?case by (simp add: releaseSemaphore_def Let_def split: list.split)
next
  case (11 s i)
  then show ?case by (simp add: releaseSemaphore_def Let_def split: list.split)
qed (simp_all add: slot_init_def slot_inv_def acquireSemaphore_def Let_def below_limit_cap
  del: below_limit.simps)

text \<open>
  The wrapper's constructor accepts a finite concurrency only when it is positive, and then,
  under every sequence of arriving and finishing calls, at most \<open>ceil(concurrency)\<close> calls are in
  flight; calls wait only while all slots are taken, and no later call overtakes an earlier one.
\<close>

theorem rate_limited_concurrency:
  assumes "new_rate_limited options = Ret c" and "rc_concurrency c = Finite l"
    and "s = gate_run (acquireSemaphore (rc_concurrency c)) releaseSemaphore rs_running ops slot_init"
  shows "length (rs_running s) \<le> sem_cap l \<and> (rs_waiting s = [] \<or> length (rs_running s) = sem_cap l)
    \<and> (\<forall>i \<in> set (rs_running s). \<forall>j \<in> set (rs_waiting s). i < j)"
proof -
  have "0 < l"
    using assms(1,2) by (auto simp: new_rate_limited_def Let_def split: js_limit.splits if_splits)
  with slots.run_bounded [of l ops] slots.run_no_idle_slot [of l ops] slots.run_no_overtaking [of _ l ops]
  show ?thesis unfolding assms(2,3) by (auto simp: checked_limit_id)
qed

theorem rate_limited_concurrency_witness:
  "let s = gate_run (acquireSemaphore (Finite 1)) releaseSemaphore rs_running
       [Arrive, Arrive, Leave 0] slot_init
   in length (rs_running s) \<le> sem_cap 1 \<and> (rs_waiting s = [] \<or> length (rs_running s) = sem_cap 1)"
proof -
  let ?o = "\<lparr>rl_maxRetries = None, rl_baseDelayMs = None, rl_maxDelayMs = None,
    rl_concurrency = Some (Finite 1)\<rparr>"
  let ?c = "\<lparr>rc_maxRetries = 4, rc_baseDelayMs = 250, rc_maxDelayMs = 16000, rc_concurrency = Finite 1\<rparr>"
  have "new_rate_limited ?o = Ret ?c" by (simp add: new_rate_limited_def)
  moreover have "rc_concurrency ?c = Finite 1" by simp
  moreover note rate_limited_concurrency [of ?o ?c 1 _ "[Arrive, Arrive, Leave 0]", OF _ _ refl]
  ultimately show ?thesis unfolding Let_def rate_limit_config.simps by blast
qed

section \<open>The whole call\<close>

text \<open>
  A call that holds its slot runs \<open>checkWithRetry\<close>; the \<open>finally\<close> block gives the slot back on
  every outcome.
\<close>

definition rl_checkAddress ::
  "'w retry_env \<Rightarrow> rate_limit_config \<Rightarrow> 'w provider \<Rightarrow> nat \<Rightarrow> string \<Rightarrow> slot_state \<times> 'w
     \<Rightarrow> (thrown + check_result) \<times> slot_state \<times> 'w" where
  "rl_checkAddress env c inner i address sw =
     (case checkWithRetry env c inner address (snd sw) of
        (r, w) \<Rightarrow> (r, releaseSemaphore i (fst sw), w))"

lemma checkWithRetry_loop_cong:
  "(\<And>w. inner a w = inner b w) \<Longrightarrow>
   checkWithRetry_loop env c inner a n e w = checkWithRetry_loop env c inner b n e w"
proof (induction env c inner a n e w rule: checkWithRetry_loop.induct)
  case (1 env c inner a n e w)
  then show ?case
    by (subst (1 2) checkWithRetry_loop.simps) (simp split: prod.split sum.split bool.split)
qed

lemma checkWithRetry_provider:
  assumes "sanctions_provider inner"
  shows "sanctions_provider (checkWithRetry env c inner)"
proof
  fix a b w
  assume "normalizeStellarAddress a = normalizeStellarAddress b"
  then have "inner a w' = inner b w'" for w'
    by (rule sanctions_provider.spelling [OF assms])
  then show "checkWithRetry env c inner a w = checkWithRetry env c inner b w"
    unfolding checkWithRetry_def by (rule checkWithRetry_loop_cong)
qed

interpretation rl_csv: sanctions_provider "checkWithRetry env c (csv_checkAddress m)" for env c m
  by (rule checkWithRetry_provider) (rule csv.sanctions_provider_axioms)

section \<open>Retrying a scripted provider\<close>

definition rl_delay :: "rat \<Rightarrow> rate_limit_config \<Rightarrow> int \<Rightarrow> rat" where
  "rl_delay r c attempt = fst (backoffDelay (\<lambda>w. (r, w)) c attempt ())"

lemma rl_script_delay: "backoffDelay (re_random (script_env r)) c attempt w = (rl_delay r c attempt, w)"
  by (simp add: backoffDelay_def rl_delay_def script_env_def Let_def)

lemma rl_script_failures:
  assumes "\<forall>e \<in> set es. isRateLimitError e = Ret True"
    and "attempt + int (length es) \<le> rc_maxRetries c"
  shows "checkWithRetry_loop (script_env r) c (\<lambda>_. script_fn) address attempt e0
       \<lparr>sc_outcomes = map Throw es @ rs, sc_calls = n, sc_slept = ds\<rparr>
     = checkWithRetry_loop (script_env r) c (\<lambda>_. script_fn) address (attempt + int (length es))
         (if es = [] then e0 else last es)
       \<lparr>sc_outcomes = rs, sc_calls = n + length es,
        sc_slept = ds @ map (rl_delay r c) [attempt .. attempt + int (length es) - 1]\<rparr>"
  using assms
proof (induction es arbitrary: attempt n ds e0)
  case Nil
  then show ?case by simp
next
  case (Cons e es)
  have "checkWithRetry_loop (script_env r) c (\<lambda>_. script_fn) address attempt e0
       \<lparr>sc_outcomes = map Throw (e # es) @ rs, sc_calls = n, sc_slept = ds\<rparr>
     = checkWithRetry_loop (script_env r) c (\<lambda>_. script_fn) address (attempt + 1) e
       \<lparr>sc_outcomes = map Throw es @ rs, sc_calls = Suc n, sc_slept = ds @ [rl_delay r c attempt]\<rparr>"
    using Cons.prems
    by (subst checkWithRetry_loop.simps) (simp add: rl_script_delay script_sleep)
  also have "\<dots> = checkWithRetry_loop (script_env r) c (\<lambda>_. script_fn) address (attempt + 1 + int (length es))
         (if es = [] then e else last es)
       \<lparr>sc_outcomes = rs, sc_calls = Suc n + length es,
        sc_slept = (ds @ [rl_delay r c attempt])
          @ map (rl_delay r c) [attempt + 1 .. attempt + 1 + int (length es) - 1]\<rparr>"
    using Cons.prems by (intro Cons.IH) auto
  finally show ?case
    using upto_rec1 [of attempt "attempt + int (length es)"] by (simp add: ac_simps)
qed

text \<open>
  Rate-limit errors are absorbed, others are not. If the provider answers with rate-limit
  errors \<open>es\<close> and then with \<open>r\<close>, within the budget of \<open>maxRetries\<close> attempts, and \<open>r\<close> is a result
  or an error of another kind, the wrapper settles to \<open>r\<close> after \<open>length es + 1\<close> calls and exactly
  the delays of the failed attempts.
\<close>

theorem rate_limited_retries:
  assumes "\<forall>e \<in> set es. isRateLimitError e = Ret True" and "int (length es) < rc_maxRetries c"
    and "case r of Ret _ \<Rightarrow> True | Throw e \<Rightarrow> isRateLimitError e = Ret False"
  shows "checkWithRetry (script_env x) c (\<lambda>_. script_fn) address (run_script (map Throw es @ r # rs))
     = (r, \<lparr>sc_outcomes = rs, sc_calls = length es + 1,
          sc_slept = map (rl_delay x c) [0 .. int (length es) - 1]\<rparr>)"
proof -
  have "0 + int (length es) \<le> rc_maxRetries c" using assms(2) by simp
  from rl_script_failures [OF assms(1) this, of x address "Nullish ''undefined''" "r # rs" 0 "[]"]
  show ?thesis using assms(2,3)
    by (cases r) (simp_all add: checkWithRetry_def run_script_def checkWithRetry_loop.simps
      [where attempt = "int (length es)"])
qed

theorem rate_limited_retries_witness:
  "checkWithRetry (script_env 0) \<lparr>rc_maxRetries = 4, rc_baseDelayMs = 250, rc_maxDelayMs = 300,
       rc_concurrency = Infinite\<rparr> (\<lambda>_. script_fn) ''GA''
     (run_script [Throw (mk_error ''HTTP 429''), Throw (mk_error ''Rate Limit''), Ret (unscored True ''s'')])
   = (Ret (unscored True ''s''), \<lparr>sc_outcomes = [], sc_calls = 3, sc_slept = [250, 300]\<rparr>)"
proof -
  let ?c = "\<lparr>rc_maxRetries = 4, rc_baseDelayMs = 250, rc_maxDelayMs = 300, rc_concurrency = Infinite\<rparr>"
  have "\<forall>e \<in> set [mk_error ''HTTP 429'', mk_error ''Rate Limit'']. isRateLimitError e = Ret True"
    by (simp add: mk_error_def) code_simp
  from rate_limited_retries [OF this, of ?c "Ret (unscored True ''s'')" 0 "''GA''" "[]"]
  show ?thesis by (simp add: rl_delay_def backoffDelay_def upto_rec1 Let_def floor_eq_iff)
qed

text \<open>
  When every attempt of the budget is rate limited the wrapper rethrows the last error after
  exactly \<open>maxRetries\<close> calls. It sleeps after each of them, the last one included.
\<close>

theorem rate_limited_gives_up:
  assumes "\<forall>e \<in> set es. isRateLimitError e = Ret True" and "int (length es) = rc_maxRetries c" and "es \<noteq> []"
  shows "checkWithRetry (script_env x) c (\<lambda>_. script_fn) address (run_script (map Throw es @ rs))
     = (Throw (last es), \<lparr>sc_outcomes = rs, sc_calls = length es,
          sc_slept = map (rl_delay x c) [0 .. int (length es) - 1]\<rparr>)"
proof -
  have "0 + int (length es) \<le> rc_maxRetries c" using assms(2) by simp
  from rl_script_failures [OF assms(1) this, of x address "Nullish ''undefined''" rs 0 "[]"]
  show ?thesis using assms(2,3)
    by (simp add: checkWithRetry_def run_script_def) (subst checkWithRetry_loop.simps, simp)
qed

theorem rate_limited_gives_up_witness:
  "checkWithRetry (script_env 0) \<lparr>rc_maxRetries = 1, rc_baseDelayMs = 250, rc_maxDelayMs = 300,
       rc_concurrency = Infinite\<rparr> (\<lambda>_. script_fn) ''GA'' (run_script [Throw (mk_error ''HTTP 429'')])
   = (Throw (mk_error ''HTTP 429''), \<lparr>sc_outcomes = [], sc_calls = 1, sc_slept = [250]\<rparr>)"
proof -
  let ?c = "\<lparr>rc_maxRetries = 1, rc_baseDelayMs = 250, rc_maxDelayMs = 300, rc_concurrency = Infinite\<rparr>"
  have "\<forall>e \<in> set [mk_error ''HTTP 429'']. isRateLimitError e = Ret True"
    by (simp add: mk_error_def) code_simp
  from rate_limited_gives_up [OF this, of ?c 0 "''GA''" "[]"]
  show ?thesis by (simp add: rl_delay_def backoffDelay_def upto_rec1 Let_def floor_eq_iff)
qed

text \<open>A budget of no attempts throws \<open>undefined\<close> without asking the provider.\<close>

lemma rate_limited_no_budget:
  "rc_maxRetries c \<le> 0 \<Longrightarrow> checkWithRetry env c inner address w = (Throw (Nullish ''undefined''), w)"
  by (simp add: checkWithRetry_def checkWithRetry_loop.simps)

text \<open>Every delay lies between the capped exponential and one base delay above it, up to rounding.\<close>

lemma rl_delay_bounds:
  assumes "0 \<le> r" and "r < 1" and "0 \<le> rc_baseDelayMs c" and "0 \<le> attempt"
  shows "min (rc_baseDelayMs c * 2 ^ nat attempt) (rc_maxDelayMs c) - 1 / 2 \<le> rl_delay r c attempt"
    and "rl_delay r c attempt \<le> rc_maxDelayMs c + rc_baseDelayMs c + 1 / 2"
proof -
  let ?cap = "min (rc_baseDelayMs c * 2 ^ nat attempt) (rc_maxDelayMs c)"
  have eq: "rl_delay r c attempt = of_int \<lfloor>?cap + r * rc_baseDelayMs c + 1 / 2\<rfloor>"
    by (simp add: rl_delay_def backoffDelay_def Let_def)
  have j: "0 \<le> r * rc_baseDelayMs c" "r * rc_baseDelayMs c \<le> rc_baseDelayMs c"
    using assms mult_right_mono [of r 1 "rc_baseDelayMs c"] by auto
  show "?cap - 1 / 2 \<le> rl_delay r c attempt"
    using j(1) unfolding eq by linarith
  show "rl_delay r c attempt \<le> rc_maxDelayMs c + rc_baseDelayMs c + 1 / 2"
    using j(2) of_int_floor_le [of "?cap + r * rc_baseDelayMs c + 1 / 2"]
      min.cobounded2 [of "rc_baseDelayMs c * 2 ^ nat attempt" "rc_maxDelayMs c"]
    unfolding eq by linarith
qed

end
