(* ===== verification/CircuitBreaker.thy ===== *)
theory CircuitBreaker
  imports RateLimited
begin

text \<open>
  \<open>sanctions-oracle/src/circuitBreakerProvider.ts\<close>: the closed/open/half-open breaker around a
  provider. A call has two parts, before and after the wrapped provider answers; between them
  other calls may run, so the parts are separate operations and a breaker's history is a sequence
  of them. Times are milliseconds read from the clock; \<open>cb_changes\<close> is what \<open>onStateChange\<close> was
  told, oldest first.
\<close>

section \<open>State and operations\<close>

datatype circuit_state = Closed | Open | HalfOpen

fun CIRCUIT_STATE_VALUES :: "circuit_state \<Rightarrow> nat" where
  "CIRCUIT_STATE_VALUES Closed = 0"
| "CIRCUIT_STATE_VALUES HalfOpen = 1"
| "CIRCUIT_STATE_VALUES Open = 2"

record cb_config =
  cb_failureThreshold :: int
  cb_cooldownMs :: int
  cb_name :: string

definition new_circuit_breaker :: "int option \<Rightarrow> int option \<Rightarrow> string option \<Rightarrow> cb_config" where
  "new_circuit_breaker failureThreshold cooldownMs name =
     \<lparr>cb_failureThreshold = or_default failureThreshold 5, cb_cooldownMs = or_default cooldownMs 30000,
      cb_name = or_default name ''default''\<rparr>"

record breaker =
  cb_state :: circuit_state
  cb_failures :: int
  cb_openedAt :: int
  cb_probeInFlight :: bool
  cb_changes :: "(circuit_state \<times> circuit_state) list"

definition breaker_init :: breaker where
  "breaker_init = \<lparr>cb_state = Closed, cb_failures = 0, cb_openedAt = 0, cb_probeInFlight = False,
     cb_changes = []\<rparr>"

definition circuit_open_error :: "string \<Rightarrow> thrown" where
  "circuit_open_error name = Exn ''CircuitOpenError''
     (''sanctions-oracle: circuit breaker '' @ [CHR 0x22] @ name @ [CHR 0x22] @ '' is open; failing fast'')
     no_props"

definition transition :: "circuit_state \<Rightarrow> breaker \<Rightarrow> breaker" where
  "transition next s =
     (if next = cb_state s then s
      else s\<lparr>cb_state := next, cb_changes := cb_changes s @ [(next, cb_state s)]\<rparr>)"

definition getState :: "cb_config \<Rightarrow> int \<Rightarrow> breaker \<Rightarrow> breaker" where
  "getState c now s =
     (if cb_state s = Open \<and> now - cb_openedAt s \<ge> cb_cooldownMs c then transition HalfOpen s else s)"

definition getMetricValue :: "cb_config \<Rightarrow> int \<Rightarrow> breaker \<Rightarrow> nat \<times> breaker" where
  "getMetricValue c now s = (let s = getState c now s in (CIRCUIT_STATE_VALUES (cb_state s), s))"

definition cb_renderPrometheus :: "cb_config \<Rightarrow> int \<Rightarrow> breaker \<Rightarrow> string \<times> breaker" where
  "cb_renderPrometheus c now s =
     (let (v, s) = getMetricValue c now s in
      (join [CHR 0x0A]
        [''# HELP provider_circuit_state Circuit breaker state (0=closed, 1=half-open, 2=open)'',
         ''# TYPE provider_circuit_state gauge'',
         ''provider_circuit_state{provider='' @ [CHR 0x22] @ cb_name c @ [CHR 0x22] @ ''} '' @ dec_of_nat v,
         []], s))"

text \<open>\<open>checkAddress\<close> up to the call of the wrapped provider; \<open>Ret isProbe\<close> lets it proceed.\<close>

definition cb_begin :: "cb_config \<Rightarrow> int \<Rightarrow> breaker \<Rightarrow> (thrown + bool) \<times> breaker" where
  "cb_begin c now s =
     (let s = getState c now s; state = cb_state s in
      if state = Open \<or> (state = HalfOpen \<and> cb_probeInFlight s) then
        (Throw (circuit_open_error (cb_name c)), s)
      else
        let isProbe = (state = HalfOpen) in
        (Ret isProbe, if isProbe then s\<lparr>cb_probeInFlight := True\<rparr> else s))"

text \<open>The rest of \<open>checkAddress\<close>, once the wrapped provider has settled.\<close>

definition cb_finish :: "cb_config \<Rightarrow> bool \<Rightarrow> thrown + 'a \<Rightarrow> int \<Rightarrow> breaker \<Rightarrow> breaker" where
  "cb_finish c isProbe outcome now s =
     (let s = (case outcome of
          Ret _ \<Rightarrow>
            (let s = s\<lparr>cb_failures := 0\<rparr> in if cb_state s \<noteq> Closed then transition Closed s else s)
        | Throw _ \<Rightarrow>
            (let s = s\<lparr>cb_failures := cb_failures s + 1\<rparr> in
             if isProbe \<or> cb_failures s \<ge> cb_failureThreshold c
             then transition Open (s\<lparr>cb_openedAt := now\<rparr>) else s))
      in if isProbe then s\<lparr>cb_probeInFlight := False\<rparr> else s)"

text \<open>A whole call with nothing else running meanwhile; \<open>now\<close> reads the clock of the world.\<close>

definition cb_checkAddress ::
  "('w \<Rightarrow> int) \<Rightarrow> cb_config \<Rightarrow> 'w provider \<Rightarrow> (breaker \<times> 'w) provider" where
  "cb_checkAddress now c inner address sw =
     (case sw of (s, w) \<Rightarrow>
        (case cb_begin c (now w) s of
           (Throw e, s) \<Rightarrow> (Throw e, s, w)
         | (Ret isProbe, s) \<Rightarrow>
             (case inner address w of (outcome, w) \<Rightarrow>
                (outcome, cb_finish c isProbe outcome (now w) s, w))))"

interpretation cb_csv: sanctions_provider "cb_checkAddress now c (checkWithRetry env rc (csv_checkAddress m))"
  for now c env rc m
proof
  fix a b :: string and w
  assume "normalizeStellarAddress a = normalizeStellarAddress b"
  then have "checkWithRetry env rc (csv_checkAddress m) a = checkWithRetry env rc (csv_checkAddress m) b"
    by (intro ext rl_csv.spelling)
  then show "cb_checkAddress now c (checkWithRetry env rc (csv_checkAddress m)) a w =
      cb_checkAddress now c (checkWithRetry env rc (csv_checkAddress m)) b w"
    by (simp only: cb_checkAddress_def)
qed

section \<open>Histories\<close>

text \<open>
  The breaker with the calls that are in flight: their number and whether they are the probe.
\<close>

record breaker_run =
  br_breaker :: breaker
  br_calls :: "(nat \<times> bool) list"
  br_next :: nat
  br_rejected :: nat

datatype breaker_event =
    Call int                     \<comment> \<open>a call arrives at this time\<close>
  | Settle nat "thrown + check_result" int   \<comment> \<open>the provider settles for this call\<close>
  | Poll int                     \<comment> \<open>somebody reads the state\<close>

definition breaker_run_init :: breaker_run where
  "breaker_run_init = \<lparr>br_breaker = breaker_init, br_calls = [], br_next = 0, br_rejected = 0\<rparr>"

fun breaker_step :: "cb_config \<Rightarrow> breaker_run \<Rightarrow> breaker_event \<Rightarrow> breaker_run" where
  "breaker_step c r (Call now) =
     (case cb_begin c now (br_breaker r) of
        (Throw _, s) \<Rightarrow> r\<lparr>br_breaker := s, br_next := Suc (br_next r), br_rejected := Suc (br_rejected r)\<rparr>
      | (Ret isProbe, s) \<Rightarrow>
          r\<lparr>br_breaker := s, br_next := Suc (br_next r), br_calls := br_calls r @ [(br_next r, isProbe)]\<rparr>)"
| "breaker_step c r (Settle i outcome now) =
     (case map_get (br_calls r) i of
        None \<Rightarrow> r
      | Some isProbe \<Rightarrow> r\<lparr>br_breaker := cb_finish c isProbe outcome now (br_breaker r),
                         br_calls := map_delete i (br_calls r)\<rparr>)"
| "breaker_step c r (Poll now) = r\<lparr>br_breaker := getState c now (br_breaker r)\<rparr>"

text \<open>The edges of the state diagram. A call admitted before the trip may close an open circuit.\<close>

fun circuit_edge :: "circuit_state \<times> circuit_state \<Rightarrow> bool" where
  "circuit_edge (next, prev) \<longleftrightarrow>
     (prev, next) \<in> {(Closed, Open), (Open, HalfOpen), (HalfOpen, Open), (HalfOpen, Closed), (Open, Closed)}"

definition breaker_inv :: "cb_config \<Rightarrow> breaker_run \<Rightarrow> bool" where
  "breaker_inv c r \<longleftrightarrow>
     (cb_state (br_breaker r) = Closed \<longrightarrow> cb_failures (br_breaker r) < cb_failureThreshold c)
     \<and> 0 \<le> cb_failures (br_breaker r)
     \<and> map_wf (br_calls r) \<and> (\<forall>i \<in> fst ` set (br_calls r). i < br_next r)
     \<and> length (filter snd (br_calls r)) = (if cb_probeInFlight (br_breaker r) then 1 else 0)
     \<and> (\<forall>e \<in> set (cb_changes (br_breaker r)). circuit_edge e)"

lemma filter_delete_probe:
  assumes "map_wf m" and "map_get m i = Some b"
  shows "length (filter snd (map_delete i m)) + (if b then 1 else 0) = length (filter snd m)"
  using assms
proof (induction m)
  case Nil
  then show ?case by simp
next
  case (Cons a m)
  obtain j b' where a: "a = (j, b')" by (cases a)
  show ?case
  proof (cases "j = i")
    case True
    with Cons.prems have "i \<notin> fst ` set m" and b': "b' = b" by (auto simp: a map_wf_def)
    then have "map_delete i m = m" by (simp add: delete_id)
    then show ?thesis by (simp add: a True b' AList.delete_eq)
  next
    case False
    with Cons show ?thesis by (auto simp: a map_wf_def AList.delete_eq)
  qed
qed

lemmas breaker_defs = breaker_inv_def getState_def transition_def

lemma breaker_inv_poll: "breaker_inv c r \<Longrightarrow> breaker_inv c (r\<lparr>br_breaker := getState c now (br_breaker r)\<rparr>)"
  by (auto simp: breaker_defs)

lemma breaker_inv_call:
  assumes "breaker_inv c r" shows "breaker_inv c (breaker_step c r (Call now))"
proof -
  let ?s = "getState c now (br_breaker r)"
  have inv: "breaker_inv c (r\<lparr>br_breaker := ?s\<rparr>)"
    by (rule breaker_inv_poll [OF assms])
  then show ?thesis
    by (auto simp: cb_begin_def Let_def breaker_inv_def map_wf_def less_Suc_eq)
qed

lemma breaker_inv_settle:
  assumes "0 < cb_failureThreshold c" and inv: "breaker_inv c r"
  shows "breaker_inv c (breaker_step c r (Settle i outcome now))"
proof (cases "map_get (br_calls r) i")
  case None
  with inv show ?thesis by simp
next
  case (Some isProbe)
  have wf: "map_wf (br_calls r)" using inv by (simp add: breaker_inv_def)
  have len: "length (filter snd (map_delete i (br_calls r)))
      = (if cb_probeInFlight (br_breaker r) \<and> \<not> isProbe then 1 else 0)"
    and probe: "isProbe \<Longrightarrow> cb_probeInFlight (br_breaker r)"
    using filter_delete_probe [OF wf Some] inv
    by (auto simp: breaker_inv_def split: if_splits)
  have ids: "\<forall>j \<in> fst ` set (map_delete i (br_calls r)). j < br_next r"
    using inv by (auto simp: breaker_inv_def AList.delete_eq)
  let ?f = "cb_finish c isProbe outcome now (br_breaker r)"
  have flag: "cb_probeInFlight ?f = (cb_probeInFlight (br_breaker r) \<and> \<not> isProbe)"
    by (auto simp: cb_finish_def Let_def transition_def split: sum.split)
  have fail: "0 \<le> cb_failures ?f \<and> (cb_state ?f = Closed \<longrightarrow> cb_failures ?f < cb_failureThreshold c)"
    using inv assms(1)
    by (auto simp: breaker_inv_def cb_finish_def Let_def transition_def split: sum.split)
  have edges: "\<forall>e \<in> set (cb_changes ?f). circuit_edge e"
    using inv by (cases "cb_state (br_breaker r)")
      (auto simp: breaker_inv_def cb_finish_def Let_def transition_def split: sum.split)
  show ?thesis
    using fail edges ids wf by (simp add: Some breaker_inv_def flag len)
qed

lemma breaker_inv_run:
  assumes "0 < cb_failureThreshold c"
  shows "breaker_inv c (foldl (breaker_step c) breaker_run_init es)"
proof (induction es rule: rev_induct)
  case Nil
  then show ?case using assms by (simp add: breaker_inv_def breaker_run_init_def breaker_init_def)
next
  case (snoc e es)
  then show ?case
  proof (cases e)
    case (Poll now)
    then show ?thesis using snoc by (simp add: breaker_inv_poll)
  qed (use snoc assms in \<open>simp_all add: breaker_inv_call breaker_inv_settle del: breaker_step.simps\<close>)
qed

text \<open>
  C35. In every history of calls, answers and state reads, in any interleaving: at most one probe
  is in flight, the flag \<open>probeInFlight\<close> says whether there is one, a closed circuit has counted
  fewer failures than the threshold, and every reported state change is an edge of the diagram.
\<close>

theorem circuit_breaker_safe:
  assumes "0 < cb_failureThreshold c" and "r = foldl (breaker_step c) breaker_run_init es"
  shows "length (filter snd (br_calls r)) \<le> 1
    \<and> (cb_probeInFlight (br_breaker r) \<longleftrightarrow> length (filter snd (br_calls r)) = 1)
    \<and> (cb_state (br_breaker r) = Closed \<longrightarrow> cb_failures (br_breaker r) < cb_failureThreshold c)
    \<and> (\<forall>e \<in> set (cb_changes (br_breaker r)). circuit_edge e)"
  using breaker_inv_run [OF assms(1), of es] by (auto simp: breaker_inv_def assms(2))

theorem circuit_breaker_safe_witness:
  "let r = foldl (breaker_step (new_circuit_breaker (Some 1) (Some 10) None)) breaker_run_init
       [Call 0, Settle 0 (Throw (mk_error ''down'')) 1, Call 11, Call 12]
   in length (filter snd (br_calls r)) \<le> 1"
proof -
  have "0 < cb_failureThreshold (new_circuit_breaker (Some 1) (Some 10) None)"
    by (simp add: new_circuit_breaker_def)
  from circuit_breaker_safe [OF this refl] show ?thesis by (simp only: Let_def)
qed

text \<open>
  An open circuit fails fast: until the cooldown has passed a call is rejected with
  \<open>CircuitOpenError\<close>, the wrapped provider is not asked and nothing changes.
\<close>

theorem circuit_breaker_fails_fast:
  assumes "cb_state s = Open" and "now w - cb_openedAt s < cb_cooldownMs c"
  shows "cb_checkAddress now c inner address (s, w) = (Throw (circuit_open_error (cb_name c)), s, w)"
  using assms by (simp add: cb_checkAddress_def cb_begin_def getState_def Let_def)

theorem circuit_breaker_fails_fast_witness:
  "cb_checkAddress (\<lambda>w. w) (new_circuit_breaker None None None) (\<lambda>_ w. (Ret (unscored True ''s''), w)) ''GA''
     (breaker_init\<lparr>cb_state := Open, cb_openedAt := 5\<rparr>, 100)
   = (Throw (circuit_open_error ''default''), breaker_init\<lparr>cb_state := Open, cb_openedAt := 5\<rparr>, 100)"
  using circuit_breaker_fails_fast [of "breaker_init\<lparr>cb_state := Open, cb_openedAt := 5\<rparr>" "\<lambda>w. w" 100
      "new_circuit_breaker None None None"]
  by (simp add: new_circuit_breaker_def)

section \<open>Tripping and recovering\<close>

fun cb_checks ::
  "('w \<Rightarrow> int) \<Rightarrow> cb_config \<Rightarrow> 'w provider \<Rightarrow> string list \<Rightarrow> breaker \<times> 'w \<Rightarrow> breaker \<times> 'w" where
  "cb_checks now c inner [] sw = sw"
| "cb_checks now c inner (a # as) sw = cb_checks now c inner as (snd (cb_checkAddress now c inner a sw))"

lemma cb_checks_failing:
  assumes "\<And>a w. \<exists>e w'. inner a w = (Throw e, w')"
    and "cb_state s = Closed" and "cb_failures s + int (length as) < cb_failureThreshold c"
  shows "\<exists>w'. cb_checks now c inner as (s, w) = (s\<lparr>cb_failures := cb_failures s + int (length as)\<rparr>, w')"
  using assms(2,3)
proof (induction as arbitrary: s w)
  case Nil
  then show ?case by simp
next
  case (Cons a as)
  obtain e w1 where e: "inner a w = (Throw e, w1)" using assms(1) by blast
  let ?s = "s\<lparr>cb_failures := cb_failures s + 1\<rparr>"
  have "snd (cb_checkAddress now c inner a (s, w)) = (?s, w1)"
    using Cons.prems by (simp add: cb_checkAddress_def cb_begin_def getState_def cb_finish_def e Let_def)
  moreover have "\<exists>w'. cb_checks now c inner as (?s, w1)
      = (?s\<lparr>cb_failures := cb_failures ?s + int (length as)\<rparr>, w')"
    using Cons.prems by (intro Cons.IH) auto
  ultimately show ?case by (auto simp: ac_simps)
qed

text \<open>
  Consecutive failures trip the breaker exactly at the threshold: against a provider that
  keeps failing, a new breaker stays closed for fewer calls than \<open>failureThreshold\<close> and is open
  after that many, with the time of the last failure as \<open>openedAt\<close>.
\<close>

theorem circuit_breaker_trips:
  assumes fails: "\<And>a w. \<exists>e w'. inner a w = (Throw e, w')"
    and len: "int (length as) + 1 = cb_failureThreshold c"
  shows "(\<forall>n. cb_state (fst (cb_checks now c inner (take n as) (breaker_init, w))) = Closed)
    \<and> cb_state (fst (cb_checks now c inner (as @ [a]) (breaker_init, w))) = Open
    \<and> cb_openedAt (fst (cb_checks now c inner (as @ [a]) (breaker_init, w)))
        = now (snd (cb_checks now c inner (as @ [a]) (breaker_init, w)))"
proof -
  have run: "\<exists>w'. cb_checks now c inner bs (breaker_init, w) = (breaker_init\<lparr>cb_failures := int (length bs)\<rparr>, w')"
    if "length bs \<le> length as" for bs
  proof -
    have "cb_failures breaker_init + int (length bs) < cb_failureThreshold c"
      using that len by (simp add: breaker_init_def)
    from cb_checks_failing [of inner breaker_init bs c now w, OF fails _ this] show ?thesis
      by (simp add: breaker_init_def)
  qed
  obtain w1 where w1: "cb_checks now c inner as (breaker_init, w)
      = (breaker_init\<lparr>cb_failures := int (length as)\<rparr>, w1)"
    using run [of as] by auto
  obtain e w2 where e: "inner a w1 = (Throw e, w2)" using fails by blast
  have "cb_checks now c inner (xs @ [a]) sw =
      snd (cb_checkAddress now c inner a (cb_checks now c inner xs sw))" for xs sw
    by (induction xs arbitrary: sw) simp_all
  then have "cb_checks now c inner (as @ [a]) (breaker_init, w)
      = snd (cb_checkAddress now c inner a (breaker_init\<lparr>cb_failures := int (length as)\<rparr>, w1))"
    by (simp only: w1)
  then have last: "cb_checks now c inner (as @ [a]) (breaker_init, w)
      = (transition Open (breaker_init\<lparr>cb_failures := cb_failureThreshold c, cb_openedAt := now w2\<rparr>), w2)"
    using len by (simp add: cb_checkAddress_def cb_begin_def getState_def cb_finish_def e Let_def
      breaker_init_def transition_def)
  have "cb_state (fst (cb_checks now c inner (take n as) (breaker_init, w))) = Closed" for n
    using run [of "take n as"] by (auto simp: breaker_init_def)
  moreover have "cb_state breaker_init = Closed" by (simp add: breaker_init_def)
  ultimately show ?thesis unfolding last by (simp add: transition_def)
qed

theorem circuit_breaker_trips_witness:
  "cb_state (fst (cb_checks id (new_circuit_breaker (Some 2) None None)
     (\<lambda>_ w. (Throw (mk_error ''down''), w + 1)) ([''GA''] @ [''GB'']) (breaker_init, 0))) = Open"
proof -
  have "int (length [''GA'']) + 1 = cb_failureThreshold (new_circuit_breaker (Some 2) None None)"
    by (simp add: new_circuit_breaker_def)
  from circuit_breaker_trips [OF _ this, of "\<lambda>_ w. (Throw (mk_error ''down''), w + 1)" id 0 "''GB''"]
  show ?thesis by simp
qed

text \<open>A successful probe closes the circuit and clears the failure count; a failed one reopens it.\<close>

lemma circuit_breaker_probe:
  assumes "cb_state s = Open" and "now w - cb_openedAt s \<ge> cb_cooldownMs c" and "\<not> cb_probeInFlight s"
    and "inner a w = (outcome, w')" and "cb_checkAddress now c inner a (s, w) = (r, s', w'')"
  shows "r = outcome \<and> w'' = w' \<and> \<not> cb_probeInFlight s'
    \<and> (case outcome of Ret _ \<Rightarrow> cb_state s' = Closed \<and> cb_failures s' = 0
       | Throw _ \<Rightarrow> cb_state s' = Open \<and> cb_openedAt s' = now w')"
  using assms
  by (auto simp: cb_checkAddress_def cb_begin_def getState_def cb_finish_def Let_def transition_def
    split: sum.splits)

end
