(* ===== verification/Uri.thy ===== *)
theory Uri
  imports JsPrelude
begin

text \<open>
  \<open>encodeURIComponent\<close> and \<open>decodeURIComponent\<close> of the language, on code units below 256: an
  unreserved character stands for itself, any other is percent-encoded as UTF-8.
\<close>

definition unreserved :: "char \<Rightarrow> bool" where
  "unreserved c \<longleftrightarrow> (let n = of_char c :: nat in
     (48 \<le> n \<and> n \<le> 57) \<or> (65 \<le> n \<and> n \<le> 90) \<or> (97 \<le> n \<and> n \<le> 122)
     \<or> c \<in> set [CHR ''-'', CHR ''_'', CHR ''.'', CHR ''!'', CHR ''~'', CHR ''*'', CHR 0x27, CHR ''('', CHR '')''])"

definition hex_digit :: "nat \<Rightarrow> char" where
  "hex_digit n = char_of (if n < 10 then 48 + n else 55 + n)"

definition hex_val :: "char \<Rightarrow> nat" where
  "hex_val c = (let n = of_char c in if n < 58 then n - 48 else n - 55)"

definition percent :: "nat \<Rightarrow> string" where
  "percent n = [CHR ''%'', hex_digit (n div 16), hex_digit (n mod 16)]"

definition encode_char :: "char \<Rightarrow> string" where
  "encode_char c = (let n = of_char c :: nat in
     if unreserved c then [c]
     else if n < 128 then percent n
     else percent (192 + n div 64) @ percent (128 + n mod 64))"

definition encodeURIComponent :: "string \<Rightarrow> string" where
  "encodeURIComponent s = concat (map encode_char s)"

fun unescape :: "string \<Rightarrow> nat list" where
  "unescape [] = []"
| "unescape (c # cs) =
     (if c = CHR ''%'' then
        (case cs of h # l # cs' \<Rightarrow> (hex_val h * 16 + hex_val l) # unescape cs' | _ \<Rightarrow> [])
      else of_char c # unescape cs)"

fun utf8_decode :: "nat list \<Rightarrow> string" where
  "utf8_decode [] = []"
| "utf8_decode (b # bs) =
     (if b < 128 then char_of b # utf8_decode bs
      else (case bs of b' # bs' \<Rightarrow> char_of ((b - 192) * 64 + (b' - 128)) # utf8_decode bs' | [] \<Rightarrow> []))"

definition decodeURIComponent :: "string \<Rightarrow> string" where
  "decodeURIComponent s = utf8_decode (unescape s)"

lemma of_char_div_64: "(of_char c :: nat) div 64 < 4"
  by (rule less_mult_imp_div_less) (use of_char_bound [of c] in simp)

lemma hex_val_digit: "n < 16 \<Longrightarrow> hex_val (hex_digit n) = n"
  by (simp add: hex_val_def hex_digit_def Let_def)

lemma unescape_percent: "n < 256 \<Longrightarrow> unescape (percent n @ s) = n # unescape s"
  by (simp add: percent_def hex_val_digit div_mult_mod_eq)

lemma unreserved_not_percent: "unreserved c \<Longrightarrow> c \<noteq> CHR ''%'' \<and> (of_char c :: nat) < 128"
  by (auto simp: unreserved_def Let_def)

lemma decode_encode_char:
  "utf8_decode (unescape (encode_char c @ s)) = c # utf8_decode (unescape s)"
proof (cases "unreserved c")
  case True
  with unreserved_not_percent [OF True] show ?thesis by (simp add: encode_char_def Let_def)
next
  case False
  let ?n = "of_char c :: nat"
  have "?n div 64 < 4" by (rule of_char_div_64)
  show ?thesis
  proof (cases "?n < 128")
    case True
    with False show ?thesis
      using unescape_percent [of ?n] by (simp add: encode_char_def Let_def)
  next
    case False': False
    have "192 + ?n div 64 < 256" "128 + ?n mod 64 < 256" using \<open>?n div 64 < 4\<close> by auto
    then have "unescape (encode_char c @ s) = (192 + ?n div 64) # (128 + ?n mod 64) # unescape s"
      using False False' by (simp add: encode_char_def Let_def unescape_percent)
    moreover have "(192 + ?n div 64 - 192) * 64 + (128 + ?n mod 64 - 128) = ?n"
      by (simp add: div_mult_mod_eq)
    then have "char_of ((192 + ?n div 64 - 192) * 64 + (128 + ?n mod 64 - 128)) = c"
      by (simp only: char_of_char)
    ultimately show ?thesis by simp
  qed
qed

lemma decode_encode: "decodeURIComponent (encodeURIComponent s) = s"
proof (induction s)
  case Nil
  then show ?case by (simp add: encodeURIComponent_def decodeURIComponent_def)
next
  case (Cons c s)
  then show ?case
    using decode_encode_char [of c "encodeURIComponent s"]
    by (simp add: encodeURIComponent_def decodeURIComponent_def)
qed

lemma encode_inj: "encodeURIComponent s = encodeURIComponent t \<Longrightarrow> s = t"
  by (metis decode_encode)

lemma hex_digit_unreserved: "n < 16 \<Longrightarrow> unreserved (hex_digit n)"
  by (auto simp: unreserved_def hex_digit_def Let_def)

lemma percent_alphabet: "n < 256 \<Longrightarrow> c \<in> set (percent n) \<Longrightarrow> unreserved c \<or> c = CHR ''%''"
  by (auto simp: percent_def hex_digit_unreserved)

lemma encode_char_alphabet: "c \<in> set (encode_char d) \<Longrightarrow> unreserved c \<or> c = CHR ''%''"
proof -
  have b: "192 + (of_char d :: nat) div 64 < 256" "128 + (of_char d :: nat) mod 64 < 256"
    using of_char_div_64 [of d] mod_less_divisor [of 64 "of_char d :: nat"] by linarith+
  show "c \<in> set (encode_char d) \<Longrightarrow> unreserved c \<or> c = CHR ''%''"
    using percent_alphabet [OF of_char_bound, of c d] percent_alphabet [OF b(1), of c]
      percent_alphabet [OF b(2), of c]
    by (auto simp: encode_char_def Let_def simp del: mod_less_divisor split: if_splits)
qed

lemma encode_alphabet: "c \<in> set (encodeURIComponent s) \<Longrightarrow> unreserved c \<or> c = CHR ''%''"
  using encode_char_alphabet by (auto simp: encodeURIComponent_def)

text \<open>The separators of a list of labels never occur in an encoded label.\<close>

lemma encode_no_separator:
  "CHR '':'' \<notin> set (encodeURIComponent s)" "CHR '','' \<notin> set (encodeURIComponent s)"
  "CHR '' '' \<notin> set (encodeURIComponent s)"
proof -
  have "\<not> unreserved (CHR '':'')" "\<not> unreserved (CHR '','')" "\<not> unreserved (CHR '' '')"
    by code_simp+
  then show "CHR '':'' \<notin> set (encodeURIComponent s)" "CHR '','' \<notin> set (encodeURIComponent s)"
    "CHR '' '' \<notin> set (encodeURIComponent s)"
    using encode_alphabet [of _ s] by fastforce+
qed

end
