(* ===== verification/Registry.thy ===== *)
theory Registry
  imports CircuitBreaker Uri "HOL-Library.Product_Lexorder"
begin

text \<open>
  \<open>sanctions-oracle/src/ProviderRegistry.ts\<close>: a provider made of several, with a policy that
  resolves their disagreement. \<open>checkAddressDetailed\<close> asks all providers with \<open>Promise.all\<close> and
  then computes on the settled answers, which come in registration order whatever order they
  arrive in; that computation is \<open>resolve_answers\<close>, and its theorems hold for every schedule of
  the calls. \<open>registry_checkAddressDetailed\<close> runs the calls in registration order.
\<close>

section \<open>State\<close>

datatype conflict_policy = AnyFlagWins | MajorityVote | PriorityOverride

datatype provider_error_mode = IgnoreErrors | FlagErrors

datatype tie_break = TieFlag | TieClear

text \<open>A priority is a number or, by default, \<open>Infinity\<close> (\<open>None\<close>).\<close>

record 'w registered =
  rp_name :: string
  rp_provider :: "'w provider"
  rp_priority :: "rat option"
  rp_index :: nat

record 'w registry =
  rg_providers :: "(string, 'w registered) jsmap"
  rg_policy :: conflict_policy
  rg_onProviderError :: provider_error_mode
  rg_tieBreak :: tie_break
  rg_next :: nat

record outcome =
  oc_name :: string
  oc_flagged :: bool
  oc_source :: string
  oc_score :: "rat option"

record error_outcome =
  eo_name :: string
  eo_error :: string

record registry_result =
  rr_flagged :: bool
  rr_source :: string
  rr_score :: "rat option"
  rr_policy :: conflict_policy
  rr_results :: "outcome list"
  rr_errors :: "error_outcome list"

definition new_registry ::
  "conflict_policy \<Rightarrow> provider_error_mode option \<Rightarrow> tie_break option \<Rightarrow> 'w registry" where
  "new_registry policy onProviderError tieBreak =
     \<lparr>rg_providers = [], rg_policy = policy, rg_onProviderError = or_default onProviderError IgnoreErrors,
      rg_tieBreak = or_default tieBreak TieFlag, rg_next = 0\<rparr>"

section \<open>Registration\<close>

definition register ::
  "string \<Rightarrow> 'w provider \<Rightarrow> rat option \<Rightarrow> 'w registry \<Rightarrow> thrown + 'w registry" where
  "register name provider priority r =
     (if map_has (rg_providers r) name then
        Throw (mk_error (''sanctions-oracle: a provider named '' @ [CHR 0x22] @ name @ [CHR 0x22]
          @ '' is already registered''))
      else Ret (r\<lparr>rg_providers := map_set name
             \<lparr>rp_name = name, rp_provider = provider, rp_priority = priority, rp_index = rg_next r\<rparr>
             (rg_providers r), rg_next := Suc (rg_next r)\<rparr>))"

definition unregister :: "string \<Rightarrow> 'w registry \<Rightarrow> 'w registry" where
  "unregister name r = r\<lparr>rg_providers := map_delete name (rg_providers r)\<rparr>"

definition listProviders :: "'w registry \<Rightarrow> string list" where
  "listProviders r = map_keys (rg_providers r)"

definition registry_wf :: "'w registry \<Rightarrow> bool" where
  "registry_wf r \<longleftrightarrow> map_wf (rg_providers r)
     \<and> (\<forall>(k, p) \<in> set (rg_providers r). rp_name p = k \<and> rp_index p < rg_next r)
     \<and> sorted_wrt (<) (map (\<lambda>(k, p). rp_index p) (rg_providers r))"

lemma registry_wf_new: "registry_wf (new_registry policy oe tb)"
  by (simp add: registry_wf_def new_registry_def)

lemma registry_wf_register:
  "registry_wf r \<Longrightarrow> register name p prio r = Ret r' \<Longrightarrow> registry_wf r'"
  by (auto simp: registry_wf_def register_def map_set_fresh sorted_wrt_append map_has_def map_wf_def
      less_Suc_eq split: if_splits)

lemma registry_wf_unregister: "registry_wf r \<Longrightarrow> registry_wf (unregister name r)"
  by (auto simp: registry_wf_def unregister_def AList.delete_eq sorted_wrt_map
      intro!: sorted_wrt_filter)

section \<open>Resolution\<close>

definition formatSources :: "outcome list \<Rightarrow> string" where
  "formatSources outcomes =
     join '', '' (map (\<lambda>o'. oc_name o' @ '':'' @ encodeURIComponent (oc_source o')) outcomes)"

definition resolveAnyFlagWins :: "outcome list \<Rightarrow> bool \<times> string" where
  "resolveAnyFlagWins votes =
     (let flaggers = filter oc_flagged votes;
          flagged = (0 < length flaggers);
          relevant = (if flagged then flaggers else votes)
      in (flagged, formatSources relevant))"

fun tie_name :: "tie_break \<Rightarrow> string" where
  "tie_name TieFlag = ''flag''"
| "tie_name TieClear = ''clear''"

definition resolveMajorityVote :: "tie_break \<Rightarrow> outcome list \<Rightarrow> bool \<times> string" where
  "resolveMajorityVote tieBreak votes =
     (let flaggers = filter oc_flagged votes;
          clearers = filter (\<lambda>r. \<not> oc_flagged r) votes;
          flagged = (if length flaggers > length clearers then True
                     else if length clearers > length flaggers then False
                     else tieBreak = TieFlag);
          relevant = (if flagged then flaggers else clearers);
          source = (if 0 < length relevant then formatSources relevant
                    else ''majority-vote tie-break ('' @ tie_name tieBreak @ '')'')
      in (flagged, source))"

fun priority_less :: "rat option \<Rightarrow> rat option \<Rightarrow> bool" where
  "priority_less (Some a) (Some b) \<longleftrightarrow> a < b"
| "priority_less (Some a) None \<longleftrightarrow> True"
| "priority_less None _ \<longleftrightarrow> False"

definition compare_priority ::
  "(string, rat option \<times> nat) jsmap \<Rightarrow> outcome \<Rightarrow> outcome \<Rightarrow> int" where
  "compare_priority metadataByName a b =
     (case (map_get metadataByName (oc_name a), map_get metadataByName (oc_name b)) of
        (Some (pa, ia), Some (pb, ib)) \<Rightarrow>
          if priority_less pa pb then - 1
          else if priority_less pb pa then 1
          else int ia - int ib
      | _ \<Rightarrow> 0)"

definition metadata :: "'w registered list \<Rightarrow> (string, rat option \<times> nat) jsmap" where
  "metadata registered = map (\<lambda>p. (rp_name p, rp_priority p, rp_index p)) registered"

definition resolvePriorityOverride :: "'w registered list \<Rightarrow> outcome list \<Rightarrow> bool \<times> string" where
  "resolvePriorityOverride registered votes =
     (let ordered = js_sort (compare_priority (metadata registered)) votes;
          winner = hd ordered
      in (oc_flagged winner, formatSources [winner]))"

fun resolve :: "conflict_policy \<Rightarrow> tie_break \<Rightarrow> 'w registered list \<Rightarrow> outcome list \<Rightarrow> bool \<times> string" where
  "resolve AnyFlagWins tb registered votes = resolveAnyFlagWins votes"
| "resolve MajorityVote tb registered votes = resolveMajorityVote tb votes"
| "resolve PriorityOverride tb registered votes = resolvePriorityOverride registered votes"

section \<open>From the settled answers to the verdict\<close>

type_synonym answer = "thrown + check_result"

fun results_of :: "(string \<times> answer) list \<Rightarrow> outcome list" where
  "results_of [] = []"
| "results_of ((n, Ret r) # settled) =
     \<lparr>oc_name = n, oc_flagged = cr_flagged r, oc_source = cr_source r, oc_score = cr_score r\<rparr>
       # results_of settled"
| "results_of ((n, Throw e) # settled) = results_of settled"

fun errors_of :: "(string \<times> answer) list \<Rightarrow> error_outcome list" where
  "errors_of [] = []"
| "errors_of ((n, Ret r) # settled) = errors_of settled"
| "errors_of ((n, Throw e) # settled) = \<lparr>eo_name = n, eo_error = thrown_message e\<rparr> # errors_of settled"

definition voting_results :: "provider_error_mode \<Rightarrow> (string \<times> answer) list \<Rightarrow> outcome list" where
  "voting_results mode settled =
     (if mode = FlagErrors then
        results_of settled @ map (\<lambda>e. \<lparr>oc_name = eo_name e, oc_flagged = True,
          oc_source = ''error: '' @ eo_error e, oc_score = None\<rparr>) (errors_of settled)
      else results_of settled)"

definition all_failed_error :: "error_outcome list \<Rightarrow> thrown" where
  "all_failed_error errors = Exn ''ProviderRegistryAllProvidersFailedError''
     (''sanctions-oracle: all '' @ dec_of_nat (length errors)
        @ '' registered provider(s) failed to answer: ''
        @ join ''; '' (map (\<lambda>e. eo_name e @ '' ('' @ eo_error e @ '')'') errors)) no_props"

definition agreeing_scores :: "bool \<Rightarrow> outcome list \<Rightarrow> rat list" where
  "agreeing_scores flagged votes =
     List.map_filter oc_score (filter (\<lambda>r. oc_flagged r = flagged) votes)"

definition resolve_answers ::
  "'w registry \<Rightarrow> answer list \<Rightarrow> thrown + registry_result" where
  "resolve_answers r answers =
     (let registered = map snd (rg_providers r);
          settled = zip (map rp_name registered) answers;
          votes = voting_results (rg_onProviderError r) settled
      in if votes = [] then Throw (all_failed_error (errors_of settled))
         else
           let (flagged, source) = resolve (rg_policy r) (rg_tieBreak r) registered votes;
               scores = agreeing_scores flagged votes
           in Ret \<lparr>rr_flagged = flagged, rr_source = source,
                rr_score = (if 0 < length scores then Some (Max (set scores)) else None),
                rr_policy = rg_policy r, rr_results = results_of settled, rr_errors = errors_of settled\<rparr>)"

fun ask_all :: "'w registered list \<Rightarrow> string \<Rightarrow> 'w \<Rightarrow> answer list \<times> 'w" where
  "ask_all [] address w = ([], w)"
| "ask_all (p # ps) address w =
     (case rp_provider p address w of (a, w) \<Rightarrow>
        (case ask_all ps address w of (as, w) \<Rightarrow> (a # as, w)))"

definition registry_checkAddressDetailed ::
  "'w registry \<Rightarrow> string \<Rightarrow> 'w \<Rightarrow> (thrown + registry_result) \<times> 'w" where
  "registry_checkAddressDetailed r address w =
     (if length (rg_providers r) = 0 then
        (Throw (mk_error ''sanctions-oracle: ProviderRegistry has no registered providers''), w)
      else case ask_all (map snd (rg_providers r)) address w of
             (answers, w) \<Rightarrow> (resolve_answers r answers, w))"

definition registry_checkAddress :: "'w registry \<Rightarrow> 'w provider" where
  "registry_checkAddress r address w =
     (case registry_checkAddressDetailed r address w of
        (Throw e, w) \<Rightarrow> (Throw e, w)
      | (Ret res, w) \<Rightarrow>
          (Ret \<lparr>cr_flagged = rr_flagged res, cr_source = rr_source res, cr_score = rr_score res\<rparr>, w))"

section \<open>Spelling\<close>

lemma ask_all_cong:
  "(\<And>p w. p \<in> set ps \<Longrightarrow> rp_provider p a w = rp_provider p b w) \<Longrightarrow> ask_all ps a w = ask_all ps b w"
proof (induction ps arbitrary: w)
  case Nil
  then show ?case by simp
next
  case (Cons p ps)
  have "ask_all ps a = ask_all ps b" by (rule ext, rule Cons.IH) (simp add: Cons.prems)
  then show ?case using Cons.prems [of p w] by simp
qed

text \<open>A registry of providers that honour the contract honours it.\<close>

lemma registry_provider:
  assumes "\<And>p. p \<in> snd ` set (rg_providers r) \<Longrightarrow> sanctions_provider (rp_provider p)"
  shows "sanctions_provider (registry_checkAddress r)"
proof
  fix a b w
  assume ab: "normalizeStellarAddress a = normalizeStellarAddress b"
  have "ask_all (map snd (rg_providers r)) a w = ask_all (map snd (rg_providers r)) b w"
    by (rule ask_all_cong) (use assms ab in \<open>auto intro: sanctions_provider.spelling\<close>)
  then show "registry_checkAddress r a w = registry_checkAddress r b w"
    by (simp only: registry_checkAddress_def registry_checkAddressDetailed_def)
qed

definition file_registry ::
  "conflict_policy \<Rightarrow> watchlist \<Rightarrow> (string, string) jsmap \<Rightarrow> 'w registry" where
  "file_registry policy m1 m2 =
     (new_registry policy None None)\<lparr>rg_providers :=
        [(''csv'', \<lparr>rp_name = ''csv'', rp_provider = csv_checkAddress m1, rp_priority = Some 1, rp_index = 0\<rparr>),
         (''mock'', \<lparr>rp_name = ''mock'', rp_provider = mock_checkAddress m2, rp_priority = None, rp_index = 1\<rparr>)],
      rg_next := 2\<rparr>"

lemma file_registry_registered:
  "js_bind (register ''csv'' (csv_checkAddress m1) (Some 1) (new_registry policy None None))
     (register ''mock'' (mock_checkAddress m2) None) = Ret (file_registry policy m1 m2)"
  by (simp add: register_def file_registry_def new_registry_def map_has_def)

interpretation reg: sanctions_provider "registry_checkAddress (file_registry policy m1 m2)" for policy m1 m2
  by (rule registry_provider)
    (auto simp: file_registry_def csv.sanctions_provider_axioms mock.sanctions_provider_axioms)

section \<open>Verdicts\<close>

lemma answers_zip:
  "length answers = length names \<Longrightarrow> set answers = snd ` set (zip names answers)"
  by (metis map_snd_zip set_map)

lemma results_flagged:
  "(\<exists>o' \<in> set (results_of settled). oc_flagged o') \<longleftrightarrow> (\<exists>r. Ret r \<in> snd ` set settled \<and> cr_flagged r)"
  by (induction settled rule: results_of.induct) auto

lemma results_empty: "results_of settled = [] \<longleftrightarrow> (\<forall>r. Ret r \<notin> snd ` set settled)"
  by (induction settled rule: results_of.induct) auto

lemma errors_empty: "errors_of settled = [] \<longleftrightarrow> (\<forall>e. Throw e \<notin> snd ` set settled)"
  by (induction settled rule: errors_of.induct) auto

lemma votes_flagged:
  "(\<exists>o' \<in> set (voting_results mode settled). oc_flagged o') \<longleftrightarrow>
     (\<exists>r. Ret r \<in> snd ` set settled \<and> cr_flagged r)
     \<or> (mode = FlagErrors \<and> (\<exists>e. Throw e \<in> snd ` set settled))"
proof (cases mode)
  case IgnoreErrors
  then show ?thesis using results_flagged [of settled] by (simp add: voting_results_def)
next
  case FlagErrors
  have "(\<exists>o' \<in> set (voting_results mode settled). oc_flagged o') \<longleftrightarrow>
      (\<exists>o' \<in> set (results_of settled). oc_flagged o') \<or> errors_of settled \<noteq> []"
    by (cases "errors_of settled") (simp_all add: voting_results_def FlagErrors bex_Un)
  then show ?thesis unfolding results_flagged errors_empty by (simp add: FlagErrors)
qed

lemma votes_empty:
  "voting_results mode settled = [] \<longleftrightarrow>
     (\<forall>r. Ret r \<notin> snd ` set settled) \<and> (mode = FlagErrors \<longrightarrow> (\<forall>e. Throw e \<notin> snd ` set settled))"
  unfolding results_empty [symmetric] errors_empty [symmetric] by (simp add: voting_results_def)

lemma answer_nonempty: "answers \<noteq> [] \<Longrightarrow> (\<exists>r. Ret r \<in> set answers) \<or> (\<exists>e. Throw e \<in> set answers)"
  by (cases answers; cases "hd answers") auto

abbreviation votes_of :: "'w registry \<Rightarrow> answer list \<Rightarrow> outcome list" where
  "votes_of r answers \<equiv>
     voting_results (rg_onProviderError r) (zip (map rp_name (map snd (rg_providers r))) answers)"

lemma resolve_answers_Ret:
  assumes "votes_of r answers \<noteq> []"
  obtains res where "resolve_answers r answers = Ret res"
    and "(rr_flagged res, rr_source res) =
      resolve (rg_policy r) (rg_tieBreak r) (map snd (rg_providers r)) (votes_of r answers)"
    and "rr_score res = (let scores = agreeing_scores (rr_flagged res) (votes_of r answers)
      in if scores = [] then None else Some (Max (set scores)))"
proof -
  obtain f src where v: "resolve (rg_policy r) (rg_tieBreak r) (map snd (rg_providers r)) (votes_of r answers)
      = (f, src)" by fastforce
  show thesis
    by (rule that, unfold resolve_answers_def Let_def v, simp only: assms if_False prod.case)
      (simp_all add: v)
qed

lemma resolve_answers_Throw:
  "votes_of r answers = [] \<Longrightarrow> \<exists>e. resolve_answers r answers = Throw e"
  by (simp add: resolve_answers_def Let_def)

lemma resolve_answers_RetD:
  assumes "resolve_answers r answers = Ret res"
  shows "votes_of r answers \<noteq> []
    \<and> (rr_flagged res, rr_source res) =
        resolve (rg_policy r) (rg_tieBreak r) (map snd (rg_providers r)) (votes_of r answers)"
proof -
  have ne: "votes_of r answers \<noteq> []"
    using assms resolve_answers_Throw [of r answers] by auto
  from resolve_answers_Ret [OF this] assms have "(rr_flagged res, rr_source res) =
        resolve (rg_policy r) (rg_tieBreak r) (map snd (rg_providers r)) (votes_of r answers)"
    by (metis sum.inject(2))
  with ne show ?thesis by blast
qed

text \<open>
  \<open>any-flag-wins\<close> never loses a flag, and the error mode decides what a failing provider
  means. The registry answers when some provider does (or, in mode \<open>flag\<close>, always); the verdict is
  \<open>flagged\<close> exactly when some provider flagged the address or, in mode \<open>flag\<close>, failed to answer.
\<close>

theorem any_flag_wins:
  assumes "rg_policy r = AnyFlagWins" and "length answers = length (rg_providers r)" and "answers \<noteq> []"
  shows "(case resolve_answers r answers of
      Throw _ \<Rightarrow> rg_onProviderError r = IgnoreErrors \<and> (\<forall>a \<in> set answers. \<exists>e. a = Throw e)
    | Ret res \<Rightarrow> rr_flagged res \<longleftrightarrow> (\<exists>x. Ret x \<in> set answers \<and> cr_flagged x)
        \<or> (rg_onProviderError r = FlagErrors \<and> (\<exists>e. Throw e \<in> set answers)))"
proof -
  let ?settled = "zip (map rp_name (map snd (rg_providers r))) answers"
  let ?votes = "voting_results (rg_onProviderError r) ?settled"
  have set: "set answers = snd ` set ?settled"
    using assms(2) by (intro answers_zip) simp
  have ne: "?settled \<noteq> []" using assms(2,3) by auto
  show ?thesis
  proof (cases "?votes = []")
    case True
    then have "resolve_answers r answers = Throw (all_failed_error (errors_of ?settled))"
      by (simp add: resolve_answers_def Let_def)
    moreover have "rg_onProviderError r = IgnoreErrors \<and> (\<forall>r. Ret r \<notin> set answers)"
      using True answer_nonempty [OF assms(3)] unfolding votes_empty set [symmetric]
      by (cases "rg_onProviderError r") auto
    ultimately show ?thesis by (simp, metis sum.exhaust)
  next
    case False
    obtain res where res: "resolve_answers r answers = Ret res"
      and flag: "rr_flagged res = (filter oc_flagged ?votes \<noteq> [])"
      by (rule resolve_answers_Ret [OF False]) (simp add: assms(1) resolveAnyFlagWins_def Let_def)
    have "rr_flagged res \<longleftrightarrow> (\<exists>o' \<in> set ?votes. oc_flagged o')"
      by (auto simp: flag filter_empty_conv)
    then show ?thesis by (simp add: res votes_flagged set)
  qed
qed

theorem any_flag_wins_witness:
  "\<exists>res. resolve_answers (file_registry AnyFlagWins [] [] :: unit registry)
      [Ret (unscored False ''a''), Ret (unscored True ''b'')] = Ret res \<and> rr_flagged res"
proof -
  let ?r = "file_registry AnyFlagWins [] [] :: unit registry"
  let ?as = "[Ret (unscored False ''a''), Ret (unscored True ''b'')] :: answer list"
  have "rg_policy ?r = AnyFlagWins" "length ?as = length (rg_providers ?r)" "?as \<noteq> []"
    by (simp_all add: file_registry_def new_registry_def)
  note any = any_flag_wins [OF this]
  have "votes_of ?r ?as \<noteq> []" unfolding votes_empty by (auto simp: file_registry_def new_registry_def)
  then obtain res where res: "resolve_answers ?r ?as = Ret res" by (rule resolve_answers_Ret)
  have "Ret (unscored True ''b'') \<in> set ?as" "cr_flagged (unscored True ''b'')"
    by (simp_all add: unscored_def)
  then show ?thesis using any unfolding res by auto
qed

text \<open>
  \<open>majority-vote\<close> follows the majority of the voters and breaks ties as configured.
\<close>

theorem majority_vote:
  assumes "rg_policy r = MajorityVote" and "resolve_answers r answers = Ret res"
    and "votes = votes_of r answers"
  shows "rr_flagged res \<longleftrightarrow>
    length (filter oc_flagged votes) > length (filter (\<lambda>v. \<not> oc_flagged v) votes)
    \<or> (length (filter oc_flagged votes) = length (filter (\<lambda>v. \<not> oc_flagged v) votes) \<and> rg_tieBreak r = TieFlag)"
  using resolve_answers_RetD [OF assms(2)] unfolding assms(3)
  by (auto simp: assms(1) resolveMajorityVote_def Let_def split: if_splits)

theorem majority_vote_witness:
  "\<exists>res. resolve_answers (file_registry MajorityVote [] [] :: unit registry)
      [Ret (unscored False ''a''), Ret (unscored True ''b'')] = Ret res \<and> rr_flagged res"
proof -
  let ?r = "file_registry MajorityVote [] [] :: unit registry"
  let ?as = "[Ret (unscored False ''a''), Ret (unscored True ''b'')] :: answer list"
  let ?votes = "[\<lparr>oc_name = ''csv'', oc_flagged = False, oc_source = ''a'', oc_score = None\<rparr>,
       \<lparr>oc_name = ''mock'', oc_flagged = True, oc_source = ''b'', oc_score = None\<rparr>]"
  have votes: "?votes = votes_of ?r ?as"
    by (simp add: file_registry_def new_registry_def voting_results_def unscored_def)
  have "votes_of ?r ?as \<noteq> []" unfolding votes [symmetric] by simp
  then obtain res where res: "resolve_answers ?r ?as = Ret res" by (rule resolve_answers_Ret)
  have r: "rg_policy ?r = MajorityVote" "rg_tieBreak ?r = TieFlag"
    by (simp_all add: file_registry_def new_registry_def)
  from majority_vote [OF r(1) res votes] res r(2) show ?thesis by simp
qed

section \<open>Priorities\<close>

text \<open>The comparator orders voters by priority, then by registration; a sort key for it.\<close>

definition priority_key :: "rat option \<times> nat \<Rightarrow> (nat \<times> rat) \<times> nat" where
  "priority_key m = (case m of (Some p, i) \<Rightarrow> ((0, p), i) | (None, i) \<Rightarrow> ((1, 0), i))"

definition vote_key :: "(string, rat option \<times> nat) jsmap \<Rightarrow> outcome \<Rightarrow> (nat \<times> rat) \<times> nat" where
  "vote_key meta v = (case map_get meta (oc_name v) of Some m \<Rightarrow> priority_key m | None \<Rightarrow> ((0, 0), 0))"

lemma compare_priority_key:
  assumes "map_has meta (oc_name a)" and "map_has meta (oc_name b)"
  shows "compare_priority meta a b \<le> 0 \<longleftrightarrow> vote_key meta a \<le> vote_key meta b"
proof -
  obtain pa ia pb ib where "map_get meta (oc_name a) = Some (pa, ia)" "map_get meta (oc_name b) = Some (pb, ib)"
    using assms by (auto simp: map_has_iff)
  then show ?thesis
    by (cases pa; cases pb)
      (auto simp: compare_priority_def vote_key_def priority_key_def less_eq_prod_def)
qed

lemma hd_sort_key_minimal:
  assumes "xs \<noteq> []"
  shows "hd (sort_key f xs) \<in> set xs \<and> (\<forall>y \<in> set xs. f (hd (sort_key f xs)) \<le> f y)"
proof -
  have "sort_key f xs \<noteq> []" using assms by (metis length_0_conv length_sort)
  then obtain y ys where ys: "sort_key f xs = y # ys" by (cases "sort_key f xs") auto
  have "set xs = insert y (set ys)" by (metis ys list.simps(15) set_sort)
  moreover have "sorted (map f (y # ys))" by (metis ys sorted_sort_key)
  ultimately show ?thesis by (auto simp: ys)
qed

lemma votes_names: "v \<in> set (voting_results mode settled) \<Longrightarrow> oc_name v \<in> fst ` set settled"
proof -
  have "v \<in> set (results_of settled) \<Longrightarrow> oc_name v \<in> fst ` set settled" for v
    by (induction settled rule: results_of.induct) auto
  moreover have "e \<in> set (errors_of settled) \<Longrightarrow> eo_name e \<in> fst ` set settled" for e
    by (induction settled rule: errors_of.induct) auto
  ultimately show "v \<in> set (voting_results mode settled) \<Longrightarrow> oc_name v \<in> fst ` set settled"
    by (auto simp: voting_results_def split: if_splits)
qed

lemma votes_registered:
  assumes "v \<in> set (votes_of r answers)"
  shows "map_has (metadata (map snd (rg_providers r))) (oc_name v)"
proof -
  have "oc_name v \<in> set (map rp_name (map snd (rg_providers r)))"
    using votes_names [OF assms] by (auto dest: set_zip_leftD)
  then show ?thesis by (auto simp: map_has_def metadata_def image_image)
qed

text \<open>
  \<open>priority-override\<close> follows the voter of highest precedence: the verdict and the source are
  those of a vote whose provider has the least priority number among all voters, the earliest
  registration among equals.
\<close>

theorem priority_override:
  assumes "rg_policy r = PriorityOverride" and "resolve_answers r answers = Ret res"
  shows "\<exists>v \<in> set (votes_of r answers).
      rr_flagged res = oc_flagged v \<and> rr_source res = formatSources [v]
      \<and> (\<forall>u \<in> set (votes_of r answers).
           vote_key (metadata (map snd (rg_providers r))) v \<le> vote_key (metadata (map snd (rg_providers r))) u)"
proof -
  let ?votes = "votes_of r answers" and ?meta = "metadata (map snd (rg_providers r))"
  have ne: "?votes \<noteq> []"
    and res: "(rr_flagged res, rr_source res) = resolvePriorityOverride (map snd (rg_providers r)) ?votes"
    using resolve_answers_RetD [OF assms(2)] by (simp_all add: assms(1))
  have sorted: "js_sort (compare_priority ?meta) ?votes = sort_key (vote_key ?meta) ?votes"
    by (rule js_sort_key) (rule compare_priority_key; rule votes_registered; assumption)
  let ?v = "hd (sort_key (vote_key ?meta) ?votes)"
  have "rr_flagged res = oc_flagged ?v \<and> rr_source res = formatSources [?v]"
    using res unfolding resolvePriorityOverride_def Let_def sorted by simp
  with hd_sort_key_minimal [OF ne, of "vote_key ?meta"] show ?thesis by blast
qed

theorem priority_override_witness:
  "\<exists>res. resolve_answers (file_registry PriorityOverride [] [] :: unit registry)
      [Ret (unscored False ''a''), Ret (unscored True ''b'')] = Ret res \<and> \<not> rr_flagged res"
proof -
  let ?r = "file_registry PriorityOverride [] [] :: unit registry"
  let ?as = "[Ret (unscored False ''a''), Ret (unscored True ''b'')] :: answer list"
  let ?votes = "[\<lparr>oc_name = ''csv'', oc_flagged = False, oc_source = ''a'', oc_score = None\<rparr>,
       \<lparr>oc_name = ''mock'', oc_flagged = True, oc_source = ''b'', oc_score = None\<rparr>]"
  have votes: "votes_of ?r ?as = ?votes"
    by (simp add: file_registry_def new_registry_def voting_results_def unscored_def)
  have "votes_of ?r ?as \<noteq> []" unfolding votes by simp
  then obtain res where res: "resolve_answers ?r ?as = Ret res" by (rule resolve_answers_Ret)
  have "rg_policy ?r = PriorityOverride" by (simp add: file_registry_def new_registry_def)
  from priority_override [OF this res] obtain v where "v \<in> set ?votes" "rr_flagged res = oc_flagged v"
    and "\<forall>u \<in> set ?votes. vote_key (metadata (map snd (rg_providers ?r))) v
           \<le> vote_key (metadata (map snd (rg_providers ?r))) u"
    unfolding votes by blast
  then have "\<not> rr_flagged res"
    by (auto simp: vote_key_def metadata_def priority_key_def file_registry_def less_eq_prod_def)
  with res show ?thesis by blast
qed

section \<open>The combined source label\<close>

text \<open>A reader of the label: split at the separators, decode each source.\<close>

fun split_colon :: "string \<Rightarrow> string \<times> string" where
  "split_colon [] = ([], [])"
| "split_colon (c # cs) = (if c = CHR '':'' then ([], cs) else (case split_colon cs of (a, b) \<Rightarrow> (c # a, b)))"

definition parse_sources :: "string \<Rightarrow> (string \<times> string) list" where
  "parse_sources s = (case split_on (CHR '','') s of w # ws \<Rightarrow>
     map (\<lambda>w. case split_colon w of (n, s) \<Rightarrow> (n, decodeURIComponent s)) (w # map tl ws) | [] \<Rightarrow> [])"

lemma split_colon_append: "CHR '':'' \<notin> set n \<Longrightarrow> split_colon (n @ CHR '':'' # s) = (n, s)"
  by (induction n) auto

lemma join_head: "join sep ((b # x) # xs) = b # join sep (x # xs)"
  by (cases xs) simp_all

lemma join_sep2: "join [a, b] (w # ws) = join [a] (w # map ((#) b) ws)"
  by (induction ws arbitrary: w) (auto simp: join_head neq_Nil_conv)

text \<open>
  Source labels cannot be forged: as long as registered names hold neither comma nor colon,
  the combined label determines every provider's name and its exact source string, separators
  inside a source included.
\<close>

theorem formatSources_parses:
  assumes "os \<noteq> []" and "\<forall>v \<in> set os. CHR '','' \<notin> set (oc_name v) \<and> CHR '':'' \<notin> set (oc_name v)"
  shows "parse_sources (formatSources os) = map (\<lambda>v. (oc_name v, oc_source v)) os"
proof -
  let ?f = "\<lambda>v. oc_name v @ '':'' @ encodeURIComponent (oc_source v)"
  let ?parse = "\<lambda>w. case split_colon w of (n, s) \<Rightarrow> (n, decodeURIComponent s)"
  obtain v vs where os: "os = v # vs" using assms(1) by (cases os) auto
  have no_comma: "CHR '','' \<notin> set (?f u)" if "u \<in> set os" for u
    using that assms(2) encode_no_separator(2) [of "oc_source u"] by auto
  have parse: "?parse (?f u) = (oc_name u, oc_source u)" if "u \<in> set os" for u
    using that assms(2) by (simp add: split_colon_append decode_encode)
  have fmt: "formatSources os = join '','' (?f v # map ((#) (CHR '' '')) (map ?f vs))"
    by (cases "vs = []") (simp_all add: formatSources_def os join_sep2)
  have "split_on (CHR '','') (formatSources os) = ?f v # map ((#) (CHR '' '')) (map ?f vs)"
    unfolding fmt by (rule split_on_join) (use no_comma os in auto)
  then have "parse_sources (formatSources os) = map ?parse (map ?f os)"
    by (simp add: parse_sources_def os comp_def)
  then show ?thesis using parse by simp
qed

theorem formatSources_parses_witness:
  "parse_sources (formatSources
     [\<lparr>oc_name = ''a'', oc_flagged = True, oc_source = ''x, b:y'', oc_score = None\<rparr>,
      \<lparr>oc_name = ''b'', oc_flagged = True, oc_source = [], oc_score = None\<rparr>])
   = [(''a'', ''x, b:y''), (''b'', [])]"
  by (subst formatSources_parses) simp_all

section \<open>Scores\<close>

text \<open>The registry's score is the highest score among the voters that agree with the verdict.\<close>

lemma registry_score:
  assumes "resolve_answers r answers = Ret res"
  shows "rr_score res = (let scores = agreeing_scores (rr_flagged res) (votes_of r answers)
      in if scores = [] then None else Some (Max (set scores)))"
  by (rule resolve_answers_Ret [of r answers]) (use assms resolve_answers_RetD [OF assms] in auto)

end
