(* ===== verification/Tracing.thy ===== *)
theory Tracing
  imports Complex_Main Backoff
begin

text \<open>
  \<open>tracing/src/index.ts\<close> and the data types of \<open>tracing-types/src/index.ts\<close>: spans, sampling,
  W3C \<open>traceparent\<close> propagation, export and the OpenTelemetry bridge.

  Random bytes, \<open>Math.random\<close> and the clock are functions on a world \<open>'w\<close>. Live spans are kept
  in a store, a span handle is an index into it. An export that has been handed to the exporter
  and has not settled is pending; its failure reaches \<open>onExportError\<close> only.
\<close>

section \<open>Data\<close>

datatype span_status = SOk | SError | SCancelled

datatype attr_value = AStr string | ANum rat | ABool bool

record span_data =
  sd_traceId :: string
  sd_spanId :: string
  sd_parentSpanId :: "string option"
  sd_name :: string
  sd_startTimeMs :: int
  sd_endTimeMs :: int
  sd_durationMs :: int
  sd_status :: span_status
  sd_attributes :: "(string, attr_value) jsmap"
  sd_errorMessage :: "string option"

record tracing_context =
  tc_traceId :: string
  tc_spanId :: string
  tc_sampled :: "bool option"

record live_span =
  ls_name :: string
  ls_traceId :: string
  ls_spanId :: string
  ls_parentSpanId :: "string option"
  ls_startTimeMs :: int
  ls_attrs :: "(string, attr_value) jsmap"
  ls_ended :: bool

datatype span = Live nat | NoopSpan

record tracing_options =
  to_exporter :: bool
  to_sampler :: "string \<Rightarrow> bool"
  to_sampleRate :: "rat option"
  to_serviceName :: "string option"

record 'w trace_env =
  te_randomBytes :: "nat \<Rightarrow> 'w \<Rightarrow> nat list \<times> 'w"
  te_random :: "'w \<Rightarrow> rat \<times> 'w"
  te_now :: "'w \<Rightarrow> int"

record tracer =
  tr_spans :: "live_span list"
  tr_shuttingDown :: bool
  tr_pending :: "nat list"
  tr_exported :: "(nat \<times> span_data) list"
  tr_exportErrors :: "thrown list"

definition tracer_init :: tracer where
  "tracer_init = \<lparr>tr_spans = [], tr_shuttingDown = False, tr_pending = [], tr_exported = [],
     tr_exportErrors = []\<rparr>"

definition check_sampleRate :: "(rat \<Rightarrow> string) \<Rightarrow> rat option \<Rightarrow> thrown + unit" where
  "check_sampleRate num rate = (case rate of
     None \<Rightarrow> Ret ()
   | Some r \<Rightarrow> if r < 0 \<or> r > 1 then Throw (mk_error (''tracing: sampleRate must be in [0, 1], got '' @ num r))
              else Ret ())"

section \<open>Identifiers\<close>

definition hex_lower :: "nat \<Rightarrow> char" where
  "hex_lower n = char_of (if n < 10 then 48 + n else 87 + n)"

definition hex_of_bytes :: "nat list \<Rightarrow> string" where
  "hex_of_bytes bs = concat (map (\<lambda>b. [hex_lower (b div 16), hex_lower (b mod 16)]) bs)"

definition randomHex :: "'w trace_env \<Rightarrow> nat \<Rightarrow> 'w \<Rightarrow> string \<times> 'w" where
  "randomHex env n w = (case te_randomBytes env n w of (bs, w) \<Rightarrow> (hex_of_bytes bs, w))"

section \<open>The tracer\<close>

text \<open>The sampling decision: an explicit decision of the parent wins.\<close>

definition sampled_in :: "tracing_options \<Rightarrow> 'w trace_env \<Rightarrow> string \<Rightarrow> tracing_context option \<Rightarrow> 'w \<Rightarrow> bool \<times> 'w" where
  "sampled_in opts env name parent w =
     (case Option.bind parent tc_sampled of
        Some s \<Rightarrow> (s, w)
      | None \<Rightarrow>
          if \<not> to_sampler opts name then (False, w)
          else (case to_sampleRate opts of
              None \<Rightarrow> (True, w)
            | Some rate \<Rightarrow>
                if rate \<ge> 1 then (True, w)
                else if rate \<le> 0 then (False, w)
                else (case te_random env w of (r, w) \<Rightarrow> (r < rate, w))))"

definition new_span ::
  "tracing_options \<Rightarrow> 'w trace_env \<Rightarrow> string \<Rightarrow> tracing_context option \<Rightarrow> 'w \<Rightarrow> live_span \<times> 'w" where
  "new_span opts env name parent w =
     (let (traceId, w) = (case parent of Some p \<Rightarrow> (tc_traceId p, w) | None \<Rightarrow> randomHex env 16 w);
          (spanId, w) = randomHex env 8 w
      in (\<lparr>ls_name = name, ls_traceId = traceId, ls_spanId = spanId,
           ls_parentSpanId = map_option tc_spanId parent, ls_startTimeMs = te_now env w,
           ls_attrs = (case to_serviceName opts of
               Some n \<Rightarrow> if n = [] then [] else [(''service.name'', AStr n)] | None \<Rightarrow> []),
           ls_ended = False\<rparr>, w))"

definition startSpan ::
  "tracing_options \<Rightarrow> 'w trace_env \<Rightarrow> string \<Rightarrow> tracing_context option \<Rightarrow> tracer \<Rightarrow> 'w
     \<Rightarrow> span \<times> tracer \<times> 'w" where
  "startSpan opts env name parent t w =
     (if tr_shuttingDown t then (NoopSpan, t, w)
      else
        let (sampled, w) = sampled_in opts env name parent w in
        if \<not> sampled then (NoopSpan, t, w)
        else
          let (s, w) = new_span opts env name parent w in
          (Live (length (tr_spans t)), t\<lparr>tr_spans := tr_spans t @ [s]\<rparr>, w))"

definition setAttribute :: "span \<Rightarrow> string \<Rightarrow> attr_value \<Rightarrow> tracer \<Rightarrow> tracer" where
  "setAttribute sp key v t = (case sp of
     NoopSpan \<Rightarrow> t
   | Live i \<Rightarrow> if i < length (tr_spans t) then
       t\<lparr>tr_spans := (tr_spans t)[i := (tr_spans t ! i)\<lparr>ls_attrs := map_set key v (ls_attrs (tr_spans t ! i))\<rparr>]\<rparr>
     else t)"

definition handleSpanEnd :: "tracing_options \<Rightarrow> nat \<Rightarrow> span_data \<Rightarrow> tracer \<Rightarrow> tracer" where
  "handleSpanEnd opts i data t =
     (if \<not> to_exporter opts then t
      else t\<lparr>tr_exported := tr_exported t @ [(i, data)], tr_pending := tr_pending t @ [i]\<rparr>)"

definition span_end ::
  "tracing_options \<Rightarrow> span \<Rightarrow> span_status option \<Rightarrow> thrown option \<Rightarrow> int \<Rightarrow> tracer \<Rightarrow> tracer" where
  "span_end opts sp status error now t = (case sp of
     NoopSpan \<Rightarrow> t
   | Live i \<Rightarrow>
       if i < length (tr_spans t) \<and> \<not> ls_ended (tr_spans t ! i) then
         let s = tr_spans t ! i in
         handleSpanEnd opts i
           \<lparr>sd_traceId = ls_traceId s, sd_spanId = ls_spanId s, sd_parentSpanId = ls_parentSpanId s,
            sd_name = ls_name s, sd_startTimeMs = ls_startTimeMs s, sd_endTimeMs = now,
            sd_durationMs = now - ls_startTimeMs s, sd_status = or_default status SOk,
            sd_attributes = ls_attrs s, sd_errorMessage = map_option thrown_message error\<rparr>
           (t\<lparr>tr_spans := (tr_spans t)[i := s\<lparr>ls_ended := True\<rparr>]\<rparr>)
       else t)"

text \<open>An export settles: it leaves \<open>pending\<close>, and a failure goes to \<open>onExportError\<close>.\<close>

definition export_settled :: "nat \<Rightarrow> thrown + unit \<Rightarrow> tracer \<Rightarrow> tracer" where
  "export_settled i r t =
     (let t = t\<lparr>tr_pending := remove1 i (tr_pending t)\<rparr> in
      case r of Ret _ \<Rightarrow> t | Throw e \<Rightarrow> t\<lparr>tr_exportErrors := tr_exportErrors t @ [e]\<rparr>)"

text \<open>\<open>shutdown\<close> waits for the exports that are pending when it is called.\<close>

definition tracer_shutdown :: "tracer \<Rightarrow> nat list \<times> tracer" where
  "tracer_shutdown t = (tr_pending t, t\<lparr>tr_shuttingDown := True\<rparr>)"

section \<open>Context propagation\<close>

definition injectContext :: "tracing_context \<Rightarrow> string" where
  "injectContext c = ''00-'' @ tc_traceId c @ ''-'' @ tc_spanId c @ ''-''
     @ (if tc_sampled c = Some False then ''00'' else ''01'')"

definition extractContext :: "string option \<Rightarrow> tracing_context option" where
  "extractContext traceparent = (case traceparent of
     None \<Rightarrow> None
   | Some h \<Rightarrow>
       if h = [] then None
       else
         (case split_on (CHR ''-'') h of
            _ # p1 # p2 # p3 # _ \<Rightarrow>
              if length p1 \<noteq> 32 \<or> length p2 \<noteq> 16 then None
              else Some \<lparr>tc_traceId = p1, tc_spanId = p2, tc_sampled = Some (p3 = ''01'')\<rparr>
          | _ \<Rightarrow> None))"

text \<open>A header record: a value is a string, an array of strings or \<open>undefined\<close>.\<close>

datatype header_value = HStr string | HArr "string list" | HUndef

definition first_value :: "header_value \<Rightarrow> string option" where
  "first_value v = (case v of HStr s \<Rightarrow> Some s | HArr [] \<Rightarrow> None | HArr (s # _) \<Rightarrow> Some s | HUndef \<Rightarrow> None)"

fun find_header :: "string \<Rightarrow> (string \<times> header_value) list \<Rightarrow> string option" where
  "find_header name [] = None"
| "find_header name ((k, v) # hs) = (if to_lower k = name then first_value v else find_header name hs)"

definition extractTraceContext :: "(string \<times> header_value) list \<Rightarrow> tracing_context option" where
  "extractTraceContext headers = extractContext (find_header ''traceparent'' headers)"

section \<open>The OpenTelemetry bridge\<close>

datatype otel_call = SetStatus nat "string option" | RecordException thrown | OtelEnd

definition otel_end :: "bool \<Rightarrow> span_status \<Rightarrow> thrown option \<Rightarrow> otel_call list" where
  "otel_end has_recordException status error =
     (case status of
        SOk \<Rightarrow> [SetStatus 1 None]
      | SError \<Rightarrow> [SetStatus 2 (map_option thrown_message error)]
          @ (case error of Some e \<Rightarrow> if has_recordException then [RecordException e] else [] | None \<Rightarrow> [])
      | SCancelled \<Rightarrow> [SetStatus 2 (Some ''cancelled'')]) @ [OtelEnd]"

definition otel_extractContext :: "string option \<Rightarrow> tracing_context option" where
  "otel_extractContext h = map_option (\<lambda>c. c\<lparr>tc_sampled := None\<rparr>) (extractContext h)"

definition otel_injectContext :: "tracing_context \<Rightarrow> string" where
  "otel_injectContext c = ''00-'' @ tc_traceId c @ ''-'' @ tc_spanId c @ ''-01''"

text \<open>
  \<open>startSpan\<close> of the bridge: the identifiers of the span the OpenTelemetry tracer starts, random ones when it tells none. The
  parent context is not used.
\<close>

record 'w otel_tracer =
  ot_startSpan :: "string \<Rightarrow> 'w \<Rightarrow> (string \<times> string) option \<times> 'w"

definition otel_startSpan ::
  "'w otel_tracer \<Rightarrow> 'w trace_env \<Rightarrow> string \<Rightarrow> tracing_context option \<Rightarrow> 'w \<Rightarrow> tracing_context \<times> 'w" where
  "otel_startSpan otel env name parent w =
     (case ot_startSpan otel name w of
        (Some (traceId, spanId), w) \<Rightarrow> (\<lparr>tc_traceId = traceId, tc_spanId = spanId, tc_sampled = None\<rparr>, w)
      | (None, w) \<Rightarrow>
          (case randomHex env 16 w of (traceId, w) \<Rightarrow>
             (case randomHex env 8 w of (spanId, w) \<Rightarrow> (\<lparr>tc_traceId = traceId, tc_spanId = spanId, tc_sampled = None\<rparr>, w))))"

section \<open>A context survives the header\<close>

definition well_formed_ids :: "tracing_context \<Rightarrow> bool" where
  "well_formed_ids c \<longleftrightarrow> length (tc_traceId c) = 32 \<and> length (tc_spanId c) = 16
     \<and> CHR ''-'' \<notin> set (tc_traceId c) \<and> CHR ''-'' \<notin> set (tc_spanId c)"

text \<open>
  \<open>extractContext\<close> inverts \<open>injectContext\<close> on every context with well-formed identifiers: the
  identifiers come back unchanged, and so does the sampling decision, an absent one as sampled.
\<close>

theorem traceparent_roundtrip:
  assumes "well_formed_ids c"
  shows "extractContext (Some (injectContext c)) = Some (c\<lparr>tc_sampled := Some (tc_sampled c \<noteq> Some False)\<rparr>)"
proof -
  let ?flag = "if tc_sampled c = Some False then ''00'' else ''01''"
  have "injectContext c = join ''-'' [''00'', tc_traceId c, tc_spanId c, ?flag]"
    by (simp add: injectContext_def)
  then have "split_on (CHR ''-'') (injectContext c) = [''00'', tc_traceId c, tc_spanId c, ?flag]"
    using assms by (simp only:) (rule split_on_join, auto simp: well_formed_ids_def)
  moreover have "injectContext c \<noteq> []" by (simp add: injectContext_def)
  ultimately show ?thesis
    using assms by (simp add: extractContext_def well_formed_ids_def)
qed

theorem traceparent_roundtrip_witness:
  "extractContext (Some (injectContext \<lparr>tc_traceId = ''4bf92f3577b34da6a3ce929d0e0e4736'',
      tc_spanId = ''00f067aa0ba902b7'', tc_sampled = Some False\<rparr>))
   = Some \<lparr>tc_traceId = ''4bf92f3577b34da6a3ce929d0e0e4736'', tc_spanId = ''00f067aa0ba902b7'',
      tc_sampled = Some False\<rparr>"
proof -
  have "well_formed_ids \<lparr>tc_traceId = ''4bf92f3577b34da6a3ce929d0e0e4736'',
      tc_spanId = ''00f067aa0ba902b7'', tc_sampled = Some False\<rparr>"
    by (simp add: well_formed_ids_def)
  from traceparent_roundtrip [OF this] show ?thesis by simp
qed

definition bytes_ok :: "'w trace_env \<Rightarrow> bool" where
  "bytes_ok env \<longleftrightarrow> (\<forall>n w. length (fst (te_randomBytes env n w)) = n
     \<and> (\<forall>b \<in> set (fst (te_randomBytes env n w)). b < 256))"

lemma hex_lower_not_dash: "n < 16 \<Longrightarrow> hex_lower n \<noteq> CHR ''-''"
  by (auto simp: hex_lower_def char_eq_iff simp del: of_char_eq_iff split: if_splits)

lemma hex_of_bytes_length: "length (hex_of_bytes bs) = 2 * length bs"
  by (induction bs) (simp_all add: hex_of_bytes_def)

lemma hex_of_bytes_no_dash: "\<forall>b \<in> set bs. b < 256 \<Longrightarrow> CHR ''-'' \<notin> set (hex_of_bytes bs)"
proof (induction bs)
  case Nil
  then show ?case by (simp add: hex_of_bytes_def)
next
  case (Cons b bs)
  then have "b div 16 < 16" by (intro less_mult_imp_div_less) simp
  then have "hex_lower (b div 16) \<noteq> CHR ''-''" "hex_lower (b mod 16) \<noteq> CHR ''-''"
    by (simp_all add: hex_lower_not_dash)
  with Cons show ?case by (auto simp: hex_of_bytes_def)
qed

lemma randomHex_ok:
  assumes "bytes_ok env" and "randomHex env n w = (s, w')"
  shows "length s = 2 * n \<and> CHR ''-'' \<notin> set s"
proof -
  have "s = hex_of_bytes (fst (te_randomBytes env n w))"
    using assms(2) by (auto simp: randomHex_def split: prod.splits)
  then show ?thesis using assms(1) by (simp add: bytes_ok_def hex_of_bytes_length hex_of_bytes_no_dash)
qed

definition span_context :: "live_span \<Rightarrow> tracing_context" where
  "span_context s = \<lparr>tc_traceId = ls_traceId s, tc_spanId = ls_spanId s, tc_sampled = None\<rparr>"

definition span_for :: "'w trace_env \<Rightarrow> string \<Rightarrow> tracing_context option \<Rightarrow> live_span \<Rightarrow> bool" where
  "span_for env name parent s \<longleftrightarrow> \<not> ls_ended s \<and> ls_name s = name
     \<and> ls_parentSpanId s = map_option tc_spanId parent
     \<and> (\<forall>p. parent = Some p \<longrightarrow> ls_traceId s = tc_traceId p)
     \<and> (bytes_ok env \<longrightarrow> length (ls_spanId s) = 16 \<and> CHR ''-'' \<notin> set (ls_spanId s))
     \<and> (bytes_ok env \<and> parent = None \<longrightarrow> length (ls_traceId s) = 32 \<and> CHR ''-'' \<notin> set (ls_traceId s))"

lemma new_span_for: "span_for env name parent (fst (new_span opts env name parent w))"
proof (cases parent)
  case None
  obtain t w1 where t: "randomHex env 16 w = (t, w1)" by fastforce
  obtain p w2 where p: "randomHex env 8 w1 = (p, w2)" by fastforce
  show ?thesis using randomHex_ok [OF _ t] randomHex_ok [OF _ p]
    by (simp add: new_span_def span_for_def None t p Let_def)
next
  case (Some c)
  obtain p w2 where p: "randomHex env 8 w = (p, w2)" by fastforce
  show ?thesis using randomHex_ok [OF _ p]
    by (simp add: new_span_def span_for_def Some p Let_def)
qed

lemma startSpan_live:
  assumes "startSpan opts env name parent t w = (Live i, t', w')"
  shows "i = length (tr_spans t) \<and> \<not> tr_shuttingDown t
    \<and> (\<exists>s. t' = t\<lparr>tr_spans := tr_spans t @ [s]\<rparr> \<and> span_for env name parent s)"
proof -
  obtain b w1 where b: "sampled_in opts env name parent w = (b, w1)" by fastforce
  obtain s w2 where s: "new_span opts env name parent w1 = (s, w2)" by fastforce
  have "span_for env name parent s" using new_span_for [of env name parent opts w1] by (simp add: s)
  then show ?thesis
    using assms by (auto simp: startSpan_def b s Let_def split: if_splits)
qed

lemma startSpan_sampled_parent:
  "\<not> tr_shuttingDown t \<Longrightarrow> tc_sampled p = Some True \<Longrightarrow>
   \<exists>i t' w'. startSpan opts env name (Some p) t w = (Live i, t', w')"
  by (simp add: startSpan_def sampled_in_def split: prod.split)

lemma startSpan_unsampled_parent:
  "tc_sampled p = Some False \<Longrightarrow> startSpan opts env name (Some p) t w = (NoopSpan, t, w)"
  by (simp add: startSpan_def sampled_in_def)

text \<open>
  A trace crosses a process boundary: a root span's context, sent as a \<open>traceparent\<close> header
  and extracted on the other side, makes the receiver's span a child of it, in the same trace.
\<close>

theorem trace_crosses_processes:
  assumes "bytes_ok env" and "startSpan opts env name None t w = (Live i, t1, w1)"
    and "startSpan opts2 env2 name2
          (extractContext (Some (injectContext (span_context (tr_spans t1 ! i))))) t2 w2 = (sp, t3, w3)"
    and "\<not> tr_shuttingDown t2"
  shows "\<exists>j. sp = Live j \<and> ls_traceId (tr_spans t3 ! j) = ls_traceId (tr_spans t1 ! i)
    \<and> ls_parentSpanId (tr_spans t3 ! j) = Some (ls_spanId (tr_spans t1 ! i))"
proof -
  let ?c = "span_context (tr_spans t1 ! i)"
  have "well_formed_ids ?c"
    using startSpan_live [OF assms(2)] assms(1)
    by (auto simp: well_formed_ids_def span_context_def span_for_def)
  then have ctx: "extractContext (Some (injectContext ?c)) = Some (?c\<lparr>tc_sampled := Some True\<rparr>)"
    using traceparent_roundtrip [of ?c] by (simp add: span_context_def)
  then obtain j where j: "sp = Live j"
    using startSpan_sampled_parent [OF assms(4), of "?c\<lparr>tc_sampled := Some True\<rparr>" opts2 env2 name2 w2]
      assms(3) by auto
  from startSpan_live [OF assms(3) [unfolded ctx j]] show ?thesis
    by (auto simp: j span_context_def span_for_def nth_append)
qed

text \<open>Through the bridge a trace does not cross a process boundary: the span is the same whatever context was received.\<close>

lemma otel_bridge_ignores_parent: "otel_startSpan otel env name (Some c) w = otel_startSpan otel env name None w"
  by (simp add: otel_startSpan_def)

definition zero_env :: "unit trace_env" where
  "zero_env = \<lparr>te_randomBytes = (\<lambda>n w. (replicate n 0, w)), te_random = (\<lambda>w. (0, w)), te_now = (\<lambda>w. 0)\<rparr>"

definition plain_options :: tracing_options where
  "plain_options = \<lparr>to_exporter = True, to_sampler = (\<lambda>_. True), to_sampleRate = None, to_serviceName = None\<rparr>"

theorem trace_crosses_processes_witness:
  "\<exists>i t1 w1 j t3 w3. startSpan plain_options zero_env ''a'' None tracer_init () = (Live i, t1, w1)
    \<and> startSpan plain_options zero_env ''b''
        (extractContext (Some (injectContext (span_context (tr_spans t1 ! i))))) tracer_init () = (Live j, t3, w3)
    \<and> ls_traceId (tr_spans t3 ! j) = ls_traceId (tr_spans t1 ! i)"
proof -
  have env: "bytes_ok zero_env" by (simp add: bytes_ok_def zero_env_def)
  obtain i t1 w1 where s1: "startSpan plain_options zero_env ''a'' None tracer_init () = (Live i, t1, w1)"
    by (simp add: startSpan_def sampled_in_def plain_options_def tracer_init_def case_prod_unfold)
  obtain sp t3 w3 where s2: "startSpan plain_options zero_env ''b''
      (extractContext (Some (injectContext (span_context (tr_spans t1 ! i))))) tracer_init () = (sp, t3, w3)"
    by (cases "startSpan plain_options zero_env ''b''
      (extractContext (Some (injectContext (span_context (tr_spans t1 ! i))))) tracer_init ()")
  have "\<not> tr_shuttingDown tracer_init" by (simp add: tracer_init_def)
  from trace_crosses_processes [OF env s1 s2 this] s1 s2 show ?thesis by blast
qed

section \<open>Span lifecycle\<close>

datatype trace_op =
    OpStart string "tracing_context option"
  | OpAttr span string attr_value
  | OpEnd span "span_status option" "thrown option" int
  | OpSettle nat "thrown + unit"
  | OpShutdown

fun trace_step :: "tracing_options \<Rightarrow> 'w trace_env \<Rightarrow> tracer \<times> 'w \<Rightarrow> trace_op \<Rightarrow> tracer \<times> 'w" where
  "trace_step opts env (t, w) (OpStart name parent) =
     (case startSpan opts env name parent t w of (_, t', w') \<Rightarrow> (t', w'))"
| "trace_step opts env (t, w) (OpAttr sp k v) = (setAttribute sp k v t, w)"
| "trace_step opts env (t, w) (OpEnd sp status err now) = (span_end opts sp status err now t, w)"
| "trace_step opts env (t, w) (OpSettle i r) = (export_settled i r t, w)"
| "trace_step opts env (t, w) OpShutdown = (snd (tracer_shutdown t), w)"

definition trace_inv :: "tracing_options \<Rightarrow> tracer \<Rightarrow> bool" where
  "trace_inv opts t \<longleftrightarrow> distinct (map fst (tr_exported t))
     \<and> (\<forall>i \<in> fst ` set (tr_exported t). i < length (tr_spans t) \<and> ls_ended (tr_spans t ! i))
     \<and> set (tr_pending t) \<subseteq> fst ` set (tr_exported t)
     \<and> (to_exporter opts \<longrightarrow> (\<forall>i < length (tr_spans t). ls_ended (tr_spans t ! i) \<longrightarrow> i \<in> fst ` set (tr_exported t)))"

lemma trace_inv_end:
  assumes "trace_inv opts t"
  shows "trace_inv opts (span_end opts sp status err now t)"
proof (cases "\<exists>i. sp = Live i \<and> i < length (tr_spans t) \<and> \<not> ls_ended (tr_spans t ! i)")
  case True
  then obtain i where i: "sp = Live i" "i < length (tr_spans t)" "\<not> ls_ended (tr_spans t ! i)" by blast
  then have "i \<notin> fst ` set (tr_exported t)" using assms by (auto simp: trace_inv_def)
  with i assms show ?thesis
    by (auto simp: trace_inv_def span_end_def handleSpanEnd_def Let_def nth_list_update)
next
  case False
  then have "span_end opts sp status err now t = t"
    by (cases sp) (auto simp: span_end_def)
  with assms show ?thesis by simp
qed

lemma trace_inv_append:
  assumes "trace_inv opts t" and "\<not> ls_ended s"
  shows "trace_inv opts (t\<lparr>tr_spans := tr_spans t @ [s]\<rparr>)"
proof -
  have "\<And>i. i \<in> fst ` set (tr_exported t) \<Longrightarrow> i < length (tr_spans t)"
    using assms(1) unfolding trace_inv_def by blast
  then show ?thesis
    using assms unfolding trace_inv_def by (auto simp: nth_append less_Suc_eq)
qed

lemma trace_inv_step:
  assumes "trace_inv opts t"
  shows "trace_inv opts (fst (trace_step opts env (t, w) oper))"
proof (cases oper)
  case (OpStart name parent)
  obtain sp t' w' where s: "startSpan opts env name parent t w = (sp, t', w')"
    by (cases "startSpan opts env name parent t w")
  have "t' = t \<or> (\<exists>s. t' = t\<lparr>tr_spans := tr_spans t @ [s]\<rparr> \<and> \<not> ls_ended s)"
  proof (cases sp)
    case (Live i)
    with startSpan_live [of opts env name parent t w i t' w'] s show ?thesis
      by (auto simp: span_for_def)
  next
    case NoopSpan
    with s show ?thesis by (auto simp: startSpan_def Let_def split: if_splits prod.splits)
  qed
  then have "trace_inv opts t'" using assms trace_inv_append [of opts t] by blast
  then show ?thesis by (simp add: OpStart s)
next
  case (OpAttr sp k v)
  with assms show ?thesis
    by (cases sp) (auto simp: trace_inv_def setAttribute_def nth_list_update)
next
  case (OpEnd sp status err now)
  with assms show ?thesis by (simp add: trace_inv_end)
next
  case (OpSettle i r)
  with assms show ?thesis
    by (auto simp: trace_inv_def export_settled_def Let_def dest: notin_set_remove1 split: sum.split)
next
  case OpShutdown
  with assms show ?thesis by (simp add: trace_inv_def tracer_shutdown_def)
qed

text \<open>
  Each span is exported once: after any sequence of starts, attribute updates, ends (of one
  span any number of times), settled exports and shutdowns, the exports are of distinct spans,
  and with an exporter they are exactly the spans that have ended.
\<close>

theorem spans_exported_once:
  assumes "to_exporter opts" and "t = fst (foldl (trace_step opts env) (tracer_init, w) ops)"
  shows "distinct (map fst (tr_exported t))
    \<and> fst ` set (tr_exported t) = {i. i < length (tr_spans t) \<and> ls_ended (tr_spans t ! i)}"
proof -
  have "trace_inv opts (fst (foldl (trace_step opts env) (tracer_init, w) ops))"
  proof (induction ops rule: rev_induct)
    case Nil
    then show ?case by (simp add: trace_inv_def tracer_init_def)
  next
    case (snoc oper ops)
    then show ?case
      by (cases "foldl (trace_step opts env) (tracer_init, w) ops")
        (simp add: trace_inv_step del: trace_step.simps)
  qed
  then show ?thesis using assms by (auto simp: trace_inv_def)
qed

theorem spans_exported_once_witness:
  "let t = fst (foldl (trace_step plain_options zero_env) (tracer_init, ())
      [OpStart ''a'' None, OpEnd (Live 0) None None 5, OpEnd (Live 0) (Some SError) None 6])
   in distinct (map fst (tr_exported t))"
proof -
  have "to_exporter plain_options" by (simp add: plain_options_def)
  from spans_exported_once [OF this refl, of zero_env "()"] show ?thesis unfolding Let_def by blast
qed

lemma startSpan_after_shutdown:
  "startSpan opts env name parent (snd (tracer_shutdown t)) w = (NoopSpan, snd (tracer_shutdown t), w)"
  by (simp add: startSpan_def tracer_shutdown_def)

end
