(* ===== verification/Cache.thy ===== *)
theory Cache
  imports Providers Backoff
begin

text \<open>
  \<open>ProviderResultCache\<close> of \<open>sanctions-oracle/src/sync.ts\<close>: a cache of provider results with a time
  to live and least-recently-used eviction, whose \<open>getOrLoad\<close> lets concurrent misses of one
  address share a single provider call. Iteration order of the map is recency order, least recent
  first. A call in flight is a numbered promise.
\<close>

section \<open>The map\<close>

record cache_config =
  ca_ttlMs :: int
  ca_maxEntries :: "int option"

definition new_cache :: "int option \<Rightarrow> int option \<Rightarrow> cache_config" where
  "new_cache ttlMs maxEntries = \<lparr>ca_ttlMs = or_default ttlMs 3600000, ca_maxEntries = maxEntries\<rparr>"

record cache_entry =
  ce_result :: check_result
  ce_timestamp :: int

type_synonym cache_map = "(string, cache_entry) jsmap"

definition cache_get :: "cache_config \<Rightarrow> int \<Rightarrow> string \<Rightarrow> cache_map \<Rightarrow> check_result option \<times> cache_map" where
  "cache_get c now address m =
     (case map_get m address of
        None \<Rightarrow> (None, m)
      | Some entry \<Rightarrow>
          if now - ce_timestamp entry > ca_ttlMs c then (None, map_delete address m)
          else (Some (ce_result entry), map_set address entry (map_delete address m)))"

text \<open>\<open>while (size > maxEntries)\<close> delete the first key, until there is none.\<close>

fun evict :: "int \<Rightarrow> cache_map \<Rightarrow> cache_map" where
  "evict maxEntries [] = []"
| "evict maxEntries (e # m) = (if int (length (e # m)) > maxEntries then evict maxEntries m else e # m)"

definition cache_set :: "cache_config \<Rightarrow> int \<Rightarrow> string \<Rightarrow> check_result \<Rightarrow> cache_map \<Rightarrow> cache_map" where
  "cache_set c now address result m =
     (let m = map_set address \<lparr>ce_result = result, ce_timestamp = now\<rparr> (map_delete address m) in
      case ca_maxEntries c of None \<Rightarrow> m | Some mx \<Rightarrow> evict mx m)"

definition cache_delete :: "string \<Rightarrow> cache_map \<Rightarrow> bool \<times> cache_map" where
  "cache_delete address m = (map_has m address, map_delete address m)"

subsection \<open>Bounds and freshness\<close>

lemma map_set_delete: "map_set k v (map_delete k m) = map_delete k m @ [(k, v)]"
  by (rule map_set_fresh) simp

lemma evict_drop: "evict mx m = drop (length m - nat mx) m"
proof (induction m)
  case Nil
  then show ?case by simp
next
  case (Cons e m)
  show ?case
  proof (cases "int (length (e # m)) > mx")
    case True
    then have "length (e # m) - nat mx = Suc (length m - nat mx)" by auto
    with True Cons show ?thesis by simp
  next
    case False
    then have "length (e # m) - nat mx = 0" by simp
    with False show ?thesis by simp
  qed
qed

lemma length_evict: "int (length (evict mx m)) \<le> max 0 mx"
  by (simp add: evict_drop)

lemma length_cache_set:
  "ca_maxEntries c = Some mx \<Longrightarrow> int (length (cache_set c now a r m)) \<le> max 0 mx"
  by (simp add: cache_set_def Let_def length_evict)

lemma length_delete_le: "length (map_delete k m) \<le> length m"
  by (simp add: AList.delete_eq)

lemma length_cache_get:
  assumes "map_wf m" shows "length (snd (cache_get c now a m)) \<le> length m"
proof (cases "map_get m a")
  case (Some e)
  then have "map_has m a" by (simp add: map_has_iff)
  then show ?thesis
    using length_delete_has [OF assms, of a] Some by (simp add: cache_get_def map_set_delete)
qed (simp add: cache_get_def)

lemma evict_suffix: "\<exists>pre. m = pre @ evict mx m"
  by (metis append_take_drop_id evict_drop)

lemma map_wf_evict: "map_wf m \<Longrightarrow> map_wf (evict mx m)"
  by (auto simp: map_wf_def evict_drop drop_map [symmetric])

lemma map_wf_cache_get: "map_wf m \<Longrightarrow> map_wf (snd (cache_get c now a m))"
  by (auto simp: cache_get_def split: option.split)

lemma map_wf_cache_set: "map_wf m \<Longrightarrow> map_wf (cache_set c now a r m)"
  by (auto simp: cache_set_def Let_def map_wf_evict split: option.split)

lemma map_get_suffix:
  assumes "map_wf m" and "m = pre @ m'" and "map_get m' k = Some v"
  shows "map_get m k = Some v"
proof -
  have "(k, v) \<in> set m" using map_of_SomeD [OF assms(3)] assms(2) by simp
  then show ?thesis using assms(1) by (simp add: map_wf_def)
qed

text \<open>
  A history of cache operations, and the results stored in it: the newest \<open>set\<close> of an address
  together with its time.
\<close>

datatype cache_op = CGet int string | CSet int string check_result | CDelete string | CClear

fun cache_step :: "cache_config \<Rightarrow> cache_map \<Rightarrow> cache_op \<Rightarrow> cache_map" where
  "cache_step c m (CGet now a) = snd (cache_get c now a m)"
| "cache_step c m (CSet now a r) = cache_set c now a r m"
| "cache_step c m (CDelete a) = snd (cache_delete a m)"
| "cache_step c m CClear = []"

fun last_set :: "cache_op list \<Rightarrow> string \<Rightarrow> (int \<times> check_result) option" where
  "last_set [] a = None"
| "last_set (CSet now b r # ops) a =
     (case last_set ops a of Some x \<Rightarrow> Some x | None \<Rightarrow> if a = b then Some (now, r) else None)"
| "last_set (_ # ops) a = last_set ops a"

lemma last_set_snoc:
  "last_set (ops @ [oper]) a = (case oper of CSet now b r \<Rightarrow> if a = b then Some (now, r) else last_set ops a
     | _ \<Rightarrow> last_set ops a)"
  by (induction ops a rule: last_set.induct) (auto split: cache_op.split option.split)

definition cache_inv :: "cache_config \<Rightarrow> cache_op list \<Rightarrow> cache_map \<Rightarrow> bool" where
  "cache_inv c ops m \<longleftrightarrow> map_wf m
     \<and> (\<forall>mx. ca_maxEntries c = Some mx \<longrightarrow> int (length m) \<le> max 0 mx)
     \<and> (\<forall>a e. map_get m a = Some e \<longrightarrow> last_set ops a = Some (ce_timestamp e, ce_result e))"

lemma cache_set_get:
  assumes "map_wf m" and "map_get (cache_set c now a r m) b = Some e"
  shows "if b = a then e = \<lparr>ce_result = r, ce_timestamp = now\<rparr> else map_get m b = Some e"
proof -
  let ?m = "map_set a \<lparr>ce_result = r, ce_timestamp = now\<rparr> (map_delete a m)"
  have "map_get ?m b = Some e"
  proof (cases "ca_maxEntries c")
    case None
    with assms(2) show ?thesis by (simp add: cache_set_def Let_def)
  next
    case (Some mx)
    obtain pre where "?m = pre @ evict mx ?m" using evict_suffix by blast
    moreover have "map_get (evict mx ?m) b = Some e"
      using assms(2) Some by (simp add: cache_set_def Let_def)
    ultimately show ?thesis using assms(1) by (intro map_get_suffix [of ?m]) auto
  qed
  then show ?thesis by (auto simp: map_simps split: if_splits)
qed

lemma cache_inv_step: "cache_inv c ops m \<Longrightarrow> cache_inv c (ops @ [oper]) (cache_step c m oper)"
proof (cases oper)
  case (CGet now a)
  assume inv: "cache_inv c ops m"
  then have wf: "map_wf m" by (simp add: cache_inv_def)
  have "\<And>b e. map_get (snd (cache_get c now a m)) b = Some e \<Longrightarrow> map_get m b = Some e"
    by (auto simp: cache_get_def map_simps split: option.splits if_splits)
  with inv length_cache_get [OF wf, of c now a] map_wf_cache_get [OF wf, of c now a]
  show ?thesis unfolding CGet by (fastforce simp: cache_inv_def last_set_snoc)
next
  case (CSet now a r)
  assume inv: "cache_inv c ops m"
  then have wf: "map_wf m" by (simp add: cache_inv_def)
  have "last_set (ops @ [oper]) b = Some (ce_timestamp e, ce_result e)"
    if "map_get (cache_set c now a r m) b = Some e" for b e
    using cache_set_get [OF wf that] inv by (auto simp: CSet last_set_snoc cache_inv_def split: if_splits)
  then show ?thesis
    using length_cache_set [of c _ now a r m] map_wf_cache_set [OF wf, of c now a r]
    by (simp add: CSet cache_inv_def)
next
  case (CDelete a)
  assume inv: "cache_inv c ops m"
  then show ?thesis
    using length_delete_le [of a m] unfolding CDelete
    by (fastforce simp: cache_inv_def cache_delete_def last_set_snoc map_simps split: if_splits)
next
  case CClear
  then show ?thesis by (auto simp: cache_inv_def last_set_snoc)
qed

lemma cache_inv_run: "cache_inv c ops (foldl (cache_step c) [] ops)"
proof (induction ops rule: rev_induct)
  case Nil
  then show ?case by (simp add: cache_inv_def)
next
  case (snoc oper ops)
  from cache_inv_step [OF this, of oper] show ?case by simp
qed

text \<open>
  The cache never serves a stale, evicted or foreign result and never outgrows its limit: after
  any history, a hit returns exactly what was last stored for that address, at most \<open>ttlMs\<close> ago,
  and the cache holds at most \<open>maxEntries\<close> results.
\<close>

theorem cache_hit_fresh:
  assumes "m = foldl (cache_step c) [] ops" and "fst (cache_get c now a m) = Some r"
  shows "\<exists>t. last_set ops a = Some (t, r) \<and> now - t \<le> ca_ttlMs c
    \<and> (case ca_maxEntries c of None \<Rightarrow> True | Some mx \<Rightarrow> int (length m) \<le> max 0 mx)"
proof -
  have inv: "cache_inv c ops m" using cache_inv_run assms(1) by blast
  obtain e where "map_get m a = Some e" "now - ce_timestamp e \<le> ca_ttlMs c" "ce_result e = r"
    using assms(2) by (auto simp: cache_get_def split: option.splits if_splits)
  with inv show ?thesis by (auto simp: cache_inv_def split: option.split)
qed

theorem cache_hit_fresh_witness:
  "\<exists>t. last_set [CSet 0 ''GA'' (unscored True ''s''), CSet 1 ''GB'' (unscored False ''s'')] ''GB''
      = Some (t, unscored False ''s'') \<and> 5 - t \<le> 10"
proof -
  let ?c = "new_cache (Some 10) (Some 1)"
  let ?ops = "[CSet 0 ''GA'' (unscored True ''s''), CSet 1 ''GB'' (unscored False ''s'')]"
  have "fst (cache_get ?c 5 ''GB'' (foldl (cache_step ?c) [] ?ops)) = Some (unscored False ''s'')"
    by (simp add: new_cache_def cache_set_def cache_get_def)
  from cache_hit_fresh [OF refl this] show ?thesis by (auto simp: new_cache_def)
qed

section \<open>Coalescing\<close>

record pcache =
  pc_map :: cache_map
  pc_inFlight :: "(string, nat) jsmap"
  pc_pending :: "(nat \<times> string) list"
  pc_settled :: "(nat \<times> (thrown + check_result)) list"
  pc_next :: nat

datatype lookup = Hit check_result | Shared nat

definition pcache_init :: pcache where
  "pcache_init = \<lparr>pc_map = [], pc_inFlight = [], pc_pending = [], pc_settled = [], pc_next = 0\<rparr>"

text \<open>\<open>getOrLoad\<close>: a hit, the promise of the call in flight, or a new call and its promise.\<close>

definition getOrLoad :: "cache_config \<Rightarrow> int \<Rightarrow> string \<Rightarrow> pcache \<Rightarrow> lookup \<times> pcache" where
  "getOrLoad c now address s =
     (case cache_get c now address (pc_map s) of
        (Some r, m) \<Rightarrow> (Hit r, s\<lparr>pc_map := m\<rparr>)
      | (None, m) \<Rightarrow>
          (let s = s\<lparr>pc_map := m\<rparr> in
           case map_get (pc_inFlight s) address of
             Some p \<Rightarrow> (Shared p, s)
           | None \<Rightarrow>
               (let p = pc_next s in
                (Shared p, s\<lparr>pc_inFlight := map_set address p (pc_inFlight s),
                   pc_pending := pc_pending s @ [(p, address)], pc_next := Suc p\<rparr>))))"

text \<open>The call of promise \<open>p\<close> settles.\<close>

definition load_settles :: "cache_config \<Rightarrow> int \<Rightarrow> nat \<Rightarrow> thrown + check_result \<Rightarrow> pcache \<Rightarrow> pcache" where
  "load_settles c now p outcome s =
     (case map_get (pc_pending s) p of
        None \<Rightarrow> s
      | Some address \<Rightarrow>
          (let s = (case outcome of Ret r \<Rightarrow> s\<lparr>pc_map := cache_set c now address r (pc_map s)\<rparr> | Throw _ \<Rightarrow> s);
               s = s\<lparr>pc_pending := map_delete p (pc_pending s), pc_settled := pc_settled s @ [(p, outcome)]\<rparr>
           in if map_get (pc_inFlight s) address = Some p
              then s\<lparr>pc_inFlight := map_delete address (pc_inFlight s)\<rparr> else s))"

text \<open>
  \<open>clear\<close> forgets the calls in flight too: they still settle, but a later lookup of the same
  address starts another call.
\<close>

definition pcache_clear :: "pcache \<Rightarrow> pcache" where
  "pcache_clear s = s\<lparr>pc_map := [], pc_inFlight := []\<rparr>"

datatype pcache_op = Lookup int string | Settled int nat "thrown + check_result"

fun pcache_step :: "cache_config \<Rightarrow> pcache \<Rightarrow> pcache_op \<Rightarrow> pcache" where
  "pcache_step c s (Lookup now a) = snd (getOrLoad c now a s)"
| "pcache_step c s (Settled now p r) = load_settles c now p r s"

definition pcache_inv :: "pcache \<Rightarrow> bool" where
  "pcache_inv s \<longleftrightarrow> map_wf (pc_pending s) \<and> distinct (map snd (pc_pending s))
     \<and> (\<forall>(p, a) \<in> set (pc_pending s). p < pc_next s \<and> map_get (pc_inFlight s) a = Some p)
     \<and> (\<forall>a p. map_get (pc_inFlight s) a = Some p \<longrightarrow> (p, a) \<in> set (pc_pending s))"

lemma pcache_inv_lookup: "pcache_inv s \<Longrightarrow> pcache_inv (snd (getOrLoad c now a s))"
proof -
  assume inv: "pcache_inv s"
  obtain r m where g: "cache_get c now a (pc_map s) = (r, m)" by fastforce
  show ?thesis
  proof (cases "r = None \<and> map_get (pc_inFlight s) a = None")
    case False
    then have "\<exists>l. getOrLoad c now a s = (l, s\<lparr>pc_map := m\<rparr>)"
      by (cases r) (auto simp: getOrLoad_def g Let_def)
    with inv show ?thesis by (auto simp: pcache_inv_def)
  next
    case True
    then have "a \<notin> snd ` set (pc_pending s)" using inv by (force simp: pcache_inv_def)
    moreover have "pc_next s \<notin> fst ` set (pc_pending s)" using inv by (force simp: pcache_inv_def)
    ultimately show ?thesis
      using inv True
      by (auto simp: pcache_inv_def getOrLoad_def g Let_def map_wf_def map_simps split: if_splits)
        (force+)?
  qed
qed

lemma pcache_inv_settled: "pcache_inv s \<Longrightarrow> pcache_inv (load_settles c now p r s)"
proof -
  assume inv: "pcache_inv s"
  show ?thesis
  proof (cases "map_get (pc_pending s) p")
    case None
    with inv show ?thesis by (simp add: load_settles_def)
  next
    case (Some a)
    then have mem: "(p, a) \<in> set (pc_pending s)" by (rule map_of_SomeD)
    then have inf: "map_get (pc_inFlight s) a = Some p" using inv by (auto simp: pcache_inv_def)
    let ?pend = "map_delete p (pc_pending s)"
    have t: "pc_pending (load_settles c now p r s) = ?pend"
      "pc_inFlight (load_settles c now p r s) = map_delete a (pc_inFlight s)"
      "pc_next (load_settles c now p r s) = pc_next s"
      using Some inf by (cases r; simp add: load_settles_def Let_def)+
    have sub: "set ?pend = {x \<in> set (pc_pending s). fst x \<noteq> p}"
      by (auto simp: AList.delete_eq)
    have "distinct (map snd ?pend)"
      using inv by (auto simp: pcache_inv_def AList.delete_eq distinct_map_filter)
    moreover have "q \<noteq> p \<Longrightarrow> (q, b) \<in> set (pc_pending s) \<Longrightarrow> b \<noteq> a" for q b
      using inv inf by (auto simp: pcache_inv_def)
    moreover have "(p, b) \<in> set (pc_pending s) \<Longrightarrow> b = a" for b
      using inv mem by (auto simp: pcache_inv_def map_wf_def dest: eq_key_imp_eq_value)
    ultimately show ?thesis
      using inv unfolding pcache_inv_def t sub
      by (auto simp: map_simps split: if_splits)
  qed
qed


end
