(* ===== verification/Json.thy ===== *)
theory Json
  imports JsPrelude Uri
begin

text \<open>
  \<open>JSON.stringify\<close> and \<open>JSON.parse\<close> of the language, as far as the program uses them. A number
  is kept as its token. Strings hold code units below 256, so a text with an escape beyond them
  is outside the model. The parser takes the length of the text as fuel, which suffices: every
  recursive call consumes a character.
\<close>

datatype json = JNull | JBool bool | JNum string | JStr string | JArr "json list"
  | JObj "(string \<times> json) list"

section \<open>Printing\<close>

definition hex4 :: "char \<Rightarrow> string" where
  "hex4 c = (let n = of_char c :: nat in
     [CHR ''0'', CHR ''0'', to_lower_char (hex_digit (n div 16)), to_lower_char (hex_digit (n mod 16))])"

definition json_char :: "char \<Rightarrow> string" where
  "json_char c =
     (if c = CHR 0x22 then [CHR 0x5C, CHR 0x22]
      else if c = CHR 0x5C then [CHR 0x5C, CHR 0x5C]
      else if c = CHR 0x08 then [CHR 0x5C, CHR ''b'']
      else if c = CHR 0x09 then [CHR 0x5C, CHR ''t'']
      else if c = CHR 0x0A then [CHR 0x5C, CHR ''n'']
      else if c = CHR 0x0C then [CHR 0x5C, CHR ''f'']
      else if c = CHR 0x0D then [CHR 0x5C, CHR ''r'']
      else if (of_char c :: nat) < 32 then [CHR 0x5C, CHR ''u''] @ hex4 c
      else [c])"

definition json_string :: "string \<Rightarrow> string" where
  "json_string s = CHR 0x22 # concat (map json_char s) @ [CHR 0x22]"

fun stringify :: "json \<Rightarrow> string" where
  "stringify JNull = ''null''"
| "stringify (JBool b) = (if b then ''true'' else ''false'')"
| "stringify (JNum t) = t"
| "stringify (JStr s) = json_string s"
| "stringify (JArr vs) = ''['' @ join '','' (map stringify vs) @ '']''"
| "stringify (JObj kvs) = ''{'' @ join '','' (map (\<lambda>(k, v). json_string k @ '':'' @ stringify v) kvs) @ ''}''"

section \<open>Parsing\<close>

definition json_ws :: "char \<Rightarrow> bool" where
  "json_ws c \<longleftrightarrow> c \<in> {CHR 0x09, CHR 0x0A, CHR 0x0D, CHR 0x20}"

definition skip_ws :: "string \<Rightarrow> string" where
  "skip_ws = dropWhile json_ws"

definition is_hex :: "char \<Rightarrow> bool" where
  "is_hex c \<longleftrightarrow> (let n = of_char c :: nat in
     (48 \<le> n \<and> n \<le> 57) \<or> (65 \<le> n \<and> n \<le> 70) \<or> (97 \<le> n \<and> n \<le> 102))"

fun simple_escape :: "char \<Rightarrow> char option" where
  "simple_escape e =
     (if e = CHR 0x22 \<or> e = CHR 0x5C \<or> e = CHR ''/'' then Some e
      else if e = CHR ''b'' then Some (CHR 0x08)
      else if e = CHR ''t'' then Some (CHR 0x09)
      else if e = CHR ''n'' then Some (CHR 0x0A)
      else if e = CHR ''f'' then Some (CHR 0x0C)
      else if e = CHR ''r'' then Some (CHR 0x0D)
      else None)"

text \<open>The characters of a string after its opening quote.\<close>

fun parse_chars :: "string \<Rightarrow> (string \<times> string) option" where
  "parse_chars [] = None"
| "parse_chars (c # r) =
     (if c = CHR 0x22 then Some ([], r)
      else if c = CHR 0x5C then
        (case r of
           [] \<Rightarrow> None
         | e # r1 \<Rightarrow>
             if e = CHR ''u'' then
               (case r1 of
                  a # b # h # l # r2 \<Rightarrow>
                    if a = CHR ''0'' \<and> b = CHR ''0'' \<and> is_hex h \<and> is_hex l then
                      map_option (\<lambda>(s, r). (char_of (16 * hex_val (to_upper_char h) + hex_val (to_upper_char l)) # s, r))
                        (parse_chars r2)
                    else None
                | _ \<Rightarrow> None)
             else (case simple_escape e of
                 None \<Rightarrow> None
               | Some d \<Rightarrow> map_option (\<lambda>(s, r). (d # s, r)) (parse_chars r1)))
      else if (of_char c :: nat) < 32 then None
      else map_option (\<lambda>(s, r). (c # s, r)) (parse_chars r))"

definition number_char :: "char \<Rightarrow> bool" where
  "number_char c \<longleftrightarrow> is_digit c \<or> c \<in> {CHR ''-'', CHR ''+'', CHR ''.'', CHR ''e'', CHR ''E''}"

text \<open>\<open>-?(0|[1-9][0-9]*)(\.[0-9]+)?([eE][+-]?[0-9]+)?\<close>\<close>

definition exponent_ok :: "string \<Rightarrow> bool" where
  "exponent_ok s \<longleftrightarrow> (case s of [] \<Rightarrow> True | c # r \<Rightarrow>
     (c = CHR ''e'' \<or> c = CHR ''E'') \<and>
     (let r = (case r of d # r' \<Rightarrow> if d = CHR ''+'' \<or> d = CHR ''-'' then r' else r | [] \<Rightarrow> r) in
      r \<noteq> [] \<and> (\<forall>d \<in> set r. is_digit d)))"

definition fraction_ok :: "string \<Rightarrow> bool" where
  "fraction_ok s \<longleftrightarrow> (case s of c # r \<Rightarrow>
       if c = CHR ''.'' then takeWhile is_digit r \<noteq> [] \<and> exponent_ok (dropWhile is_digit r)
       else exponent_ok s
     | [] \<Rightarrow> True)"

definition number_ok :: "string \<Rightarrow> bool" where
  "number_ok t \<longleftrightarrow>
     (let u = (case t of c # r \<Rightarrow> if c = CHR ''-'' then r else t | [] \<Rightarrow> t);
          ds = takeWhile is_digit u
      in ds \<noteq> [] \<and> (hd ds = CHR ''0'' \<longrightarrow> length ds = 1) \<and> fraction_ok (dropWhile is_digit u))"

definition parse_literal :: "string \<Rightarrow> (json \<times> string) option" where
  "parse_literal s =
     (if take 4 s = ''null'' then Some (JNull, drop 4 s)
      else if take 4 s = ''true'' then Some (JBool True, drop 4 s)
      else if take 5 s = ''false'' then Some (JBool False, drop 5 s)
      else
        let t = takeWhile number_char s in
        if number_ok t then Some (JNum t, dropWhile number_char s) else None)"

fun parse_value :: "nat \<Rightarrow> string \<Rightarrow> (json \<times> string) option"
  and parse_elems :: "nat \<Rightarrow> string \<Rightarrow> (json list \<times> string) option"
  and parse_members :: "nat \<Rightarrow> string \<Rightarrow> ((string \<times> json) list \<times> string) option" where
  "parse_value 0 s = None"
| "parse_value (Suc n) s =
     (case skip_ws s of
        [] \<Rightarrow> None
      | c # r \<Rightarrow>
          if c = CHR 0x22 then map_option (\<lambda>(t, r). (JStr t, r)) (parse_chars r)
          else if c = CHR ''['' then
            (case skip_ws r of
               d # r' \<Rightarrow>
                 if d = CHR '']'' then Some (JArr [], r')
                 else map_option (\<lambda>(vs, r). (JArr vs, r)) (parse_elems n r)
             | [] \<Rightarrow> None)
          else if c = CHR ''{'' then
            (case skip_ws r of
               d # r' \<Rightarrow>
                 if d = CHR ''}'' then Some (JObj [], r')
                 else map_option (\<lambda>(kvs, r). (JObj kvs, r)) (parse_members n r)
             | [] \<Rightarrow> None)
          else parse_literal (c # r))"
| "parse_elems 0 s = None"
| "parse_elems (Suc n) s =
     (case parse_value n s of
        None \<Rightarrow> None
      | Some (v, r) \<Rightarrow>
          (case skip_ws r of
             [] \<Rightarrow> None
           | c # r' \<Rightarrow>
               if c = CHR '']'' then Some ([v], r')
               else if c = CHR '','' then map_option (\<lambda>(vs, r). (v # vs, r)) (parse_elems n r')
               else None))"
| "parse_members 0 s = None"
| "parse_members (Suc n) s =
     (case skip_ws s of
        [] \<Rightarrow> None
      | c # r \<Rightarrow>
          if c \<noteq> CHR 0x22 then None
          else (case parse_chars r of
              None \<Rightarrow> None
            | Some (k, r1) \<Rightarrow>
                (case skip_ws r1 of
                   [] \<Rightarrow> None
                 | d # r2 \<Rightarrow>
                     if d \<noteq> CHR '':'' then None
                     else (case parse_value n r2 of
                         None \<Rightarrow> None
                       | Some (v, r3) \<Rightarrow>
                           (case skip_ws r3 of
                              [] \<Rightarrow> None
                            | e # r4 \<Rightarrow>
                                if e = CHR ''}'' then Some ([(k, v)], r4)
                                else if e = CHR '','' then
                                  map_option (\<lambda>(kvs, r). ((k, v) # kvs, r)) (parse_members n r4)
                                else None)))))"

definition syntax_error :: thrown where
  "syntax_error = Exn ''SyntaxError'' ''Unexpected token in JSON'' no_props"

definition json_parse :: "string \<Rightarrow> thrown + json" where
  "json_parse text =
     (case parse_value (length text) text of
        Some (v, r) \<Rightarrow> if skip_ws r = [] then Ret v else Throw syntax_error
      | None \<Rightarrow> Throw syntax_error)"

section \<open>Parsing inverts printing\<close>

lemma of_char_to_lower_char:
  "of_char (to_lower_char c) = (let n = of_char c :: nat in if 65 \<le> n \<and> n \<le> 90 then n + 32 else n)"
  using of_char_bound [of c] by (auto simp: to_lower_char_def Let_def)

lemma of_char_hex_digit: "n < 16 \<Longrightarrow> of_char (hex_digit n) = (if n < 10 then 48 + n else 55 + n)"
  by (simp add: hex_digit_def)

lemma to_lower_upper_hex:
  assumes "n < 16"
  shows "is_hex (to_lower_char (hex_digit n)) \<and> hex_val (to_upper_char (to_lower_char (hex_digit n))) = n"
  using assms
  by (cases "n < 10") (simp_all add: is_hex_def hex_val_def of_char_to_upper_char of_char_to_lower_char
    of_char_hex_digit Let_def)

lemma parse_json_char:
  "parse_chars (json_char c @ r) = map_option (\<lambda>(s, r). (c # s, r)) (parse_chars r)"
proof -
  let ?n = "of_char c :: nat"
  show ?thesis
  proof (cases "?n < 32")
    case True
    then have h: "?n div 16 < 16" by (intro less_mult_imp_div_less) simp
    have "char_of (16 * (?n div 16) + ?n mod 16) = c"
      by (simp only: mult_div_mod_eq char_of_char)
    then show ?thesis
      using True to_lower_upper_hex [OF h] to_lower_upper_hex [of "?n mod 16"]
      by (simp add: json_char_def hex4_def Let_def del: mult_div_mod_eq)
  next
    case False
    then show ?thesis by (auto simp: json_char_def)
  qed
qed

lemma parse_chars_json: "parse_chars (concat (map json_char s) @ CHR 0x22 # r) = Some (s, r)"
  by (induction s) (simp_all add: parse_json_char)

lemma skip_ws_Cons: "\<not> json_ws c \<Longrightarrow> skip_ws (c # s) = c # s"
  by (simp add: skip_ws_def)

lemma json_ws_simps [simp]:
  "\<not> json_ws (CHR 0x22)" "\<not> json_ws (CHR ''['')" "\<not> json_ws (CHR '']'')" "\<not> json_ws (CHR ''{'')"
  "\<not> json_ws (CHR ''}'')" "\<not> json_ws (CHR '','')" "\<not> json_ws (CHR '':'')"
  "\<not> json_ws (CHR ''n'')" "\<not> json_ws (CHR ''t'')" "\<not> json_ws (CHR ''f'')"
  by (simp_all add: json_ws_def)

lemma parse_json_string:
  "parse_value (Suc n) (json_string s @ r) = Some (JStr s, r)"
  by (simp add: json_string_def skip_ws_Cons parse_chars_json)

text \<open>
  A document whose number tokens are numbers. The fuel the parser needs for it is its length.
\<close>

fun json_ok :: "json \<Rightarrow> bool" where
  "json_ok (JNum t) \<longleftrightarrow> number_ok t \<and> list_all number_char t"
| "json_ok (JArr vs) \<longleftrightarrow> list_all json_ok vs"
| "json_ok (JObj kvs) \<longleftrightarrow> list_all (\<lambda>(k, v). json_ok v) kvs"
| "json_ok _ \<longleftrightarrow> True"

definition ends_number :: "string \<Rightarrow> bool" where
  "ends_number r \<longleftrightarrow> r = [] \<or> hd r \<in> {CHR '','', CHR '']'', CHR ''}''}"

definition parses :: "json \<Rightarrow> bool" where
  "parses j \<longleftrightarrow> stringify j \<noteq> [] \<and> (\<forall>n r. length (stringify j) \<le> Suc n \<longrightarrow> ends_number r \<longrightarrow> parse_value (Suc n) (stringify j @ r) = Some (j, r))"

lemma number_token:
  assumes "number_ok t" and "list_all number_char t" and "ends_number r"
  shows "parse_value (Suc n) (t @ r) = Some (JNum t, r)"
proof -
  from assms(1) obtain c u where t: "t = c # u" by (cases t) (auto simp: number_ok_def)
  have c: "number_char c" "\<not> json_ws c" "c \<noteq> CHR 0x22" "c \<noteq> CHR ''[''" "c \<noteq> CHR ''{''"
    "c \<noteq> CHR ''n''" "c \<noteq> CHR ''t''" "c \<noteq> CHR ''f''"
    using assms(2) by (auto simp: t number_char_def is_digit_def json_ws_def)
  have r: "takeWhile number_char r = []" "dropWhile number_char r = r"
    using assms(3) by (cases r; auto simp: ends_number_def number_char_def is_digit_def)+
  have "takeWhile number_char (t @ r) = t" "dropWhile number_char (t @ r) = r"
    using assms(2) r by (simp_all add: list_all_iff)
  with c assms(1) show ?thesis
    by (simp add: t skip_ws_Cons parse_literal_def Let_def)
qed

lemma first_char: "json_ok j \<Longrightarrow> \<exists>c s. stringify j = c # s \<and> \<not> json_ws c \<and> c \<noteq> CHR '']'' \<and> c \<noteq> CHR ''}''"
  by (cases j; auto simp: json_string_def number_ok_def number_char_def is_digit_def json_ws_def split: list.splits)

lemma parse_elems_stringify:
  assumes "\<forall>v \<in> set (v # vs). parses v"
    and "length (join '','' (map stringify (v # vs))) \<le> Suc n"
  shows "parse_elems (Suc (Suc n)) (join '','' (map stringify (v # vs)) @ CHR '']'' # r) = Some (v # vs, r)"
  using assms
proof (induction vs arbitrary: v n)
  case Nil
  then have "parse_value (Suc n) (stringify v @ CHR '']'' # r) = Some (v, CHR '']'' # r)"
    by (auto simp: parses_def ends_number_def)
  then show ?case by (simp add: skip_ws_Cons)
next
  case (Cons w ws)
  let ?rest = "join '','' (map stringify (w # ws))"
  from Cons.prems obtain m where n: "n = Suc m" by (cases n) (auto simp: parses_def)
  have "parse_value (Suc n) (stringify v @ CHR '','' # ?rest @ CHR '']'' # r) = Some (v, CHR '','' # ?rest @ CHR '']'' # r)"
    using Cons.prems by (auto simp: parses_def ends_number_def)
  moreover have "parse_elems (Suc (Suc m)) (?rest @ CHR '']'' # r) = Some (w # ws, r)"
    using Cons.prems by (intro Cons.IH) (auto simp: n parses_def Suc_le_eq)
  ultimately show ?case by (simp add: n skip_ws_Cons)
qed

abbreviation member_text :: "string \<times> json \<Rightarrow> string" where
  "member_text \<equiv> \<lambda>(k, v). json_string k @ '':'' @ stringify v"

lemma parse_members_stringify:
  assumes "\<forall>(k, v) \<in> set (kv # kvs). parses v"
    and "length (join '','' (map member_text (kv # kvs))) \<le> Suc n"
  shows "parse_members (Suc (Suc n)) (join '','' (map member_text (kv # kvs)) @ CHR ''}'' # r) = Some (kv # kvs, r)"
  using assms
proof (induction kvs arbitrary: kv n)
  case Nil
  obtain k v where kv: "kv = (k, v)" by fastforce
  from Nil have "parse_value (Suc n) (stringify v @ CHR ''}'' # r) = Some (v, CHR ''}'' # r)"
    by (auto simp: parses_def ends_number_def kv)
  then show ?case by (simp add: kv json_string_def skip_ws_Cons parse_chars_json)
next
  case (Cons w ws)
  obtain k v where kv: "kv = (k, v)" by fastforce
  let ?rest = "join '','' (map member_text (w # ws))"
  obtain m where n: "n = Suc m" using Cons.prems by (cases n) (auto simp: kv)
  have "parse_value (Suc n) (stringify v @ CHR '','' # ?rest @ CHR ''}'' # r) = Some (v, CHR '','' # ?rest @ CHR ''}'' # r)"
    using Cons.prems by (auto simp: parses_def ends_number_def kv)
  moreover have "parse_members (Suc (Suc m)) (?rest @ CHR ''}'' # r) = Some (w # ws, r)"
    using Cons.prems by (intro Cons.IH) (auto simp: n kv)
  ultimately show ?case
    by (simp add: n kv json_string_def skip_ws_Cons parse_chars_json del: parse_value.simps)
qed

lemma parses_ok: "json_ok j \<Longrightarrow> parses j"
proof (induction j)
  case (JNum t)
  then show ?case by (auto simp: parses_def number_token number_ok_def simp del: parse_value.simps)
next
  case (JArr vs)
  show ?case
  proof (cases vs)
    case (Cons v ws)
    show ?thesis
    proof (unfold parses_def, intro conjI allI impI)
      fix n r
      assume len: "length (stringify (JArr vs)) \<le> Suc n"
      let ?body = "join '','' (map stringify (v # ws))"
      obtain c s where c: "stringify v = c # s" "\<not> json_ws c" "c \<noteq> CHR '']''"
        using first_char [of v] JArr.prems Cons by auto
      then obtain b where b: "?body = c # b" by (cases ws) auto
      from len obtain m where n: "n = Suc (Suc m)" "length ?body \<le> Suc m"
        unfolding Cons using arg_cong [OF b, of length] by (cases n; cases "n - 1") (auto simp del: join.simps)
      have "parse_elems (Suc (Suc m)) (?body @ CHR '']'' # r) = Some (v # ws, r)"
        by (rule parse_elems_stringify) (use JArr n Cons in \<open>auto simp: list_all_iff\<close>)
      with b c show "parse_value (Suc n) (stringify (JArr vs) @ r) = Some (JArr vs, r)"
        unfolding Cons n by (simp add: skip_ws_Cons del: join.simps parse_elems.simps list.map)
    qed simp
  qed (simp add: parses_def skip_ws_Cons)
next
  case (JObj kvs)
  show ?case
  proof (cases kvs)
    case (Cons kv ws)
    show ?thesis
    proof (unfold parses_def, intro conjI allI impI)
      fix n r
      assume len: "length (stringify (JObj kvs)) \<le> Suc n"
      let ?body = "join '','' (map member_text (kv # ws))"
      obtain b where b: "?body = CHR 0x22 # b" by (cases kv; cases ws) (auto simp: json_string_def)
      from len obtain m where n: "n = Suc (Suc m)" "length ?body \<le> Suc m"
        unfolding Cons using arg_cong [OF b, of length] by (cases n; cases "n - 1") (auto simp del: join.simps)
      have "parse_members (Suc (Suc m)) (?body @ CHR ''}'' # r) = Some (kv # ws, r)"
        by (rule parse_members_stringify) (use JObj n Cons in \<open>fastforce simp: list_all_iff\<close>)+
      with b show "parse_value (Suc n) (stringify (JObj kvs) @ r) = Some (JObj kvs, r)"
        unfolding Cons n by (simp add: skip_ws_Cons del: join.simps parse_members.simps list.map)
    qed simp
  qed (simp add: parses_def skip_ws_Cons)
next
  case (JStr s)
  have "json_string s \<noteq> []" by (simp add: json_string_def)
  then show ?case by (simp add: parses_def parse_json_string del: parse_value.simps)
qed (auto simp: parses_def skip_ws_Cons parse_literal_def)

lemma json_parse_stringify:
  assumes "json_ok j"
  shows "json_parse (stringify j) = Ret j"
proof -
  from parses_ok [OF assms] have "stringify j \<noteq> []" by (simp add: parses_def)
  then obtain n where n: "length (stringify j) = Suc n" by (cases "stringify j") auto
  have "parse_value (Suc n) (stringify j @ []) = Some (j, [])"
    using parses_ok [OF assms] n by (simp add: parses_def ends_number_def del: parse_value.simps)
  then show ?thesis by (simp add: json_parse_def n skip_ws_def del: parse_value.simps)
qed

text \<open>The JSON text of an array of strings, the only shape the stores write.\<close>

definition json_strings :: "string list \<Rightarrow> string" where
  "json_strings xs = stringify (JArr (map JStr xs))"

lemma json_parse_strings: "json_parse (json_strings xs) = Ret (JArr (map JStr xs))"
  unfolding json_strings_def by (rule json_parse_stringify) (simp add: list_all_iff)

text \<open>A decimal integer is a number token.\<close>

lemma dec_of_nat_head: "hd (dec_of_nat n) = CHR ''0'' \<Longrightarrow> n = 0"
proof (induction n rule: dec_of_nat.induct)
  case (1 n)
  show ?case
  proof (cases "n < 10")
    case True
    with 1(2) have "(of_char (digit_char n) :: nat) = 48" by (subst (asm) dec_of_nat.simps) simp
    with True show ?thesis by simp
  next
    case False
    with 1(2) have "hd (dec_of_nat (n div 10)) = CHR ''0''" by (subst (asm) dec_of_nat.simps) simp
    with 1(1) False show ?thesis by simp
  qed
qed

lemma number_ok_dec: "number_ok (dec_of_int i) \<and> list_all number_char (dec_of_int i)"
proof -
  have d: "takeWhile is_digit (dec_of_nat n) = dec_of_nat n" "dropWhile is_digit (dec_of_nat n) = []" for n
    using dec_of_nat_digits [of _ n] by (simp_all add: takeWhile_eq_all_conv dropWhile_eq_Nil_conv)
  have minus: "hd (dec_of_nat n) \<noteq> CHR ''-''" for n
    using dec_of_nat_digits [of "CHR ''-''" n] by (metis dec_of_nat_no_minus dec_of_nat_nonempty list.exhaust_sel)
  have one: "hd (dec_of_nat n) = CHR ''0'' \<Longrightarrow> length (dec_of_nat n) = 1" for n
    using dec_of_nat_head [of n] by (simp add: dec_of_nat.simps)
  have "(case dec_of_nat n of [] \<Rightarrow> dec_of_nat n | c # r \<Rightarrow> if c = CHR ''-'' then r else dec_of_nat n) = dec_of_nat n" for n
    using minus [of n] by (cases "dec_of_nat n") auto
  then have "number_ok (dec_of_nat n)" for n
    using one [of n] by (simp add: number_ok_def Let_def d fraction_ok_def)
  moreover have "number_ok (CHR ''-'' # dec_of_nat n)" for n
    using one [of n] by (simp add: number_ok_def Let_def d fraction_ok_def)
  moreover have "list_all number_char (dec_of_nat n)" for n
    using dec_of_nat_digits by (auto simp: list_all_iff number_char_def)
  moreover have "number_char (CHR ''-'')" by (simp add: number_char_def)
  ultimately show ?thesis by (simp add: dec_of_int_def)
qed

lemma hex_digit_no_newline:
  assumes "n < 16"
  shows "to_lower_char (hex_digit n) \<noteq> CHR 0x0A"
proof
  assume "to_lower_char (hex_digit n) = CHR 0x0A"
  then have "of_char (to_lower_char (hex_digit n)) = (10 :: nat)" by simp
  with assms show False by (auto simp: to_lower_char_def hex_digit_def Let_def split: if_splits)
qed

lemma newline_free_json_char: "CHR 0x0A \<notin> set (json_char c)"
proof -
  have "to_lower_char (hex_digit (of_char c div 16)) \<noteq> CHR 0x0A" if "(of_char c :: nat) < 32"
    using that by (intro hex_digit_no_newline) simp
  moreover have "to_lower_char (hex_digit (of_char c mod 16)) \<noteq> CHR 0x0A"
    by (intro hex_digit_no_newline) simp
  ultimately show ?thesis
    by (auto simp: json_char_def hex4_def Let_def dest: not_sym)
qed

lemma newline_free_json_string [simp]: "CHR 0x0A \<notin> set (json_string s)"
  using newline_free_json_char by (auto simp: json_string_def)

lemma not_in_join: "c \<notin> set sep \<Longrightarrow> (\<And>x. x \<in> set xs \<Longrightarrow> c \<notin> set x) \<Longrightarrow> c \<notin> set (join sep xs)"
  by (induction sep xs rule: join.induct) auto

text \<open>The text of a document has no newline, so that it is one line of a file.\<close>

lemma stringify_no_newline: "json_ok j \<Longrightarrow> CHR 0x0A \<notin> set (stringify j)"
proof (induction j)
  case (JNum t)
  have "\<not> number_char (CHR 0x0A)" by (simp add: number_char_def is_digit_def)
  with JNum show ?case by (auto simp: list_all_iff)
next
  case (JArr vs)
  then have "CHR 0x0A \<notin> set (join '','' (map stringify vs))"
    by (intro not_in_join) (auto simp: list_all_iff)
  then show ?case by simp
next
  case (JObj kvs)
  then have "CHR 0x0A \<notin> set (stringify v)" if "(k, v) \<in> set kvs" for k v
    using that by (fastforce simp: list_all_iff)
  then have "CHR 0x0A \<notin> set (join '','' (map member_text kvs))"
    by (intro not_in_join) auto
  then show ?case by simp
qed simp_all

end
