(* ===== verification/Checkpoint.thy ===== *)
theory Checkpoint
  imports Json Backoff
begin

text \<open>
  \<open>sanctions-oracle/src/checkpoint.ts\<close>: the stores that make a sync resumable. The contract of
  \<open>CheckpointStore\<close> is a locale, with the in-memory and the Redis store as its providers; the
  file store is modelled over file operations whose documented behaviour is a second locale, and
  its writes are shown to be atomic.

  The source declares two classes named \<open>FileCheckpointStore\<close>, which no loader accepts; the model
  has both, as \<open>afs_\<close> (asynchronous, first) and \<open>fcs_\<close> (synchronous, second). The names the first
  uses without importing them (\<open>isFileNotFound\<close>, \<open>dirname\<close>, promise-returning \<open>fs\<close> functions) are
  parameters.
\<close>

section \<open>The contract\<close>

locale checkpoint_store =
  fixes load :: "'s \<Rightarrow> thrown + string list"
    and mark :: "string \<Rightarrow> 's \<Rightarrow> (thrown + unit) \<times> 's"
    and reset :: "'s \<Rightarrow> (thrown + unit) \<times> 's"
    and inv :: "'s \<Rightarrow> bool"
  assumes load_distinct: "inv s \<Longrightarrow> load s = Ret xs \<Longrightarrow> distinct xs"
    and mark_durable: "inv s \<Longrightarrow> load s = Ret xs \<Longrightarrow>
      \<exists>s'. mark a s = (Ret (), s') \<and> inv s' \<and> load s' = Ret (set_add a xs)"
    and reset_empties: "inv s \<Longrightarrow> \<exists>s'. reset s = (Ret (), s') \<and> inv s' \<and> load s' = Ret []"
begin

fun mark_all :: "string list \<Rightarrow> 's \<Rightarrow> 's" where
  "mark_all [] s = s"
| "mark_all (a # as) s = mark_all as (snd (mark a s))"

lemma mark_all_load:
  "inv s \<Longrightarrow> load s = Ret xs \<Longrightarrow>
   inv (mark_all as s) \<and> load (mark_all as s) = Ret (foldl (\<lambda>s x. set_add x s) xs as)"
proof (induction as arbitrary: s xs)
  case Nil
  then show ?case by simp
next
  case (Cons a as)
  from mark_durable [OF Cons.prems, of a] obtain s' where
    "mark a s = (Ret (), s')" "inv s'" "load s' = Ret (set_add a xs)" by blast
  with Cons.IH show ?case by simp
qed

text \<open>What a run completed is what the next run loads, each address once.\<close>

lemma resume_exact:
  assumes "inv s" and "load s = Ret []"
  shows "load (mark_all as s) = Ret (js_set_of as)"
  using mark_all_load [OF assms, of as] by (simp add: js_set_of_def)

end

section \<open>The in-memory store\<close>

definition mem_new :: "string list \<Rightarrow> string list" where
  "mem_new initiallyComplete = js_set_of initiallyComplete"

definition mem_load :: "string list \<Rightarrow> thrown + string list" where
  "mem_load completed = Ret completed"

definition mem_isComplete :: "string \<Rightarrow> string list \<Rightarrow> bool" where
  "mem_isComplete address completed \<longleftrightarrow> address \<in> set completed"

definition mem_markComplete :: "string \<Rightarrow> string list \<Rightarrow> (thrown + unit) \<times> string list" where
  "mem_markComplete address completed = (Ret (), set_add address completed)"

definition mem_reset :: "string list \<Rightarrow> (thrown + unit) \<times> string list" where
  "mem_reset completed = (Ret (), [])"

definition mem_snapshot :: "string list \<Rightarrow> thrown + string list" where
  "mem_snapshot completed = mem_load completed"

interpretation mem: checkpoint_store mem_load mem_markComplete mem_reset distinct
  by unfold_locales (auto simp: mem_load_def mem_markComplete_def mem_reset_def)

section \<open>Reading a checkpoint document\<close>

fun json_string_value :: "json \<Rightarrow> string option" where
  "json_string_value (JStr s) = Some s"
| "json_string_value _ = None"

fun all_strings :: "json list \<Rightarrow> string list option" where
  "all_strings [] = Some []"
| "all_strings (j # js) = (case json_string_value j of None \<Rightarrow> None | Some s \<Rightarrow> map_option ((#) s) (all_strings js))"

fun string_array :: "json \<Rightarrow> string list option" where
  "string_array (JArr js) = all_strings js"
| "string_array _ = None"

lemma all_strings_JStr [simp]: "all_strings (map JStr xs) = Some xs"
  by (induction xs) simp_all

definition parse_checkpoint :: "string \<Rightarrow> string \<Rightarrow> thrown + string list" where
  "parse_checkpoint message content =
     js_bind (json_parse content) (\<lambda>parsed. case string_array parsed of
         None \<Rightarrow> Throw (mk_error message) | Some xs \<Rightarrow> Ret xs)"

lemma parse_checkpoint_strings [simp]: "parse_checkpoint m (json_strings xs) = Ret xs"
  by (simp add: parse_checkpoint_def json_parse_strings)

section \<open>The Redis store\<close>

text \<open>
  The client is the three functions of \<open>CheckpointRedisLike\<close>. The store serialises its writes
  through a queue, so a read-modify-write is one step.
\<close>

record 'r redis_like =
  rd_get :: "string \<Rightarrow> 'r \<Rightarrow> thrown + string option"
  rd_set :: "string \<Rightarrow> string \<Rightarrow> 'r \<Rightarrow> (thrown + unit) \<times> 'r"
  rd_del :: "string \<Rightarrow> 'r \<Rightarrow> (thrown + unit) \<times> 'r"

definition default_checkpoint_key :: "string option \<Rightarrow> string" where
  "default_checkpoint_key k = or_default k ''sanctions-oracle:checkpoint''"

definition redis_load :: "'r redis_like \<Rightarrow> string \<Rightarrow> 'r \<Rightarrow> thrown + string list" where
  "redis_load redis key r =
     js_bind (rd_get redis key r) (\<lambda>v. case v of
         None \<Rightarrow> Ret []
       | Some content \<Rightarrow> js_bind
           (parse_checkpoint (''Redis checkpoint value must be a JSON array of strings: '' @ key) content)
           (\<lambda>parsed. Ret (js_set_of parsed)))"

definition redis_markComplete ::
  "'r redis_like \<Rightarrow> string \<Rightarrow> string \<Rightarrow> 'r \<Rightarrow> (thrown + unit) \<times> 'r" where
  "redis_markComplete redis key address r =
     (case redis_load redis key r of
        Throw e \<Rightarrow> (Throw e, r)
      | Ret completed \<Rightarrow> rd_set redis key (json_strings (set_add address completed)) r)"

definition redis_reset :: "'r redis_like \<Rightarrow> string \<Rightarrow> 'r \<Rightarrow> (thrown + unit) \<times> 'r" where
  "redis_reset redis key r = rd_del redis key r"

text \<open>The documented behaviour of a Redis server that is up: keys hold what was last set.\<close>

type_synonym redis_server = "(string, string) jsmap"

definition server_client :: "redis_server redis_like" where
  "server_client = \<lparr>rd_get = (\<lambda>k r. Ret (map_get r k)), rd_set = (\<lambda>k v r. (Ret (), map_set k v r)),
     rd_del = (\<lambda>k r. (Ret (), map_delete k r))\<rparr>"

definition redis_value_ok :: "string \<Rightarrow> redis_server \<Rightarrow> bool" where
  "redis_value_ok key r \<longleftrightarrow> (case map_get r key of None \<Rightarrow> True | Some v \<Rightarrow> \<exists>xs. v = json_strings xs \<and> distinct xs)"

lemma redis_load_server:
  "redis_load server_client key r = (case map_get r key of None \<Rightarrow> Ret []
     | Some v \<Rightarrow> js_bind (parse_checkpoint (''Redis checkpoint value must be a JSON array of strings: '' @ key) v)
         (\<lambda>xs. Ret (js_set_of xs)))"
  by (simp add: redis_load_def server_client_def)

interpretation redis: checkpoint_store "redis_load server_client key" "redis_markComplete server_client key"
    "redis_reset server_client key" "redis_value_ok key" for key
proof (unfold_locales, goal_cases)
  case (1 s xs)
  then show ?case
    by (auto simp: redis_load_server redis_value_ok_def split: option.splits)
next
  case (2 s xs a)
  then have "distinct xs"
    by (auto simp: redis_load_server redis_value_ok_def split: option.splits)
  moreover have "redis_markComplete server_client key a s = (Ret (), map_set key (json_strings (set_add a xs)) s)"
    using 2(2) by (simp add: redis_markComplete_def) (simp add: server_client_def)
  ultimately show ?case
    by (auto simp: redis_load_server redis_value_ok_def map_simps)
next
  case (3 s)
  then show ?case
    by (auto simp: redis_reset_def redis_load_server redis_value_ok_def map_simps) (simp add: server_client_def map_simps)
qed

text \<open>
  A Redis checkpoint survives the process: starting from an empty key, what a later process
  loads is exactly the set of addresses marked complete, in the order of their completion.
\<close>

theorem redis_checkpoint_resumes:
  assumes "map_get r key = None"
  shows "redis_load server_client key
      (foldl (\<lambda>r a. snd (redis_markComplete server_client key a r)) r as) = Ret (js_set_of as)"
proof -
  have fold: "redis.mark_all key as r = foldl (\<lambda>r a. snd (redis_markComplete server_client key a r)) r as" for r
    by (induction as arbitrary: r) simp_all
  have "redis_value_ok key r" and "redis_load server_client key r = Ret []"
    using assms by (simp_all add: redis_value_ok_def redis_load_server)
  from redis.resume_exact [OF this, of as] show ?thesis by (simp only: fold)
qed

theorem redis_checkpoint_resumes_witness:
  "redis_load server_client ''k''
      (foldl (\<lambda>r a. snd (redis_markComplete server_client ''k'' a r)) [] [''GB'', ''GA'', ''GB'']) = Ret [''GB'', ''GA'']"
proof -
  have "js_set_of [''GB'', ''GA'', ''GB''] = [''GB'', ''GA'']" by (simp add: js_set_of_def set_add_def)
  then show ?thesis by (subst redis_checkpoint_resumes) simp_all
qed

section \<open>Files\<close>

text \<open>
  The file operations the stores use. A write that fails may leave the target truncated; a rename
  happens entirely or not at all. \<open>atomic_files\<close> states just that.
\<close>

record 'f file_ops =
  fo_read :: "string \<Rightarrow> 'f \<Rightarrow> thrown + string"
  fo_mkdir :: "string \<Rightarrow> 'f \<Rightarrow> (thrown + unit) \<times> 'f"
  fo_write :: "string \<Rightarrow> string \<Rightarrow> 'f \<Rightarrow> (thrown + unit) \<times> 'f"
  fo_rename :: "string \<Rightarrow> string \<Rightarrow> 'f \<Rightarrow> (thrown + unit) \<times> 'f"
  fo_rm :: "string \<Rightarrow> 'f \<Rightarrow> (thrown + unit) \<times> 'f"

text \<open>Write a temporary file and rename it: the three states the file system passes through.\<close>

definition replace_states :: "'f file_ops \<Rightarrow> string \<Rightarrow> string \<Rightarrow> string \<Rightarrow> 'f \<Rightarrow> 'f list" where
  "replace_states fs tmp path content f =
     (case fo_write fs tmp content f of
        (Throw e, f1) \<Rightarrow> [f, f1]
      | (Ret _, f1) \<Rightarrow> [f, f1, snd (fo_rename fs tmp path f1)])"

locale atomic_files =
  fixes fs :: "'f file_ops"
  assumes write_ok: "fo_write fs q t f = (Ret (), f') \<Longrightarrow> fo_read fs q f' = Ret t"
    and write_other: "p \<noteq> q \<Longrightarrow> fo_read fs p (snd (fo_write fs q t f)) = fo_read fs p f"
    and rename_ok: "p \<noteq> q \<Longrightarrow> fo_rename fs q p f = (Ret (), f') \<Longrightarrow> fo_read fs p f' = fo_read fs q f"
    and rename_fail: "fo_rename fs q p f = (Throw e, f') \<Longrightarrow> fo_read fs p f' = fo_read fs p f"
    and mkdir_other: "fo_read fs p (snd (fo_mkdir fs d f)) = fo_read fs p f"
    and rm_other: "p \<noteq> q \<Longrightarrow> fo_read fs p (snd (fo_rm fs q f)) = fo_read fs p f"
begin

lemma replace_atomic:
  assumes "tmp \<noteq> path" and "g \<in> set (replace_states fs tmp path content f)"
  shows "fo_read fs path g = fo_read fs path f \<or> fo_read fs path g = Ret content"
proof -
  obtain r f1 where w: "fo_write fs tmp content f = (r, f1)" by fastforce
  have f1: "fo_read fs path f1 = fo_read fs path f"
    using write_other [of path tmp content f] assms(1) w by simp
  obtain r' f2 where n: "fo_rename fs tmp path f1 = (r', f2)" by fastforce
  show ?thesis
  proof (cases r)
    case (Inl e)
    with assms(2) f1 show ?thesis by (auto simp: replace_states_def w)
  next
    case (Inr u)
    then have "fo_read fs tmp f1 = Ret content" using write_ok [of tmp content f f1] w by simp
    moreover have "fo_read fs path f2 = fo_read fs path f1 \<or> fo_read fs path f2 = fo_read fs tmp f1"
      using rename_ok [OF assms(1) [symmetric], of f1 f2] rename_fail [of tmp path f1 _ f2] n
      by (cases r') auto
    ultimately show ?thesis using assms(2) f1 Inr by (auto simp: replace_states_def w n)
  qed
qed

lemma replace_done:
  assumes "tmp \<noteq> path" and "fo_write fs tmp content f = (Ret (), f1)" and "fo_rename fs tmp path f1 = (Ret (), f2)"
  shows "fo_read fs path f2 = Ret content"
  using write_ok [OF assms(2)] rename_ok [OF assms(1) [symmetric] assms(3)] by simp

end

text \<open>
  A disk with a limited number of writes: a write beyond it leaves the target truncated and
  throws. It meets the contract.
\<close>

record disk =
  dk_files :: "(string, string) jsmap"
  dk_budget :: nat

definition enoent :: "string \<Rightarrow> thrown" where
  "enoent p = Exn ''Error'' (''ENOENT: no such file or directory, open '' @ p) no_props"

definition disk_ops :: "disk file_ops" where
  "disk_ops = \<lparr>
     fo_read = (\<lambda>p f. case map_get (dk_files f) p of None \<Rightarrow> Throw (enoent p) | Some t \<Rightarrow> Ret t),
     fo_mkdir = (\<lambda>d f. (Ret (), f)),
     fo_write = (\<lambda>p t f. if dk_budget f = 0 then (Throw (mk_error ''ENOSPC''), f\<lparr>dk_files := map_set p (take 1 t) (dk_files f)\<rparr>)
        else (Ret (), f\<lparr>dk_files := map_set p t (dk_files f), dk_budget := dk_budget f - 1\<rparr>)),
     fo_rename = (\<lambda>q p f. case map_get (dk_files f) q of None \<Rightarrow> (Throw (enoent q), f)
        | Some t \<Rightarrow> (Ret (), f\<lparr>dk_files := map_set p t (map_delete q (dk_files f))\<rparr>)),
     fo_rm = (\<lambda>p f. (Ret (), f\<lparr>dk_files := map_delete p (dk_files f)\<rparr>))\<rparr>"

interpretation disk: atomic_files disk_ops
  by unfold_locales (auto simp: disk_ops_def map_simps split: if_splits option.splits)

section \<open>The asynchronous file store\<close>

text \<open>\<open>isFileNotFound\<close>, \<open>dirname\<close> and the temporary name are parameters.\<close>

record afs_env =
  ae_isFileNotFound :: "thrown \<Rightarrow> bool"
  ae_dirname :: "string \<Rightarrow> string"
  ae_tmp :: "string \<Rightarrow> string"
  ae_stringify :: "string list \<Rightarrow> string"

definition afs_load :: "'f file_ops \<Rightarrow> afs_env \<Rightarrow> string \<Rightarrow> 'f \<Rightarrow> thrown + string list" where
  "afs_load fs env path f =
     (case js_bind (fo_read fs path f)
        (\<lambda>content. js_bind (parse_checkpoint (''Checkpoint file must contain a JSON array of strings: '' @ path) content)
           (\<lambda>parsed. Ret (js_set_of parsed))) of
        Ret xs \<Rightarrow> Ret xs
      | Throw e \<Rightarrow> if ae_isFileNotFound env e then Ret [] else Throw e)"

definition afs_write ::
  "'f file_ops \<Rightarrow> afs_env \<Rightarrow> string \<Rightarrow> string list \<Rightarrow> 'f \<Rightarrow> (thrown + unit) \<times> 'f" where
  "afs_write fs env path addresses f =
     (case fo_mkdir fs (ae_dirname env path) f of
        (Throw e, f) \<Rightarrow> (Throw e, f)
      | (Ret _, f) \<Rightarrow>
          (let tmp = ae_tmp env path in
           case (case fo_write fs tmp (ae_stringify env addresses @ [CHR 0x0A]) f of
                   (Throw e, f) \<Rightarrow> (Throw e, f) | (Ret _, f) \<Rightarrow> fo_rename fs tmp path f) of
             (Ret _, f) \<Rightarrow> (Ret (), f)
           | (Throw e, f) \<Rightarrow>
               (case fo_rm fs tmp f of (Throw e', f) \<Rightarrow> (Throw e', f) | (Ret _, f) \<Rightarrow> (Throw e, f))))"

definition afs_markComplete ::
  "'f file_ops \<Rightarrow> afs_env \<Rightarrow> string \<Rightarrow> string \<Rightarrow> 'f \<Rightarrow> (thrown + unit) \<times> 'f" where
  "afs_markComplete fs env path address f =
     (case afs_load fs env path f of
        Throw e \<Rightarrow> (Throw e, f)
      | Ret completed \<Rightarrow> afs_write fs env path (set_add address completed) f)"

definition afs_reset :: "'f file_ops \<Rightarrow> afs_env \<Rightarrow> string \<Rightarrow> 'f \<Rightarrow> (thrown + unit) \<times> 'f" where
  "afs_reset fs env path f = afs_write fs env path [] f"

section \<open>The synchronous file store\<close>

record fcs =
  fc_path :: string
  fc_completed :: "string list"

text \<open>
  \<open>load\<close>: the addresses, and the warning when a corrupt file was moved aside. \<open>is_enoent\<close> tests
  the error's code; \<open>corrupt\<close> is the name with the time stamp.
\<close>

definition fcs_load ::
  "'f file_ops \<Rightarrow> (thrown \<Rightarrow> bool) \<Rightarrow> string \<Rightarrow> string \<Rightarrow> 'f \<Rightarrow> (thrown + string list \<times> string list) \<times> 'f" where
  "fcs_load fs is_enoent corrupt path f =
     (case fo_read fs path f of
        Throw e \<Rightarrow> (if is_enoent e then (Ret ([], []), f) else (Throw e, f))
      | Ret raw \<Rightarrow>
          (case parse_checkpoint ''checkpoint must be a JSON array of strings'' raw of
             Ret xs \<Rightarrow> (Ret (xs, []), f)
           | Throw e \<Rightarrow>
               (case fo_rename fs path corrupt f of
                  (Throw e', f) \<Rightarrow> (Throw e', f)
                | (Ret _, f) \<Rightarrow>
                    (Ret ([], [''sanctions-oracle: checkpoint file is corrupt; starting fresh: '' @ thrown_message e]), f))))"

definition fcs_new ::
  "'f file_ops \<Rightarrow> (thrown \<Rightarrow> bool) \<Rightarrow> string \<Rightarrow> string \<Rightarrow> 'f \<Rightarrow> (thrown + fcs) \<times> 'f" where
  "fcs_new fs is_enoent corrupt path f =
     (case fcs_load fs is_enoent corrupt path f of
        (Throw e, f) \<Rightarrow> (Throw e, f)
      | (Ret (xs, _), f) \<Rightarrow> (Ret \<lparr>fc_path = path, fc_completed = js_set_of xs\<rparr>, f))"

definition fcs_isComplete :: "string \<Rightarrow> fcs \<Rightarrow> bool" where
  "fcs_isComplete address s \<longleftrightarrow> address \<in> set (fc_completed s)"

definition fcs_markComplete ::
  "'f file_ops \<Rightarrow> string \<Rightarrow> fcs \<times> 'f \<Rightarrow> (thrown + unit) \<times> fcs \<times> 'f" where
  "fcs_markComplete fs address sf =
     (case sf of (s, f) \<Rightarrow>
        if address \<in> set (fc_completed s) then (Ret (), s, f)
        else
          let s = s\<lparr>fc_completed := fc_completed s @ [address]\<rparr>; tmp = fc_path s @ ''.tmp'' in
          case fo_write fs tmp (json_strings (fc_completed s)) f of
            (Throw e, f) \<Rightarrow> (Throw e, s, f)
          | (Ret _, f) \<Rightarrow> (case fo_rename fs tmp (fc_path s) f of (r, f) \<Rightarrow> (r, s, f)))"

definition fcs_snapshot :: "fcs \<Rightarrow> string list" where
  "fcs_snapshot s = fc_completed s"

text \<open>The states the file system passes through during \<open>markComplete\<close> of a new address.\<close>

definition mark_states :: "'f file_ops \<Rightarrow> string \<Rightarrow> fcs \<Rightarrow> 'f \<Rightarrow> 'f list" where
  "mark_states fs address s f =
     replace_states fs (fc_path s @ ''.tmp'') (fc_path s) (json_strings (fc_completed s @ [address])) f"

lemma fcs_markComplete_states:
  assumes "address \<notin> set (fc_completed s)"
  shows "snd (snd (fcs_markComplete fs address (s, f))) = last (mark_states fs address s f)"
  using assms
  by (auto simp: fcs_markComplete_def mark_states_def replace_states_def Let_def split: sum.split prod.split)

text \<open>
  C38. A crash never leaves a truncated checkpoint. On a file system whose renames are atomic, in
  every state it passes through during a \<open>markComplete\<close>, failed operations included, the checkpoint
  file reads either as it did before or as the complete new document, which loads as the completed
  addresses with the new one.
\<close>

theorem file_checkpoint_atomic:
  assumes "atomic_files fs" and "g \<in> set (mark_states fs address s f)"
  shows "fo_read fs (fc_path s) g = fo_read fs (fc_path s) f
    \<or> fst (fcs_load fs is_enoent corrupt (fc_path s) g) = Ret (fc_completed s @ [address], [])"
  using atomic_files.replace_atomic [OF assms(1) _ assms(2) [unfolded mark_states_def]]
  by (auto simp: fcs_load_def)

theorem file_checkpoint_atomic_witness:
  "fo_read disk_ops ''c'' (last (mark_states disk_ops ''GA'' \<lparr>fc_path = ''c'', fc_completed = []\<rparr>
      \<lparr>dk_files = [], dk_budget = 0\<rparr>)) = Throw (enoent ''c'')"
proof -
  let ?s = "\<lparr>fc_path = ''c'', fc_completed = []\<rparr>" and ?f = "\<lparr>dk_files = [], dk_budget = 0\<rparr>"
  let ?g = "last (mark_states disk_ops ''GA'' ?s ?f)"
  have states: "mark_states disk_ops ''GA'' ?s ?f
      = [?f, \<lparr>dk_files = [(''c.tmp'', ''['')], dk_budget = 0\<rparr>]"
    by (simp add: mark_states_def replace_states_def disk_ops_def json_strings_def)
  then have g: "?g = \<lparr>dk_files = [(''c.tmp'', ''['')], dk_budget = 0\<rparr>" "?g \<in> set (mark_states disk_ops ''GA'' ?s ?f)"
    by simp_all
  have "fst (fcs_load disk_ops (\<lambda>_. False) ''x'' ''c'' \<lparr>dk_files = [(''c.tmp'', ''['')], dk_budget = 0\<rparr>)
      \<noteq> Ret ([''GA''], [])"
    and "fo_read disk_ops ''c'' ?f = Throw (enoent ''c'')"
    by (simp_all add: fcs_load_def disk_ops_def)
  then show ?thesis
    using file_checkpoint_atomic [OF disk.atomic_files_axioms g(2), of "\<lambda>_. False" "''x''"]
    unfolding g(1) by simp
qed

text \<open>A completed mark is what a new process loads.\<close>

lemma file_checkpoint_reload:
  assumes "atomic_files fs" and "fcs_markComplete fs address (s, f) = (Ret (), s', f')"
    and "address \<notin> set (fc_completed s)"
  shows "fst (fcs_load fs is_enoent corrupt (fc_path s) f') = Ret (fc_completed s', [])"
proof -
  let ?tmp = "fc_path s @ ''.tmp''" and ?t = "json_strings (fc_completed s @ [address])"
  obtain f1 where w: "fo_write fs ?tmp ?t f = (Ret (), f1)" and n: "fo_rename fs ?tmp (fc_path s) f1 = (Ret (), f')"
    and s': "fc_completed s' = fc_completed s @ [address]"
    using assms(2,3) by (auto simp: fcs_markComplete_def Let_def split: sum.splits prod.splits)
  have "fo_read fs (fc_path s) f' = Ret ?t"
    using atomic_files.replace_done [OF assms(1) _ w n] by simp
  then show ?thesis by (simp add: fcs_load_def s')
qed

end
