(* ===== verification/Sync.thy ===== *)
theory Sync
  imports Cache Checkpoint Metrics RateLimited
begin

text \<open>
  \<open>syncSanctionsToDenylist\<close> and \<open>executeConcurrent\<close> of \<open>sanctions-oracle/src/sync.ts\<close>.

  Everything outside the function -- the provider, the writer, the checkpoint store, the clock,
  the fee estimator -- acts on a world \<open>'w\<close>. The function's local variables are the record
  \<open>sync_state\<close>; its calls of the metrics registry, the tracer and the logger, none of which
  influences it, are recorded in order in \<open>ss_effects\<close>.

  The handler of one address has two parts, before and after the provider settles. The sequential
  path runs them back to back; on the concurrent path other handlers run between them.
\<close>

section \<open>Data\<close>

datatype effect =
    ELog string string
  | EMetric string bool int
  | ESpanStart string
  | ESpanAttr string attr_value
  | ESpanEnd string "thrown option"
  and attr_value = VStr string | VNum int | VBool bool

record review_address =
  ra_address :: string
  ra_source :: string
  ra_score :: rat

record fee_estimate =
  fe_pendingWrites :: nat
  fe_perTxFeeStroops :: "string option"
  fe_totalFeeStroops :: "string option"
  fe_totalFeeXlm :: "string option"
  fe_error :: "string option"

record 'w denylist_writer =
  dw_add :: "string \<Rightarrow> 'w \<Rightarrow> (thrown + string) \<times> 'w"
  dw_addWithSource :: "(string \<Rightarrow> string \<Rightarrow> 'w \<Rightarrow> (thrown + string) \<times> 'w) option"
  dw_remove :: "(string \<Rightarrow> 'w \<Rightarrow> (thrown + string) \<times> 'w) option"
  dw_removeWithSource :: "(string \<Rightarrow> string \<Rightarrow> 'w \<Rightarrow> (thrown + string) \<times> 'w) option"

text \<open>A checkpoint of either contract: \<open>load\<close> of the current one, \<open>isComplete\<close> of the legacy one.\<close>

record 'w sync_checkpoint =
  sc_load :: "('w \<Rightarrow> (thrown + string list) \<times> 'w) option"
  sc_isComplete :: "string \<Rightarrow> 'w \<Rightarrow> (thrown + bool) \<times> 'w"
  sc_markComplete :: "string \<Rightarrow> 'w \<Rightarrow> (thrown + unit) \<times> 'w"

record 'w sync_options =
  so_provider :: "'w provider"
  so_addresses :: "string list"
  so_writer :: "'w denylist_writer"
  so_dryRun :: bool
  so_retry :: retry_options
  so_cache :: "cache_config option"
  so_progressInterval :: int
  so_concurrency :: "nat option"
  so_currentDenylist :: "string list"
  so_checkpoint :: "'w sync_checkpoint option"
  so_resume :: bool
  so_reconcile :: bool
  so_minScoreToBlock :: "rat option"
  so_feeEstimator :: "(string \<Rightarrow> 'w \<Rightarrow> (thrown + int) \<times> 'w) option"

text \<open>The clock, the random source and the timer, and the StrKey check of the SDK.\<close>

record 'w sync_env =
  se_now :: "'w \<Rightarrow> int"
  se_retry :: "'w retry_env"
  se_strkey :: "string \<Rightarrow> bool"

record sync_state =
  ss_started :: "string list"
  ss_flagged :: "string list"
  ss_flaggedWithSource :: "(string \<times> string) list"
  ss_needsReview :: "review_address list"
  ss_cleared :: "(string \<times> string) list"
  ss_failed :: "string list"
  ss_failedWithReasons :: "(string \<times> string) list"
  ss_checked :: nat
  ss_cache :: cache_map
  ss_effects :: "effect list"

record sync_result =
  sr_checked :: nat
  sr_flagged :: "string list"
  sr_written :: "string list"
  sr_failed :: "string list"
  sr_failedWithReasons :: "(string \<times> string) list"
  sr_invalid :: "string list"
  sr_skipped :: "string list"
  sr_dryRun :: bool
  sr_removed :: "string list option"
  sr_plannedRemovals :: "(string \<times> string) list option"
  sr_failedRemovals :: "(string \<times> string) list option"
  sr_needsReview :: "review_address list option"
  sr_feeEstimate :: "fee_estimate option"

definition emit :: "effect list \<Rightarrow> sync_state \<Rightarrow> sync_state" where
  "emit es s = s\<lparr>ss_effects := ss_effects s @ es\<rparr>"

section \<open>Fees\<close>

text \<open>\<open>padStart(7, '0')\<close>\<close>

definition pad_zeros :: "nat \<Rightarrow> string \<Rightarrow> string" where
  "pad_zeros n s = replicate (n - length s) (CHR ''0'') @ s"

definition stroopsToXlm :: "int \<Rightarrow> string" where
  "stroopsToXlm stroops =
     (let negative = stroops < 0; a = nat \<bar>stroops\<bar>;
          whole = a div 10000000; frac = pad_zeros 7 (dec_of_nat (a mod 10000000))
      in (if negative then ''-'' else []) @ dec_of_nat whole @ ''.'' @ frac)"

definition estimateDryRunFee ::
  "string list \<Rightarrow> (string \<Rightarrow> 'w \<Rightarrow> (thrown + int) \<times> 'w) \<Rightarrow> 'w \<Rightarrow> fee_estimate \<times> 'w" where
  "estimateDryRunFee pending feeEstimator w =
     (let estimate = \<lparr>fe_pendingWrites = length pending, fe_perTxFeeStroops = None,
            fe_totalFeeStroops = None, fe_totalFeeXlm = None, fe_error = None\<rparr> in
      case pending of
        [] \<Rightarrow> (estimate\<lparr>fe_perTxFeeStroops := Some ''0'', fe_totalFeeStroops := Some ''0'',
               fe_totalFeeXlm := Some (stroopsToXlm 0)\<rparr>, w)
      | a # _ \<Rightarrow>
          (case feeEstimator a w of
             (Ret perTx, w) \<Rightarrow>
               (let total = perTx * int (length pending) in
                (estimate\<lparr>fe_perTxFeeStroops := Some (dec_of_int perTx),
                   fe_totalFeeStroops := Some (dec_of_int total),
                   fe_totalFeeXlm := Some (stroopsToXlm total)\<rparr>, w))
           | (Throw err, w) \<Rightarrow>
               (estimate\<lparr>fe_error := Some (''Fee estimate failed (simulation error): '' @ thrown_message err)\<rparr>, w)))"

section \<open>Input\<close>

text \<open>The loop over the input: the valid addresses in canonical form, the invalid entries as given.\<close>

definition valid_addresses :: "(string \<Rightarrow> bool) \<Rightarrow> string list \<Rightarrow> string list" where
  "valid_addresses strkey addresses =
     js_set_of (filter (isValidStellarAddress strkey) (map normalizeStellarAddress addresses))"

definition invalid_entries :: "(string \<Rightarrow> bool) \<Rightarrow> string list \<Rightarrow> string list" where
  "invalid_entries strkey addresses =
     js_set_of (filter (\<lambda>raw. \<not> isValidStellarAddress strkey (normalizeStellarAddress raw)) addresses)"

definition denylist_set :: "string list \<Rightarrow> string list" where
  "denylist_set currentDenylist = js_set_of (map normalizeStellarAddress currentDenylist)"

definition candidate_addresses :: "'w sync_env \<Rightarrow> 'w sync_options \<Rightarrow> string list" where
  "candidate_addresses env opts =
     (let valid = valid_addresses (se_strkey env) (so_addresses opts) in
      if so_reconcile opts then
        foldl (\<lambda>s x. set_add x s) valid
          (filter (isValidStellarAddress (se_strkey env)) (denylist_set (so_currentDenylist opts)))
      else valid)"

text \<open>The addresses a prior run finished, and the others.\<close>

fun split_complete ::
  "(string \<Rightarrow> 'w \<Rightarrow> (thrown + bool) \<times> 'w) \<Rightarrow> string list \<Rightarrow> 'w
     \<Rightarrow> (thrown + string list \<times> string list) \<times> 'w" where
  "split_complete isComplete [] w = (Ret ([], []), w)"
| "split_complete isComplete (a # as) w =
     (case isComplete a w of
        (Throw e, w) \<Rightarrow> (Throw e, w)
      | (Ret c, w) \<Rightarrow>
          (case split_complete isComplete as w of
             (Throw e, w) \<Rightarrow> (Throw e, w)
           | (Ret (skipped, pending), w) \<Rightarrow>
               (Ret (if c then (a # skipped, pending) else (skipped, a # pending)), w)))"

definition resume_split ::
  "'w sync_options \<Rightarrow> string list \<Rightarrow> 'w \<Rightarrow> (thrown + string list \<times> string list) \<times> 'w" where
  "resume_split opts valid w =
     (case so_checkpoint opts of
        None \<Rightarrow> (Ret ([], valid), w)
      | Some cp \<Rightarrow>
          if \<not> so_resume opts then (Ret ([], valid), w)
          else (case sc_load cp of
              Some ld \<Rightarrow>
                (case ld w of
                   (Throw e, w) \<Rightarrow> (Throw e, w)
                 | (Ret loaded, w) \<Rightarrow> split_complete (\<lambda>a w. (Ret (a \<in> set loaded), w)) valid w)
            | None \<Rightarrow> split_complete (sc_isComplete cp) valid w))"

section \<open>Checking one address\<close>

definition mark_checkpoint :: "'w sync_options \<Rightarrow> string \<Rightarrow> 'w \<Rightarrow> (thrown + unit) \<times> 'w" where
  "mark_checkpoint opts address w =
     (case so_checkpoint opts of None \<Rightarrow> (Ret (), w) | Some cp \<Rightarrow> sc_markComplete cp address w)"

text \<open>\<open>getAddressResult\<close> of an address with no other lookup of it in flight.\<close>

definition getAddressResult ::
  "'w sync_env \<Rightarrow> 'w sync_options \<Rightarrow> string \<Rightarrow> sync_state \<times> 'w
     \<Rightarrow> (thrown + check_result) \<times> sync_state \<times> 'w" where
  "getAddressResult env opts address sw =
     (case sw of (s, w) \<Rightarrow>
        (case so_cache opts of
           None \<Rightarrow>
             (case withRetry (se_retry env) (so_provider opts address) (so_retry opts) w of
                (r, w) \<Rightarrow> (r, s, w))
         | Some c \<Rightarrow>
             (case cache_get c (se_now env w) address (ss_cache s) of
                (Some r, m) \<Rightarrow> (Ret r, s\<lparr>ss_cache := m\<rparr>, w)
              | (None, m) \<Rightarrow>
                  (case withRetry (se_retry env) (so_provider opts address) (so_retry opts) w of
                     (Ret r, w) \<Rightarrow> (Ret r, s\<lparr>ss_cache := cache_set c (se_now env w) address r m\<rparr>, w)
                   | (Throw e, w) \<Rightarrow> (Throw e, s\<lparr>ss_cache := m\<rparr>, w)))))"

text \<open>The part of the handler before the provider is asked.\<close>

definition check_begin :: "'w sync_options \<Rightarrow> string \<Rightarrow> sync_state \<Rightarrow> sync_state" where
  "check_begin opts address s =
     emit [ESpanStart ''address_check'',
           ESpanAttr ''address_check.index''
             (VNum (let i = length (takeWhile (\<lambda>x. x \<noteq> address) (map normalizeStellarAddress (so_addresses opts)))
                    in if i < length (so_addresses opts) then int i else - 1))]
       (s\<lparr>ss_started := set_add address (ss_started s)\<rparr>)"

definition check_failed :: "int \<Rightarrow> string \<Rightarrow> thrown \<Rightarrow> sync_state \<Rightarrow> sync_state" where
  "check_failed durationMs address err s =
     (emit [EMetric ''address_check'' False durationMs, ESpanEnd ''error'' (Some (to_error err))] s)
       \<lparr>ss_failed := ss_failed s @ [address],
        ss_failedWithReasons := ss_failedWithReasons s @ [(address, thrown_message err)]\<rparr>"

definition below_threshold :: "'w sync_options \<Rightarrow> check_result \<Rightarrow> rat option" where
  "below_threshold opts result =
     (case (so_minScoreToBlock opts, cr_score result) of
        (Some m, Some score) \<Rightarrow> if score < m then Some score else None
      | _ \<Rightarrow> None)"

text \<open>The rest of the handler; \<open>start\<close> is when it began. \<open>progressLogger\<close> logs in the finally block.\<close>

definition check_finally :: "'w sync_env \<Rightarrow> 'w sync_options \<Rightarrow> sync_state \<Rightarrow> sync_state" where
  "check_finally env opts s =
     (let s = s\<lparr>ss_checked := Suc (ss_checked s)\<rparr> in
      if int (ss_checked s) mod so_progressInterval opts = 0 then
        emit [ELog ''debug'' (''Progress: '' @ dec_of_nat (ss_checked s) @ ''/''
          @ dec_of_nat (length (valid_addresses (se_strkey env) (so_addresses opts))
              + length (invalid_entries (se_strkey env) (so_addresses opts)))
          @ '' addresses checked'')] s
      else s)"

definition check_settle ::
  "'w sync_env \<Rightarrow> 'w sync_options \<Rightarrow> string list \<Rightarrow> string \<Rightarrow> int \<Rightarrow> thrown + check_result
     \<Rightarrow> sync_state \<times> 'w \<Rightarrow> sync_state \<times> 'w" where
  "check_settle env opts denylist address start r sw =
     (case sw of (s, w) \<Rightarrow>
        (let (s, w) = (case r of
             Throw err \<Rightarrow> (check_failed (se_now env w - start) address err s, w)
           | Ret result \<Rightarrow>
               (let s = emit [EMetric ''address_check'' True (se_now env w - start),
                      ESpanAttr ''address_check.flagged'' (VBool (cr_flagged result)), ESpanEnd ''ok'' None] s in
                if cr_flagged result then
                  (case below_threshold opts result of
                     Some score \<Rightarrow>
                       (s\<lparr>ss_needsReview := ss_needsReview s
                            @ [\<lparr>ra_address = address, ra_source = cr_source result, ra_score = score\<rparr>]\<rparr>, w)
                   | None \<Rightarrow>
                       (s\<lparr>ss_flagged := ss_flagged s @ [address],
                          ss_flaggedWithSource := ss_flaggedWithSource s @ [(address, cr_source result)]\<rparr>, w))
                else if so_reconcile opts \<and> address \<in> set denylist then
                  (s\<lparr>ss_cleared := ss_cleared s @ [(address, cr_source result)]\<rparr>, w)
                else
                  (case mark_checkpoint opts address w of
                     (Ret _, w) \<Rightarrow> (s, w)
                   | (Throw err, w) \<Rightarrow> (check_failed (se_now env w - start) address err s, w))))
         in (check_finally env opts s, w)))"

definition process_address ::
  "'w sync_env \<Rightarrow> 'w sync_options \<Rightarrow> string list \<Rightarrow> string \<Rightarrow> sync_state \<times> 'w \<Rightarrow> sync_state \<times> 'w" where
  "process_address env opts denylist address sw =
     (case sw of (s, w) \<Rightarrow>
        (case getAddressResult env opts address (check_begin opts address s, w) of
           (r, sw) \<Rightarrow> check_settle env opts denylist address (se_now env w) r sw))"

section \<open>\<open>executeConcurrent\<close>\<close>

text \<open>The sequential path: \<open>shouldStop\<close> is asked before each item.\<close>

fun run_sequential :: "('a \<Rightarrow> 'b \<Rightarrow> 'b) \<Rightarrow> ('b \<Rightarrow> bool) \<Rightarrow> 'a list \<Rightarrow> 'b \<Rightarrow> 'b" where
  "run_sequential fn shouldStop [] s = s"
| "run_sequential fn shouldStop (item # items) s =
     (if shouldStop s then s else run_sequential fn shouldStop items (fn item s))"

definition sequential_path :: "nat option \<Rightarrow> nat \<Rightarrow> bool" where
  "sequential_path concurrency n = (case concurrency of None \<Rightarrow> True | Some c \<Rightarrow> c = 0 \<or> c \<ge> n)"

text \<open>
  The concurrent path. \<open>Launch\<close> takes the head of the queue when a slot is free and the deadline
  has not passed; \<open>Settles address r w\<close> resumes the handler of an active address with the
  provider's answer, in the world \<open>w\<close> that the environment has reached by then. An event that is
  not enabled cannot happen.
\<close>

record 'w conc_state =
  cs_queue :: "string list"
  cs_active :: "(string \<times> int) list"
  cs_state :: sync_state
  cs_world :: 'w

datatype 'w conc_event = Launch | Settles string "thrown + check_result" 'w

fun conc_step ::
  "'w sync_env \<Rightarrow> 'w sync_options \<Rightarrow> string list \<Rightarrow> ('w \<Rightarrow> bool) \<Rightarrow> nat \<Rightarrow> 'w conc_event
     \<Rightarrow> 'w conc_state \<Rightarrow> 'w conc_state option" where
  "conc_step env opts denylist stop concurrency Launch c =
     (case cs_queue c of
        [] \<Rightarrow> None
      | item # queue \<Rightarrow>
          if length (cs_active c) < concurrency \<and> \<not> stop (cs_world c) then
            Some (c\<lparr>cs_queue := queue, cs_active := cs_active c @ [(item, se_now env (cs_world c))],
               cs_state := check_begin opts item (cs_state c)\<rparr>)
          else None)"
| "conc_step env opts denylist stop concurrency (Settles a r w) c =
     (case map_get (cs_active c) a of
        None \<Rightarrow> None
      | Some start \<Rightarrow>
          (case check_settle env opts denylist a start r (cs_state c, w) of (s, w) \<Rightarrow>
             Some (c\<lparr>cs_active := map_delete a (cs_active c), cs_state := s, cs_world := w\<rparr>)))"

fun conc_run ::
  "'w sync_env \<Rightarrow> 'w sync_options \<Rightarrow> string list \<Rightarrow> ('w \<Rightarrow> bool) \<Rightarrow> nat \<Rightarrow> 'w conc_event list
     \<Rightarrow> 'w conc_state \<Rightarrow> 'w conc_state option" where
  "conc_run env opts denylist stop concurrency [] c = Some c"
| "conc_run env opts denylist stop concurrency (e # es) c =
     (case conc_step env opts denylist stop concurrency e c of
        None \<Rightarrow> None | Some c \<Rightarrow> conc_run env opts denylist stop concurrency es c)"

definition conc_start :: "string list \<Rightarrow> sync_state \<times> 'w \<Rightarrow> 'w conc_state" where
  "conc_start items sw = \<lparr>cs_queue = items, cs_active = [], cs_state = fst sw, cs_world = snd sw\<rparr>"

text \<open>
  The answer an active address gets is one that its lookup produced, whatever the world was by
  the time the provider was asked. The state is any, too: on this path the result cache is not tracked in
  \<open>ss_cache\<close>, and the answers of a hit and of a miss are both allowed.
\<close>

definition answered :: "'w sync_env \<Rightarrow> 'w sync_options \<Rightarrow> string \<Rightarrow> thrown + check_result \<Rightarrow> bool" where
  "answered env opts address r \<longleftrightarrow> (\<exists>sw sw'. getAddressResult env opts address sw = (r, sw'))"

text \<open>The check phase, on either path. The concurrent loop returns when queue and active set are empty.\<close>

inductive check_phase ::
  "'w sync_env \<Rightarrow> 'w sync_options \<Rightarrow> string list \<Rightarrow> ('w \<Rightarrow> bool) \<Rightarrow> string list
     \<Rightarrow> sync_state \<times> 'w \<Rightarrow> sync_state \<times> 'w \<Rightarrow> bool"
  for env opts denylist stop where
  sequential: "sequential_path (so_concurrency opts) (length items) \<Longrightarrow>
     sw' = run_sequential (process_address env opts denylist) (\<lambda>(s, w). stop w) items sw \<Longrightarrow>
     check_phase env opts denylist stop items sw sw'"
| concurrent: "\<not> sequential_path (so_concurrency opts) (length items) \<Longrightarrow> so_concurrency opts = Some k \<Longrightarrow>
     conc_run env opts denylist stop k es (conc_start items sw) = Some c \<Longrightarrow>
     (\<And>a r w. Settles a r w \<in> set es \<Longrightarrow> answered env opts a r) \<Longrightarrow>
     cs_queue c = [] \<Longrightarrow> cs_active c = [] \<Longrightarrow>
     check_phase env opts denylist stop items sw (cs_state c, cs_world c)"

section \<open>Writing, removing, reporting\<close>

definition call_writer ::
  "'w denylist_writer \<Rightarrow> string \<Rightarrow> string \<Rightarrow> 'w \<Rightarrow> (thrown + string) \<times> 'w" where
  "call_writer writer address source w =
     (case dw_addWithSource writer of
        Some f \<Rightarrow> f address source w | None \<Rightarrow> dw_add writer address w)"

definition write_failed :: "int \<Rightarrow> thrown \<Rightarrow> sync_state \<Rightarrow> sync_state" where
  "write_failed durationMs err =
     emit [EMetric ''denylist_write'' False durationMs, ESpanEnd ''error'' (Some (to_error err))]"

text \<open>The write loop; \<open>written\<close> is the list so far, and \<open>Throw\<close> is the error it rethrows.\<close>

fun write_loop ::
  "'w sync_env \<Rightarrow> 'w sync_options \<Rightarrow> string list \<Rightarrow> (string \<times> string) list \<Rightarrow> string list
     \<Rightarrow> sync_state \<times> 'w \<Rightarrow> (thrown + string list) \<times> sync_state \<times> 'w" where
  "write_loop env opts denylist [] written sw = (Ret written, sw)"
| "write_loop env opts denylist ((address, source) # rest) written (s, w) =
     (if address \<in> set denylist then write_loop env opts denylist rest written (s, w)
      else
        let start = se_now env w; s = emit [ESpanStart ''denylist_write''] s in
        case call_writer (so_writer opts) address source w of
          (Ret hash, w) \<Rightarrow>
            (let s = emit [EMetric ''denylist_write'' True (se_now env w - start),
                   ESpanAttr ''denylist_write.tx_hash'' (VStr hash), ESpanEnd ''ok'' None] s;
                 written = written @ [address]
             in case mark_checkpoint opts address w of
                  (Ret _, w) \<Rightarrow> write_loop env opts denylist rest written
                     (emit [ELog ''info'' ''sanctions-oracle: address written to denylist''] s, w)
                | (Throw err, w) \<Rightarrow> write_loop env opts denylist rest written
                     (write_failed (se_now env w - start) err s, w))
        | (Throw err, w) \<Rightarrow>
            (let s = write_failed (se_now env w - start) err s in
             if 0 < length written then write_loop env opts denylist rest written (s, w)
             else (Throw err, s, w)))"

definition call_remover ::
  "'w denylist_writer \<Rightarrow> string \<Rightarrow> string \<Rightarrow> 'w \<Rightarrow> (thrown + string) \<times> 'w" where
  "call_remover writer address source w =
     (case dw_removeWithSource writer of
        Some f \<Rightarrow> f address source w
      | None \<Rightarrow> (case dw_remove writer of
          Some f \<Rightarrow> f address w
        | None \<Rightarrow> (Throw (type_error ''writer.removeFromDenylist is not a function''), w)))"

fun remove_loop ::
  "'w sync_options \<Rightarrow> (string \<times> string) list \<Rightarrow> string list \<times> (string \<times> string) list
     \<Rightarrow> sync_state \<times> 'w \<Rightarrow> (string list \<times> (string \<times> string) list) \<times> sync_state \<times> 'w" where
  "remove_loop opts [] acc sw = (acc, sw)"
| "remove_loop opts ((address, source) # rest) (removed, failedRemovals) (s, w) =
     (if so_dryRun opts then
        remove_loop opts rest (removed, failedRemovals)
          (emit [ELog ''info'' ''sanctions-oracle: [dry-run] would call remove_from_denylist''] s, w)
      else
        let s = emit [ESpanStart ''denylist_remove''] s in
        case call_remover (so_writer opts) address source w of
          (Ret hash, w) \<Rightarrow>
            (let s = emit [ESpanAttr ''denylist_remove.tx_hash'' (VStr hash), ESpanEnd ''ok'' None] s in
             case mark_checkpoint opts address w of
               (Ret _, w) \<Rightarrow> remove_loop opts rest (removed @ [address], failedRemovals)
                  (emit [ELog ''info'' ''sanctions-oracle: address removed from denylist''] s, w)
             | (Throw err, w) \<Rightarrow>
                 remove_loop opts rest (removed @ [address], failedRemovals @ [(address, thrown_message err)])
                   (emit [ESpanEnd ''error'' (Some (to_error err))] s, w))
        | (Throw err, w) \<Rightarrow>
            remove_loop opts rest (removed, failedRemovals @ [(address, thrown_message err)])
              (emit [ESpanEnd ''error'' (Some (to_error err))] s, w))"

definition pending_writes :: "string list \<Rightarrow> (string \<times> string) list \<Rightarrow> string list" where
  "pending_writes denylist flaggedWithSource =
     filter (\<lambda>a. a \<notin> set denylist) (map fst flaggedWithSource)"

text \<open>The write phase: what was written, or the fee estimate of a dry run.\<close>

definition write_phase ::
  "'w sync_env \<Rightarrow> 'w sync_options \<Rightarrow> string list \<Rightarrow> sync_state \<times> 'w
     \<Rightarrow> (thrown + string list \<times> fee_estimate option) \<times> sync_state \<times> 'w" where
  "write_phase env opts denylist sw =
     (case sw of (s, w) \<Rightarrow>
        if so_dryRun opts then
          (let pending = pending_writes denylist (ss_flaggedWithSource s);
               s = emit (map (\<lambda>_. ELog ''info'' ''sanctions-oracle: [dry-run] would call add_to_denylist'') pending) s
           in case so_feeEstimator opts of
                None \<Rightarrow> (Ret ([], None), s, w)
              | Some estimator \<Rightarrow>
                  (case estimateDryRunFee pending estimator w of (fee, w) \<Rightarrow>
                     (Ret ([], Some fee),
                      emit [if fe_error fee \<noteq> None
                            then ELog ''warn'' ''sanctions-oracle: [dry-run] fee estimate failed''
                            else ELog ''info'' ''sanctions-oracle: [dry-run] estimated fee''] s, w)))
        else
          (case write_loop env opts denylist (ss_flaggedWithSource s) [] (s, w) of
             (Throw e, sw) \<Rightarrow> (Throw e, sw)
           | (Ret written, sw) \<Rightarrow> (Ret (written, None), sw)))"

text \<open>The lines logged between the check phase and the writes.\<close>

definition report_checks :: "string list \<Rightarrow> sync_state \<Rightarrow> sync_state" where
  "report_checks pending s =
     (let unprocessed = filter (\<lambda>a. a \<notin> set (ss_started s)) pending in
      emit ((if 0 < length unprocessed
             then [ELog ''warn'' ''sanctions-oracle: max duration elapsed; stopping new checks''] else [])
            @ [ELog ''info'' ''sanctions-oracle: screening complete'']) s)"

definition removal_phase ::
  "'w sync_options \<Rightarrow> sync_state \<times> 'w \<Rightarrow> (string list \<times> (string \<times> string) list) \<times> sync_state \<times> 'w" where
  "removal_phase opts sw =
     (if so_reconcile opts then remove_loop opts (ss_cleared (fst sw)) ([], []) sw else (([], []), sw))"

definition sync_report ::
  "'w sync_options \<Rightarrow> string list \<Rightarrow> string list \<Rightarrow> sync_state \<Rightarrow> string list \<Rightarrow> fee_estimate option
     \<Rightarrow> string list \<Rightarrow> (string \<times> string) list \<Rightarrow> sync_result" where
  "sync_report opts invalid skipped s written feeEstimate removed failedRemovals =
     \<lparr>sr_checked = length (ss_started s), sr_flagged = ss_flagged s, sr_written = written,
      sr_failed = ss_failed s, sr_failedWithReasons = ss_failedWithReasons s,
      sr_invalid = invalid, sr_skipped = skipped, sr_dryRun = so_dryRun opts,
      sr_removed = (if so_reconcile opts then Some removed else None),
      sr_plannedRemovals = (if so_reconcile opts then Some (ss_cleared s) else None),
      sr_failedRemovals = (if so_reconcile opts then Some failedRemovals else None),
      sr_needsReview = (if so_minScoreToBlock opts \<noteq> None then Some (ss_needsReview s) else None),
      sr_feeEstimate = feeEstimate\<rparr>"

text \<open>Everything after the check phase.\<close>

definition sync_finish ::
  "'w sync_env \<Rightarrow> 'w sync_options \<Rightarrow> string list \<Rightarrow> string list \<Rightarrow> string list \<Rightarrow> string list
     \<Rightarrow> sync_state \<times> 'w \<Rightarrow> (thrown + sync_result) \<times> sync_state \<times> 'w" where
  "sync_finish env opts denylist invalid skipped pending sw =
     (case write_phase env opts denylist (report_checks pending (fst sw), snd sw) of
        (Throw e, sw) \<Rightarrow> (Throw e, sw)
      | (Ret (written, feeEstimate), sw) \<Rightarrow>
          (case removal_phase opts sw of
             ((removed, failedRemovals), (s, w)) \<Rightarrow>
               (Ret (sync_report opts invalid skipped s written feeEstimate removed failedRemovals), s, w)))"

text \<open>Everything before it: the lists the later phases need, or the error thrown.\<close>

definition sync_prepare ::
  "'w sync_env \<Rightarrow> 'w sync_options \<Rightarrow> sync_state \<Rightarrow> 'w
     \<Rightarrow> (thrown + string list \<times> string list) \<times> sync_state \<times> 'w" where
  "sync_prepare env opts s w =
     (let s = emit [ELog ''info'' ''sanctions-oracle: starting sync''] s in
      if so_reconcile opts \<and> \<not> so_dryRun opts \<and> dw_remove (so_writer opts) = None
         \<and> dw_removeWithSource (so_writer opts) = None then
        (Throw (mk_error ''sanctions-oracle: reconcile requires a writer that implements removeFromDenylist''), s, w)
      else
        let s = (if invalid_entries (se_strkey env) (so_addresses opts) \<noteq> [] then
                   emit [ELog ''warn'' ''sanctions-oracle: skipping malformed addresses''] s else s) in
        case resume_split opts (candidate_addresses env opts) w of
          (Throw e, w) \<Rightarrow> (Throw e, s, w)
        | (Ret (skipped, pending), w) \<Rightarrow>
            (Ret (skipped, pending),
             if skipped \<noteq> [] then emit [ELog ''info'' ''sanctions-oracle: resuming sync''] s else s, w))"

definition sync_init :: "cache_map \<Rightarrow> sync_state" where
  "sync_init cache = \<lparr>ss_started = [], ss_flagged = [], ss_flaggedWithSource = [], ss_needsReview = [],
     ss_cleared = [], ss_failed = [], ss_failedWithReasons = [], ss_checked = 0, ss_cache = cache,
     ss_effects = []\<rparr>"

definition past_deadline :: "'w sync_env \<Rightarrow> int option \<Rightarrow> 'w \<Rightarrow> bool" where
  "past_deadline env deadline w = (case deadline of None \<Rightarrow> False | Some d \<Rightarrow> se_now env w \<ge> d)"

text \<open>
  The body of the function, with the deadline as a parameter. It relates a start to every outcome
  that some schedule of the concurrent path can reach.
\<close>

inductive sync_body ::
  "'w sync_env \<Rightarrow> 'w sync_options \<Rightarrow> cache_map \<Rightarrow> int option \<Rightarrow> 'w
     \<Rightarrow> (thrown + sync_result) \<times> sync_state \<times> 'w \<Rightarrow> bool"
  for env opts cache maxDurationMs w where
  rejected: "sync_prepare env opts (sync_init cache) w = (Throw e, s, w1) \<Longrightarrow>
     sync_body env opts cache maxDurationMs w (Throw e, s, w1)"
| checked: "sync_prepare env opts (sync_init cache) w = (Ret (skipped, pending), s, w1) \<Longrightarrow>
     denylist = denylist_set (so_currentDenylist opts) \<Longrightarrow>
     check_phase env opts denylist (past_deadline env (map_option (\<lambda>d. se_now env w + d) maxDurationMs))
       pending (s, w1) sw \<Longrightarrow>
     out = sync_finish env opts denylist (invalid_entries (se_strkey env) (so_addresses opts)) skipped pending sw \<Longrightarrow>
     sync_body env opts cache maxDurationMs w out"

text \<open>
  The function as written reads \<open>maxDurationMs\<close>, which it neither declares nor destructures from
  its options: the value comes from the global scope, and evaluating an unbound name throws.
\<close>

inductive syncSanctionsToDenylist ::
  "(string \<Rightarrow> int option option) \<Rightarrow> 'w sync_env \<Rightarrow> 'w sync_options \<Rightarrow> cache_map \<Rightarrow> 'w
     \<Rightarrow> (thrown + sync_result) \<times> 'w \<Rightarrow> bool"
  for globals env opts cache w where
  unbound: "globals ''maxDurationMs'' = None \<Longrightarrow>
     syncSanctionsToDenylist globals env opts cache w (Throw (reference_error ''maxDurationMs''), w)"
| bound: "globals ''maxDurationMs'' = Some maxDurationMs \<Longrightarrow>
     sync_body env opts cache maxDurationMs w (r, s, w') \<Longrightarrow>
     syncSanctionsToDenylist globals env opts cache w (r, w')"

end
