(* ===== verification/Writer.thy ===== *)
theory Writer
  imports Sync
begin

text \<open>
  \<open>createRpcDenylistWriter\<close> and \<open>createRpcFeeEstimator\<close> of \<open>sanctions-oracle/src/sync.ts\<close>, with
  \<open>signer.ts\<close> and \<open>auditLog.ts\<close>. The Stellar SDK (accounts, transactions, simulation, submission)
  is a record of parameters over an abstract type of transactions.
\<close>

section \<open>Signers\<close>

record 'w signer =
  sg_publicKey :: string
  sg_sign :: "string \<Rightarrow> 'w \<Rightarrow> (thrown + string) \<times> 'w"

text \<open>A key pair of the SDK signs at once and does not fail.\<close>

record keypair =
  kp_publicKey :: string
  kp_sign :: "string \<Rightarrow> string"

datatype 'w signing_key = KeypairKey keypair | SignerKey "'w signer"

definition KeypairSigner :: "keypair \<Rightarrow> 'w signer" where
  "KeypairSigner keypair = \<lparr>sg_publicKey = kp_publicKey keypair,
     sg_sign = (\<lambda>txHash w. (Ret (kp_sign keypair txHash), w))\<rparr>"

fun toSigner :: "'w signing_key \<Rightarrow> 'w signer" where
  "toSigner (KeypairKey k) = KeypairSigner k"
| "toSigner (SignerKey s) = s"

section \<open>The SDK\<close>

record ('acct, 'tx, 'w) stellar_sdk =
  sdk_getAccount :: "string \<Rightarrow> 'w \<Rightarrow> (thrown + 'acct) \<times> 'w"
  sdk_buildCall :: "'acct \<Rightarrow> string \<Rightarrow> string \<Rightarrow> string \<Rightarrow> string \<Rightarrow> thrown + 'tx"
  sdk_prepare :: "'tx \<Rightarrow> 'w \<Rightarrow> (thrown + 'tx) \<times> 'w"
  sdk_fee :: "'tx \<Rightarrow> int"
  sdk_hash :: "'tx \<Rightarrow> string"
  sdk_addSignature :: "'tx \<Rightarrow> string \<Rightarrow> string \<Rightarrow> 'tx"
  sdk_feeBump :: "string \<Rightarrow> 'tx \<Rightarrow> string \<Rightarrow> thrown + 'tx"
  sdk_send :: "'tx \<Rightarrow> 'w \<Rightarrow> (thrown + string) \<times> 'w"

definition signTransaction ::
  "('acct, 'tx, 'w) stellar_sdk \<Rightarrow> 'tx \<Rightarrow> 'w signer \<Rightarrow> 'w \<Rightarrow> (thrown + 'tx) \<times> 'w" where
  "signTransaction sdk tx signer w =
     (case sg_sign signer (sdk_hash sdk tx) w of
        (Throw e, w) \<Rightarrow> (Throw e, w)
      | (Ret signature, w) \<Rightarrow> (Ret (sdk_addSignature sdk tx (sg_publicKey signer) signature), w))"

section \<open>Audit entries\<close>

record audit_entry =
  ae_address :: string
  ae_action :: "string option"
  ae_timestamp :: string
  ae_source :: string
  ae_txHash :: string

type_synonym 'w audit_logger = "audit_entry \<Rightarrow> 'w \<Rightarrow> (thrown + unit) \<times> 'w"

record 'w writer_options =
  wo_networkPassphrase :: string
  wo_contractId :: string
  wo_sourceKeypair :: "'w signing_key option"
  wo_signer :: "'w signing_key option"
  wo_feeSource :: "'w signing_key option"
  wo_auditLogger :: "'w audit_logger option"
  wo_maxRetries :: "int option"
  wo_backoff :: backoff_options
  wo_logError :: "string \<Rightarrow> string \<Rightarrow> string \<Rightarrow> 'w \<Rightarrow> 'w"

record 'w writer_env =
  we_retry :: "'w retry_env"
  we_nowIso :: "'w \<Rightarrow> string"

section \<open>Sending\<close>

text \<open>
  The retry loop around \<open>sendTransaction\<close>; \<open>attempt\<close> counts from 0 and \<open>lastError\<close> is what the
  previous attempt threw.
\<close>

function send_loop ::
  "'w retry_env \<Rightarrow> ('w \<Rightarrow> (thrown + string) \<times> 'w) \<Rightarrow> backoff_options \<Rightarrow> int \<Rightarrow> int \<Rightarrow> thrown option
     \<Rightarrow> 'w \<Rightarrow> (thrown + string) \<times> 'w" where
  "send_loop env send opts maxRetries attempt lastError w =
     (if attempt < maxRetries then
        (case send w of
           (Ret hash, w) \<Rightarrow> (Ret hash, w)
         | (Throw err, w) \<Rightarrow>
             if attempt < maxRetries - 1 then
               (case computeBackoffDelayMs (re_random env) (JInt attempt) opts w of
                  (Throw e, w) \<Rightarrow> (Throw e, w)
                | (Ret delayMs, w) \<Rightarrow>
                    (case re_sleep env delayMs w of
                       (Throw e, w) \<Rightarrow> (Throw e, w)
                     | (Ret _, w) \<Rightarrow> send_loop env send opts maxRetries (attempt + 1) (Some err) w))
             else send_loop env send opts maxRetries (attempt + 1) (Some err) w)
      else (Throw (mk_error (''Failed to send transaction after '' @ dec_of_int maxRetries
              @ '' attempts: '' @ (case lastError of None \<Rightarrow> ''undefined'' | Some e \<Rightarrow> thrown_message e))), w))"
  by pat_completeness auto
termination
  by (relation "measure (\<lambda>(_, _, _, maxRetries, attempt, _, _). nat (maxRetries - attempt))") auto

declare send_loop.simps [simp del]

text \<open>Signing, the fee bump included.\<close>

definition sign_envelope ::
  "('acct, 'tx, 'w) stellar_sdk \<Rightarrow> 'w writer_options \<Rightarrow> 'w signer \<Rightarrow> 'tx \<Rightarrow> 'w \<Rightarrow> (thrown + 'tx) \<times> 'w" where
  "sign_envelope sdk opts signer prepared w =
     (case signTransaction sdk prepared signer w of
        (Throw e, w) \<Rightarrow> (Throw e, w)
      | (Ret signed, w) \<Rightarrow>
          (case wo_feeSource opts of
             None \<Rightarrow> (Ret signed, w)
           | Some feeKey \<Rightarrow>
               (case sdk_feeBump sdk (sg_publicKey (toSigner feeKey)) signed (wo_networkPassphrase opts) of
                  Throw e \<Rightarrow> (Throw e, w)
                | Ret envelope \<Rightarrow> signTransaction sdk envelope (toSigner feeKey) w)))"

definition build_envelope ::
  "('acct, 'tx, 'w) stellar_sdk \<Rightarrow> 'w writer_options \<Rightarrow> 'w signer \<Rightarrow> string \<Rightarrow> string \<Rightarrow> 'w \<Rightarrow> (thrown + 'tx) \<times> 'w" where
  "build_envelope sdk opts signer address meth w =
     (case sdk_getAccount sdk (sg_publicKey signer) w of
        (Throw e, w) \<Rightarrow> (Throw e, w)
      | (Ret account, w) \<Rightarrow>
          (case sdk_buildCall sdk account (wo_networkPassphrase opts) (wo_contractId opts) meth address of
             Throw e \<Rightarrow> (Throw e, w)
           | Ret tx \<Rightarrow>
               (case sdk_prepare sdk tx w of
                  (Throw err, w) \<Rightarrow>
                    (Throw (mk_error (''Failed to prepare transaction (simulation error): '' @ thrown_message err)), w)
                | (Ret prepared, w) \<Rightarrow> sign_envelope sdk opts signer prepared w)))"

definition buildPrepareSignAndSend ::
  "('acct, 'tx, 'w) stellar_sdk \<Rightarrow> 'w writer_env \<Rightarrow> 'w writer_options \<Rightarrow> 'w signer \<Rightarrow> string \<Rightarrow> string
     \<Rightarrow> 'w \<Rightarrow> (thrown + string) \<times> 'w" where
  "buildPrepareSignAndSend sdk env opts signer address meth w =
     (case build_envelope sdk opts signer address meth w of
        (Throw e, w) \<Rightarrow> (Throw e, w)
      | (Ret envelope, w) \<Rightarrow>
          send_loop (we_retry env) (sdk_send sdk envelope) (wo_backoff opts)
            (or_default (wo_maxRetries opts) 3) 0 None w)"

section \<open>The writer\<close>

definition writeAuditEntry :: "'w writer_options \<Rightarrow> audit_entry \<Rightarrow> 'w \<Rightarrow> 'w" where
  "writeAuditEntry opts entry w =
     (case wo_auditLogger opts of
        None \<Rightarrow> w
      | Some auditLogger \<Rightarrow>
          (case auditLogger entry w of
             (Ret _, w) \<Rightarrow> w
           | (Throw err, w) \<Rightarrow> wo_logError opts (ae_address entry) (ae_txHash entry) (thrown_message err) w))"

definition audited ::
  "('acct, 'tx, 'w) stellar_sdk \<Rightarrow> 'w writer_env \<Rightarrow> 'w writer_options \<Rightarrow> 'w signer \<Rightarrow> string \<Rightarrow> string option
     \<Rightarrow> string \<Rightarrow> string \<Rightarrow> 'w \<Rightarrow> (thrown + string \<times> audit_entry) \<times> 'w" where
  "audited sdk env opts signer meth action address source w =
     (case buildPrepareSignAndSend sdk env opts signer address meth w of
        (Throw e, w) \<Rightarrow> (Throw e, w)
      | (Ret hash, w) \<Rightarrow>
          (let auditEntry = \<lparr>ae_address = address, ae_action = action, ae_timestamp = we_nowIso env w,
                 ae_source = source, ae_txHash = hash\<rparr>
           in (Ret (hash, auditEntry), writeAuditEntry opts auditEntry w)))"

definition hash_only :: "(thrown + string \<times> audit_entry) \<times> 'w \<Rightarrow> (thrown + string) \<times> 'w" where
  "hash_only rw = (case rw of (Throw e, w) \<Rightarrow> (Throw e, w) | (Ret (hash, _), w) \<Rightarrow> (Ret hash, w))"

text \<open>The four methods; the sync uses the hash of an audited write and nothing else of its result.\<close>

definition createRpcDenylistWriter ::
  "('acct, 'tx, 'w) stellar_sdk \<Rightarrow> 'w writer_env \<Rightarrow> 'w writer_options \<Rightarrow> thrown + 'w denylist_writer" where
  "createRpcDenylistWriter sdk env opts =
     (case (case wo_signer opts of Some k \<Rightarrow> Some k | None \<Rightarrow> wo_sourceKeypair opts) of
        None \<Rightarrow> Throw (mk_error ''sanctions-oracle: createRpcDenylistWriter requires a signer or sourceKeypair'')
      | Some authority \<Rightarrow>
          (let signer = toSigner authority in
           Ret \<lparr>dw_add = (\<lambda>address. buildPrepareSignAndSend sdk env opts signer address ''add_to_denylist''),
                dw_addWithSource = Some (\<lambda>address source w.
                  hash_only (audited sdk env opts signer ''add_to_denylist'' None address source w)),
                dw_remove = Some (\<lambda>address. buildPrepareSignAndSend sdk env opts signer address ''remove_from_denylist''),
                dw_removeWithSource = Some (\<lambda>address source w.
                  hash_only (audited sdk env opts signer ''remove_from_denylist'' (Some ''remove'') address source w))\<rparr>))"

definition createRpcFeeEstimator ::
  "('acct, 'tx, 'w) stellar_sdk \<Rightarrow> string \<Rightarrow> string \<Rightarrow> string \<Rightarrow> string \<Rightarrow> 'w \<Rightarrow> (thrown + int) \<times> 'w" where
  "createRpcFeeEstimator sdk networkPassphrase contractId sourcePublicKey sampleAddress w =
     (case sdk_getAccount sdk sourcePublicKey w of
        (Throw e, w) \<Rightarrow> (Throw e, w)
      | (Ret account, w) \<Rightarrow>
          (case sdk_buildCall sdk account networkPassphrase contractId ''add_to_denylist'' sampleAddress of
             Throw e \<Rightarrow> (Throw e, w)
           | Ret tx \<Rightarrow>
               (case sdk_prepare sdk tx w of
                  (Throw e, w) \<Rightarrow> (Throw e, w)
                | (Ret prepared, w) \<Rightarrow> (Ret (sdk_fee sdk prepared), w))))"

section \<open>The JSONL audit log\<close>

text \<open>The file operations of one append; the handle is the file itself.\<close>

record 'f append_ops =
  ao_open :: "'f \<Rightarrow> (thrown + unit) \<times> 'f"
  ao_write :: "string \<Rightarrow> 'f \<Rightarrow> (thrown + unit) \<times> 'f"
  ao_sync :: "'f \<Rightarrow> (thrown + unit) \<times> 'f"
  ao_close :: "'f \<Rightarrow> (thrown + unit) \<times> 'f"

definition audit_line :: "audit_entry \<Rightarrow> string" where
  "audit_line entry = stringify (JObj
       ([(''address'', JStr (ae_address entry))]
        @ (case ae_action entry of None \<Rightarrow> [] | Some a \<Rightarrow> [(''action'', JStr a)])
        @ [(''timestamp'', JStr (ae_timestamp entry)), (''source'', JStr (ae_source entry)),
           (''txHash'', JStr (ae_txHash entry))])) @ [CHR 0x0A]"

definition jsonl_append :: "'f append_ops \<Rightarrow> bool \<Rightarrow> string \<Rightarrow> 'f \<Rightarrow> (thrown + unit) \<times> 'f" where
  "jsonl_append ops fsync line f =
     (case ao_open ops f of
        (Throw e, f) \<Rightarrow> (Throw e, f)
      | (Ret _, f) \<Rightarrow>
          (let (r, f) = (case ao_write ops line f of
                 (Throw e, f) \<Rightarrow> (Throw e, f)
               | (Ret _, f) \<Rightarrow> if fsync then ao_sync ops f else (Ret (), f))
           in case ao_close ops f of
                (Throw e, f) \<Rightarrow> (Throw e, f)
              | (Ret _, f) \<Rightarrow> (r, f)))"

text \<open>
  Calls and completions: a call queues its line behind the promise of the previous one, and the
  head of the queue is appended when its turn comes.
\<close>

record 'f jsonl =
  jl_queue :: "string list"
  jl_file :: 'f
  jl_results :: "(string \<times> (thrown + unit)) list"

datatype jsonl_event = LogEntry audit_entry | AppendNext

fun jsonl_step :: "'f append_ops \<Rightarrow> bool \<Rightarrow> 'f jsonl \<Rightarrow> jsonl_event \<Rightarrow> 'f jsonl" where
  "jsonl_step ops fsync s (LogEntry entry) = s\<lparr>jl_queue := jl_queue s @ [audit_line entry]\<rparr>"
| "jsonl_step ops fsync s AppendNext =
     (case jl_queue s of
        [] \<Rightarrow> s
      | line # rest \<Rightarrow>
          (case jsonl_append ops fsync line (jl_file s) of
             (r, f) \<Rightarrow> s\<lparr>jl_queue := rest, jl_file := f, jl_results := jl_results s @ [(line, r)]\<rparr>))"

definition jsonl_run :: "'f append_ops \<Rightarrow> bool \<Rightarrow> 'f \<Rightarrow> jsonl_event list \<Rightarrow> 'f jsonl" where
  "jsonl_run ops fsync f es = foldl (jsonl_step ops fsync) \<lparr>jl_queue = [], jl_file = f, jl_results = []\<rparr> es"


section \<open>Properties of the writer\<close>

text \<open>
  When drawing a delay and sleeping cannot fail, sending is the generic retry loop applied to one
  and the same signed envelope, with the last error wrapped.
\<close>

theorem send_loop_eq_withRetry:
  assumes "0 < maxRetries"
    and delay: "\<And>n w. 0 \<le> n \<Longrightarrow> \<exists>d w'. computeBackoffDelayMs (re_random env) (JInt n) opts w = (Ret d, w')"
    and sleep: "\<And>d w. \<exists>w'. re_sleep env d w = (Ret (), w')"
  shows "send_loop env send opts maxRetries 0 None w =
    (case withRetry_loop env send opts maxRetries 0 w of
       (Ret hash, w) \<Rightarrow> (Ret hash, w)
     | (Throw e, w) \<Rightarrow> (Throw (mk_error (''Failed to send transaction after '' @ dec_of_int maxRetries
         @ '' attempts: '' @ thrown_message e)), w))"
proof -
  have "send_loop env send opts maxRetries attempt lastError w =
    (case withRetry_loop env send opts maxRetries attempt w of
       (Ret hash, w) \<Rightarrow> (Ret hash, w)
     | (Throw e, w) \<Rightarrow> (Throw (mk_error (''Failed to send transaction after '' @ dec_of_int maxRetries
         @ '' attempts: '' @ thrown_message e)), w))"
    if "0 \<le> attempt" "attempt < maxRetries" for attempt lastError w
    using that
  proof (induction "nat (maxRetries - attempt)" arbitrary: attempt lastError w)
    case 0
    then show ?case by simp
  next
    case (Suc n)
    obtain r w1 where r: "send w = (r, w1)" by fastforce
    show ?case
    proof (cases r)
      case (Inr hash)
      with Suc.prems r show ?thesis by (simp add: send_loop.simps withRetry_loop.simps)
    next
      case (Inl err)
      show ?thesis
      proof (cases "attempt < maxRetries - 1")
        case True
        obtain d w2 where d: "computeBackoffDelayMs (re_random env) (JInt attempt) opts w1 = (Ret d, w2)"
          using delay [OF Suc.prems(1)] by blast
        obtain w3 where s: "re_sleep env d w2 = (Ret (), w3)" using sleep by blast
        have "n = nat (maxRetries - (attempt + 1))" using Suc(2) by simp
        from Suc.hyps(1) [OF this] True Suc.prems
        have IH: "send_loop env send opts maxRetries (attempt + 1) (Some err) w3 =
          (case withRetry_loop env send opts maxRetries (attempt + 1) w3 of
             (Ret hash, w) \<Rightarrow> (Ret hash, w)
           | (Throw e, w) \<Rightarrow> (Throw (mk_error (''Failed to send transaction after '' @ dec_of_int maxRetries
               @ '' attempts: '' @ thrown_message e)), w))" by simp
        show ?thesis
          using True Suc.prems r Inl d s IH
          by (subst send_loop.simps, subst withRetry_loop.simps) (simp add: Let_def)
      next
        case False
        have "send_loop env send opts maxRetries (attempt + 1) (Some err) w1 =
            (Throw (mk_error (''Failed to send transaction after '' @ dec_of_int maxRetries
               @ '' attempts: '' @ thrown_message err)), w1)"
          using False by (simp add: send_loop.simps)
        with False Suc.prems r Inl show ?thesis
          by (subst send_loop.simps, subst withRetry_loop.simps) (simp add: Let_def)
      qed
    qed
  qed
  from this [of 0] assms(1) show ?thesis by simp
qed

theorem send_loop_eq_withRetry_witness:
  "send_loop (script_env 0) script_fn default_backoff 2 0 None (run_script [Throw (mk_error ''busy''), Ret ''hash'']) =
    (case withRetry_loop (script_env 0) script_fn default_backoff 2 0 (run_script [Throw (mk_error ''busy''), Ret ''hash'']) of
       (Ret hash, w) \<Rightarrow> (Ret hash, w)
     | (Throw e, w) \<Rightarrow> (Throw (mk_error (''Failed to send transaction after '' @ dec_of_int 2
         @ '' attempts: '' @ thrown_message e)), w))"
  by (rule send_loop_eq_withRetry) (auto simp: script_delay script_sleep)

text \<open>
  An audit logger cannot change the fate of a write: the audited methods settle as the plain one
  does, whether the audit entry is stored, or the logger rejects, or there is none.
\<close>

theorem audit_cannot_fail_write:
  assumes "createRpcDenylistWriter sdk env opts = Ret writer"
    and "createRpcDenylistWriter sdk env (opts\<lparr>wo_auditLogger := auditor\<rparr>) = Ret writer'"
  shows "\<exists>add remove. dw_addWithSource writer' = Some add \<and> dw_removeWithSource writer' = Some remove
    \<and> fst (add address source w) = fst (dw_add writer address w)
    \<and> (\<forall>plain. dw_remove writer = Some plain \<longrightarrow> fst (remove address source w) = fst (plain address w))"
proof -
  obtain key where key: "(case wo_signer opts of Some k \<Rightarrow> Some k | None \<Rightarrow> wo_sourceKeypair opts) = Some key"
    using assms(1) by (auto simp: createRpcDenylistWriter_def split: option.splits)
  have sel: "wo_networkPassphrase (opts\<lparr>wo_auditLogger := auditor\<rparr>) = wo_networkPassphrase opts"
    "wo_contractId (opts\<lparr>wo_auditLogger := auditor\<rparr>) = wo_contractId opts"
    "wo_feeSource (opts\<lparr>wo_auditLogger := auditor\<rparr>) = wo_feeSource opts"
    "wo_maxRetries (opts\<lparr>wo_auditLogger := auditor\<rparr>) = wo_maxRetries opts"
    "wo_backoff (opts\<lparr>wo_auditLogger := auditor\<rparr>) = wo_backoff opts"
    "wo_signer (opts\<lparr>wo_auditLogger := auditor\<rparr>) = wo_signer opts"
    "wo_sourceKeypair (opts\<lparr>wo_auditLogger := auditor\<rparr>) = wo_sourceKeypair opts"
    by simp_all
  have same: "build_envelope sdk (opts\<lparr>wo_auditLogger := auditor\<rparr>) = build_envelope sdk opts"
    unfolding build_envelope_def sign_envelope_def fun_eq_iff sel by (rule refl allI)+
  have send: "buildPrepareSignAndSend sdk env (opts\<lparr>wo_auditLogger := auditor\<rparr>) = buildPrepareSignAndSend sdk env opts"
    unfolding buildPrepareSignAndSend_def fun_eq_iff sel same by (rule refl allI)+
  have audited: "fst (hash_only (audited sdk env (opts\<lparr>wo_auditLogger := auditor\<rparr>) signer meth action address source w))
      = fst (buildPrepareSignAndSend sdk env opts signer address meth w)" for signer meth action
    by (simp add: hash_only_def audited_def send Let_def split: prod.split sum.split)
  show ?thesis
    using assms unfolding createRpcDenylistWriter_def sel key by (auto simp: Let_def audited)
qed

text \<open>A concrete SDK: a transaction is its text, and sending counts the submissions.\<close>

definition text_sdk :: "(string, string, nat) stellar_sdk" where
  "text_sdk = \<lparr>sdk_getAccount = (\<lambda>k w. (Ret k, w)), sdk_buildCall = (\<lambda>acct net c m a. Ret (m @ '':'' @ a)),
     sdk_prepare = (\<lambda>tx w. (Ret tx, w)), sdk_fee = (\<lambda>_. 100), sdk_hash = (\<lambda>tx. tx),
     sdk_addSignature = (\<lambda>tx k s. tx @ '' by '' @ s), sdk_feeBump = (\<lambda>k tx net. Ret (''bump '' @ tx)),
     sdk_send = (\<lambda>tx w. (Ret tx, Suc w))\<rparr>"

definition text_env :: "nat writer_env" where
  "text_env = \<lparr>we_retry = \<lparr>re_random = (\<lambda>w. (0, w)), re_sleep = (\<lambda>_ w. (Ret (), w))\<rparr>, we_nowIso = (\<lambda>_. ''now'')\<rparr>"

definition text_options :: "nat writer_options" where
  "text_options = \<lparr>wo_networkPassphrase = ''net'', wo_contractId = ''C1'',
     wo_sourceKeypair = Some (KeypairKey \<lparr>kp_publicKey = ''G1'', kp_sign = (\<lambda>_. ''sig'')\<rparr>),
     wo_signer = None, wo_feeSource = None, wo_auditLogger = None, wo_maxRetries = None,
     wo_backoff = default_backoff, wo_logError = (\<lambda>_ _ _ w. w)\<rparr>"

theorem audit_cannot_fail_write_witness:
  "\<exists>writer writer' add. createRpcDenylistWriter text_sdk text_env text_options = Ret writer
    \<and> createRpcDenylistWriter text_sdk text_env
        (text_options\<lparr>wo_auditLogger := Some (\<lambda>_ w. (Throw (mk_error ''disk full''), w))\<rparr>) = Ret writer'
    \<and> dw_addWithSource writer' = Some add
    \<and> fst (add ''GA'' ''mock'' 0) = fst (dw_add writer ''GA'' 0)"
proof -
  have "\<exists>writer writer'. createRpcDenylistWriter text_sdk text_env text_options = Ret writer
    \<and> createRpcDenylistWriter text_sdk text_env
        (text_options\<lparr>wo_auditLogger := Some (\<lambda>_ w. (Throw (mk_error ''disk full''), w))\<rparr>) = Ret writer'"
    by (simp add: createRpcDenylistWriter_def text_options_def Let_def)
  then obtain writer writer' where w: "createRpcDenylistWriter text_sdk text_env text_options = Ret writer"
    "createRpcDenylistWriter text_sdk text_env
        (text_options\<lparr>wo_auditLogger := Some (\<lambda>_ w. (Throw (mk_error ''disk full''), w))\<rparr>) = Ret writer'" by blast
  obtain add where "dw_addWithSource writer' = Some add" "fst (add ''GA'' ''mock'' 0) = fst (dw_add writer ''GA'' 0)"
    using audit_cannot_fail_write [OF w, of "''GA''" "''mock''" 0] by blast
  with w show ?thesis by blast
qed

section \<open>The audit log\<close>

text \<open>
  Whatever the strings in an entry, its record in the log is one line: the only newline is the
  last character.
\<close>

theorem audit_line_is_one_line:
  "\<exists>body. audit_line entry = body @ [CHR 0x0A] \<and> CHR 0x0A \<notin> set body"
  by (intro exI conjI) (rule audit_line_def, auto split: option.split)

locale append_file =
  fixes ops :: "'f append_ops" and content :: "'f \<Rightarrow> string"
  assumes open_content: "content (snd (ao_open ops f)) = content f"
    and write_content: "content (snd (ao_write ops line f))
        = (case fst (ao_write ops line f) of Ret _ \<Rightarrow> content f @ line | Throw _ \<Rightarrow> content f)"
    and sync_content: "content (snd (ao_sync ops f)) = content f"
    and close_content: "content (snd (ao_close ops f)) = content f"
begin

lemma append_whole_line:
  "content (snd (jsonl_append ops fsync line f)) = content f @ line
   \<or> (content (snd (jsonl_append ops fsync line f)) = content f
      \<and> (\<exists>e. fst (jsonl_append ops fsync line f) = Throw e))"
proof -
  obtain r1 f1 where o: "ao_open ops f = (r1, f1)" by fastforce
  obtain r2 f2 where w: "ao_write ops line f1 = (r2, f2)" by fastforce
  obtain r3 f3 where s: "ao_sync ops f2 = (r3, f3)" by fastforce
  obtain r4 f4 where c2: "ao_close ops f2 = (r4, f4)" by fastforce
  obtain r5 f5 where c3: "ao_close ops f3 = (r5, f5)" by fastforce
  have "content f1 = content f" "content f2 = (case r2 of Ret _ \<Rightarrow> content f1 @ line | Throw _ \<Rightarrow> content f1)"
    "content f3 = content f2" "content f4 = content f2" "content f5 = content f3"
    using open_content [of f] write_content [of line f1] sync_content [of f2] close_content [of f2]
      close_content [of f3] by (simp_all add: o w s c2 c3)
  then show ?thesis
    by (cases r1; cases r2; cases r3; cases r4; cases r5; cases fsync)
      (simp_all add: jsonl_append_def o w s c2 c3)
qed

lemma run_lines:
  assumes "es' = jsonl_run ops fsync f es"
  shows "\<exists>ws. content (jl_file es') = content f @ concat ws
    \<and> (\<exists>settled. [audit_line e. LogEntry e \<leftarrow> es] = settled @ jl_queue es'
        \<and> map fst (jl_results es') = settled \<and> subseq ws settled)
    \<and> subseq (map fst (filter (\<lambda>(_, r). r = Ret ()) (jl_results es'))) ws"
  unfolding assms
proof (induction es rule: rev_induct)
  case Nil
  then show ?case by (intro exI [of _ "[]"]) (simp add: jsonl_run_def)
next
  case (snoc e es)
  let ?s = "jsonl_run ops fsync f es"
  obtain ws where ws: "content (jl_file ?s) = content f @ concat ws"
    "[audit_line e. LogEntry e \<leftarrow> es] = map fst (jl_results ?s) @ jl_queue ?s"
    "subseq ws (map fst (jl_results ?s))"
    "subseq (map fst (filter (\<lambda>(_, r). r = Ret ()) (jl_results ?s))) ws"
    using snoc by auto
  have step: "jsonl_run ops fsync f (es @ [e]) = jsonl_step ops fsync ?s e" by (simp add: jsonl_run_def)
  show ?case
  proof (cases e)
    case (LogEntry entry)
    with ws show ?thesis unfolding step unfolding LogEntry by (intro exI [of _ ws]) simp
  next
    case AppendNext
    show ?thesis
    proof (cases "jl_queue ?s")
      case Nil
      with ws show ?thesis unfolding step unfolding AppendNext by (intro exI [of _ ws]) simp
    next
      case (Cons line rest)
      obtain r f' where r: "jsonl_append ops fsync line (jl_file ?s) = (r, f')" by fastforce
      have new: "jsonl_run ops fsync f (es @ [e]) =
          ?s\<lparr>jl_queue := rest, jl_file := f', jl_results := jl_results ?s @ [(line, r)]\<rparr>"
        unfolding step unfolding AppendNext by (simp add: Cons r)
      from append_whole_line [of fsync line "jl_file ?s"] r
      consider "content f' = content (jl_file ?s) @ line" | err where "content f' = content (jl_file ?s)" "r = Throw err"
        by auto
      then show ?thesis
      proof cases
        case 1
        then show ?thesis
          using ws AppendNext Cons unfolding new
          by (intro exI [of _ "ws @ [line]"]) (auto intro: list_emb_append_mono)
      next
        case 2
        then show ?thesis
          using ws AppendNext Cons unfolding new
          by (intro exI [of _ ws]) (auto intro: list_emb_append2)
      qed
    qed
  qed
qed

end

text \<open>
  A log file on disk; \<open>lf_full\<close> says, write by write, whether the disk has no room for it.
\<close>

record log_file =
  lf_content :: string
  lf_full :: "bool list"

definition log_file_ops :: "log_file append_ops" where
  "log_file_ops = \<lparr>ao_open = (\<lambda>f. (Ret (), f)),
     ao_write = (\<lambda>line f. case lf_full f of
         True # rest \<Rightarrow> (Throw (mk_error ''ENOSPC''), f\<lparr>lf_full := rest\<rparr>)
       | _ \<Rightarrow> (Ret (), f\<lparr>lf_content := lf_content f @ line, lf_full := tl (lf_full f)\<rparr>)),
     ao_sync = (\<lambda>f. (Ret (), f)), ao_close = (\<lambda>f. (Ret (), f))\<rparr>"

interpretation log_files: append_file log_file_ops lf_content
  by unfold_locales (auto simp: log_file_ops_def split: list.split bool.split)

text \<open>
  However calls and completions interleave, the log grows by whole lines, in the order of the
  calls, and the line of every call that resolved is in it; a failed append does not block the
  lines behind it.
\<close>

theorem audit_log_appends_lines:
  assumes "append_file ops content"
  shows "\<exists>ws settled. content (jl_file (jsonl_run ops fsync f es)) = content f @ concat ws
    \<and> [audit_line e. LogEntry e \<leftarrow> es] = settled @ jl_queue (jsonl_run ops fsync f es)
    \<and> subseq ws settled
    \<and> subseq (map fst (filter (\<lambda>(_, r). r = Ret ()) (jl_results (jsonl_run ops fsync f es)))) ws"
  using append_file.run_lines [OF assms refl, of fsync f es] by blast

definition two_entries :: "jsonl_event list" where
  "two_entries = (let e = (\<lambda>a. \<lparr>ae_address = a, ae_action = None, ae_timestamp = ''t'', ae_source = ''s'', ae_txHash = ''h''\<rparr>)
     in [LogEntry (e ''GA''), LogEntry (e ''GB''), AppendNext, AppendNext])"

theorem audit_log_appends_lines_witness:
  "\<exists>ws settled. lf_content (jl_file (jsonl_run log_file_ops False \<lparr>lf_content = ''old'', lf_full = [True, False]\<rparr> two_entries))
      = ''old'' @ concat ws
    \<and> [audit_line e. LogEntry e \<leftarrow> two_entries]
      = settled @ jl_queue (jsonl_run log_file_ops False \<lparr>lf_content = ''old'', lf_full = [True, False]\<rparr> two_entries)
    \<and> subseq ws settled"
proof -
  note audit_log_appends_lines [OF log_files.append_file_axioms, of False "\<lparr>lf_content = ''old'', lf_full = [True, False]\<rparr>" two_entries]
  then show ?thesis unfolding log_file.select_convs by (elim exE conjE) (intro exI conjI)
qed

end
