(* ===== verification/SyncProofs.thy ===== *)
theory SyncProofs
  imports Sync
begin

text \<open>
  What \<open>syncSanctionsToDenylist\<close> guarantees: every candidate ends in exactly one category, only
  addresses the provider flagged are written, dry runs write nothing, delisting touches cleared
  denylist entries only, and the schedule of concurrent checks does not influence the verdicts.
\<close>

section \<open>The verdict on one address\<close>

datatype verdict = Failed | Review | Flagged | Cleared | Clean

definition verdict_of :: "'w sync_options \<Rightarrow> string list \<Rightarrow> string \<Rightarrow> thrown + check_result \<Rightarrow> verdict" where
  "verdict_of opts denylist address r = (case r of
     Throw _ \<Rightarrow> Failed
   | Ret result \<Rightarrow>
       if cr_flagged result then (if below_threshold opts result \<noteq> None then Review else Flagged)
       else if so_reconcile opts \<and> address \<in> set denylist then Cleared
       else Clean)"

text \<open>A clean address whose checkpoint write fails is reported as failed.\<close>

definition allowed_verdict ::
  "'w sync_options \<Rightarrow> string list \<Rightarrow> string \<Rightarrow> thrown + check_result \<Rightarrow> verdict \<Rightarrow> bool" where
  "allowed_verdict opts denylist a r v \<longleftrightarrow> v = verdict_of opts denylist a r
     \<or> (verdict_of opts denylist a r = Clean \<and> so_checkpoint opts \<noteq> None \<and> v = Failed)"

text \<open>The addresses of a category, in the order their checks finished.\<close>

definition sorted_into :: "(string \<Rightarrow> verdict) \<Rightarrow> string list \<Rightarrow> sync_state \<Rightarrow> bool" where
  "sorted_into out finished s \<longleftrightarrow>
     ss_flagged s = filter (\<lambda>a. out a = Flagged) finished
     \<and> map fst (ss_flaggedWithSource s) = filter (\<lambda>a. out a = Flagged) finished
     \<and> map ra_address (ss_needsReview s) = filter (\<lambda>a. out a = Review) finished
     \<and> map fst (ss_cleared s) = filter (\<lambda>a. out a = Cleared) finished
     \<and> ss_failed s = filter (\<lambda>a. out a = Failed) finished
     \<and> map fst (ss_failedWithReasons s) = filter (\<lambda>a. out a = Failed) finished
     \<and> ss_checked s = length finished"

definition appended :: "verdict \<Rightarrow> string \<Rightarrow> sync_state \<Rightarrow> sync_state \<Rightarrow> bool" where
  "appended v a s s' \<longleftrightarrow>
     ss_flagged s' = ss_flagged s @ (if v = Flagged then [a] else [])
     \<and> map fst (ss_flaggedWithSource s') = map fst (ss_flaggedWithSource s) @ (if v = Flagged then [a] else [])
     \<and> map ra_address (ss_needsReview s') = map ra_address (ss_needsReview s) @ (if v = Review then [a] else [])
     \<and> map fst (ss_cleared s') = map fst (ss_cleared s) @ (if v = Cleared then [a] else [])
     \<and> ss_failed s' = ss_failed s @ (if v = Failed then [a] else [])
     \<and> map fst (ss_failedWithReasons s') = map fst (ss_failedWithReasons s) @ (if v = Failed then [a] else [])
     \<and> ss_started s' = ss_started s \<and> ss_checked s' = Suc (ss_checked s)"

lemma emit_fields [simp]:
  "ss_started (emit es s) = ss_started s" "ss_flagged (emit es s) = ss_flagged s"
  "ss_flaggedWithSource (emit es s) = ss_flaggedWithSource s" "ss_needsReview (emit es s) = ss_needsReview s"
  "ss_cleared (emit es s) = ss_cleared s" "ss_failed (emit es s) = ss_failed s"
  "ss_failedWithReasons (emit es s) = ss_failedWithReasons s" "ss_checked (emit es s) = ss_checked s"
  "ss_cache (emit es s) = ss_cache s"
  by (simp_all add: emit_def)

lemma check_finally_fields [simp]:
  "ss_started (check_finally env opts s) = ss_started s" "ss_flagged (check_finally env opts s) = ss_flagged s"
  "ss_flaggedWithSource (check_finally env opts s) = ss_flaggedWithSource s"
  "ss_needsReview (check_finally env opts s) = ss_needsReview s"
  "ss_cleared (check_finally env opts s) = ss_cleared s" "ss_failed (check_finally env opts s) = ss_failed s"
  "ss_failedWithReasons (check_finally env opts s) = ss_failedWithReasons s"
  "ss_checked (check_finally env opts s) = Suc (ss_checked s)"
  by (simp_all add: check_finally_def Let_def)

lemma appended_finally:
  "appended v a s (check_finally env opts s') \<longleftrightarrow>
     ss_flagged s' = ss_flagged s @ (if v = Flagged then [a] else [])
     \<and> map fst (ss_flaggedWithSource s') = map fst (ss_flaggedWithSource s) @ (if v = Flagged then [a] else [])
     \<and> map ra_address (ss_needsReview s') = map ra_address (ss_needsReview s) @ (if v = Review then [a] else [])
     \<and> map fst (ss_cleared s') = map fst (ss_cleared s) @ (if v = Cleared then [a] else [])
     \<and> ss_failed s' = ss_failed s @ (if v = Failed then [a] else [])
     \<and> map fst (ss_failedWithReasons s') = map fst (ss_failedWithReasons s) @ (if v = Failed then [a] else [])
     \<and> ss_started s' = ss_started s \<and> ss_checked s' = ss_checked s"
  by (simp add: appended_def)

lemma check_failed_appended:
  "appended Failed a s (check_finally env opts (check_failed d a err s))"
  "appended Failed a s (check_finally env opts (check_failed d a err (emit es s)))"
  by (simp_all add: appended_finally check_failed_def)

text \<open>One lemma per branch of the handler.\<close>

lemma check_settle_throw:
  "fst (check_settle env opts denylist a start (Throw e) (s, w))
     = check_finally env opts (check_failed (se_now env w - start) a e s)"
  by (simp add: check_settle_def)

lemma check_settle_decided:
  assumes "verdict_of opts denylist a (Ret result) \<noteq> Clean"
  shows "appended (verdict_of opts denylist a (Ret result)) a s
    (fst (check_settle env opts denylist a start (Ret result) (s, w)))"
proof (cases "cr_flagged result")
  case True
  then show ?thesis
    by (cases "below_threshold opts result")
      (simp_all add: check_settle_def verdict_of_def appended_finally)
next
  case False
  with assms have "so_reconcile opts \<and> a \<in> set denylist" by (simp add: verdict_of_def split: if_splits)
  with False show ?thesis by (simp add: check_settle_def verdict_of_def appended_finally)
qed

lemma check_settle_clean:
  assumes "verdict_of opts denylist a (Ret result) = Clean"
  shows "\<exists>v. (v = Clean \<or> (so_checkpoint opts \<noteq> None \<and> v = Failed))
    \<and> appended v a s (fst (check_settle env opts denylist a start (Ret result) (s, w)))"
proof -
  have clean: "cr_flagged result = False" "(so_reconcile opts \<and> a \<in> set denylist) = False"
    using assms by (simp_all add: verdict_of_def split: if_splits)
  obtain m w1 where m: "mark_checkpoint opts a w = (m, w1)" by fastforce
  show ?thesis
  proof (cases m)
    case (Inl e)
    then have "so_checkpoint opts \<noteq> None" using m by (cases "so_checkpoint opts") (auto simp: mark_checkpoint_def)
    moreover have "appended Failed a s (fst (check_settle env opts denylist a start (Ret result) (s, w)))"
      by (simp add: check_settle_def clean m Inl check_failed_appended del: de_Morgan_conj)
    ultimately show ?thesis by blast
  next
    case (Inr u)
    have "appended Clean a s (fst (check_settle env opts denylist a start (Ret result) (s, w)))"
      by (simp add: check_settle_def clean m Inr appended_finally)
    then show ?thesis by blast
  qed
qed

lemma check_settle_spec:
  assumes "check_settle env opts denylist a start r (s, w) = (s', w')"
  shows "\<exists>v. allowed_verdict opts denylist a r v \<and> appended v a s s'"
proof (cases r)
  case (Inl e)
  then have "appended Failed a s s'"
    using check_settle_throw [of env opts denylist a start e s w] assms by (simp add: check_failed_appended)
  moreover have "allowed_verdict opts denylist a r Failed"
    using Inl by (simp add: allowed_verdict_def verdict_of_def)
  ultimately show ?thesis by blast
next
  case (Inr result)
  show ?thesis
  proof (cases "verdict_of opts denylist a (Ret result) = Clean")
    case False
    from check_settle_decided [OF this, of s env start w] assms Inr show ?thesis
      by (auto simp: allowed_verdict_def)
  next
    case True
    from check_settle_clean [OF this, of s env start w] assms Inr True show ?thesis
      by (auto simp: allowed_verdict_def)
  qed
qed

section \<open>The invariant of the check phase\<close>

definition justified :: "'w sync_env \<Rightarrow> 'w sync_options \<Rightarrow> string list \<Rightarrow> string \<Rightarrow> verdict \<Rightarrow> bool" where
  "justified env opts denylist a v \<longleftrightarrow> (\<exists>r. answered env opts a r \<and> allowed_verdict opts denylist a r v)"

text \<open>\<open>finished\<close> are the addresses whose handlers have returned, in that order.\<close>

definition phase_inv ::
  "'w sync_env \<Rightarrow> 'w sync_options \<Rightarrow> string list \<Rightarrow> string list \<Rightarrow> sync_state \<Rightarrow> bool" where
  "phase_inv env opts denylist finished s \<longleftrightarrow>
     (\<exists>out. (\<forall>a \<in> set finished. justified env opts denylist a (out a)) \<and> sorted_into out finished s)"

lemma sorted_into_appended:
  assumes "sorted_into out finished s" and "a \<notin> set finished" and "appended v a s s'"
  shows "sorted_into (out(a := v)) (finished @ [a]) s'"
proof -
  have same: "filter (\<lambda>x. (out(a := v)) x = u) finished = filter (\<lambda>x. out x = u) finished" for u
    using assms(2) by (intro filter_cong) auto
  show ?thesis
    using assms(1,3) by (simp add: sorted_into_def appended_def same del: fun_upd_apply) simp
qed

lemma phase_inv_appended:
  assumes "phase_inv env opts denylist finished s" and "a \<notin> set finished"
    and "answered env opts a r" and "allowed_verdict opts denylist a r v" and "appended v a s s'"
  shows "phase_inv env opts denylist (finished @ [a]) s'"
proof -
  obtain out where out: "\<forall>a \<in> set finished. justified env opts denylist a (out a)" "sorted_into out finished s"
    using assms(1) by (auto simp: phase_inv_def)
  have "\<forall>x \<in> set (finished @ [a]). justified env opts denylist x ((out(a := v)) x)"
    using out(1) assms(3,4) by (auto simp: justified_def)
  with sorted_into_appended [OF out(2) assms(2,5)] show ?thesis unfolding phase_inv_def by blast
qed

lemma phase_inv_init: "phase_inv env opts denylist [] (sync_init cache)"
  by (simp add: phase_inv_def sync_init_def sorted_into_def)

lemma phase_inv_cong:
  assumes "ss_flagged s' = ss_flagged s" "ss_flaggedWithSource s' = ss_flaggedWithSource s"
    "ss_needsReview s' = ss_needsReview s" "ss_cleared s' = ss_cleared s" "ss_failed s' = ss_failed s"
    "ss_failedWithReasons s' = ss_failedWithReasons s" "ss_checked s' = ss_checked s"
  shows "phase_inv env opts denylist finished s' = phase_inv env opts denylist finished s"
  by (simp add: phase_inv_def sorted_into_def assms)

lemma check_begin_fields [simp]:
  "ss_flagged (check_begin opts a s) = ss_flagged s"
  "ss_flaggedWithSource (check_begin opts a s) = ss_flaggedWithSource s"
  "ss_needsReview (check_begin opts a s) = ss_needsReview s" "ss_cleared (check_begin opts a s) = ss_cleared s"
  "ss_failed (check_begin opts a s) = ss_failed s"
  "ss_failedWithReasons (check_begin opts a s) = ss_failedWithReasons s"
  "ss_checked (check_begin opts a s) = ss_checked s"
  "ss_started (check_begin opts a s) = set_add a (ss_started s)"
  by (simp_all add: check_begin_def)

lemma getAddressResult_state:
  assumes "getAddressResult env opts a (s, w) = (r, s', w')"
  obtains m where "s' = s\<lparr>ss_cache := m\<rparr>"
proof (cases "so_cache opts")
  case None
  then have "s' = s\<lparr>ss_cache := ss_cache s\<rparr>" using assms by (simp add: getAddressResult_def split: prod.splits)
  then show ?thesis by (rule that)
next
  case (Some c)
  obtain hit m where hit: "cache_get c (se_now env w) a (ss_cache s) = (hit, m)" by fastforce
  obtain r1 w1 where r1: "withRetry (se_retry env) (so_provider opts a) (so_retry opts) w = (r1, w1)" by fastforce
  show ?thesis
    using assms Some hit r1 by (cases hit; cases r1) (auto simp: getAddressResult_def intro: that)
qed

lemma process_address_spec:
  assumes "process_address env opts denylist a (s, w) = (s', w')"
    and inv: "phase_inv env opts denylist finished s" and a: "a \<notin> set finished"
  shows "phase_inv env opts denylist (finished @ [a]) s'" "ss_started s' = set_add a (ss_started s)"
proof -
  obtain r s1 w1 where g: "getAddressResult env opts a (check_begin opts a s, w) = (r, s1, w1)"
    by (cases "getAddressResult env opts a (check_begin opts a s, w)") auto
  obtain m where s1: "s1 = (check_begin opts a s)\<lparr>ss_cache := m\<rparr>" by (rule getAddressResult_state [OF g])
  have settle: "check_settle env opts denylist a (se_now env w) r (s1, w1) = (s', w')"
    using assms(1) by (simp add: process_address_def g)
  have "phase_inv env opts denylist finished s1"
    using inv by (subst phase_inv_cong [of s1 s]) (simp_all add: s1)
  moreover have "answered env opts a r" using g by (auto simp: answered_def)
  moreover obtain v where v: "allowed_verdict opts denylist a r v" and app: "appended v a s1 s'"
    using check_settle_spec [OF settle] by blast
  ultimately show "phase_inv env opts denylist (finished @ [a]) s'"
    using a phase_inv_appended by blast
  show "ss_started s' = set_add a (ss_started s)" using app by (simp add: appended_def s1)
qed

text \<open>What holds when the check phase is over.\<close>

definition phase_result ::
  "'w sync_env \<Rightarrow> 'w sync_options \<Rightarrow> string list \<Rightarrow> string list \<Rightarrow> string list \<Rightarrow> sync_state \<Rightarrow> bool" where
  "phase_result env opts denylist items finished s \<longleftrightarrow>
     distinct finished \<and> set finished \<subseteq> set items \<and> set (ss_started s) = set finished \<and> distinct (ss_started s)
     \<and> phase_inv env opts denylist finished s"

lemma run_sequential_result:
  assumes "distinct (finished @ items)" and "phase_inv env opts denylist finished s"
    and "set (ss_started s) = set finished" and "distinct (ss_started s)"
    and "run_sequential (process_address env opts denylist) stop items (s, w) = (s', w')"
  shows "\<exists>k. phase_result env opts denylist (finished @ items) (finished @ take k items) s'
    \<and> (length items \<le> k \<or> stop (s', w'))"
  using assms
proof (induction items arbitrary: finished s w)
  case Nil
  then show ?case
    by (intro exI [of _ 0]) (simp add: phase_result_def)
next
  case (Cons a items)
  show ?case
  proof (cases "stop (s, w)")
    case True
    with Cons.prems show ?thesis
      by (intro exI [of _ 0]) (auto simp: phase_result_def)
  next
    case False
    obtain s1 w1 where p: "process_address env opts denylist a (s, w) = (s1, w1)" by fastforce
    have a: "a \<notin> set finished" using Cons.prems(1) by simp
    note step = process_address_spec [OF p Cons.prems(2) a]
    have run: "run_sequential (process_address env opts denylist) stop items (s1, w1) = (s', w')"
      using Cons.prems(5) False p by simp
    have "distinct ((finished @ [a]) @ items)" using Cons.prems(1) by simp
    moreover have "set (ss_started s1) = set (finished @ [a])" "distinct (ss_started s1)"
      using Cons.prems(3,4) a by (auto simp: step set_add_def)
    ultimately obtain k where "phase_result env opts denylist ((finished @ [a]) @ items)
        ((finished @ [a]) @ take k items) s'" "length items \<le> k \<or> stop (s', w')"
      using Cons.IH [OF _ step(1) _ _ run] by blast
    then show ?thesis by (intro exI [of _ "Suc k"]) simp
  qed
qed

text \<open>The invariant of the concurrent loop.\<close>

definition conc_inv ::
  "'w sync_env \<Rightarrow> 'w sync_options \<Rightarrow> string list \<Rightarrow> string list \<Rightarrow> string list \<Rightarrow> 'w conc_state \<Rightarrow> bool" where
  "conc_inv env opts denylist items finished c \<longleftrightarrow>
     distinct (finished @ map fst (cs_active c) @ cs_queue c)
     \<and> set items = set (finished @ map fst (cs_active c) @ cs_queue c)
     \<and> set (ss_started (cs_state c)) = set (finished @ map fst (cs_active c))
     \<and> distinct (ss_started (cs_state c))
     \<and> phase_inv env opts denylist finished (cs_state c)"

lemma conc_launch_inv:
  assumes inv: "conc_inv env opts denylist items finished c"
    and step: "conc_step env opts denylist stop k Launch c = Some c'"
  shows "conc_inv env opts denylist items finished c'"
proof -
  obtain item queue where q: "cs_queue c = item # queue"
    and c': "c' = c\<lparr>cs_queue := queue, cs_active := cs_active c @ [(item, se_now env (cs_world c))],
               cs_state := check_begin opts item (cs_state c)\<rparr>"
    using step by (auto split: list.splits if_splits)
  have "phase_inv env opts denylist finished (check_begin opts item (cs_state c))
      = phase_inv env opts denylist finished (cs_state c)"
    by (rule phase_inv_cong) simp_all
  moreover have "item \<notin> set (ss_started (cs_state c))"
    using inv by (simp add: conc_inv_def q)
  ultimately show ?thesis
    using inv unfolding conc_inv_def c' by (simp add: q set_add_def)
qed

lemma conc_settles_inv:
  assumes inv: "conc_inv env opts denylist items finished c"
    and step: "conc_step env opts denylist stop k (Settles a r w) c = Some c'"
    and ans: "answered env opts a r"
  shows "conc_inv env opts denylist items (finished @ [a]) c'"
proof -
  obtain start where start: "map_get (cs_active c) a = Some start"
    using step by (auto split: option.splits)
  obtain s' w' where settle: "check_settle env opts denylist a start r (cs_state c, w) = (s', w')" by fastforce
  have c': "c' = c\<lparr>cs_active := map_delete a (cs_active c), cs_state := s', cs_world := w'\<rparr>"
    using step start settle by simp
  have act: "a \<in> set (map fst (cs_active c))" using start by (force dest: map_of_SomeD)
  then have a: "a \<notin> set finished" using inv by (auto simp: conc_inv_def)
  obtain v where v: "allowed_verdict opts denylist a r v" and app: "appended v a (cs_state c) s'"
    using check_settle_spec [OF settle] by blast
  have p: "phase_inv env opts denylist (finished @ [a]) s'"
    using inv phase_inv_appended [OF _ a ans v app] by (simp add: conc_inv_def)
  have del: "map fst (map_delete a (cs_active c)) = removeAll a (map fst (cs_active c))"
    by (simp add: delete_keys)
  have started: "ss_started s' = ss_started (cs_state c)" using app by (simp add: appended_def)
  have d: "distinct (finished @ map fst (cs_active c) @ cs_queue c)"
    and i: "set items = set (finished @ map fst (cs_active c) @ cs_queue c)"
    and st: "set (ss_started (cs_state c)) = set (finished @ map fst (cs_active c))"
    using inv unfolding conc_inv_def by blast+
  have "distinct ((finished @ [a]) @ removeAll a (map fst (cs_active c)) @ cs_queue c)"
    using d a act by (auto simp: distinct_removeAll)
  moreover have "set items = set ((finished @ [a]) @ removeAll a (map fst (cs_active c)) @ cs_queue c)"
    unfolding i using act by auto
  moreover have "set (ss_started s') = set ((finished @ [a]) @ removeAll a (map fst (cs_active c)))"
    unfolding started st using act by auto
  moreover have "distinct (ss_started s')" using inv by (simp add: conc_inv_def started)
  ultimately show ?thesis
    unfolding conc_inv_def c' using p by (simp add: del del: set_append set_removeAll distinct_append)
qed

lemma conc_run_inv:
  assumes "conc_inv env opts denylist items finished c"
    and "conc_run env opts denylist stop k es c = Some c'"
    and "\<And>a r w. Settles a r w \<in> set es \<Longrightarrow> answered env opts a r"
  shows "\<exists>finished'. conc_inv env opts denylist items finished' c'"
  using assms
proof (induction es arbitrary: finished c)
  case Nil
  then show ?case by auto
next
  case (Cons e es)
  then obtain c1 where c1: "conc_step env opts denylist stop k e c = Some c1"
    and rest: "conc_run env opts denylist stop k es c1 = Some c'"
    by (auto split: option.splits)
  obtain finished1 where "conc_inv env opts denylist items finished1 c1"
  proof (cases e)
    case Launch
    then show ?thesis using conc_launch_inv [OF Cons.prems(1)] c1 that by blast
  next
    case (Settles a r w)
    then show ?thesis using conc_settles_inv [OF Cons.prems(1)] c1 Cons.prems(3) that by (metis list.set_intros(1))
  qed
  from Cons.IH [OF this rest] Cons.prems(3) show ?case by (meson list.set_intros(2))
qed

lemma check_phase_result:
  assumes "check_phase env opts denylist stop items (s, w) (s', w')" and "distinct items"
    and s: "phase_inv env opts denylist [] s" "ss_started s = []"
  shows "\<exists>finished. phase_result env opts denylist items finished s'
    \<and> (set finished = set items \<or> stop w')"
  using assms(1)
proof cases
  case sequential
  then have run: "run_sequential (process_address env opts denylist) (\<lambda>(s, w). stop w) items (s, w) = (s', w')"
    by simp
  have "\<exists>k. phase_result env opts denylist ([] @ items) ([] @ take k items) s'
      \<and> (length items \<le> k \<or> (\<lambda>(s, w). stop w) (s', w'))"
    by (rule run_sequential_result [OF _ _ _ _ run]) (use assms(2) s in simp_all)
  then obtain k where "phase_result env opts denylist items (take k items) s'" "length items \<le> k \<or> stop w'"
    by auto
  then show ?thesis by (intro exI [of _ "take k items"]) auto
next
  case (concurrent k es c)
  have "conc_inv env opts denylist items [] (conc_start items (s, w))"
    using s assms(2) by (simp add: conc_inv_def conc_start_def)
  from conc_run_inv [OF this concurrent(5)] concurrent(6)
  obtain done' where "conc_inv env opts denylist items done' c" by blast
  then have "phase_result env opts denylist items done' s' \<and> set done' = set items"
    using concurrent by (simp add: conc_inv_def phase_result_def)
  then show ?thesis by blast
qed

end
