(* ===== verification/SyncTheorems.thy ===== *)
theory SyncTheorems
  imports SyncProofs "HOL-Library.Sublist"
begin

text \<open>
  The guarantees of a whole run of \<open>syncSanctionsToDenylist\<close>, from the invariant of its check phase
  and the facts about its write and removal loops.
\<close>

lemma subseq_set: "subseq xs ys \<Longrightarrow> set xs \<subseteq> set ys"
  by (induction rule: list_emb.induct) auto

section \<open>Inputs\<close>

lemma distinct_candidates: "distinct (candidate_addresses env opts)"
  by (simp add: candidate_addresses_def valid_addresses_def distinct_foldl_set_add Let_def)

lemma candidates_valid:
  assumes "a \<in> set (candidate_addresses env opts)"
  shows "isValidStellarAddress (se_strkey env) a"
    and "a \<in> normalizeStellarAddress ` (set (so_addresses opts) \<union> set (so_currentDenylist opts))"
  using assms
  by (auto simp: candidate_addresses_def valid_addresses_def denylist_set_def set_foldl_set_add Let_def
      split: if_splits)

lemma split_complete_mset:
  "split_complete f as w = (Ret (skipped, pending), w') \<Longrightarrow> mset as = mset skipped + mset pending"
proof (induction as arbitrary: w skipped pending)
  case Nil
  then show ?case by simp
next
  case (Cons a as)
  obtain c w1 where c: "f a w = (Ret c, w1)"
    using Cons.prems by (auto split: prod.splits sum.splits)
  obtain sk pe w2 where r: "split_complete f as w1 = (Ret (sk, pe), w2)"
    using Cons.prems c by (auto split: prod.splits sum.splits)
  from Cons.prems c r have eq: "(skipped, pending) = (if c then (a # sk, pe) else (sk, a # pe))" "w2 = w'"
    by simp_all
  show ?case using Cons.IH [OF r [unfolded eq(2)]] eq(1) by (auto split: if_splits)
qed

lemma resume_split_mset:
  "resume_split opts valid w = (Ret (skipped, pending), w') \<Longrightarrow> mset valid = mset skipped + mset pending"
  by (auto simp: resume_split_def dest: split_complete_mset split: option.splits if_splits prod.splits sum.splits)

section \<open>The write and removal loops\<close>

lemma emit_emit [simp]: "emit es (emit es' s) = emit (es' @ es) s"
  by (simp add: emit_def)

lemma emit_Nil: "emit [] s = s"
  by (simp add: emit_def)

definition loop_outcome :: "string list \<Rightarrow> string list \<Rightarrow> sync_state \<Rightarrow> (thrown + string list) \<times> sync_state \<times> 'w \<Rightarrow> bool" where
  "loop_outcome todo written s out \<longleftrightarrow> (\<exists>es. fst (snd out) = emit es s)
     \<and> (case fst out of Throw _ \<Rightarrow> written = []
        | Ret written' \<Rightarrow> \<exists>xs. written' = written @ xs \<and> subseq xs todo)"

lemma loop_outcome_emit: "loop_outcome todo written (emit es s) out \<Longrightarrow> loop_outcome todo written s out"
  unfolding loop_outcome_def by auto

lemma loop_outcome_skip: "loop_outcome todo written s out \<Longrightarrow> loop_outcome (a # todo) written s out"
  unfolding loop_outcome_def by (auto split: sum.splits intro: list_emb_Cons)

lemma loop_outcome_take: "loop_outcome todo (written @ [a]) s out \<Longrightarrow> loop_outcome (a # todo) written s out"
  unfolding loop_outcome_def by (auto split: sum.splits)

lemma write_loop_outcome:
  "loop_outcome (pending_writes denylist fws) written s (write_loop env opts denylist fws written (s, w))"
proof (induction fws arbitrary: written s w)
  case Nil
  then show ?case by (auto simp: loop_outcome_def intro: exI [of _ "[]"] simp: emit_Nil)
next
  case (Cons x fws)
  obtain address source where x: "x = (address, source)" by fastforce
  show ?case
  proof (cases "address \<in> set denylist")
    case True
    then show ?thesis using Cons.IH by (simp add: x pending_writes_def)
  next
    case False
    obtain h w1 where h: "call_writer (so_writer opts) address source w = (h, w1)" by fastforce
    have pending: "pending_writes denylist (x # fws) = address # pending_writes denylist fws"
      using False by (simp add: pending_writes_def x)
    show ?thesis
    proof (cases h)
      case (Inr hash)
      obtain m w2 where m: "mark_checkpoint opts address w1 = (m, w2)" by fastforce
      show ?thesis
        unfolding pending
        by (rule loop_outcome_take, cases m)
          (use False h m Inr in \<open>simp_all add: x Let_def write_failed_def loop_outcome_emit [OF Cons.IH]\<close>)
    next
      case (Inl e)
      show ?thesis
      proof (cases "written = []")
        case True
        then show ?thesis using False h Inl by (auto simp: x Let_def write_failed_def loop_outcome_def)
      next
        case written: False
        show ?thesis
          unfolding pending
          by (rule loop_outcome_skip)
            (use False h Inl written in \<open>simp add: x Let_def write_failed_def loop_outcome_emit [OF Cons.IH]\<close>)
      qed
    qed
  qed
qed

definition removal_outcome ::
  "bool \<Rightarrow> string list \<Rightarrow> string list \<times> (string \<times> string) list \<Rightarrow> sync_state
     \<Rightarrow> (string list \<times> (string \<times> string) list) \<times> sync_state \<times> 'w \<Rightarrow> bool" where
  "removal_outcome dry todo acc s out \<longleftrightarrow> (\<exists>es. fst (snd out) = emit es s)
     \<and> (\<exists>rem fai. fst out = (fst acc @ rem, snd acc @ fai) \<and> subseq rem todo \<and> subseq (map fst fai) todo
         \<and> (if dry then rem = [] \<and> fai = [] else set todo = set rem \<union> set (map fst fai)))"

lemma removal_outcome_dry:
  "removal_outcome True todo acc (emit es s) out \<Longrightarrow> removal_outcome True (a # todo) acc s out"
  unfolding removal_outcome_def by auto

lemma removal_outcome_step:
  assumes "removal_outcome False todo (rem @ r, fai @ f) (emit es s) out"
    and "r = [] \<or> r = [a]" "map fst f = [] \<or> map fst f = [a]" "r \<noteq> [] \<or> f \<noteq> []"
  shows "removal_outcome False (a # todo) (rem, fai) s out"
proof -
  obtain es' rem' fai' where out: "fst (snd out) = emit es' (emit es s)"
    "fst out = ((rem @ r) @ rem', (fai @ f) @ fai')" "subseq rem' todo" "subseq (map fst fai') todo"
    "set todo = set rem' \<union> set (map fst fai')"
    using assms(1) by (auto simp: removal_outcome_def)
  have "subseq (r @ rem') (a # todo)" "subseq (map fst (f @ fai')) (a # todo)"
    "set (a # todo) = set (r @ rem') \<union> set (map fst (f @ fai'))"
    using out(3-5) assms(2-4) by auto
  moreover have "fst out = (rem @ (r @ rem'), fai @ (f @ fai'))" using out(2) by simp
  ultimately show ?thesis
    using out(1) unfolding removal_outcome_def fst_conv snd_conv if_False emit_emit by blast
qed

lemma remove_loop_outcome:
  "removal_outcome (so_dryRun opts) (map fst cleared) (removed, failedRemovals) s
     (remove_loop opts cleared (removed, failedRemovals) (s, w))"
proof (induction cleared arbitrary: removed failedRemovals s w)
  case Nil
  then show ?case by (auto simp: removal_outcome_def intro: exI [of _ "[]"] simp: emit_Nil)
next
  case (Cons x cleared)
  obtain address source where x: "x = (address, source)" by fastforce
  show ?case
  proof (cases "so_dryRun opts")
    case True
    from Cons.IH [unfolded iffD2 [OF eq_True True], THEN removal_outcome_dry] True show ?thesis by (simp add: x)
  next
    case False
    note step = Cons.IH [unfolded iffD2 [OF eq_False False], THEN removal_outcome_step]
    obtain h w1 where h: "call_remover (so_writer opts) address source w = (h, w1)" by fastforce
    obtain m w2 where m: "mark_checkpoint opts address w1 = (m, w2)" by fastforce
    show ?thesis
    proof (cases h)
      case (Inl err)
      from step [where rem = removed and r = "[]" and fai = failedRemovals and f = "[(address, thrown_message err)]" and a = address] False h Inl
      show ?thesis by (simp add: x Let_def)
    next
      case ok: (Inr hash)
      show ?thesis
      proof (cases m)
        case (Inr u)
        from step [where rem = removed and r = "[address]" and fai = failedRemovals and f = "[]" and a = address] False h m ok Inr
        show ?thesis by (simp add: x Let_def)
      next
        case (Inl err)
        from step [where rem = removed and r = "[address]" and fai = failedRemovals and f = "[(address, thrown_message err)]" and a = address] False h m ok Inl
        show ?thesis by (simp add: x Let_def)
      qed
    qed
  qed
qed

section \<open>A whole run\<close>

lemma write_phase_outcome:
  assumes "write_phase env opts denylist (s, w) = (Ret (written, fee), s', w')"
  shows "(\<exists>es. s' = emit es s) \<and> subseq written (pending_writes denylist (ss_flaggedWithSource s))
    \<and> (so_dryRun opts \<longrightarrow> written = [])"
proof (cases "so_dryRun opts")
  case True
  then show ?thesis
    using assms by (auto simp: write_phase_def Let_def split: option.splits prod.splits)
next
  case False
  obtain r s1 w1 where run: "write_loop env opts denylist (ss_flaggedWithSource s) [] (s, w) = (r, s1, w1)"
    by (cases "write_loop env opts denylist (ss_flaggedWithSource s) [] (s, w)") auto
  from write_loop_outcome [of denylist "ss_flaggedWithSource s" "[]" s env opts w] assms False run
  show ?thesis by (auto simp: write_phase_def loop_outcome_def split: sum.splits)
qed

definition removal_facts :: "'w sync_options \<Rightarrow> sync_state \<Rightarrow> sync_result \<Rightarrow> bool" where
  "removal_facts opts s r \<longleftrightarrow>
     (case (sr_removed r, sr_failedRemovals r) of
        (None, None) \<Rightarrow> \<not> so_reconcile opts
      | (Some removed, Some failedRemovals) \<Rightarrow> so_reconcile opts
          \<and> set removed \<union> set (map fst failedRemovals) \<subseteq> fst ` set (ss_cleared s)
          \<and> (if so_dryRun opts then removed = [] \<and> failedRemovals = []
             else set removed \<union> set (map fst failedRemovals) = fst ` set (ss_cleared s))
      | _ \<Rightarrow> False)"

lemma sync_finish_result:
  assumes "sync_finish env opts denylist invalid skipped pending (s, w) = (Ret r, s', w')"
  shows "sr_checked r = length (ss_started s)" "sr_flagged r = ss_flagged s" "sr_failed r = ss_failed s"
    "sr_failedWithReasons r = ss_failedWithReasons s" "sr_skipped r = skipped" "sr_invalid r = invalid"
    "sr_dryRun r = so_dryRun opts"
    "subseq (sr_written r) (pending_writes denylist (ss_flaggedWithSource s))"
    "so_dryRun opts \<Longrightarrow> sr_written r = []"
    "sr_plannedRemovals r = (if so_reconcile opts then Some (ss_cleared s) else None)"
    "sr_needsReview r = (if so_minScoreToBlock opts \<noteq> None then Some (ss_needsReview s) else None)"
    "removal_facts opts s r"
proof -
  let ?s0 = "report_checks pending s"
  obtain written fee s1 w1 where wr: "write_phase env opts denylist (?s0, w) = (Ret (written, fee), s1, w1)"
    and rest: "(case removal_phase opts (s1, w1) of
             ((removed, failedRemovals), (s, w)) \<Rightarrow>
               (Ret (sync_report opts invalid skipped s written fee removed failedRemovals), s, w)) = (Ret r, s', w')"
    using assms by (auto simp: sync_finish_def split: prod.splits sum.splits)
  obtain es0 where s0: "?s0 = emit es0 s" by (simp add: report_checks_def Let_def)
  obtain es1 where s1: "s1 = emit es1 s"
    and sub: "subseq written (pending_writes denylist (ss_flaggedWithSource s))"
    and dry: "so_dryRun opts \<Longrightarrow> written = []"
    using write_phase_outcome [OF wr] by (auto simp: s0)
  obtain removed failedRemovals s2 w2 where rm: "removal_phase opts (s1, w1) = ((removed, failedRemovals), s2, w2)"
    by (metis prod.exhaust)
  with rest have r: "r = sync_report opts invalid skipped s2 written fee removed failedRemovals" by auto
  have out: "(\<exists>es2. s2 = emit es2 s) \<and> (so_reconcile opts \<longrightarrow>
       removal_outcome (so_dryRun opts) (map fst (ss_cleared s)) ([], []) s1 ((removed, failedRemovals), s2, w2))"
  proof (cases "so_reconcile opts")
    case True
    then have "removal_outcome (so_dryRun opts) (map fst (ss_cleared s)) ([], []) s1 ((removed, failedRemovals), s2, w2)"
      using remove_loop_outcome [of opts "ss_cleared s" "[]" "[]" s1 w1] rm by (simp add: removal_phase_def s1)
    moreover from this have "\<exists>es2. s2 = emit es2 s"
      unfolding removal_outcome_def by (elim conjE exE) (auto simp: s1)
    ultimately show ?thesis by blast
  next
    case False
    with rm show ?thesis by (auto simp: removal_phase_def s1)
  qed
  then obtain es2 where s2: "s2 = emit es2 s" by blast
  show "sr_checked r = length (ss_started s)" "sr_flagged r = ss_flagged s" "sr_failed r = ss_failed s"
    "sr_failedWithReasons r = ss_failedWithReasons s" "sr_skipped r = skipped" "sr_invalid r = invalid"
    "sr_dryRun r = so_dryRun opts"
    "subseq (sr_written r) (pending_writes denylist (ss_flaggedWithSource s))"
    "so_dryRun opts \<Longrightarrow> sr_written r = []"
    "sr_plannedRemovals r = (if so_reconcile opts then Some (ss_cleared s) else None)"
    "sr_needsReview r = (if so_minScoreToBlock opts \<noteq> None then Some (ss_needsReview s) else None)"
    by (simp_all add: r sync_report_def s2 sub dry)
  show "removal_facts opts s r"
  proof (cases "so_reconcile opts")
    case True
    with out have "removal_outcome (so_dryRun opts) (map fst (ss_cleared s)) ([], []) s1 ((removed, failedRemovals), s2, w2)"
      by simp
    then have "if so_dryRun opts then removed = [] \<and> failedRemovals = []
        else fst ` set (ss_cleared s) = set removed \<union> fst ` set failedRemovals"
      unfolding removal_outcome_def by (elim conjE exE) (simp split: if_splits)
    then show ?thesis using True by (simp add: removal_facts_def r sync_report_def split: if_splits)
  next
    case False
    then show ?thesis by (simp add: removal_facts_def r sync_report_def)
  qed
qed


text \<open>Everything a run that returns a result says about its check phase.\<close>

definition run_facts ::
  "'w sync_env \<Rightarrow> 'w sync_options \<Rightarrow> sync_result \<Rightarrow> string list \<Rightarrow> string list \<Rightarrow> (string \<Rightarrow> verdict) \<Rightarrow> bool" where
  "run_facts env opts r pending finished out \<longleftrightarrow>
     mset (candidate_addresses env opts) = mset (sr_skipped r) + mset pending
     \<and> distinct finished \<and> set finished \<subseteq> set pending \<and> sr_checked r = length finished
     \<and> (\<forall>a \<in> set finished. justified env opts (denylist_set (so_currentDenylist opts)) a (out a))
     \<and> sr_flagged r = filter (\<lambda>a. out a = Flagged) finished
     \<and> sr_failed r = filter (\<lambda>a. out a = Failed) finished
     \<and> map fst (sr_failedWithReasons r) = sr_failed r
     \<and> (case sr_needsReview r of Some rs \<Rightarrow> map ra_address rs = filter (\<lambda>a. out a = Review) finished
        | None \<Rightarrow> so_minScoreToBlock opts = None)
     \<and> (case sr_plannedRemovals r of Some cs \<Rightarrow> map fst cs = filter (\<lambda>a. out a = Cleared) finished
        | None \<Rightarrow> \<not> so_reconcile opts)
     \<and> subseq (sr_written r) (filter (\<lambda>a. a \<notin> set (denylist_set (so_currentDenylist opts))) (sr_flagged r))
     \<and> (so_dryRun opts \<longrightarrow> sr_written r = [])"

lemma sync_body_facts:
  assumes "sync_body env opts cache maxDurationMs w (Ret r, s', w')"
  obtains pending finished out where "run_facts env opts r pending finished out"
    and "maxDurationMs = None \<Longrightarrow> set finished = set pending"
    and "\<exists>s. map fst (ss_cleared s) = filter (\<lambda>a. out a = Cleared) finished \<and> removal_facts opts s r"
    and "\<exists>w1. resume_split opts (candidate_addresses env opts) w = (Ret (sr_skipped r, pending), w1)"
  using assms
proof (cases rule: sync_body.cases)
  case (checked skipped pending s w1 denylist sw)
  obtain s2 w2 where sw: "sw = (s2, w2)" by fastforce
  have prep: "\<exists>w2. resume_split opts (candidate_addresses env opts) w = (Ret (skipped, pending), w2)"
    "\<exists>es. s = emit es (sync_init cache)"
    using checked(1)
    by (auto simp: sync_prepare_def Let_def split: if_splits prod.splits sum.splits)
  then obtain es w2' where split: "resume_split opts (candidate_addresses env opts) w = (Ret (skipped, pending), w2')"
    and s: "s = emit es (sync_init cache)" by blast
  note ms = resume_split_mset [OF split]
  have "distinct pending"
    using distinct_candidates [of env opts] ms
    by (metis distinct_append mset_append mset_eq_imp_distinct_iff)
  moreover have "phase_inv env opts denylist [] s"
    using phase_inv_init [of env opts denylist cache] by (subst phase_inv_cong [of s "sync_init cache"]) (simp_all add: s)
  moreover have "ss_started s = []" by (simp add: s sync_init_def)
  ultimately obtain finished where fin: "phase_result env opts denylist pending finished s2"
    "set finished = set pending \<or> past_deadline env (map_option (\<lambda>d. se_now env w + d) maxDurationMs) w2"
    using check_phase_result [OF checked(3) [unfolded sw]] by blast
  then obtain out where out: "\<forall>a \<in> set finished. justified env opts denylist a (out a)" "sorted_into out finished s2"
    by (auto simp: phase_result_def phase_inv_def)
  have finish: "sync_finish env opts denylist (invalid_entries (se_strkey env) (so_addresses opts)) skipped pending (s2, w2)
      = (Ret r, s', w')"
    using checked(4) by (simp add: sw)
  note res = sync_finish_result [OF finish]
  have "length (ss_started s2) = length finished"
    using fin(1) by (metis distinct_card phase_result_def)
  then have "run_facts env opts r pending finished out"
    using res(8) fin(1) out ms
    unfolding run_facts_def phase_result_def sorted_into_def pending_writes_def checked(2)
    by (simp add: res)
  moreover have "set finished = set pending" if "maxDurationMs = None"
    using fin(2) that by (simp add: past_deadline_def)
  moreover have "\<exists>s. map fst (ss_cleared s) = filter (\<lambda>a. out a = Cleared) finished \<and> removal_facts opts s r"
    using res(12) out(2) by (auto simp: sorted_into_def)
  moreover have "resume_split opts (candidate_addresses env opts) w = (Ret (sr_skipped r, pending), w2')"
    using split by (simp add: res)
  ultimately show ?thesis using that by blast
qed

lemma run_returns:
  assumes "syncSanctionsToDenylist globals env opts cache w (Ret r, w')"
  obtains d s where "globals ''maxDurationMs'' = Some d" "sync_body env opts cache d w (Ret r, s, w')"
  using assms by (cases rule: syncSanctionsToDenylist.cases) auto

lemma verdict_of_iff:
  "verdict_of opts denylist a r = Flagged \<longleftrightarrow>
     (\<exists>result. r = Ret result \<and> cr_flagged result \<and> below_threshold opts result = None)"
  "verdict_of opts denylist a r = Review \<longleftrightarrow>
     (\<exists>result. r = Ret result \<and> cr_flagged result \<and> below_threshold opts result \<noteq> None)"
  "verdict_of opts denylist a r = Cleared \<longleftrightarrow>
     (\<exists>result. r = Ret result \<and> \<not> cr_flagged result) \<and> so_reconcile opts \<and> a \<in> set denylist"
  "verdict_of opts denylist a r = Clean \<longleftrightarrow>
     (\<exists>result. r = Ret result \<and> \<not> cr_flagged result) \<and> \<not> (so_reconcile opts \<and> a \<in> set denylist)"
  "verdict_of opts denylist a r = Failed \<longleftrightarrow> (\<exists>e. r = Throw e)"
  by (cases r; simp add: verdict_of_def)+

lemma justified_iff:
  "justified env opts denylist a Flagged \<longleftrightarrow>
     (\<exists>result. answered env opts a (Ret result) \<and> cr_flagged result \<and> below_threshold opts result = None)"
  "justified env opts denylist a Review \<longleftrightarrow>
     (\<exists>result. answered env opts a (Ret result) \<and> cr_flagged result \<and> below_threshold opts result \<noteq> None)"
  "justified env opts denylist a Cleared \<longleftrightarrow>
     (\<exists>result. answered env opts a (Ret result) \<and> \<not> cr_flagged result) \<and> so_reconcile opts \<and> a \<in> set denylist"
  "justified env opts denylist a Clean \<longleftrightarrow>
     (\<exists>result. answered env opts a (Ret result) \<and> \<not> cr_flagged result) \<and> \<not> (so_reconcile opts \<and> a \<in> set denylist)"
  unfolding justified_def allowed_verdict_def eq_commute [of _ "verdict_of opts denylist a r" for r] verdict_of_iff
  by auto

lemma below_threshold_None: "so_minScoreToBlock opts = None \<Longrightarrow> below_threshold opts result = None"
  by (simp add: below_threshold_def)

section \<open>A concrete run\<close>

text \<open>
  The world counts the writes. \<open>GA\<close> and \<open>GD\<close> are flagged, checking \<open>GC\<close> fails, and every other
  address is clean.
\<close>

definition example_env :: "nat sync_env" where
  "example_env = \<lparr>se_now = (\<lambda>_. 0),
     se_retry = \<lparr>re_random = (\<lambda>w. (0, w)), re_sleep = (\<lambda>_ w. (Ret (), w))\<rparr>,
     se_strkey = (\<lambda>a. length a = 2)\<rparr>"

definition counting_writer :: "nat denylist_writer" where
  "counting_writer = \<lparr>dw_add = (\<lambda>a w. (Ret ''hash'', Suc w)), dw_addWithSource = None,
     dw_remove = Some (\<lambda>a w. (Ret ''hash'', Suc w)), dw_removeWithSource = None\<rparr>"

definition options_with ::
  "string list \<Rightarrow> nat denylist_writer \<Rightarrow> bool \<Rightarrow> nat option \<Rightarrow> string list \<Rightarrow> bool
     \<Rightarrow> nat sync_checkpoint option \<Rightarrow> nat sync_options" where
  "options_with addresses writer dryRun concurrency denylist reconcile checkpoint =
     \<lparr>so_provider = (\<lambda>a w. (if a = ''GC'' then Throw (mk_error ''timeout'')
        else Ret (unscored (a = ''GA'' \<or> a = ''GD'') ''mock''), w)),
      so_addresses = addresses, so_writer = writer, so_dryRun = dryRun,
      so_retry = default_retry\<lparr>ro_maxAttempts := Some 1\<rparr>, so_cache = None,
      so_progressInterval = 100, so_concurrency = concurrency, so_currentDenylist = denylist,
      so_checkpoint = checkpoint, so_resume = (checkpoint \<noteq> None), so_reconcile = reconcile,
      so_minScoreToBlock = None, so_feeEstimator = None\<rparr>"

definition example_options :: "nat sync_options" where
  "example_options = options_with ['' ga '', ''GB'', ''GA'', ''bad''] counting_writer False None [] False None"

definition example_result :: sync_result where
  "example_result = \<lparr>sr_checked = 2, sr_flagged = [''GA''], sr_written = [''GA''], sr_failed = [],
     sr_failedWithReasons = [], sr_invalid = [''bad''], sr_skipped = [], sr_dryRun = False,
     sr_removed = None, sr_plannedRemovals = None, sr_failedRemovals = None, sr_needsReview = None,
     sr_feeEstimate = None\<rparr>"

text \<open>A run is computed from the check phase, which either path determines.\<close>

definition run_from ::
  "'w sync_env \<Rightarrow> 'w sync_options \<Rightarrow> (string list \<Rightarrow> sync_state \<times> 'w \<Rightarrow> (sync_state \<times> 'w) option)
     \<Rightarrow> cache_map \<Rightarrow> 'w \<Rightarrow> ((thrown + sync_result) \<times> 'w) option" where
  "run_from env opts phase cache w =
     (case sync_prepare env opts (sync_init cache) w of
        (Throw e, (s, w)) \<Rightarrow> Some (Throw e, w)
      | (Ret (skipped, pending), sw) \<Rightarrow>
          (case phase pending sw of
             None \<Rightarrow> None
           | Some sw \<Rightarrow>
               (case sync_finish env opts (denylist_set (so_currentDenylist opts))
                  (invalid_entries (se_strkey env) (so_addresses opts)) skipped pending sw of
                (r, (s, w)) \<Rightarrow> Some (r, w))))"

definition sequential_phase ::
  "'w sync_env \<Rightarrow> 'w sync_options \<Rightarrow> string list \<Rightarrow> sync_state \<times> 'w \<Rightarrow> (sync_state \<times> 'w) option" where
  "sequential_phase env opts pending sw =
     (if sequential_path (so_concurrency opts) (length pending) then
        Some (run_sequential (process_address env opts (denylist_set (so_currentDenylist opts)))
          (\<lambda>_. False) pending sw)
      else None)"

definition scheduled_phase ::
  "'w sync_env \<Rightarrow> 'w sync_options \<Rightarrow> 'w conc_event list \<Rightarrow> string list \<Rightarrow> sync_state \<times> 'w \<Rightarrow> (sync_state \<times> 'w) option" where
  "scheduled_phase env opts es pending sw =
     (if sequential_path (so_concurrency opts) (length pending) then None
      else case so_concurrency opts of
        None \<Rightarrow> None
      | Some k \<Rightarrow>
          (case conc_run env opts (denylist_set (so_currentDenylist opts)) (\<lambda>_. False) k es (conc_start pending sw) of
             None \<Rightarrow> None
           | Some c \<Rightarrow> if cs_queue c = [] \<and> cs_active c = [] then Some (cs_state c, cs_world c) else None))"

lemma run_from_phase:
  assumes "run_from env opts phase cache w = Some (r, w')"
    and "\<And>pending sw sw'. phase pending sw = Some sw' \<Longrightarrow>
      check_phase env opts (denylist_set (so_currentDenylist opts)) (\<lambda>_. False) pending sw sw'"
  shows "syncSanctionsToDenylist (\<lambda>_. Some None) env opts cache w (r, w')"
proof (cases "sync_prepare env opts (sync_init cache) w")
  case (fields x s1 w1)
  show ?thesis
  proof (cases x)
    case (Inl e)
    then have "r = Throw e" "w' = w1" using assms(1) fields by (auto simp: run_from_def)
    with rejected [OF fields [unfolded Inl]] show ?thesis by (auto intro: bound)
  next
    case (Inr l)
    obtain skipped pending where l: "l = (skipped, pending)" by fastforce
    with assms(1) fields Inr obtain sw s where ph: "phase pending (s1, w1) = Some sw"
      and fin: "sync_finish env opts (denylist_set (so_currentDenylist opts))
        (invalid_entries (se_strkey env) (so_addresses opts)) skipped pending sw = (r, s, w')"
      by (auto simp: run_from_def split: option.splits prod.splits)
    have "past_deadline env (map_option (\<lambda>d. se_now env w + d) None) = (\<lambda>_. False)"
      by (simp add: past_deadline_def fun_eq_iff)
    with checked [OF fields [unfolded Inr l] refl _ sym [OF fin], of None] assms(2) [OF ph] show ?thesis
      by (auto intro: bound)
  qed
qed

lemma run_sequentially:
  assumes "run_from env opts (sequential_phase env opts) cache w = Some (r, w')"
  shows "syncSanctionsToDenylist (\<lambda>_. Some None) env opts cache w (r, w')"
  by (rule run_from_phase [OF assms])
    (auto simp: sequential_phase_def case_prod_unfold intro!: check_phase.sequential split: if_splits)

lemma run_scheduled:
  assumes "run_from env opts (scheduled_phase env opts es) cache w = Some (r, w')"
    and "\<And>a r w. Settles a r w \<in> set es \<Longrightarrow> answered env opts a r"
  shows "syncSanctionsToDenylist (\<lambda>_. Some None) env opts cache w (r, w')"
  by (rule run_from_phase [OF assms(1)])
    (auto simp: scheduled_phase_def intro!: check_phase.concurrent assms(2) split: if_splits option.splits)

lemma example_run:
  "syncSanctionsToDenylist (\<lambda>_. Some None) example_env example_options [] 0 (Ret example_result, Suc 0)"
  by (rule run_sequentially) code_simp

section \<open>Theorems\<close>

text \<open>
  C3. An address is written to the denylist only if it is a valid address of the input, was not on
  the denylist, and the provider flagged it with a score the threshold accepts.
\<close>

theorem sync_writes_only_flagged:
  assumes "syncSanctionsToDenylist globals env opts cache w (Ret r, w')" and "a \<in> set (sr_written r)"
  shows "a \<in> set (sr_flagged r) \<and> a \<in> set (candidate_addresses env opts)
    \<and> a \<notin> set (denylist_set (so_currentDenylist opts))
    \<and> (\<exists>result. answered env opts a (Ret result) \<and> cr_flagged result \<and> below_threshold opts result = None)"
proof -
  obtain d s where "sync_body env opts cache d w (Ret r, s, w')" using run_returns [OF assms(1)] by blast
  then obtain pending finished out where f: "run_facts env opts r pending finished out"
    by (rule sync_body_facts) blast
  have a: "a \<in> set (sr_flagged r)" "a \<notin> set (denylist_set (so_currentDenylist opts))"
    using f assms(2) subseq_set by (fastforce simp: run_facts_def)+
  moreover have "a \<in> set finished" "out a = Flagged" using a f by (auto simp: run_facts_def)
  moreover from this have "justified env opts (denylist_set (so_currentDenylist opts)) a Flagged"
    using f by (auto simp: run_facts_def)
  moreover have "a \<in> set (candidate_addresses env opts)"
    using f \<open>a \<in> set finished\<close> unfolding run_facts_def
    by (metis in_multiset_in_set subset_iff union_iff)
  ultimately show ?thesis by (simp add: justified_iff)
qed

theorem sync_writes_only_flagged_witness:
  "''GA'' \<in> set (sr_flagged example_result) \<and> ''GA'' \<in> set (candidate_addresses example_env example_options)
    \<and> ''GA'' \<notin> set (denylist_set (so_currentDenylist example_options))
    \<and> (\<exists>result. answered example_env example_options ''GA'' (Ret result) \<and> cr_flagged result
         \<and> below_threshold example_options result = None)"
  by (rule sync_writes_only_flagged [OF example_run]) code_simp

text \<open>The addresses a result names, as opposed to those that were checked and found clean.\<close>

definition named :: "sync_result \<Rightarrow> string list" where
  "named r = sr_skipped r @ sr_flagged r @ sr_failed r
     @ (case sr_needsReview r of None \<Rightarrow> [] | Some rs \<Rightarrow> map ra_address rs)
     @ (case sr_plannedRemovals r of None \<Rightarrow> [] | Some cs \<Rightarrow> map fst cs)"

lemma named_run:
  assumes f: "run_facts env opts r pending finished out"
  shows "named r = sr_skipped r @ filter (\<lambda>a. out a = Flagged) finished @ filter (\<lambda>a. out a = Failed) finished
      @ filter (\<lambda>a. out a = Review) finished @ filter (\<lambda>a. out a = Cleared) finished"
proof -
  let ?den = "denylist_set (so_currentDenylist opts)"
  note parts = f [unfolded run_facts_def]
  have just: "\<And>a. a \<in> set finished \<Longrightarrow> justified env opts ?den a (out a)" using parts by blast
  have review: "(case sr_needsReview r of None \<Rightarrow> [] | Some rs \<Rightarrow> map ra_address rs) = filter (\<lambda>a. out a = Review) finished"
  proof (cases "sr_needsReview r")
    case None
    then have "so_minScoreToBlock opts = None" using parts by simp
    then have "\<not> justified env opts ?den a Review" for a by (simp add: justified_iff below_threshold_None)
    then have "out a \<noteq> Review" if "a \<in> set finished" for a using just [OF that] by metis
    then have "filter (\<lambda>a. out a = Review) finished = []" by simp
    with None show ?thesis by simp
  qed (use parts in simp)
  have cleared: "(case sr_plannedRemovals r of None \<Rightarrow> [] | Some cs \<Rightarrow> map fst cs) = filter (\<lambda>a. out a = Cleared) finished"
  proof (cases "sr_plannedRemovals r")
    case None
    then have "\<not> so_reconcile opts" using parts by simp
    then have "\<not> justified env opts ?den a Cleared" for a by (simp add: justified_iff)
    then have "out a \<noteq> Cleared" if "a \<in> set finished" for a using just [OF that] by metis
    then have "filter (\<lambda>a. out a = Cleared) finished = []" by simp
    with None show ?thesis by simp
  qed (use parts in simp)
  show "named r = sr_skipped r @ filter (\<lambda>a. out a = Flagged) finished @ filter (\<lambda>a. out a = Failed) finished
      @ filter (\<lambda>a. out a = Review) finished @ filter (\<lambda>a. out a = Cleared) finished"
    using parts by (simp add: named_def review cleared)
qed

text \<open>
  C4. Without a deadline no candidate is lost: each is named in exactly one list of the result
  (skipped, flagged, failed, needs review, planned removal), or the provider said it is clean.
\<close>

theorem sync_accounts_for_all:
  assumes "syncSanctionsToDenylist globals env opts cache w (Ret r, w')" and "globals ''maxDurationMs'' = Some None"
  shows "distinct (named r) \<and> set (named r) \<subseteq> set (candidate_addresses env opts)
    \<and> (\<forall>a \<in> set (candidate_addresses env opts) - set (named r).
         \<exists>result. answered env opts a (Ret result) \<and> \<not> cr_flagged result)
    \<and> sr_checked r + length (sr_skipped r) = length (candidate_addresses env opts)"
proof -
  obtain d s where body: "sync_body env opts cache d w (Ret r, s, w')" and d: "d = None"
    using run_returns [OF assms(1)] assms(2) by (metis option.inject)
  obtain pending finished out where f: "run_facts env opts r pending finished out"
    and all: "set finished = set pending"
    using sync_body_facts [OF body] d by metis
  let ?den = "denylist_set (so_currentDenylist opts)"
  let ?cands = "candidate_addresses env opts"
  note parts = f [unfolded run_facts_def]
  have ms: "mset ?cands = mset (sr_skipped r @ pending)" using parts by simp
  have dist: "distinct (sr_skipped r @ pending)"
    using distinct_candidates [of env opts] by (metis ms mset_eq_imp_distinct_iff)
  have sets: "set ?cands = set (sr_skipped r) \<union> set finished"
    using mset_eq_setD [OF ms] all by simp
  have just: "\<And>a. a \<in> set finished \<Longrightarrow> justified env opts ?den a (out a)" using parts by blast
  have named: "named r = sr_skipped r @ filter (\<lambda>a. out a = Flagged) finished @ filter (\<lambda>a. out a = Failed) finished
      @ filter (\<lambda>a. out a = Review) finished @ filter (\<lambda>a. out a = Cleared) finished"
    by (rule named_run [OF f])
  have "distinct (named r)" using dist all parts unfolding named by auto
  moreover have "set (named r) \<subseteq> set ?cands" unfolding named sets by auto
  moreover have "\<exists>result. answered env opts a (Ret result) \<and> \<not> cr_flagged result"
    if "a \<in> set ?cands - set (named r)" for a
  proof -
    have "a \<in> set finished" "out a = Clean"
      using that unfolding named sets by (auto intro: verdict.exhaust [of "out a"])
    with just show ?thesis by (metis justified_iff(4))
  qed
  moreover have "sr_checked r + length (sr_skipped r) = length ?cands"
  proof -
    have "length finished = length pending"
      using dist parts all by (metis distinct_append distinct_card)
    then show ?thesis using parts mset_eq_length [OF ms] by simp
  qed
  ultimately show ?thesis by blast
qed

theorem sync_accounts_for_all_witness:
  "distinct (named example_result) \<and> set (named example_result) \<subseteq> set (candidate_addresses example_env example_options)
    \<and> ''GB'' \<notin> set (named example_result)
    \<and> sr_checked example_result + length (sr_skipped example_result) = length (candidate_addresses example_env example_options)"
proof -
  have "''GB'' \<notin> set (named example_result)" by code_simp
  with sync_accounts_for_all [OF example_run] show ?thesis by simp
qed

text \<open>
  C5. A removal is recorded only in a reconciling run, and only for an address that was on the
  denylist and that the provider now reports as not flagged; outside a dry run every planned
  removal ends as removed or as a failed removal, and in a dry run none is attempted.
\<close>

theorem sync_removes_only_cleared:
  assumes "syncSanctionsToDenylist globals env opts cache w (Ret r, w')" and "sr_removed r = Some removed"
  shows "\<exists>planned failedRemovals. sr_plannedRemovals r = Some planned \<and> sr_failedRemovals r = Some failedRemovals
    \<and> so_reconcile opts
    \<and> (if so_dryRun opts then removed = [] \<and> failedRemovals = []
       else set removed \<union> fst ` set failedRemovals = fst ` set planned)
    \<and> (\<forall>a \<in> set removed. a \<in> set (denylist_set (so_currentDenylist opts)) \<and> a \<notin> set (sr_failed r)
         \<and> (\<exists>result. answered env opts a (Ret result) \<and> \<not> cr_flagged result))"
proof -
  obtain d s where body: "sync_body env opts cache d w (Ret r, s, w')" using run_returns [OF assms(1)] by blast
  obtain pending finished out s1 where f: "run_facts env opts r pending finished out"
    and s1: "map fst (ss_cleared s1) = filter (\<lambda>a. out a = Cleared) finished" "removal_facts opts s1 r"
    using sync_body_facts [OF body] by metis
  note parts = f [unfolded run_facts_def]
  obtain failedRemovals where rm: "sr_failedRemovals r = Some failedRemovals" "so_reconcile opts"
      "set removed \<union> set (map fst failedRemovals) \<subseteq> fst ` set (ss_cleared s1)"
      "if so_dryRun opts then removed = [] \<and> failedRemovals = []
         else set removed \<union> set (map fst failedRemovals) = fst ` set (ss_cleared s1)"
    using s1(2) assms(2) by (auto simp: removal_facts_def split: option.splits)
  obtain planned where planned: "sr_plannedRemovals r = Some planned" "map fst planned = filter (\<lambda>a. out a = Cleared) finished"
    using parts rm(2) by (auto split: option.splits)
  have cl: "fst ` set (ss_cleared s1) = fst ` set planned"
    using s1(1) planned(2) by (metis set_map)
  have "a \<in> set (denylist_set (so_currentDenylist opts)) \<and> a \<notin> set (sr_failed r)
         \<and> (\<exists>result. answered env opts a (Ret result) \<and> \<not> cr_flagged result)" if "a \<in> set removed" for a
  proof -
    have "a \<in> fst ` set planned" using that rm(3) cl by blast
    then have "a \<in> set finished" "out a = Cleared" using planned(2) by (auto simp flip: set_map)
    moreover from this have "justified env opts (denylist_set (so_currentDenylist opts)) a Cleared"
      using parts by metis
    moreover have "a \<notin> set (sr_failed r)" using parts \<open>out a = Cleared\<close> by simp
    ultimately show ?thesis by (simp add: justified_iff)
  qed
  then show ?thesis using rm planned(1) cl by (intro exI [of _ planned] exI [of _ failedRemovals]) (auto split: if_splits)
qed

definition reconcile_options :: "nat sync_options" where
  "reconcile_options = options_with [] counting_writer False None [''GB'', ''GC''] True None"

definition reconcile_result :: sync_result where
  "reconcile_result = \<lparr>sr_checked = 2, sr_flagged = [], sr_written = [], sr_failed = [''GC''],
     sr_failedWithReasons = [(''GC'', ''timeout'')], sr_invalid = [], sr_skipped = [], sr_dryRun = False,
     sr_removed = Some [''GB''], sr_plannedRemovals = Some [(''GB'', ''mock'')], sr_failedRemovals = Some [],
     sr_needsReview = None, sr_feeEstimate = None\<rparr>"

lemma reconcile_run:
  "syncSanctionsToDenylist (\<lambda>_. Some None) example_env reconcile_options [] 0 (Ret reconcile_result, Suc 0)"
  by (rule run_sequentially) code_simp

theorem sync_removes_only_cleared_witness:
  "sr_removed reconcile_result = Some [''GB'']
    \<and> (\<exists>planned failedRemovals. sr_plannedRemovals reconcile_result = Some planned
        \<and> sr_failedRemovals reconcile_result = Some failedRemovals \<and> so_reconcile reconcile_options)"
proof -
  have "sr_removed reconcile_result = Some [''GB'']" by (simp add: reconcile_result_def)
  with sync_removes_only_cleared [OF reconcile_run this] show ?thesis by blast
qed

end
