(* ===== verification/SyncSchedules.thy ===== *)
theory SyncSchedules
  imports SyncTheorems
begin

text \<open>
  Dry runs, resumption, schedules and the ways a run of \<open>syncSanctionsToDenylist\<close> goes wrong.
\<close>

section \<open>The function as it stands\<close>

lemma sync_unbound:
  "syncSanctionsToDenylist (\<lambda>_. None) env opts cache w (r, w') \<longleftrightarrow>
     r = Throw (reference_error ''maxDurationMs'') \<and> w' = w"
  by (auto elim: syncSanctionsToDenylist.cases intro: unbound)


section \<open>Dry runs\<close>

lemma options_writer:
  "so_provider (opts\<lparr>so_writer := x\<rparr>) = so_provider opts" "so_addresses (opts\<lparr>so_writer := x\<rparr>) = so_addresses opts"
  "so_dryRun (opts\<lparr>so_writer := x\<rparr>) = so_dryRun opts" "so_retry (opts\<lparr>so_writer := x\<rparr>) = so_retry opts"
  "so_cache (opts\<lparr>so_writer := x\<rparr>) = so_cache opts" "so_checkpoint (opts\<lparr>so_writer := x\<rparr>) = so_checkpoint opts"
  "so_progressInterval (opts\<lparr>so_writer := x\<rparr>) = so_progressInterval opts"
  "so_currentDenylist (opts\<lparr>so_writer := x\<rparr>) = so_currentDenylist opts"
  "so_resume (opts\<lparr>so_writer := x\<rparr>) = so_resume opts" "so_reconcile (opts\<lparr>so_writer := x\<rparr>) = so_reconcile opts"
  "so_minScoreToBlock (opts\<lparr>so_writer := x\<rparr>) = so_minScoreToBlock opts"
  by simp_all

lemma checks_writer:
  "getAddressResult env (opts\<lparr>so_writer := x\<rparr>) = getAddressResult env opts"
  "check_begin (opts\<lparr>so_writer := x\<rparr>) = check_begin opts"
  "check_finally env (opts\<lparr>so_writer := x\<rparr>) = check_finally env opts"
  "mark_checkpoint (opts\<lparr>so_writer := x\<rparr>) = mark_checkpoint opts"
  "below_threshold (opts\<lparr>so_writer := x\<rparr>) = below_threshold opts"
  "candidate_addresses env (opts\<lparr>so_writer := x\<rparr>) = candidate_addresses env opts"
  "resume_split (opts\<lparr>so_writer := x\<rparr>) = resume_split opts"
  "sync_report (opts\<lparr>so_writer := x\<rparr>) = sync_report opts"
  unfolding getAddressResult_def check_begin_def check_finally_def mark_checkpoint_def below_threshold_def
    candidate_addresses_def resume_split_def sync_report_def fun_eq_iff options_writer
  by (rule refl allI)+

lemma handlers_writer:
  "check_settle env (opts\<lparr>so_writer := x\<rparr>) = check_settle env opts"
  "process_address env (opts\<lparr>so_writer := x\<rparr>) = process_address env opts"
  "answered env (opts\<lparr>so_writer := x\<rparr>) = answered env opts"
  unfolding check_settle_def process_address_def answered_def fun_eq_iff options_writer checks_writer
  by (rule refl allI)+

lemmas so_writer_update_simps = checks_writer handlers_writer

lemma conc_step_writer: "conc_step env (opts\<lparr>so_writer := x\<rparr>) den stop k e c = conc_step env opts den stop k e c"
  by (cases e) (simp_all only: conc_step.simps so_writer_update_simps)

lemma conc_run_writer: "conc_run env (opts\<lparr>so_writer := x\<rparr>) den stop k es c = conc_run env opts den stop k es c"
  by (induction es arbitrary: c) (simp_all add: conc_step_writer split: option.split)

lemma check_phase_writer:
  "check_phase env opts den stop items sw sw' \<Longrightarrow> check_phase env (opts\<lparr>so_writer := x\<rparr>) den stop items sw sw'"
proof (induction rule: check_phase.induct)
  case (sequential items sw' sw)
  then show ?case by (intro check_phase.sequential) (simp_all add: so_writer_update_simps)
next
  case (concurrent items k es sw c)
  then show ?case by (intro check_phase.concurrent [where k = k and es = es]) (simp_all add: so_writer_update_simps conc_run_writer)
qed

lemma remove_loop_writer:
  "so_dryRun opts \<Longrightarrow> remove_loop (opts\<lparr>so_writer := x\<rparr>) cs acc sw = remove_loop opts cs acc sw"
proof (induction cs arbitrary: acc sw)
  case (Cons c cs)
  then show ?case by (cases c; cases acc; cases sw) simp
qed simp

lemma sync_finish_writer:
  assumes "so_dryRun opts"
  shows "sync_finish env (opts\<lparr>so_writer := x\<rparr>) den invl sk pe sw = sync_finish env opts den invl sk pe sw"
proof -
  have "write_phase env (opts\<lparr>so_writer := x\<rparr>) den sw = write_phase env opts den sw" for sw
    using assms by (simp add: write_phase_def)
  moreover have "removal_phase (opts\<lparr>so_writer := x\<rparr>) sw = removal_phase opts sw" for sw
    using assms by (simp add: removal_phase_def remove_loop_writer)
  ultimately show ?thesis unfolding sync_finish_def so_writer_update_simps by (simp only:)
qed

lemma sync_body_writer:
  assumes dry: "so_dryRun opts" and "sync_body env opts cache d w out"
  shows "sync_body env (opts\<lparr>so_writer := x\<rparr>) cache d w out"
proof -
  have prep: "sync_prepare env (opts\<lparr>so_writer := x\<rparr>) s w = sync_prepare env opts s w" for s w
    using dry by (simp add: sync_prepare_def so_writer_update_simps)
  from assms(2) show ?thesis
  proof cases
    case (rejected e s w1)
    then show ?thesis by (auto intro: sync_body.rejected simp: prep)
  next
    case (checked skipped pending s w1 denylist sw)
    show ?thesis
      by (rule sync_body.checked [where skipped = skipped and pending = pending and s = s and ?w1.0 = w1
              and denylist = denylist and sw = sw])
        (use checked dry in \<open>simp_all add: prep check_phase_writer sync_finish_writer\<close>)
  qed
qed

text \<open>
  A dry run cannot touch the denylist: the outcome, the state of the world included, is the same
  whatever the writer does, and nothing is reported as written.
\<close>

theorem dry_run_ignores_writer:
  assumes "so_dryRun opts"
  shows "syncSanctionsToDenylist globals env (opts\<lparr>so_writer := x\<rparr>) cache w (r, w')
      = syncSanctionsToDenylist globals env (opts\<lparr>so_writer := y\<rparr>) cache w (r, w')
    \<and> (syncSanctionsToDenylist globals env opts cache w (Ret res, w') \<longrightarrow> sr_written res = [])"
proof (intro conjI impI)
  have "sync_body env (opts\<lparr>so_writer := y\<rparr>) cache d w out"
    if "sync_body env (opts\<lparr>so_writer := x\<rparr>) cache d w out" for x y d out
    using sync_body_writer [OF _ that, of y] assms by simp
  then show "syncSanctionsToDenylist globals env (opts\<lparr>so_writer := x\<rparr>) cache w (r, w')
      = syncSanctionsToDenylist globals env (opts\<lparr>so_writer := y\<rparr>) cache w (r, w')"
    unfolding syncSanctionsToDenylist.simps by blast
  assume "syncSanctionsToDenylist globals env opts cache w (Ret res, w')"
  then obtain d s where "sync_body env opts cache d w (Ret res, s, w')" by (rule run_returns)
  then show "sr_written res = []"
    by (rule sync_body_facts) (use assms in \<open>auto simp: run_facts_def\<close>)
qed

definition failing_writer :: "nat denylist_writer" where
  "failing_writer = \<lparr>dw_add = (\<lambda>a w. (Throw (mk_error ''down''), w)), dw_addWithSource = None,
     dw_remove = None, dw_removeWithSource = None\<rparr>"

definition dry_options :: "nat denylist_writer \<Rightarrow> nat sync_options" where
  "dry_options writer = options_with [''GA''] writer True None [] False None"

definition dry_result :: sync_result where
  "dry_result = \<lparr>sr_checked = 1, sr_flagged = [''GA''], sr_written = [], sr_failed = [],
     sr_failedWithReasons = [], sr_invalid = [], sr_skipped = [], sr_dryRun = True,
     sr_removed = None, sr_plannedRemovals = None, sr_failedRemovals = None, sr_needsReview = None,
     sr_feeEstimate = None\<rparr>"

lemma dry_run: "syncSanctionsToDenylist (\<lambda>_. Some None) example_env (dry_options counting_writer) [] 0
    (Ret dry_result, 0)"
  by (rule run_sequentially) code_simp

lemma dry_options_writer: "dry_options y = (dry_options x)\<lparr>so_writer := y\<rparr>"
  by (simp add: dry_options_def options_with_def)

theorem dry_run_ignores_writer_witness:
  "syncSanctionsToDenylist (\<lambda>_. Some None) example_env (dry_options failing_writer) [] 0
     (Ret dry_result, 0)"
proof -
  have dry: "so_dryRun (dry_options counting_writer)" by (simp add: dry_options_def options_with_def)
  have "syncSanctionsToDenylist (\<lambda>_. Some None) example_env
      ((dry_options counting_writer)\<lparr>so_writer := counting_writer\<rparr>) [] 0
      (Ret dry_result, 0)"
    using dry_run by (simp flip: dry_options_writer)
  from iffD1 [OF conjunct1 [OF dry_run_ignores_writer [OF dry]] this] show ?thesis
    by (simp flip: dry_options_writer)
qed


section \<open>Resumption\<close>

lemma split_complete_loaded:
  "split_complete (\<lambda>a w. (Ret (a \<in> set loaded), w)) valid w
     = (Ret (filter (\<lambda>a. a \<in> set loaded) valid, filter (\<lambda>a. a \<notin> set loaded) valid), w)"
  by (induction valid arbitrary: w) auto

text \<open>
  A resumed run skips exactly the candidates the checkpoint holds: they are neither checked
  again nor written, and every other candidate is left to check.
\<close>

theorem resume_skips_completed:
  assumes "syncSanctionsToDenylist globals env opts cache w (Ret r, w')"
    and "so_resume opts" and "so_checkpoint opts = Some cp" and "sc_load cp = Some ld"
    and "ld w = (Ret loaded, w1)"
  shows "set (sr_skipped r) = set (candidate_addresses env opts) \<inter> set loaded
    \<and> set loaded \<inter> (set (sr_flagged r) \<union> set (sr_failed r) \<union> set (sr_written r)) = {}"
proof -
  obtain d s where "sync_body env opts cache d w (Ret r, s, w')" using run_returns [OF assms(1)] by blast
  then obtain pending finished out w1' where f: "run_facts env opts r pending finished out"
    and sp: "resume_split opts (candidate_addresses env opts) w = (Ret (sr_skipped r, pending), w1')"
    by (rule sync_body_facts) blast
  have "sr_skipped r = filter (\<lambda>a. a \<in> set loaded) (candidate_addresses env opts)"
    and pending: "pending = filter (\<lambda>a. a \<notin> set loaded) (candidate_addresses env opts)"
    using sp assms by (auto simp: resume_split_def split_complete_loaded)
  moreover have "set (sr_written r) \<subseteq> set (sr_flagged r)"
    using f subseq_set by (fastforce simp: run_facts_def)
  moreover have "set (sr_flagged r) \<union> set (sr_failed r) \<subseteq> set pending"
    using f by (auto simp: run_facts_def)
  ultimately show ?thesis by auto
qed

definition resume_checkpoint :: "nat sync_checkpoint" where
  "resume_checkpoint = \<lparr>sc_load = Some (\<lambda>w. (Ret [''GA''], w)), sc_isComplete = (\<lambda>a w. (Ret False, w)),
     sc_markComplete = (\<lambda>a w. (Ret (), w))\<rparr>"

definition resume_options :: "nat sync_options" where
  "resume_options = options_with [''GA'', ''GD''] counting_writer False None [] False (Some resume_checkpoint)"

definition resume_result :: sync_result where
  "resume_result = \<lparr>sr_checked = 1, sr_flagged = [''GD''], sr_written = [''GD''], sr_failed = [],
     sr_failedWithReasons = [], sr_invalid = [], sr_skipped = [''GA''], sr_dryRun = False,
     sr_removed = None, sr_plannedRemovals = None, sr_failedRemovals = None, sr_needsReview = None,
     sr_feeEstimate = None\<rparr>"

lemma resume_run:
  "syncSanctionsToDenylist (\<lambda>_. Some None) example_env resume_options [] 0 (Ret resume_result, Suc 0)"
  by (rule run_sequentially) code_simp

theorem resume_skips_completed_witness:
  "set (sr_skipped resume_result) = set (candidate_addresses example_env resume_options) \<inter> {''GA''}
    \<and> {''GA''} \<inter> (set (sr_flagged resume_result) \<union> set (sr_failed resume_result) \<union> set (sr_written resume_result)) = {}"
  using resume_skips_completed [OF resume_run, of resume_checkpoint "\<lambda>w. (Ret [''GA''], w)" "[''GA'']" 0]
  by (simp add: resume_options_def resume_checkpoint_def options_with_def)

section \<open>Schedules\<close>

lemma options_concurrency:
  "so_provider (opts\<lparr>so_concurrency := k\<rparr>) = so_provider opts" "so_addresses (opts\<lparr>so_concurrency := k\<rparr>) = so_addresses opts"
  "so_retry (opts\<lparr>so_concurrency := k\<rparr>) = so_retry opts" "so_cache (opts\<lparr>so_concurrency := k\<rparr>) = so_cache opts"
  "so_currentDenylist (opts\<lparr>so_concurrency := k\<rparr>) = so_currentDenylist opts"
  "so_reconcile (opts\<lparr>so_concurrency := k\<rparr>) = so_reconcile opts"
  "so_checkpoint (opts\<lparr>so_concurrency := k\<rparr>) = so_checkpoint opts"
  "so_minScoreToBlock (opts\<lparr>so_concurrency := k\<rparr>) = so_minScoreToBlock opts"
  by simp_all

lemma concurrency_update:
  "candidate_addresses env (opts\<lparr>so_concurrency := k\<rparr>) = candidate_addresses env opts"
  "answered env (opts\<lparr>so_concurrency := k\<rparr>) = answered env opts"
  "justified env (opts\<lparr>so_concurrency := k\<rparr>) = justified env opts"
  unfolding justified_def allowed_verdict_def verdict_of_def below_threshold_def candidate_addresses_def
    answered_def getAddressResult_def fun_eq_iff options_concurrency
  by (rule refl allI)+

lemma mset_verdicts:
  "mset (filter (\<lambda>a. out a = Flagged) xs) + mset (filter (\<lambda>a. out a = Failed) xs)
     + mset (filter (\<lambda>a. out a = Review) xs) + mset (filter (\<lambda>a. out a = Cleared) xs)
   = mset (filter (\<lambda>a. out a \<noteq> Clean) xs)"
proof (induction xs)
  case (Cons x xs)
  then show ?case by (cases "out x") auto
qed simp

text \<open>What a run without deadline and checkpoint reports is a function of the answers.\<close>

lemma run_determined:
  assumes run: "syncSanctionsToDenylist globals env opts cache w (Ret r, w')"
    and glob: "globals ''maxDurationMs'' = Some None" and cp: "so_checkpoint opts = None"
    and det: "\<And>a x y. answered env opts a x \<Longrightarrow> answered env opts a y \<Longrightarrow> x = y"
    and den: "den = denylist_set (so_currentDenylist opts)"
  shows "mset (sr_flagged r) = mset (filter (\<lambda>a. justified env opts den a Flagged) (candidate_addresses env opts))
    \<and> mset (sr_failed r) = mset (filter (\<lambda>a. justified env opts den a Failed) (candidate_addresses env opts))
    \<and> mset (named r) = mset (filter (\<lambda>a. \<not> justified env opts den a Clean) (candidate_addresses env opts))"
proof -
  obtain d s where body: "sync_body env opts cache d w (Ret r, s, w')" and d: "d = None"
    using run_returns [OF run] glob by (metis option.inject)
  obtain pending finished out w1 where f: "run_facts env opts r pending finished out"
    and all: "set finished = set pending"
    and sp: "resume_split opts (candidate_addresses env opts) w = (Ret (sr_skipped r, pending), w1)"
    using sync_body_facts [OF body] d by metis
  have skipped: "sr_skipped r = []" "pending = candidate_addresses env opts"
    using sp cp by (simp_all add: resume_split_def)
  have "mset finished = mset (candidate_addresses env opts)"
    using f all skipped distinct_candidates [of env opts]
    by (simp add: run_facts_def set_eq_iff_mset_eq_distinct)
  then have filt: "mset (filter P finished) = mset (filter P (candidate_addresses env opts))" for P
    by (metis mset_filter)
  have just: "\<And>a. a \<in> set finished \<Longrightarrow> justified env opts den a (out a)"
    using f by (auto simp: run_facts_def den)
  have uniq: "v = v'" if "justified env opts den a v" "justified env opts den a v'" for a v v'
    using that det cp by (auto simp: justified_def allowed_verdict_def)
  have out: "out a = v \<longleftrightarrow> justified env opts den a v" if "a \<in> set finished" for a v
    using just [OF that] uniq by metis
  have eqs: "filter (\<lambda>a. out a = v) finished = filter (\<lambda>a. justified env opts den a v) finished"
      "filter (\<lambda>a. out a \<noteq> v) finished = filter (\<lambda>a. \<not> justified env opts den a v) finished" for v
    by (rule filter_cong [OF refl], simp add: out)+
  have "mset (named r) = mset (filter (\<lambda>a. out a \<noteq> Clean) finished)"
    using mset_verdicts [of out finished] by (simp add: named_run [OF f] skipped ac_simps)
  then show ?thesis
    using f by (simp add: run_facts_def eqs filt del: mset_filter)
qed


text \<open>
  Three addresses on the sequential path, and on the concurrent path with two workers, where the
  third address is answered before the first.
\<close>

definition overtaking :: "nat conc_event list" where
  "overtaking = [Launch, Launch, Settles ''GC'' (Throw (mk_error ''timeout'')) 0, Launch,
     Settles ''GD'' (Ret (unscored True ''mock'')) 0, Settles ''GA'' (Ret (unscored True ''mock'')) 0]"

definition three_addresses :: "nat option \<Rightarrow> nat sync_options" where
  "three_addresses k = options_with [''GA'', ''GC'', ''GD''] counting_writer True k [] False None"

definition three_result :: "string list \<Rightarrow> sync_result" where
  "three_result flagged = \<lparr>sr_checked = 3, sr_flagged = flagged, sr_written = [], sr_failed = [''GC''],
     sr_failedWithReasons = [(''GC'', ''timeout'')], sr_invalid = [], sr_skipped = [], sr_dryRun = True,
     sr_removed = None, sr_plannedRemovals = None, sr_failedRemovals = None, sr_needsReview = None,
     sr_feeEstimate = None\<rparr>"

lemma three_addresses_fields:
  "so_concurrency (three_addresses k) = k" "so_currentDenylist (three_addresses k) = []"
  "so_reconcile (three_addresses k) = False" "so_checkpoint (three_addresses k) = None"
  "so_progressInterval (three_addresses k) = 100" "so_dryRun (three_addresses k) = True"
  "so_feeEstimator (three_addresses k) = None" "so_minScoreToBlock (three_addresses k) = None"
  "so_addresses (three_addresses k) = [''GA'', ''GC'', ''GD'']"
  by (simp_all add: three_addresses_def options_with_def)

lemma three_addresses_input:
  "invalid_entries (se_strkey example_env) [''GA'', ''GC'', ''GD''] = []" "denylist_set [] = []"
  "normalizeStellarAddress ''GA'' = ''GA''" "normalizeStellarAddress ''GC'' = ''GC''"
  "normalizeStellarAddress ''GD'' = ''GD''" "se_now example_env w = 0"
  "valid_addresses (se_strkey example_env) [''GA'', ''GC'', ''GD''] = [''GA'', ''GC'', ''GD'']"
  by code_simp+

lemma three_addresses_get:
  "getAddressResult example_env (three_addresses k) a (s, w) =
     (if a = ''GC'' then Throw (mk_error ''timeout'') else Ret (unscored (a = ''GA'' \<or> a = ''GD'') ''mock''), s, w)"
  by (simp add: getAddressResult_def three_addresses_def options_with_def example_env_def
      withRetry_def withRetry_loop.simps default_retry_def)

lemma three_addresses_answers:
  "answered example_env (three_addresses k) a r \<longleftrightarrow>
     r = (if a = ''GC'' then Throw (mk_error ''timeout'') else Ret (unscored (a = ''GA'' \<or> a = ''GD'') ''mock''))"
  by (auto simp: answered_def three_addresses_get)

lemma three_addresses_prepare:
  "\<exists>es. sync_prepare example_env (three_addresses k) (sync_init []) 0
     = (Ret ([], [''GA'', ''GC'', ''GD'']), emit es (sync_init []), 0)"
  by (intro exI [of _ "[ELog ''info'' ''sanctions-oracle: starting sync'']"])
    (simp add: sync_prepare_def three_addresses_fields three_addresses_input candidate_addresses_def resume_split_def)

lemma check_settle_steps:
  "cr_flagged result \<Longrightarrow> below_threshold opts result = None \<Longrightarrow>
     check_settle env opts den a start (Ret result) (s, w) = (check_finally env opts
       ((emit [EMetric ''address_check'' True (se_now env w - start),
          ESpanAttr ''address_check.flagged'' (VBool True), ESpanEnd ''ok'' None] s)
        \<lparr>ss_flagged := ss_flagged s @ [a], ss_flaggedWithSource := ss_flaggedWithSource s @ [(a, cr_source result)]\<rparr>), w)"
  "check_settle env opts den a start (Throw e) (s, w)
     = (check_finally env opts (check_failed (se_now env w - start) a e s), w)"
  by (simp_all add: check_settle_def)

lemma check_finally_quiet:
  "int (Suc (ss_checked s)) mod so_progressInterval opts \<noteq> 0 \<Longrightarrow>
     check_finally env opts s = s\<lparr>ss_checked := Suc (ss_checked s)\<rparr>"
  by (simp add: check_finally_def Let_def)

lemma sync_init_fields [simp]:
  "ss_started (sync_init c) = []" "ss_flagged (sync_init c) = []" "ss_flaggedWithSource (sync_init c) = []"
  "ss_needsReview (sync_init c) = []" "ss_cleared (sync_init c) = []" "ss_failed (sync_init c) = []"
  "ss_failedWithReasons (sync_init c) = []" "ss_checked (sync_init c) = 0"
  by (simp_all add: sync_init_def)

text \<open>What the report of the three addresses needs of the check phase.\<close>

definition three_checked :: "string list \<Rightarrow> sync_state \<Rightarrow> bool" where
  "three_checked flagged s \<longleftrightarrow> ss_started s = [''GA'', ''GC'', ''GD''] \<and> ss_flagged s = flagged
     \<and> ss_failed s = [''GC''] \<and> ss_failedWithReasons s = [(''GC'', ''timeout'')]"

lemmas three_steps = check_settle_steps check_finally_quiet check_failed_def check_begin_def unscored_def
  below_threshold_def three_addresses_fields three_addresses_input three_checked_def set_add_def sequential_path_def

lemma three_scheduled:
  "\<exists>s. scheduled_phase example_env (three_addresses (Some 2)) overtaking [''GA'', ''GC'', ''GD''] (emit es (sync_init []), 0)
     = Some (s, 0) \<and> three_checked [''GD'', ''GA''] s"
  by (simp add: scheduled_phase_def overtaking_def conc_start_def three_steps)

lemma three_sequential:
  "\<exists>s. sequential_phase example_env (three_addresses None) [''GA'', ''GC'', ''GD''] (emit es (sync_init []), 0)
     = Some (s, 0) \<and> three_checked [''GA'', ''GD''] s"
  by (simp add: sequential_phase_def process_address_def three_addresses_get three_steps)

lemma three_finish:
  "three_checked flagged s \<Longrightarrow>
     \<exists>s'. sync_finish example_env (three_addresses k) [] [] [] [''GA'', ''GC'', ''GD''] (s, 0) = (Ret (three_result flagged), s', 0)"
  by (simp add: sync_finish_def report_checks_def write_phase_def removal_phase_def sync_report_def
      three_checked_def three_addresses_fields three_result_def Let_def)

lemma three_run:
  assumes "\<And>es. \<exists>s. phase [''GA'', ''GC'', ''GD''] (emit es (sync_init []), 0) = Some (s, 0) \<and> three_checked flagged s"
  shows "run_from example_env (three_addresses k) phase [] 0 = Some (Ret (three_result flagged), 0)"
proof -
  obtain es where prep: "sync_prepare example_env (three_addresses k) (sync_init []) 0
     = (Ret ([], [''GA'', ''GC'', ''GD'']), emit es (sync_init []), 0)" using three_addresses_prepare by blast
  obtain s where ph: "phase [''GA'', ''GC'', ''GD''] (emit es (sync_init []), 0) = Some (s, 0)" "three_checked flagged s"
    using assms by blast
  obtain s' where "sync_finish example_env (three_addresses k) [] [] [] [''GA'', ''GC'', ''GD''] (s, 0)
      = (Ret (three_result flagged), s', 0)" using three_finish [OF ph(2)] by blast
  with prep ph show ?thesis by (simp add: run_from_def three_addresses_fields three_addresses_input)
qed

lemma three_runs:
  "syncSanctionsToDenylist (\<lambda>_. Some None) example_env (three_addresses None) [] 0 (Ret (three_result [''GA'', ''GD'']), 0)"
  "syncSanctionsToDenylist (\<lambda>_. Some None) example_env (three_addresses (Some 2)) [] 0 (Ret (three_result [''GD'', ''GA'']), 0)"
  by (rule run_sequentially run_scheduled, rule three_run, rule three_sequential three_scheduled)+
    (auto simp: overtaking_def three_addresses_answers)

lemma three_addresses_update: "(three_addresses k)\<lparr>so_concurrency := k'\<rparr> = three_addresses k'"
  by (simp add: three_addresses_def options_with_def)


text \<open>
  C8. On the concurrent path a deadline that passes with work still queued and nothing in flight
  is never noticed: neither loop of \<open>executeConcurrent\<close> can move, so no outcome exists.
\<close>

theorem deadline_livelock:
  assumes "\<not> sequential_path (so_concurrency opts) (length items)" and "\<And>w. stop w"
  shows "\<not> check_phase env opts denylist stop items sw sw'"
proof
  assume "check_phase env opts denylist stop items sw sw'"
  then show False
  proof cases
    case sequential
    with assms(1) show False by simp
  next
    case (concurrent k es c)
    have "items \<noteq> []" using assms(1) by (auto simp: sequential_path_def split: option.splits)
    moreover have "conc_step env opts denylist stop k e (conc_start items sw) = None" for e
      using assms(2) by (cases e) (simp_all add: conc_start_def split: list.split)
    then have "es = []" using concurrent(4) by (cases es) simp_all
    ultimately show False using concurrent by (auto simp: conc_start_def)
  qed
qed

theorem deadline_livelock_witness:
  "\<nexists>sw'. check_phase example_env (three_addresses (Some 2)) [] (\<lambda>_. True) [''GA'', ''GC'', ''GD''] (sync_init [], 0) sw'"
proof
  assume "\<exists>sw'. check_phase example_env (three_addresses (Some 2)) [] (\<lambda>_. True) [''GA'', ''GC'', ''GD''] (sync_init [], 0) sw'"
  then obtain sw' where "check_phase example_env (three_addresses (Some 2)) [] (\<lambda>_. True) [''GA'', ''GC'', ''GD''] (sync_init [], 0) sw'" ..
  moreover have "\<not> check_phase example_env (three_addresses (Some 2)) [] (\<lambda>_. True) [''GA'', ''GC'', ''GD''] (sync_init [], 0) sw'"
    by (rule deadline_livelock) (simp_all add: three_addresses_fields sequential_path_def)
  ultimately show False by contradiction
qed

section \<open>Failing writes\<close>

text \<open>
  The write loop rejects with the writer's error only when the very first write it attempts
  fails: everything before it was on the denylist already, and nothing was written.
\<close>

theorem write_loop_throws_at_first:
  assumes "write_loop env opts denylist fws [] (s, w) = (Throw e, s', w')"
  shows "\<exists>pre a source post. fws = pre @ (a, source) # post \<and> set (map fst pre) \<subseteq> set denylist
    \<and> a \<notin> set denylist \<and> call_writer (so_writer opts) a source w = (Throw e, w')"
  using assms
proof (induction fws)
  case Nil
  then show ?case by simp
next
  case (Cons x fws)
  obtain a source where x: "x = (a, source)" by fastforce
  show ?case
  proof (cases "a \<in> set denylist")
    case True
    with Cons x obtain pre b source' post where "fws = pre @ (b, source') # post" "set (map fst pre) \<subseteq> set denylist"
      "b \<notin> set denylist" "call_writer (so_writer opts) b source' w = (Throw e, w')" by auto
    with True x show ?thesis by (intro exI [of _ "x # pre"]) auto
  next
    case False
    obtain h w1 where h: "call_writer (so_writer opts) a source w = (h, w1)" by fastforce
    show ?thesis
    proof (cases h)
      case (Inl err)
      with Cons.prems False h x have "err = e" "w1 = w'" by (simp_all add: Let_def)
      with False h Inl x show ?thesis
        by (intro exI [of _ "[]"] exI [of _ a] exI [of _ source] exI [of _ fws]) simp
    next
      case (Inr hash)
      obtain m w2 where m: "mark_checkpoint opts a w1 = (m, w2)" by fastforce
      have "\<exists>s2. write_loop env opts denylist fws [a] (s2, w2) = (Throw e, s', w')"
        using Cons.prems False h m Inr x by (cases m) (auto simp: Let_def)
      then obtain s2 where "write_loop env opts denylist fws [a] (s2, w2) = (Throw e, s', w')" by blast
      with write_loop_outcome [of denylist fws "[a]" s2 env opts w2] show ?thesis
        by (simp add: loop_outcome_def)
    qed
  qed
qed

theorem write_loop_throws_at_first_witness:
  "\<exists>pre a source post. [(''GB'', ''m''), (''GA'', ''m'')] = pre @ (a, source) # post \<and> set (map fst pre) \<subseteq> set [''GB'']
    \<and> a \<notin> set [''GB''] \<and> call_writer failing_writer a source (0::nat) = (Throw (mk_error ''down''), 0)"
proof -
  have "so_writer (dry_options failing_writer) = failing_writer" by (simp add: dry_options_def options_with_def)
  moreover have "\<exists>s'. write_loop example_env (dry_options failing_writer) [''GB''] [(''GB'', ''m''), (''GA'', ''m'')] [] (sync_init [], 0)
      = (Throw (mk_error ''down''), s', 0)"
    by (simp add: call_writer_def failing_writer_def dry_options_def options_with_def Let_def)
  ultimately show ?thesis using write_loop_throws_at_first by metis
qed

text \<open>
  Once one address is written, a failing write is swallowed: the loop returns, and the address
  is in none of the lists that report trouble.
\<close>

theorem later_write_failure_lost:
  assumes "a \<notin> set denylist" and "b \<notin> set denylist" and "a \<noteq> b"
    and "call_writer (so_writer opts) a src w = (Ret h, w1)" and "mark_checkpoint opts a w1 = (Ret (), w2)"
    and "call_writer (so_writer opts) b src' w2 = (Throw e, w3)"
  shows "\<exists>s'. write_loop env opts denylist [(a, src), (b, src')] [] (s, w) = (Ret [a], s', w3)
    \<and> ss_failed s' = ss_failed s \<and> ss_failedWithReasons s' = ss_failedWithReasons s"
  using assms by (simp add: Let_def write_failed_def)

definition half_writer :: "nat denylist_writer" where
  "half_writer = \<lparr>dw_add = (\<lambda>a w. if a = ''GA'' then (Ret ''hash'', Suc w) else (Throw (mk_error ''down''), w)),
     dw_addWithSource = None, dw_remove = None, dw_removeWithSource = None\<rparr>"

theorem later_write_failure_lost_witness:
  "\<exists>s'. write_loop example_env (dry_options half_writer) [] [(''GA'', ''m''), (''GD'', ''m'')] [] (sync_init [], 0)
      = (Ret [''GA''], s', Suc 0)
    \<and> ss_failed s' = ss_failed (sync_init []) \<and> ss_failedWithReasons s' = ss_failedWithReasons (sync_init [])"
  by (rule later_write_failure_lost [where h = "''hash''" and ?w1.0 = "Suc 0" and ?w2.0 = "Suc 0" and e = "mk_error ''down''"])
    (simp_all add: call_writer_def mark_checkpoint_def half_writer_def dry_options_def options_with_def)

section \<open>Fees\<close>

lemma dec_of_nat_length: "n < 10 ^ Suc k \<Longrightarrow> length (dec_of_nat n) \<le> Suc k"
proof (induction k arbitrary: n)
  case 0
  then show ?case by (subst dec_of_nat.simps) simp
next
  case (Suc k)
  show ?case
  proof (cases "n < 10")
    case True
    then show ?thesis by (subst dec_of_nat.simps) simp
  next
    case False
    have "n div 10 < 10 ^ Suc k" using Suc.prems by (simp add: less_mult_imp_div_less)
    from Suc.IH [OF this] False show ?thesis by (subst dec_of_nat.simps) simp
  qed
qed

lemma nat_of_dec_zeros: "nat_of_dec (replicate k (CHR ''0'') @ s) = nat_of_dec s"
  by (induction k) (simp_all add: nat_of_dec_def)

text \<open>
  The XLM amount shown for a fee is exact: it has seven decimals, and read as decimals its two
  halves give back the number of stroops.
\<close>

theorem stroopsToXlm_exact:
  "\<exists>whole frac. stroopsToXlm n = (if n < 0 then ''-'' else []) @ whole @ ''.'' @ frac
    \<and> length frac = 7 \<and> list_all is_digit (whole @ frac)
    \<and> int (nat_of_dec whole * 10000000 + nat_of_dec frac) = \<bar>n\<bar>"
proof -
  let ?a = "nat \<bar>n\<bar>"
  let ?frac = "pad_zeros 7 (dec_of_nat (?a mod 10000000))"
  have "length (dec_of_nat (?a mod 10000000)) \<le> 7"
    using dec_of_nat_length [of "?a mod 10000000" 6] by simp
  then have len: "length ?frac = 7" by (simp add: pad_zeros_def)
  have dig: "list_all is_digit (dec_of_nat (?a div 10000000) @ ?frac)"
    by (auto simp: list_all_iff pad_zeros_def is_digit_def dest: dec_of_nat_digits)
  have "nat_of_dec ?frac = ?a mod 10000000"
    by (simp add: pad_zeros_def nat_of_dec_zeros)
  then have "int (nat_of_dec (dec_of_nat (?a div 10000000)) * 10000000 + nat_of_dec ?frac) = \<bar>n\<bar>"
    by simp
  with len dig show ?thesis
    by (intro exI [of _ "dec_of_nat (?a div 10000000)"] exI [of _ ?frac]) (simp add: stroopsToXlm_def Let_def)
qed

end
