(* ===== verification/Cli.thy ===== *)
theory Cli
  imports Writer SyncSchedules
begin

text \<open>
  The command line of \<open>sanctions-oracle/src/sync.ts\<close>: \<open>parseArgs\<close>, \<open>toSafeLogString\<close> and \<open>runCli\<close>.
  The parsed arguments are the object \<open>parseArgs\<close> builds, with its properties in insertion order.
  Of the output, only the JSON result and the message of an error exit are kept.
\<close>

section \<open>\<open>Number(s)\<close>\<close>

text \<open>
  The conversion of a string to a number, as an exact rational; \<open>None\<close> is NaN or an infinity,
  which includes the literals that overflow a double.
\<close>

definition exponent_value :: "string \<Rightarrow> int option" where
  "exponent_value s = (case s of
     [] \<Rightarrow> Some 0
   | c # r \<Rightarrow>
       if c = CHR ''e'' \<or> c = CHR ''E'' then
         (let (neg, ds) = (case r of [] \<Rightarrow> (False, [])
               | d # ds \<Rightarrow> if d = CHR ''-'' then (True, ds) else if d = CHR ''+'' then (False, ds) else (False, r))
          in if ds \<noteq> [] \<and> list_all is_digit ds
             then Some ((if neg then - 1 else 1) * int (nat_of_dec ds)) else None)
       else None)"

definition unsigned_decimal :: "string \<Rightarrow> rat option" where
  "unsigned_decimal s =
     (let ip = takeWhile is_digit s; r = dropWhile is_digit s;
          (fp, r) = (case r of c # r' \<Rightarrow> if c = CHR ''.'' then (takeWhile is_digit r', dropWhile is_digit r') else ([], r)
             | [] \<Rightarrow> ([], []))
      in if ip = [] \<and> fp = [] then None
         else (case exponent_value r of
             None \<Rightarrow> None
           | Some e \<Rightarrow>
               (let m = of_nat (nat_of_dec ip) + of_nat (nat_of_dec fp) / 10 ^ length fp
                in Some (if 0 \<le> e then m * 10 ^ nat e else m / 10 ^ nat (- e)))))"

definition radix_digit :: "nat \<Rightarrow> char \<Rightarrow> bool" where
  "radix_digit b c \<longleftrightarrow> (is_digit c \<or> is_hex c) \<and> hex_val (to_upper_char c) < b"

definition radix_value :: "nat \<Rightarrow> string \<Rightarrow> rat option" where
  "radix_value b s = (if s \<noteq> [] \<and> list_all (radix_digit b) s
     then Some (of_nat (foldl (\<lambda>n c. b * n + hex_val (to_upper_char c)) 0 s)) else None)"

definition js_number :: "string \<Rightarrow> rat option" where
  "js_number s =
     (let t = trim s;
          v = (if t = [] then Some 0
               else if take 2 (to_lower t) = ''0x'' then radix_value 16 (drop 2 t)
               else if take 2 (to_lower t) = ''0o'' then radix_value 8 (drop 2 t)
               else if take 2 (to_lower t) = ''0b'' then radix_value 2 (drop 2 t)
               else if hd t = CHR ''-'' then map_option uminus (unsigned_decimal (tl t))
               else if hd t = CHR ''+'' then unsigned_decimal (tl t)
               else unsigned_decimal t)
      in case v of None \<Rightarrow> None
         | Some r \<Rightarrow> if \<bar>r\<bar> \<ge> 2 ^ 1024 - 2 ^ 970 then None else Some r)"

section \<open>\<open>parseArgs\<close>\<close>

datatype arg_value = AStr string | ABool bool | ANum rat

type_synonym cli_args = "(string, arg_value) jsmap"

definition value_flags :: "(string \<times> string) list" where
  "value_flags = [(''--addresses'', ''addressesPath''), (''--contract-id'', ''contractId''),
     (''--rpc-url'', ''rpcUrl''), (''--network-passphrase'', ''networkPassphrase''),
     (''--secret-key'', ''secretKey''), (''--csv'', ''csvPath''), (''--provider-module'', ''providerModulePath''),
     (''--denylist-snapshot'', ''denylistSnapshotPath''), (''--audit-log'', ''auditLogPath''),
     (''--checkpoint'', ''checkpointPath'')]"

definition switch_flags :: "(string \<times> string) list" where
  "switch_flags = [(''--dry-run'', ''dryRun''), (''--rate-limit'', ''rateLimit''), (''--reconcile'', ''reconcile''),
     (''--json'', ''json''), (''--help'', ''help''), (''-h'', ''help'')]"

fun readValue :: "string \<Rightarrow> string list \<Rightarrow> thrown + string" where
  "readValue flag [] = Throw (mk_error (''Missing value for '' @ flag))"
| "readValue flag (v # _) = (if take 1 v = ''-'' then Throw (mk_error (''Missing value for '' @ flag)) else Ret v)"

definition max_duration :: "string \<Rightarrow> thrown + rat" where
  "max_duration v = (case js_number v of
     Some ms \<Rightarrow> if ms \<le> 0 then Throw (mk_error ''--max-duration must be a positive number of milliseconds'') else Ret ms
   | None \<Rightarrow> Throw (mk_error ''--max-duration must be a positive number of milliseconds''))"

fun parseArgs_loop :: "string list \<Rightarrow> cli_args \<Rightarrow> thrown + cli_args" where
  "parseArgs_loop [] args = Ret args"
| "parseArgs_loop (arg # rest) args =
     (case map_get value_flags arg of
        Some field \<Rightarrow>
          (case readValue arg rest of
             Throw e \<Rightarrow> Throw e
           | Ret v \<Rightarrow> parseArgs_loop (drop 1 rest) (map_set field (AStr v) args))
      | None \<Rightarrow>
          if arg = ''--max-duration'' then
            (case readValue arg rest of
               Throw e \<Rightarrow> Throw e
             | Ret v \<Rightarrow>
                 (case max_duration v of
                    Throw e \<Rightarrow> Throw e
                  | Ret ms \<Rightarrow> parseArgs_loop (drop 1 rest) (map_set ''maxDurationMs'' (ANum ms) args)))
          else
            (case map_get switch_flags arg of
               Some field \<Rightarrow> parseArgs_loop rest (map_set field (ABool True) args)
             | None \<Rightarrow> parseArgs_loop rest args))"

definition parseArgs :: "string list \<Rightarrow> thrown + cli_args" where
  "parseArgs argv = parseArgs_loop argv [(''dryRun'', ABool False)]"

text \<open>The value of a property in a boolean context, and a string property that is truthy.\<close>

fun truthy_value :: "arg_value \<Rightarrow> bool" where
  "truthy_value (AStr s) \<longleftrightarrow> s \<noteq> []"
| "truthy_value (ABool b) \<longleftrightarrow> b"
| "truthy_value (ANum r) \<longleftrightarrow> r \<noteq> 0"

definition arg_on :: "string \<Rightarrow> cli_args \<Rightarrow> bool" where
  "arg_on field args = (case map_get args field of None \<Rightarrow> False | Some v \<Rightarrow> truthy_value v)"

definition arg_string :: "string \<Rightarrow> cli_args \<Rightarrow> string option" where
  "arg_string field args = (case map_get args field of Some (AStr s) \<Rightarrow> Some s | _ \<Rightarrow> None)"

definition nonempty :: "string option \<Rightarrow> string option" where
  "nonempty s = (if s = Some [] then None else s)"

section \<open>\<open>toSafeLogString\<close>\<close>

text \<open>\<open>showNumber\<close> is the number formatting of the engine.\<close>

fun arg_json :: "(rat \<Rightarrow> string) \<Rightarrow> arg_value \<Rightarrow> json" where
  "arg_json showNumber (AStr s) = JStr s"
| "arg_json showNumber (ABool b) = JBool b"
| "arg_json showNumber (ANum r) = JNum (showNumber r)"

definition toSafeLogString :: "(rat \<Rightarrow> string) \<Rightarrow> cli_args \<Rightarrow> string" where
  "toSafeLogString showNumber args =
     stringify (JObj (map (\<lambda>(k, v). (k, arg_json showNumber v))
       (if arg_on ''secretKey'' args then map_set ''secretKey'' (AStr ''[REDACTED]'') args
        else map_delete ''secretKey'' args)))"

section \<open>\<open>runCli\<close>\<close>

record ('acct, 'tx, 'w) cli_env =
  ce_fs :: file_system
  ce_getenv :: "string \<Rightarrow> string option"
  ce_import :: "string \<Rightarrow> thrown + 'w provider"
  ce_fromSecret :: "string \<Rightarrow> thrown + keypair"
  ce_sdk :: "string \<Rightarrow> ('acct, 'tx, 'w) stellar_sdk"
  ce_sync :: "'w sync_env"
  ce_nowIso :: "'w \<Rightarrow> string"

text \<open>How a run ends before it starts syncing, or the options it syncs with.\<close>

datatype 'w cli_plan =
    Help
  | ExitOne string
  | Rejects thrown
  | RunSync "'w sync_options"

definition load_addresses :: "file_system \<Rightarrow> string \<Rightarrow> thrown + string list" where
  "load_addresses fs path =
     js_bind (fs_readFileSync fs path) (\<lambda>content. js_bind (json_parse content) (\<lambda>parsed.
       case parsed of
         JArr items \<Rightarrow>
           (case all_strings items of
              None \<Rightarrow> Throw (mk_error ''All entries in the addresses array must be strings'')
            | Some xs \<Rightarrow>
                (let emptyStrings = filter (\<lambda>a. a = []) xs in
                 if 0 < length emptyStrings then
                   Throw (mk_error (''Addresses file contains '' @ dec_of_nat (length emptyStrings) @ '' empty string entries''))
                 else Ret (map normalizeStellarAddress xs)))
       | _ \<Rightarrow> Throw (mk_error ''Addresses file must contain a JSON array'')))"

definition load_snapshot :: "file_system \<Rightarrow> string \<Rightarrow> thrown + string list" where
  "load_snapshot fs path =
     js_bind (fs_readFileSync fs path) (\<lambda>content. js_bind (json_parse content) (\<lambda>parsed.
       case string_array parsed of
         None \<Rightarrow> Throw (mk_error ''Denylist snapshot must be a JSON array of strings'')
       | Some xs \<Rightarrow> Ret xs))"

text \<open>The provider: an imported module, the CSV provider, or the mock with its built-in list.\<close>

definition select_provider :: "('acct, 'tx, 'w) cli_env \<Rightarrow> cli_args \<Rightarrow> string + 'w provider" where
  "select_provider env args =
     (case nonempty (arg_string ''providerModulePath'' args) of
        Some path \<Rightarrow>
          (case ce_import env path of
             Ret p \<Rightarrow> Inr p
           | Throw error \<Rightarrow> Inl (''Failed to load provider module '' @ path @ '': '' @ thrown_message error))
      | None \<Rightarrow>
          (case nonempty (arg_string ''csvPath'' args) of
             Some path \<Rightarrow> Inr (csv_checkAddress (fst (loadCsv (ce_fs env) (se_strkey (ce_sync env)) path)))
           | None \<Rightarrow> Inr (mock_checkAddress MOCK_FLAGGED_ADDRESSES)))"

text \<open>
  The wrapper of \<open>--rate-limit\<close> with its default options. The sync of the command line is
  sequential, so a call never waits for a slot.
\<close>

definition cli_rate_limit :: "rate_limit_config" where
  "cli_rate_limit = \<lparr>rc_maxRetries = 4, rc_baseDelayMs = 250, rc_maxDelayMs = 16000, rc_concurrency = Infinite\<rparr>"

definition cli_provider :: "('acct, 'tx, 'w) cli_env \<Rightarrow> cli_args \<Rightarrow> string + 'w provider" where
  "cli_provider env args = (case select_provider env args of
     Inl m \<Rightarrow> Inl m
   | Inr p \<Rightarrow> Inr (if arg_on ''rateLimit'' args then checkWithRetry (se_retry (ce_sync env)) cli_rate_limit p else p))"

definition cli_options ::
  "'w provider \<Rightarrow> string list \<Rightarrow> 'w denylist_writer \<Rightarrow> bool \<Rightarrow> string list option \<Rightarrow> bool
     \<Rightarrow> (string \<Rightarrow> 'w \<Rightarrow> (thrown + int) \<times> 'w) option \<Rightarrow> 'w sync_options" where
  "cli_options provider addresses writer dryRun currentDenylist reconcile feeEstimator =
     \<lparr>so_provider = provider, so_addresses = addresses, so_writer = writer, so_dryRun = dryRun,
      so_retry = default_retry, so_cache = None, so_progressInterval = 100, so_concurrency = None,
      so_currentDenylist = or_default currentDenylist [], so_checkpoint = None, so_resume = False,
      so_reconcile = reconcile, so_minScoreToBlock = None, so_feeEstimator = feeEstimator\<rparr>"

text \<open>The writer of a dry run throws.\<close>

definition dry_run_writer :: "'w denylist_writer" where
  "dry_run_writer = \<lparr>dw_add = (\<lambda>_ w. (Throw (mk_error ''addToDenylist should not be called in dry-run mode''), w)),
     dw_addWithSource = None, dw_remove = None, dw_removeWithSource = None\<rparr>"

definition secret_key :: "('acct, 'tx, 'w) cli_env \<Rightarrow> cli_args \<Rightarrow> string option" where
  "secret_key env args = nonempty (case ce_getenv env ''SANCTIONS_ORACLE_SECRET_KEY'' of
     Some v \<Rightarrow> Some v | None \<Rightarrow> arg_string ''secretKey'' args)"

text \<open>The RPC settings, when all of them are given.\<close>

definition rpc_settings :: "('acct, 'tx, 'w) cli_env \<Rightarrow> cli_args \<Rightarrow> (string \<times> string \<times> string \<times> string) option" where
  "rpc_settings env args =
     (case (nonempty (arg_string ''contractId'' args), nonempty (arg_string ''rpcUrl'' args),
            nonempty (arg_string ''networkPassphrase'' args), secret_key env args) of
        (Some c, Some u, Some n, Some s) \<Rightarrow> Some (c, u, n, s)
      | _ \<Rightarrow> None)"

definition dry_plan ::
  "('acct, 'tx, 'w) cli_env \<Rightarrow> cli_args \<Rightarrow> 'w provider \<Rightarrow> string list \<Rightarrow> string list option \<Rightarrow> 'w cli_plan" where
  "dry_plan env args provider addresses currentDenylist =
     (let options = cli_options provider addresses dry_run_writer True currentDenylist (arg_on ''reconcile'' args) in
      case rpc_settings env args of
        None \<Rightarrow> RunSync (options None)
      | Some (contractId, rpcUrl, network, secret) \<Rightarrow>
          (case ce_fromSecret env secret of
             Throw e \<Rightarrow> Rejects e
           | Ret kp \<Rightarrow> RunSync (options (Some
               (createRpcFeeEstimator (ce_sdk env rpcUrl) network contractId (kp_publicKey kp))))))"

definition cli_writer_options ::
  "cli_args \<Rightarrow> string \<Rightarrow> string \<Rightarrow> keypair \<Rightarrow> keypair option \<Rightarrow> 'w writer_options" where
  "cli_writer_options args contractId network kp feeKp =
     \<lparr>wo_networkPassphrase = network, wo_contractId = contractId, wo_sourceKeypair = Some (KeypairKey kp),
      wo_signer = None, wo_feeSource = map_option KeypairKey feeKp,
      wo_auditLogger = (if arg_on ''reconcile'' args then Some (\<lambda>entry w. (Ret (), w)) else None),
      wo_maxRetries = None, wo_backoff = default_backoff, wo_logError = (\<lambda>_ _ _ w. w)\<rparr>"

text \<open>\<open>FileCheckpointStore\<close> is used and never imported.\<close>

definition live_plan ::
  "('acct, 'tx, 'w) cli_env \<Rightarrow> cli_args \<Rightarrow> 'w provider \<Rightarrow> string list \<Rightarrow> string list option \<Rightarrow> 'w cli_plan" where
  "live_plan env args provider addresses currentDenylist =
     (case rpc_settings env args of
        None \<Rightarrow> ExitOne ''sanctions-oracle: Missing required flags for a live sync. Required: --contract-id, --rpc-url, --network-passphrase, and SANCTIONS_ORACLE_SECRET_KEY (env, preferred) or --secret-key (or pass --dry-run).''
      | Some (contractId, rpcUrl, network, secret) \<Rightarrow>
          if arg_on ''checkpointPath'' args then Rejects (reference_error ''FileCheckpointStore'')
          else
            (case ce_fromSecret env secret of
               Throw e \<Rightarrow> Rejects e
             | Ret kp \<Rightarrow>
                 (case (case nonempty (ce_getenv env ''SANCTIONS_ORACLE_FEE_SOURCE_SECRET_KEY'') of
                          None \<Rightarrow> Ret None | Some s \<Rightarrow> js_bind (ce_fromSecret env s) (\<lambda>k. Ret (Some k))) of
                    Throw e \<Rightarrow> Rejects e
                  | Ret feeKp \<Rightarrow>
                      (case createRpcDenylistWriter (ce_sdk env rpcUrl)
                              \<lparr>we_retry = se_retry (ce_sync env), we_nowIso = ce_nowIso env\<rparr>
                              (cli_writer_options args contractId network kp feeKp) of
                         Throw e \<Rightarrow> Rejects e
                       | Ret writer \<Rightarrow>
                           RunSync (cli_options provider addresses writer False currentDenylist
                             (arg_on ''reconcile'' args) None)))))"

definition cli_plan :: "('acct, 'tx, 'w) cli_env \<Rightarrow> string list \<Rightarrow> 'w cli_plan" where
  "cli_plan env argv =
     (case parseArgs argv of
        Throw e \<Rightarrow> Rejects e
      | Ret args \<Rightarrow>
          if arg_on ''help'' args then Help
          else (case nonempty (arg_string ''addressesPath'' args) of
              None \<Rightarrow> ExitOne ''sanctions-oracle: Missing required flag: --addresses <path-to-json-array>''
            | Some path \<Rightarrow>
                (case load_addresses (ce_fs env) path of
                   Throw error \<Rightarrow> ExitOne (''sanctions-oracle: Failed to load addresses from '' @ path @ '': '' @ thrown_message error)
                 | Ret addresses \<Rightarrow>
                     if arg_on ''reconcile'' args \<and> \<not> arg_on ''denylistSnapshotPath'' args then
                       ExitOne ''sanctions-oracle: --reconcile requires --denylist-snapshot <path-to-json-array> listing the current denylist''
                     else
                       (case (case nonempty (arg_string ''denylistSnapshotPath'' args) of
                                None \<Rightarrow> Inr None
                              | Some p \<Rightarrow>
                                  (case load_snapshot (ce_fs env) p of
                                     Ret xs \<Rightarrow> Inr (Some xs)
                                   | Throw error \<Rightarrow> Inl (''sanctions-oracle: Failed to load denylist snapshot from '' @ p @ '': '' @ thrown_message error))) of
                          Inl m \<Rightarrow> ExitOne m
                        | Inr currentDenylist \<Rightarrow>
                            (case cli_provider env args of
                               Inl m \<Rightarrow> ExitOne m
                             | Inr provider \<Rightarrow>
                                 if arg_on ''dryRun'' args then dry_plan env args provider addresses currentDenylist
                                 else live_plan env args provider addresses currentDenylist)))))"

text \<open>
  The process: its exit code, the result it prints, what it dies of. A rejected \<open>runCli\<close> is caught
  by the entry point, which sets exit code 1. The result object has no property
  \<open>deadlineExceeded\<close>, so the test for it is never true.
\<close>

record cli_outcome =
  co_exit :: int
  co_stdout :: "sync_result option"
  co_error :: "thrown option"

definition EXIT_CODE_DEADLINE_EXCEEDED :: int where
  "EXIT_CODE_DEADLINE_EXCEEDED = 3"

definition result_deadlineExceeded :: "sync_result \<Rightarrow> bool" where
  "result_deadlineExceeded _ = False"

inductive runCli ::
  "(string \<Rightarrow> int option option) \<Rightarrow> ('acct, 'tx, 'w) cli_env \<Rightarrow> string list \<Rightarrow> 'w \<Rightarrow> cli_outcome \<times> 'w \<Rightarrow> bool"
  for globals env argv w where
  help_shown: "cli_plan env argv = Help \<Longrightarrow>
     runCli globals env argv w (\<lparr>co_exit = 0, co_stdout = None, co_error = None\<rparr>, w)"
| exit_one: "cli_plan env argv = ExitOne m \<Longrightarrow>
     runCli globals env argv w (\<lparr>co_exit = 1, co_stdout = None, co_error = None\<rparr>, w)"
| rejects: "cli_plan env argv = Rejects e \<Longrightarrow>
     runCli globals env argv w (\<lparr>co_exit = 1, co_stdout = None, co_error = Some e\<rparr>, w)"
| sync_throws: "cli_plan env argv = RunSync opts \<Longrightarrow>
     syncSanctionsToDenylist globals (ce_sync env) opts [] w (Throw e, w') \<Longrightarrow>
     runCli globals env argv w (\<lparr>co_exit = 1, co_stdout = None, co_error = Some e\<rparr>, w')"
| sync_returns: "cli_plan env argv = RunSync opts \<Longrightarrow>
     syncSanctionsToDenylist globals (ce_sync env) opts [] w (Ret r, w') \<Longrightarrow>
     runCli globals env argv w
       (\<lparr>co_exit = (if result_deadlineExceeded r then EXIT_CODE_DEADLINE_EXCEEDED else 0),
         co_stdout = Some r, co_error = None\<rparr>, w')"

section \<open>Properties\<close>

subsection \<open>Arguments\<close>

text \<open>A setting on the command line, its spelling and its effect on the parsed arguments.\<close>

datatype setting = ValueFlag string string | SwitchFlag string

fun setting_ok :: "setting \<Rightarrow> bool" where
  "setting_ok (ValueFlag flag v) \<longleftrightarrow> map_get value_flags flag \<noteq> None \<and> take 1 v \<noteq> ''-''"
| "setting_ok (SwitchFlag flag) \<longleftrightarrow> map_get switch_flags flag \<noteq> None"

fun render_setting :: "setting \<Rightarrow> string list" where
  "render_setting (ValueFlag flag v) = [flag, v]"
| "render_setting (SwitchFlag flag) = [flag]"

fun apply_setting :: "cli_args \<Rightarrow> setting \<Rightarrow> cli_args" where
  "apply_setting args (ValueFlag flag v) = map_set (the (map_get value_flags flag)) (AStr v) args"
| "apply_setting args (SwitchFlag flag) = map_set (the (map_get switch_flags flag)) (ABool True) args"

lemma flags_disjoint:
  assumes "map_get switch_flags flag \<noteq> None"
  shows "map_get value_flags flag = None \<and> flag \<noteq> ''--max-duration''"
proof -
  have "list_all (\<lambda>f. map_get value_flags f = None \<and> f \<noteq> ''--max-duration'') (map fst switch_flags)"
    by code_simp
  moreover have "flag \<in> set (map fst switch_flags)" using assms by (auto simp: map_of_eq_None_iff)
  ultimately show ?thesis unfolding list_all_iff by blast
qed

lemma parseArgs_loop_settings:
  "list_all setting_ok settings \<Longrightarrow>
     parseArgs_loop (concat (map render_setting settings) @ rest) args = parseArgs_loop rest (foldl apply_setting args settings)"
proof (induction settings arbitrary: args)
  case (Cons s settings)
  show ?case
  proof (cases s)
    case (ValueFlag flag v)
    with Cons show ?thesis by auto
  next
    case (SwitchFlag flag)
    with Cons flags_disjoint [of flag] show ?thesis by auto
  qed
qed simp

text \<open>
  Printing settings as arguments and parsing them gives the settings back: every flag is
  recognised, takes its value, and a later setting of the same field wins.
\<close>

theorem parseArgs_render:
  assumes "list_all setting_ok settings"
  shows "parseArgs (concat (map render_setting settings)) = Ret (foldl apply_setting [(''dryRun'', ABool False)] settings)"
  using parseArgs_loop_settings [OF assms, of "[]"] by (simp add: parseArgs_def)

theorem parseArgs_render_witness:
  "parseArgs [''--addresses'', ''a.json'', ''--dry-run'', ''--addresses'', ''b.json'']
     = Ret [(''dryRun'', ABool True), (''addressesPath'', AStr ''b.json'')]"
proof -
  have "list_all setting_ok [ValueFlag ''--addresses'' ''a.json'', SwitchFlag ''--dry-run'', ValueFlag ''--addresses'' ''b.json'']"
    by code_simp
  from parseArgs_render [OF this] show ?thesis by (simp add: value_flags_def switch_flags_def)
qed

text \<open>
  The loggable form of the arguments reveals nothing of a secret key: any two keys give the
  same text.
\<close>

lemma keys_map_set_irrelevant: "map_set k v (map_set k v' m) = map_set k v m"
  by (induction m) auto

theorem toSafeLogString_hides_secret:
  assumes "s \<noteq> []" and "t \<noteq> []"
  shows "toSafeLogString showNumber (map_set ''secretKey'' (AStr s) args)
    = toSafeLogString showNumber (map_set ''secretKey'' (AStr t) args)"
  using assms by (simp add: toSafeLogString_def arg_on_def map_get_set keys_map_set_irrelevant)

theorem toSafeLogString_hides_secret_witness:
  "toSafeLogString (\<lambda>_. []) (map_set ''secretKey'' (AStr ''SA'') [(''dryRun'', ABool False)])
    = toSafeLogString (\<lambda>_. []) (map_set ''secretKey'' (AStr ''SB'') [(''dryRun'', ABool False)])"
  by (rule toSafeLogString_hides_secret) simp_all

subsection \<open>Runs\<close>

lemma live_plan_sync:
  assumes "live_plan env args p xs d = RunSync opts"
  shows "rpc_settings env args \<noteq> None \<and> \<not> so_dryRun opts \<and> so_addresses opts = xs
    \<and> so_reconcile opts = arg_on ''reconcile'' args \<and> \<not> arg_on ''checkpointPath'' args"
  using assms
  by (auto simp: live_plan_def cli_options_def split: option.splits sum.splits if_splits prod.splits)

lemma dry_plan_sync:
  assumes "dry_plan env args p xs d = RunSync opts"
  shows "so_dryRun opts \<and> so_addresses opts = xs \<and> so_reconcile opts = arg_on ''reconcile'' args"
  using assms
  by (auto simp: dry_plan_def cli_options_def Let_def split: option.splits sum.splits prod.splits)

lemma load_addresses_normal:
  assumes "load_addresses fs path = Ret xs"
  shows "\<exists>ys. [] \<notin> set ys \<and> xs = map normalizeStellarAddress ys"
  using assms
  by (auto simp: load_addresses_def js_bind_def Let_def filter_empty_conv split: sum.splits json.splits option.splits if_splits)

text \<open>
  The command line starts a sync only with complete settings: a live one with contract, RPC
  endpoint, network and secret; a reconciling one with a denylist snapshot; and always with the
  file's addresses in canonical form. \<open>--dry-run\<close> alone decides whether it may write.
\<close>

theorem cli_sync_needs_settings:
  assumes "parseArgs argv = Ret args" and "cli_plan env argv = RunSync opts"
  shows "(so_dryRun opts \<longleftrightarrow> arg_on ''dryRun'' args)
    \<and> (\<not> so_dryRun opts \<longrightarrow> rpc_settings env args \<noteq> None)
    \<and> (so_reconcile opts \<longrightarrow> arg_on ''denylistSnapshotPath'' args)
    \<and> (\<exists>path xs. arg_string ''addressesPath'' args = Some path \<and> load_addresses (ce_fs env) path = Ret xs
         \<and> so_addresses opts = xs \<and> map normalizeStellarAddress xs = xs)"
proof -
  obtain path xs p d where path: "nonempty (arg_string ''addressesPath'' args) = Some path"
    and xs: "load_addresses (ce_fs env) path = Ret xs"
    and rec: "arg_on ''reconcile'' args \<longrightarrow> arg_on ''denylistSnapshotPath'' args"
    and plan: "(if arg_on ''dryRun'' args then dry_plan env args p xs d else live_plan env args p xs d) = RunSync opts"
    using assms by (simp add: cli_plan_def split: if_splits option.splits sum.splits)
  have "arg_string ''addressesPath'' args = Some path" using path by (auto simp: nonempty_def split: if_splits)
  moreover have "map normalizeStellarAddress xs = xs" using load_addresses_normal [OF xs] by (auto simp: comp_def)
  moreover have "(so_dryRun opts \<longleftrightarrow> arg_on ''dryRun'' args) \<and> (\<not> so_dryRun opts \<longrightarrow> rpc_settings env args \<noteq> None)
      \<and> (so_reconcile opts \<longrightarrow> arg_on ''denylistSnapshotPath'' args) \<and> so_addresses opts = xs"
    using plan rec dry_plan_sync [of env args p xs d opts] live_plan_sync [of env args p xs d opts] by (cases "arg_on ''dryRun'' args") auto
  ultimately show ?thesis using xs by blast
qed

text \<open>An environment with one addresses file.\<close>

definition cli_example :: "(string, string, nat) cli_env" where
  "cli_example = \<lparr>ce_fs = \<lparr>fs_existsSync = (\<lambda>_. Ret True), fs_readFileSync = (\<lambda>_. Ret (json_strings ['' ga '']))\<rparr>,
     ce_getenv = (\<lambda>_. None), ce_import = (\<lambda>_. Throw (mk_error ''no module'')),
     ce_fromSecret = (\<lambda>s. Ret \<lparr>kp_publicKey = s, kp_sign = (\<lambda>_. ''sig'')\<rparr>), ce_sdk = (\<lambda>_. text_sdk),
     ce_sync = example_env, ce_nowIso = (\<lambda>_. ''now'')\<rparr>"

definition cli_argv :: "string list" where
  "cli_argv = [''--addresses'', ''a.json'', ''--dry-run'']"

lemma cli_example_args: "parseArgs cli_argv = Ret [(''dryRun'', ABool True), (''addressesPath'', AStr ''a.json'')]"
  by code_simp

lemma cli_example_plan: "\<exists>opts. cli_plan cli_example cli_argv = RunSync opts"
  unfolding cli_plan_def cli_example_args
  by (simp add: arg_on_def arg_string_def nonempty_def cli_example_def load_addresses_def json_parse_strings
      cli_provider_def select_provider_def dry_plan_def rpc_settings_def Let_def)

theorem cli_sync_needs_settings_witness:
  "\<exists>opts path xs. cli_plan cli_example cli_argv = RunSync opts \<and> so_dryRun opts
    \<and> load_addresses (ce_fs cli_example) path = Ret xs \<and> so_addresses opts = xs"
proof -
  obtain opts where plan: "cli_plan cli_example cli_argv = RunSync opts" using cli_example_plan by blast
  from cli_sync_needs_settings [OF cli_example_args plan]
  have "so_dryRun opts" "\<exists>path xs. load_addresses (ce_fs cli_example) path = Ret xs \<and> so_addresses opts = xs"
    by (auto simp: arg_on_def)
  with plan show ?thesis by blast
qed

text \<open>
  The exit code is 0 exactly when help or a result was printed, and 1 otherwise; the documented
  code for an exceeded deadline never occurs.
\<close>

theorem cli_exit_codes:
  assumes "runCli globals env argv w (out, w')"
  shows "co_exit out = (if cli_plan env argv = Help \<or> co_stdout out \<noteq> None then 0 else 1)
    \<and> co_exit out \<noteq> EXIT_CODE_DEADLINE_EXCEEDED"
  using assms
  by cases (simp_all add: result_deadlineExceeded_def EXIT_CODE_DEADLINE_EXCEEDED_def)

theorem cli_exit_codes_witness:
  "co_exit \<lparr>co_exit = 1, co_stdout = None, co_error = Some (reference_error ''maxDurationMs'')\<rparr>
     \<noteq> EXIT_CODE_DEADLINE_EXCEEDED"
proof -
  obtain opts where plan: "cli_plan cli_example cli_argv = RunSync opts" using cli_example_plan by blast
  have "runCli (\<lambda>_. None) cli_example cli_argv 0
      (\<lparr>co_exit = 1, co_stdout = None, co_error = Some (reference_error ''maxDurationMs'')\<rparr>, 0)"
    by (rule sync_throws [OF plan]) (rule unbound, simp)
  from cli_exit_codes [OF this] show ?thesis by blast
qed

text \<open>
  As shipped, no command line syncs anything: where no global \<open>maxDurationMs\<close> exists, every run
  that does not just print the help exits with 1, prints no result and leaves the world as it was.
\<close>

theorem cli_never_syncs:
  assumes "runCli (\<lambda>_. None) env argv w (out, w')" and "cli_plan env argv \<noteq> Help"
  shows "co_exit out = 1 \<and> co_stdout out = None \<and> w' = w"
  using assms by cases (auto elim: syncSanctionsToDenylist.cases)

theorem cli_never_syncs_witness:
  "\<exists>out. runCli (\<lambda>_. None) cli_example cli_argv 0 (out, 0) \<and> co_exit out = 1 \<and> co_stdout out = None"
proof -
  obtain opts where plan: "cli_plan cli_example cli_argv = RunSync opts" using cli_example_plan by blast
  have run: "runCli (\<lambda>_. None) cli_example cli_argv 0
      (\<lparr>co_exit = 1, co_stdout = None, co_error = Some (reference_error ''maxDurationMs'')\<rparr>, 0)"
    by (rule sync_throws [OF plan]) (rule unbound, simp)
  with cli_never_syncs [OF run] plan show ?thesis by (metis cli_plan.distinct(5))
qed

end
