(* ===== verification/Errors.thy ===== *)
theory Errors
  imports Json
begin

text \<open>
  \<open>sep10-auth/src/errors.ts\<close>: the machine-readable codes and the JSON error body that the middleware,
  the rate limiter and the router share.
\<close>

datatype sep10_code =
    MissingToken | MalformedToken | TokenTooLarge | InvalidToken | TokenRevoked
  | RateLimitExceeded
  | MissingAccount | InvalidAccount | InvalidHomeDomain | ClientDomainUnsupported | InvalidClientDomain
  | InvalidMemo | InvalidDomain
  | MissingTransaction | TransactionTooLarge | InvalidTransaction

fun code_string :: "sep10_code \<Rightarrow> string" where
  "code_string MissingToken = ''missing_token''"
| "code_string MalformedToken = ''malformed_token''"
| "code_string TokenTooLarge = ''token_too_large''"
| "code_string InvalidToken = ''invalid_token''"
| "code_string TokenRevoked = ''token_revoked''"
| "code_string RateLimitExceeded = ''rate_limit_exceeded''"
| "code_string MissingAccount = ''missing_account''"
| "code_string InvalidAccount = ''invalid_account''"
| "code_string InvalidHomeDomain = ''invalid_home_domain''"
| "code_string ClientDomainUnsupported = ''client_domain_unsupported''"
| "code_string InvalidClientDomain = ''invalid_client_domain''"
| "code_string InvalidMemo = ''invalid_memo''"
| "code_string InvalidDomain = ''invalid_domain''"
| "code_string MissingTransaction = ''missing_transaction''"
| "code_string TransactionTooLarge = ''transaction_too_large''"
| "code_string InvalidTransaction = ''invalid_transaction''"

text \<open>The body, with its details as the properties of an object.\<close>

record error_body =
  eb_error :: string
  eb_code :: sep10_code
  eb_details :: "(string \<times> json) list option"

definition makeErrorBody :: "string \<Rightarrow> sep10_code \<Rightarrow> (string \<times> json) list option \<Rightarrow> error_body" where
  "makeErrorBody error code details = \<lparr>eb_error = error, eb_code = code, eb_details = details\<rparr>"

definition error_json :: "error_body \<Rightarrow> json" where
  "error_json body = JObj ([(''error'', JStr (eb_error body)), (''code'', JStr (code_string (eb_code body)))]
     @ (case eb_details body of None \<Rightarrow> [] | Some d \<Rightarrow> [(''details'', JObj d)]))"

text \<open>What a handler does with a request: pass it on, hand an error on, or answer it.\<close>

record http_response =
  hr_status :: int
  hr_headers :: "(string \<times> string) list"
  hr_body :: json

datatype handled = Next | NextError thrown | Respond http_response

text \<open>\<open>res.status(s).json(body)\<close>\<close>

definition json_answer :: "int \<Rightarrow> json \<Rightarrow> handled" where
  "json_answer status body = Respond \<lparr>hr_status = status, hr_headers = [], hr_body = body\<rparr>"

lemma code_string_inj: "code_string c = code_string d \<longleftrightarrow> c = d"
  by (cases c; cases d) simp_all

end
