(* ===== verification/RateLimiter.thy ===== *)
theory RateLimiter
  imports Errors
begin

text \<open>
  \<open>sep10-auth/src/rate-limiter.ts\<close>: the in-memory sliding-window store, its sweep timer, and the
  request handler built over any store. Times are in milliseconds. The store of a user is the
  parameter \<open>consume\<close>; its promise may reject.
\<close>

section \<open>The store\<close>

text \<open>\<open>None\<close> for \<open>resetAt\<close> is \<open>NaN\<close>, the sum of \<open>undefined\<close> and the window.\<close>

record rate_decision =
  dec_allowed :: bool
  dec_count :: nat
  dec_resetAt :: "int option"

text \<open>\<open>rs_sweepTimer\<close> is the window the timer was armed with.\<close>

record rate_store =
  rs_entries :: "(string, int list) jsmap"
  rs_sweepTimer :: "int option"

definition new_rate_store :: rate_store where
  "new_rate_store = \<lparr>rs_entries = [], rs_sweepTimer = None\<rparr>"

definition ensureSweepTimer :: "int \<Rightarrow> rate_store \<Rightarrow> rate_store" where
  "ensureSweepTimer windowMs s =
     (case rs_sweepTimer s of Some w \<Rightarrow> s | None \<Rightarrow> s\<lparr>rs_sweepTimer := Some windowMs\<rparr>)"

definition in_window :: "int \<Rightarrow> int \<Rightarrow> int list \<Rightarrow> int list" where
  "in_window windowMs now = filter (\<lambda>t. now - t < windowMs)"

definition reset_of :: "int \<Rightarrow> int list \<Rightarrow> int option" where
  "reset_of windowMs timestamps = (case timestamps of [] \<Rightarrow> None | t # ts \<Rightarrow> Some (t + windowMs))"

definition rate_consume :: "string \<Rightarrow> int \<Rightarrow> int \<Rightarrow> int \<Rightarrow> rate_store \<Rightarrow> rate_decision \<times> rate_store" where
  "rate_consume key now windowMs maxRequests s =
     (let s = ensureSweepTimer windowMs s;
          timestamps = (case map_get (rs_entries s) key of None \<Rightarrow> [] | Some ts \<Rightarrow> ts);
          timestamps = in_window windowMs now timestamps
      in if maxRequests \<le> int (length timestamps) then
           (\<lparr>dec_allowed = False, dec_count = length timestamps, dec_resetAt = reset_of windowMs timestamps\<rparr>,
            s\<lparr>rs_entries := map_set key timestamps (rs_entries s)\<rparr>)
         else
           (let timestamps = timestamps @ [now] in
            (\<lparr>dec_allowed = True, dec_count = length timestamps, dec_resetAt = reset_of windowMs timestamps\<rparr>,
             s\<lparr>rs_entries := map_set key timestamps (rs_entries s)\<rparr>)))"

text \<open>The callback of the timer: it prunes with the window it was armed with.\<close>

definition sweep :: "int \<Rightarrow> rate_store \<Rightarrow> rate_store" where
  "sweep now s =
     (case rs_sweepTimer s of
        None \<Rightarrow> s
      | Some windowMs \<Rightarrow>
          s\<lparr>rs_entries := filter (\<lambda>(key, ts). ts \<noteq> []) (map (\<lambda>(key, ts). (key, in_window windowMs now ts)) (rs_entries s))\<rparr>)"

section \<open>The handler\<close>

text \<open>An option that should be a positive integer: an integer, or any other number as it prints.\<close>

datatype js_number = Whole int | OtherNumber string

fun number_text :: "js_number \<Rightarrow> string" where
  "number_text (Whole i) = dec_of_int i"
| "number_text (OtherNumber s) = s"

definition validatePositiveInteger :: "js_number \<Rightarrow> string \<Rightarrow> thrown + int" where
  "validatePositiveInteger val optionName =
     (let err = mk_error (''rateLimiter: '' @ [CHR 0x22] @ optionName @ [CHR 0x22] @ '' must be a positive integer. Received ''
                  @ number_text val @ ''.'') in
      case val of
        Whole i \<Rightarrow> if i \<le> 0 then Throw err else Ret i
      | OtherNumber s \<Rightarrow> Throw err)"

record client_request =
  req_ip :: "string option"
  req_remoteAddress :: "string option"

definition defaultKeyGenerator :: "'x client_request_scheme \<Rightarrow> string" where
  "defaultKeyGenerator req =
     (case req_ip req of Some ip \<Rightarrow> ip | None \<Rightarrow>
        (case req_remoteAddress req of Some a \<Rightarrow> a | None \<Rightarrow> ''unknown''))"

text \<open>The key generator and \<open>skip\<close> are the user's and may throw.\<close>

record 'x limiter_options =
  lo_windowMs :: "js_number option"
  lo_maxRequests :: "js_number option"
  lo_keyGenerator :: "('x client_request_scheme \<Rightarrow> thrown + string) option"
  lo_standardHeaders :: "bool option"
  lo_skip :: "('x client_request_scheme \<Rightarrow> thrown + bool) option"

record 'x limiter =
  li_windowMs :: int
  li_maxRequests :: int
  li_keyFn :: "'x client_request_scheme \<Rightarrow> thrown + string"
  li_standardHeaders :: bool
  li_skip :: "('x client_request_scheme \<Rightarrow> thrown + bool) option"

definition rateLimiter :: "'x limiter_options \<Rightarrow> thrown + 'x limiter" where
  "rateLimiter options =
     js_bind (validatePositiveInteger (case lo_windowMs options of None \<Rightarrow> Whole 60000 | Some w \<Rightarrow> w) ''windowMs'') (\<lambda>windowMs.
     js_bind (validatePositiveInteger (case lo_maxRequests options of None \<Rightarrow> Whole 100 | Some m \<Rightarrow> m) ''maxRequests'') (\<lambda>maxRequests.
     Ret \<lparr>li_windowMs = windowMs, li_maxRequests = maxRequests,
       li_keyFn = (case lo_keyGenerator options of None \<Rightarrow> (\<lambda>req. Ret (defaultKeyGenerator req)) | Some f \<Rightarrow> f),
       li_standardHeaders = (case lo_standardHeaders options of None \<Rightarrow> True | Some b \<Rightarrow> b),
       li_skip = lo_skip options\<rparr>))"

text \<open>\<open>Math.max(lower, Math.ceil((resetAt - now) / 1000))\<close>, printed and in JSON.\<close>

definition ceil_div :: "int \<Rightarrow> int \<Rightarrow> int" where
  "ceil_div a b = - ((- a) div b)"

definition seconds_left :: "int \<Rightarrow> int option \<Rightarrow> int \<Rightarrow> int option" where
  "seconds_left lower resetAt now = map_option (\<lambda>r. max lower (ceil_div (r - now) 1000)) resetAt"

definition nan_string :: "int option \<Rightarrow> string" where
  "nan_string x = (case x of None \<Rightarrow> ''NaN'' | Some i \<Rightarrow> dec_of_int i)"

definition nan_json :: "int option \<Rightarrow> json" where
  "nan_json x = (case x of None \<Rightarrow> JNull | Some i \<Rightarrow> JNum (dec_of_int i))"

definition rate_headers :: "'x limiter \<Rightarrow> int \<Rightarrow> rate_decision \<Rightarrow> (string \<times> string) list" where
  "rate_headers l now d =
     (if li_standardHeaders l then
        [(''RateLimit-Limit'', dec_of_int (li_maxRequests l)),
         (''RateLimit-Remaining'', dec_of_int (max 0 (li_maxRequests l - int (dec_count d)))),
         (''RateLimit-Reset'', nan_string (seconds_left 0 (dec_resetAt d) now))]
      else [])"

text \<open>
  The two callbacks of the decision's promise: the headers set on the response, and what becomes of
  the request.
\<close>

definition limiter_settle :: "'x limiter \<Rightarrow> int \<Rightarrow> thrown + rate_decision \<Rightarrow> (string \<times> string) list \<times> handled" where
  "limiter_settle l now r =
     (case r of
        Throw e \<Rightarrow> ([], NextError e)
      | Ret d \<Rightarrow>
          (let headers = rate_headers l now d in
           if \<not> dec_allowed d then
             (let retryAfter = seconds_left 1 (dec_resetAt d) now;
                  headers = headers @ [(''Retry-After'', nan_string retryAfter)]
              in (headers, Respond \<lparr>hr_status = 429, hr_headers = headers,
                   hr_body = error_json (makeErrorBody ''Too many requests'' RateLimitExceeded
                     (Some [(''retryAfter'', nan_json retryAfter)]))\<rparr>))
           else (headers, Next)))"

text \<open>
  What a call of the handler comes to: it settles the request, throws to its caller, or leaves an
  unhandled rejection and the request unanswered.
\<close>

datatype limiter_outcome = Settled "(string \<times> string) list \<times> handled" | Threw thrown | Unanswered thrown

definition limiter_consume ::
  "(string \<Rightarrow> int \<Rightarrow> int \<Rightarrow> int \<Rightarrow> 's \<Rightarrow> (thrown + rate_decision) \<times> 's) \<Rightarrow> 'x limiter \<Rightarrow> int \<Rightarrow> 'x client_request_scheme
     \<Rightarrow> 's \<Rightarrow> limiter_outcome \<times> 's" where
  "limiter_consume consume l now req s =
     (case li_keyFn l req of
        Throw e \<Rightarrow> (Threw e, s)
      | Ret key \<Rightarrow>
          (let (r, s) = consume key now (li_windowMs l) (li_maxRequests l) s in (Settled (limiter_settle l now r), s)))"

definition limiter_handle ::
  "(string \<Rightarrow> int \<Rightarrow> int \<Rightarrow> int \<Rightarrow> 's \<Rightarrow> (thrown + rate_decision) \<times> 's) \<Rightarrow> 'x limiter \<Rightarrow> int \<Rightarrow> 'x client_request_scheme
     \<Rightarrow> 's \<Rightarrow> limiter_outcome \<times> 's" where
  "limiter_handle consume l now req s =
     (case li_skip l of
        None \<Rightarrow> limiter_consume consume l now req s
      | Some skip \<Rightarrow>
          (case skip req of
             Throw e \<Rightarrow> (Settled ([], NextError e), s)
           | Ret True \<Rightarrow> (Settled ([], Next), s)
           | Ret False \<Rightarrow>
               (case limiter_consume consume l now req s of
                  (Threw e, s) \<Rightarrow> (Unanswered e, s)
                | (out, s) \<Rightarrow> (out, s))))"

section \<open>The contract of a store\<close>

text \<open>
  What the handler relies on while the clock does not run backwards: \<open>good t s\<close> says that the state
  was last used at \<open>t\<close>. A decision comes with a reset time in the future, at most a window ahead.
\<close>

locale rate_limit_store =
  fixes consume :: "string \<Rightarrow> int \<Rightarrow> int \<Rightarrow> int \<Rightarrow> 's \<Rightarrow> (thrown + rate_decision) \<times> 's"
    and good :: "int \<Rightarrow> 's \<Rightarrow> bool"
  assumes consume_good: "good t s \<Longrightarrow> t \<le> now \<Longrightarrow> good now (snd (consume key now w m s))"
    and consume_answers: "good t s \<Longrightarrow> t \<le> now \<Longrightarrow> 0 < w \<Longrightarrow> 0 < m \<Longrightarrow>
      \<exists>d r. fst (consume key now w m s) = Ret d \<and> dec_resetAt d = Some r \<and> now < r \<and> r \<le> now + w
        \<and> (dec_allowed d \<longrightarrow> int (dec_count d) \<le> m)"

definition refusal :: "(string \<times> string) list \<Rightarrow> int \<Rightarrow> handled" where
  "refusal headers n = Respond \<lparr>hr_status = 429, hr_headers = headers,
     hr_body = error_json (makeErrorBody ''Too many requests'' RateLimitExceeded (Some [(''retryAfter'', JNum (dec_of_int n))]))\<rparr>"

lemma ceil_div_mono: "a \<le> b \<Longrightarrow> 0 < k \<Longrightarrow> ceil_div a k \<le> ceil_div b k"
  unfolding ceil_div_def by (simp add: zdiv_mono1)

lemma ceil_div_bounds:
  assumes "0 < k"
  shows "a \<le> k * ceil_div a k" and "k * ceil_div a k < a + k"
proof -
  have "k * ((- a) div k) + (- a) mod k = - a" by (rule mult_div_mod_eq)
  moreover have "0 \<le> (- a) mod k" "(- a) mod k < k" using assms by simp_all
  moreover have "k * ceil_div a k = - (k * ((- a) div k))" by (simp only: ceil_div_def mult_minus_right)
  ultimately show "a \<le> k * ceil_div a k" and "k * ceil_div a k < a + k" by linarith+
qed

lemma ceil_div_pos: "0 < a \<Longrightarrow> 0 < k \<Longrightarrow> 0 < ceil_div a k"
  unfolding ceil_div_def by (simp add: pos_imp_zdiv_neg_iff)

lemma settle_refused:
  assumes "\<not> dec_allowed d" and "dec_resetAt d = Some r" and "now < r"
  shows "limiter_settle l now (Ret d) =
    (rate_headers l now d @ [(''Retry-After'', dec_of_int (ceil_div (r - now) 1000))],
     refusal (rate_headers l now d @ [(''Retry-After'', dec_of_int (ceil_div (r - now) 1000))]) (ceil_div (r - now) 1000))"
proof -
  have "max 1 (ceil_div (r - now) 1000) = ceil_div (r - now) 1000"
    using ceil_div_pos [of "r - now" 1000] assms(3) by simp
  with assms show ?thesis
    by (simp add: limiter_settle_def seconds_left_def nan_string_def nan_json_def refusal_def Let_def)
qed

context rate_limit_store begin

lemma settles:
  assumes "good t s" and "t \<le> now" and "0 < li_windowMs l" and "0 < li_maxRequests l"
    and "li_keyFn l req = Ret key" and "li_skip l = None"
  obtains headers out where "fst (limiter_handle consume l now req s) = Settled (headers, out)"
    and "out = Next \<or> (\<exists>n. 1 \<le> n \<and> n \<le> ceil_div (li_windowMs l) 1000 \<and> out = refusal headers n
          \<and> (''Retry-After'', dec_of_int n) \<in> set headers)"
proof -
  obtain d r where d: "fst (consume key now (li_windowMs l) (li_maxRequests l) s) = Ret d" "dec_resetAt d = Some r"
      "now < r" "r \<le> now + li_windowMs l"
    using consume_answers [OF assms(1-4), of key] by blast
  then have run: "fst (limiter_handle consume l now req s) = Settled (limiter_settle l now (Ret d))"
    using assms(5,6) by (simp add: limiter_handle_def limiter_consume_def case_prod_beta)
  show thesis
  proof (cases "dec_allowed d")
    case True
    then have "limiter_settle l now (Ret d) = (rate_headers l now d, Next)"
      by (simp add: limiter_settle_def Let_def)
    with run that show ?thesis by simp
  next
    case False
    have "1 \<le> ceil_div (r - now) 1000" using ceil_div_pos [of "r - now" 1000] d(3) by simp
    moreover have "ceil_div (r - now) 1000 \<le> ceil_div (li_windowMs l) 1000"
      by (rule ceil_div_mono) (use d(4) in simp_all)
    ultimately show ?thesis
      using that [OF run [unfolded settle_refused [OF False d(2,3)]]] by auto
  qed
qed

end

section \<open>The in-memory store meets it\<close>

definition stamps :: "rate_store \<Rightarrow> string \<Rightarrow> int list" where
  "stamps s key = (case map_get (rs_entries s) key of None \<Rightarrow> [] | Some ts \<Rightarrow> ts)"

definition memory_consume :: "string \<Rightarrow> int \<Rightarrow> int \<Rightarrow> int \<Rightarrow> rate_store \<Rightarrow> (thrown + rate_decision) \<times> rate_store" where
  "memory_consume key now w m s = (let (d, s) = rate_consume key now w m s in (Ret d, s))"

text \<open>What a decision is, given the timestamps in the window.\<close>

definition decide :: "int \<Rightarrow> int \<Rightarrow> int \<Rightarrow> int list \<Rightarrow> rate_decision" where
  "decide w m now ts =
     (if m \<le> int (length ts) then \<lparr>dec_allowed = False, dec_count = length ts, dec_resetAt = reset_of w ts\<rparr>
      else \<lparr>dec_allowed = True, dec_count = Suc (length ts), dec_resetAt = reset_of w (ts @ [now])\<rparr>)"

lemma fst_rate_consume: "fst (rate_consume key now w m s) = decide w m now (in_window w now (stamps s key))"
  by (simp add: rate_consume_def decide_def stamps_def ensureSweepTimer_def Let_def split: option.splits)

lemma stamps_new [simp]: "stamps new_rate_store k = []"
  by (simp add: stamps_def new_rate_store_def)

lemma stamps_consume:
  "stamps (snd (rate_consume key now w m s)) k =
     (if k = key then in_window w now (stamps s key)
        @ (if dec_allowed (decide w m now (in_window w now (stamps s key))) then [now] else [])
      else stamps s k)"
  by (simp add: rate_consume_def decide_def stamps_def ensureSweepTimer_def map_simps Let_def split: option.splits)

lemma timer_consume:
  "rs_sweepTimer (snd (rate_consume key now w m s)) = (case rs_sweepTimer s of None \<Rightarrow> Some w | Some v \<Rightarrow> Some v)"
  by (simp add: rate_consume_def ensureSweepTimer_def Let_def split: option.splits)

lemma wf_consume: "map_wf (rs_entries s) \<Longrightarrow> map_wf (rs_entries (snd (rate_consume key now w m s)))"
  by (simp add: rate_consume_def ensureSweepTimer_def Let_def split: option.splits)

lemma map_get_mapped: "map_get (map (\<lambda>(key, ts). (key, f ts)) m) k = map_option f (map_get m k)"
  by (induction m) auto

lemma map_wf_mapped [simp]: "map_wf (map (\<lambda>(key, ts). (key, f ts)) m) \<longleftrightarrow> map_wf m"
  unfolding map_wf_def by (simp add: comp_def case_prod_beta)

lemma stamps_sweep:
  assumes "map_wf (rs_entries s)"
  shows "stamps (sweep now s) k = (case rs_sweepTimer s of None \<Rightarrow> stamps s k | Some w \<Rightarrow> in_window w now (stamps s k))"
  using assms
  by (auto simp: stamps_def sweep_def map_get_filter map_get_mapped in_window_def split: option.splits)

lemma timer_sweep [simp]: "rs_sweepTimer (sweep now s) = rs_sweepTimer s"
  by (simp add: sweep_def split: option.splits)

lemma wf_sweep [simp]: "map_wf (rs_entries s) \<Longrightarrow> map_wf (rs_entries (sweep now s))"
  by (simp add: sweep_def split: option.splits)

definition used_by :: "int \<Rightarrow> rate_store \<Rightarrow> bool" where
  "used_by t s \<longleftrightarrow> (\<forall>k. \<forall>x \<in> set (stamps s k). x \<le> t)"

lemma decide_reset:
  assumes "\<forall>x \<in> set ts. x \<le> now \<and> now - x < w" and "0 < w" and "0 < m"
  shows "\<exists>r. dec_resetAt (decide w m now ts) = Some r \<and> now < r \<and> r \<le> now + w"
  using assms by (cases ts) (auto simp: decide_def reset_of_def)

interpretation memory_store: rate_limit_store memory_consume used_by
proof
  fix t s now key and w m :: int
  assume good: "used_by t s" "t \<le> now"
  show "used_by now (snd (memory_consume key now w m s))"
  proof -
    have "x \<le> now" if "x \<in> set (stamps (snd (rate_consume key now w m s)) k)" for x k
      using that good by (fastforce simp: used_by_def stamps_consume in_window_def split: if_splits)
    then show ?thesis by (simp add: used_by_def memory_consume_def split: prod.splits)
  qed
  assume w: "0 < w" and m: "0 < m"
  have "\<forall>x \<in> set (in_window w now (stamps s key)). x \<le> now \<and> now - x < w"
    using good by (fastforce simp: used_by_def in_window_def)
  from decide_reset [OF this w m]
  show "\<exists>d r. fst (memory_consume key now w m s) = Ret d \<and> dec_resetAt d = Some r \<and> now < r \<and> r \<le> now + w
      \<and> (dec_allowed d \<longrightarrow> int (dec_count d) \<le> m)"
    by (auto simp: memory_consume_def case_prod_beta fst_rate_consume decide_def split: if_splits)
qed

section \<open>A history of requests\<close>

text \<open>
  A single limiter's requests and the firing of the sweep timer, in time order, and the log of
  decisions they produce.
\<close>

datatype rate_event = Consume string int | Sweep int

fun event_time :: "rate_event \<Rightarrow> int" where
  "event_time (Consume key now) = now"
| "event_time (Sweep now) = now"

type_synonym rate_log = "(string \<times> int \<times> rate_decision) list"

fun rate_run :: "int \<Rightarrow> int \<Rightarrow> rate_event list \<Rightarrow> rate_store \<Rightarrow> rate_log" where
  "rate_run w m [] s = []"
| "rate_run w m (Consume key now # es) s =
     (let (d, s) = rate_consume key now w m s in (key, now, d) # rate_run w m es s)"
| "rate_run w m (Sweep now # es) s = rate_run w m es (sweep now s)"

text \<open>The limiter with a perfect memory: it decides from the whole log of allowed requests.\<close>

definition allowed_times :: "rate_log \<Rightarrow> string \<Rightarrow> int list" where
  "allowed_times lg k = map (\<lambda>(key, now, d). now) (filter (\<lambda>(key, now, d). key = k \<and> dec_allowed d) lg)"

fun log_run :: "int \<Rightarrow> int \<Rightarrow> rate_event list \<Rightarrow> rate_log \<Rightarrow> rate_log" where
  "log_run w m [] lg = []"
| "log_run w m (Consume key now # es) lg =
     (let d = decide w m now (in_window w now (allowed_times lg key)) in
      (key, now, d) # log_run w m es (lg @ [(key, now, d)]))"
| "log_run w m (Sweep now # es) lg = log_run w m es lg"

lemma allowed_times_snoc [simp]:
  "allowed_times (lg @ [(key, now, d)]) k = allowed_times lg k @ (if key = k \<and> dec_allowed d then [now] else [])"
  by (simp add: allowed_times_def)

lemma in_window_later: "now \<le> t \<Longrightarrow> in_window w t (in_window w now ts) = in_window w t ts"
  by (induction ts) (auto simp: in_window_def)

lemma in_window_Nil [simp]: "in_window w t [] = []"
  by (simp add: in_window_def)

lemma in_window_append [simp]: "in_window w t (xs @ ys) = in_window w t xs @ in_window w t ys"
  by (simp add: in_window_def)

definition remembers :: "int \<Rightarrow> int \<Rightarrow> rate_log \<Rightarrow> rate_store \<Rightarrow> bool" where
  "remembers w now lg s \<longleftrightarrow> map_wf (rs_entries s) \<and> (rs_sweepTimer s = None \<or> rs_sweepTimer s = Some w)
     \<and> (\<forall>k t. now \<le> t \<longrightarrow> in_window w t (stamps s k) = in_window w t (allowed_times lg k))"

lemma remembers_consume:
  assumes r: "remembers w t lg s" and now: "t \<le> now"
  shows "fst (rate_consume key now w m s) = decide w m now (in_window w now (allowed_times lg key))"
    and "remembers w now (lg @ [(key, now, fst (rate_consume key now w m s))]) (snd (rate_consume key now w m s))"
proof -
  have eq: "in_window w u (stamps s k) = in_window w u (allowed_times lg k)" if "t \<le> u" for u k
    using r that by (simp add: remembers_def)
  show d: "fst (rate_consume key now w m s) = decide w m now (in_window w now (allowed_times lg key))"
    using now by (simp add: fst_rate_consume eq)
  have "in_window w u (stamps (snd (rate_consume key now w m s)) k)
      = in_window w u (allowed_times (lg @ [(key, now, fst (rate_consume key now w m s))]) k)" if "now \<le> u" for u k
    using that now unfolding d by (auto simp: stamps_consume in_window_later eq)
  moreover have "rs_sweepTimer (snd (rate_consume key now w m s)) = Some w"
    using r by (auto simp: timer_consume remembers_def)
  ultimately show "remembers w now (lg @ [(key, now, fst (rate_consume key now w m s))]) (snd (rate_consume key now w m s))"
    using r by (simp add: remembers_def wf_consume)
qed

lemma remembers_sweep: "remembers w t lg s \<Longrightarrow> t \<le> now \<Longrightarrow> remembers w now lg (sweep now s)"
  by (auto simp: remembers_def stamps_sweep in_window_later split: option.splits)

lemma remembers_new: "remembers w t [] new_rate_store"
  by (simp add: remembers_def new_rate_store_def stamps_def allowed_times_def)

lemma run_remembers:
  "remembers w t lg s \<Longrightarrow> sorted (map event_time es) \<Longrightarrow> \<forall>e \<in> set es. t \<le> event_time e \<Longrightarrow>
     rate_run w m es s = log_run w m es lg"
proof (induction w m es s arbitrary: t lg rule: rate_run.induct)
  case (2 w m key now es s)
  have "t \<le> now" using 2(4) by simp
  note step = remembers_consume [OF 2(2) this, of key m]
  obtain d s' where c: "rate_consume key now w m s = (d, s')" by fastforce
  have "rate_run w m es s' = log_run w m es (lg @ [(key, now, d)])"
    by (rule 2(1) [OF c [symmetric] refl step(2) [unfolded c fst_conv snd_conv]]) (use 2(3) in auto)
  with step(1) show ?case by (simp add: c Let_def)
next
  case (3 w m now es s)
  have "t \<le> now" using 3(4) by simp
  from 3(1) [OF remembers_sweep [OF 3(2) this]] 3(3) show ?case by simp
qed simp

lemma store_is_log:
  assumes "sorted (map event_time es)"
  shows "rate_run w m es new_rate_store = log_run w m es []"
proof (cases es)
  case (Cons e es')
  with assms have "\<forall>x \<in> set es. event_time e \<le> event_time x" by auto
  with run_remembers [OF remembers_new assms] show ?thesis .
qed simp

text \<open>
  C19. Pruning and sweeping lose nothing: over any history in time order, the store decides exactly as
  a limiter that keeps the whole log of allowed requests, key by key.
\<close>

theorem rate_store_refines_log:
  assumes "sorted (map event_time es)"
  shows "rate_run w m es new_rate_store = log_run w m es []"
  using assms by (rule store_is_log)

theorem rate_store_refines_log_witness:
  "rate_run 10 1 [Consume ''a'' 0, Sweep 9, Consume ''a'' 9, Sweep 10, Consume ''a'' 11] new_rate_store
    = log_run 10 1 [Consume ''a'' 0, Sweep 9, Consume ''a'' 9, Sweep 10, Consume ''a'' 11] []"
  by (rule rate_store_refines_log) simp

definition count_in :: "int \<Rightarrow> int \<Rightarrow> int list \<Rightarrow> nat" where
  "count_in w t ts = length (filter (\<lambda>x. t - w < x \<and> x \<le> t) ts)"

lemma count_in_snoc [simp]: "count_in w t (ts @ us) = count_in w t ts + count_in w t us"
  by (simp add: count_in_def)

lemma count_in_le_window:
  assumes "\<forall>x \<in> set ts. x \<le> now" and "now \<le> t"
  shows "count_in w t ts \<le> length (in_window w now ts)"
proof -
  have "filter (\<lambda>x. t - w < x \<and> x \<le> t) ts = filter (\<lambda>x. t - w < x) (in_window w now ts)"
    using assms by (induction ts) (auto simp: in_window_def)
  then show ?thesis by (simp add: count_in_def)
qed

lemma log_run_bounded:
  assumes "0 \<le> m"
  shows "sorted (map event_time es) \<Longrightarrow> \<forall>x \<in> set (allowed_times lg k). \<forall>e \<in> set es. x \<le> event_time e \<Longrightarrow>
    int (count_in w t (allowed_times lg k)) \<le> m \<Longrightarrow>
    int (count_in w t (allowed_times (lg @ log_run w m es lg) k)) \<le> m"
proof (induction es arbitrary: lg)
  case (Cons e es)
  show ?case
  proof (cases e)
    case (Consume key now)
    let ?d = "decide w m now (in_window w now (allowed_times lg key))"
    let ?lg = "lg @ [(key, now, ?d)]"
    have old: "\<forall>x \<in> set (allowed_times lg k). x \<le> now" using Cons.prems(2) Consume by simp
    have "int (count_in w t (allowed_times ?lg k)) \<le> m"
    proof (cases "key = k \<and> dec_allowed ?d \<and> now \<le> t")
      case True
      then have "int (length (in_window w now (allowed_times lg k))) < m" by (auto simp: decide_def split: if_splits)
      moreover have "count_in w t [now] \<le> 1" by (simp add: count_in_def)
      moreover have "count_in w t (allowed_times lg k) \<le> length (in_window w now (allowed_times lg k))"
        by (rule count_in_le_window [OF old]) (use True in simp)
      ultimately show ?thesis using True by (auto simp: count_in_def)
    next
      case False
      then have "count_in w t (if key = k \<and> dec_allowed ?d then [now] else []) = 0" by (auto simp: count_in_def)
      then show ?thesis using Cons.prems(3) by simp
    qed
    then have "int (count_in w t (allowed_times (?lg @ log_run w m es ?lg) k)) \<le> m"
      by (intro Cons.IH) (use Cons.prems Consume in auto)
    then show ?thesis by (simp add: Consume Let_def)
  qed (use Cons in auto)
qed simp

text \<open>
  C20. The limit holds in every window: whatever the requests, the keys and the sweeps, no interval of
  the window's length contains more than \<open>maxRequests\<close> allowed requests of one key.
\<close>

theorem sliding_window_bound:
  assumes "sorted (map event_time es)" and "0 \<le> m"
  shows "int (count_in w t (allowed_times (rate_run w m es new_rate_store) k)) \<le> m"
  using log_run_bounded [OF assms(2,1), of "[]" k w t] assms(2)
  by (simp add: store_is_log [OF assms(1)] allowed_times_def count_in_def)

theorem sliding_window_bound_witness:
  "int (count_in 10 14 (allowed_times (rate_run 10 2 [Consume ''a'' 0, Consume ''a'' 5, Sweep 10, Consume ''a'' 12, Consume ''a'' 13]
      new_rate_store) ''a'')) \<le> 2"
  by (rule sliding_window_bound) simp_all

section \<open>Answers to clients\<close>

lemma handle_memory:
  assumes "li_keyFn l req = Ret key" and "li_skip l = None"
  shows "limiter_handle memory_consume l now req s =
    (Settled (limiter_settle l now (Ret (decide (li_windowMs l) (li_maxRequests l) now (in_window (li_windowMs l) now (stamps s key))))),
     snd (rate_consume key now (li_windowMs l) (li_maxRequests l) s))"
  using assms fst_rate_consume [of key now "li_windowMs l" "li_maxRequests l" s]
  by (simp add: limiter_handle_def limiter_consume_def memory_consume_def case_prod_beta)

text \<open>
  A validated limiter answers every request: it passes it on, or refuses it with status 429, the
  code \<open>rate_limit_exceeded\<close> and a \<open>Retry-After\<close> between one second and the length of the window.
\<close>

theorem limiter_answers:
  assumes "rateLimiter options = Ret l" and "lo_skip options = None" and "lo_keyGenerator options = None"
    and "used_by t s" and "t \<le> now"
  shows "\<exists>headers out n. fst (limiter_handle memory_consume l now req s) = Settled (headers, out)
    \<and> out \<in> {Next, refusal headers n} \<and> 1 \<le> n \<and> n \<le> ceil_div (li_windowMs l) 1000"
proof -
  have l: "li_skip l = None" "0 < li_windowMs l" "0 < li_maxRequests l" "li_keyFn l req = Ret (defaultKeyGenerator req)"
    using assms(1-3) by (auto simp: rateLimiter_def validatePositiveInteger_def js_bind_def Let_def
      split: js_number.splits if_splits sum.splits)
  have "1 \<le> ceil_div (li_windowMs l) 1000" using ceil_div_pos [of "li_windowMs l" 1000] l(2) by simp
  with memory_store.settles [OF assms(4,5) l(2,3,4,1)] show ?thesis by (metis insertCI order_refl)
qed

theorem limiter_answers_witness:
  "\<exists>l headers out n. rateLimiter \<lparr>lo_windowMs = Some (Whole 30000), lo_maxRequests = Some (Whole 1), lo_keyGenerator = None,
        lo_standardHeaders = None, lo_skip = None\<rparr> = Ret l
    \<and> fst (limiter_handle memory_consume l 5 \<lparr>req_ip = Some ''::1'', req_remoteAddress = None\<rparr> new_rate_store) = Settled (headers, out)
    \<and> out \<in> {Next, refusal headers n} \<and> 1 \<le> n \<and> n \<le> ceil_div (li_windowMs l) 1000"
proof -
  let ?options = "\<lparr>lo_windowMs = Some (Whole 30000), lo_maxRequests = Some (Whole 1), lo_keyGenerator = None,
        lo_standardHeaders = None, lo_skip = None\<rparr> :: unit limiter_options"
  obtain l where l: "rateLimiter ?options = Ret l"
    by (simp add: rateLimiter_def validatePositiveInteger_def Let_def)
  have "used_by 0 new_rate_store" by (simp add: used_by_def stamps_def new_rate_store_def)
  from limiter_answers [OF l _ _ this, of 5 "\<lparr>req_ip = Some ''::1'', req_remoteAddress = None\<rparr>"] l show ?thesis by simp
qed

text \<open>
  \<open>Retry-After\<close> is enough: a client that is refused and waits that many seconds is let in, if
  nobody else used its key in between.
\<close>

theorem retry_after_suffices:
  assumes "li_keyFn l req = Ret key" and "li_skip l = None" and "0 < li_maxRequests l"
    and "used_by t s" and "t \<le> now" and "int (length (stamps s key)) \<le> li_maxRequests l"
    and "limiter_handle memory_consume l now req s = (Settled (headers, Respond resp), s')"
    and "map_get (hr_headers resp) ''Retry-After'' = Some (dec_of_int n)" and "now + 1000 * n \<le> later"
  shows "\<exists>headers. fst (limiter_handle memory_consume l later req s') = Settled (headers, Next)"
proof -
  let ?w = "li_windowMs l" and ?m = "li_maxRequests l"
  let ?ts = "in_window ?w now (stamps s key)"
  let ?d = "decide ?w ?m now ?ts"
  have run: "limiter_settle l now (Ret ?d) = (headers, Respond resp)" "s' = snd (rate_consume key now ?w ?m s)"
    using assms(7) unfolding handle_memory [OF assms(1,2)] by simp_all
  then have denied: "\<not> dec_allowed ?d" by (auto simp: limiter_settle_def Let_def)
  then have full: "?m \<le> int (length ?ts)" by (auto simp: decide_def split: if_splits)
  with assms(3) obtain x xs where ts: "?ts = x # xs" by (cases ?ts) auto
  have x: "now - x < ?w" using ts by (auto simp: in_window_def filter_eq_Cons_iff)
  have reset: "dec_resetAt ?d = Some (x + ?w)" using full ts by (simp add: decide_def reset_of_def)
  from x have "now < x + ?w" by simp
  from settle_refused [OF denied reset this, of l] run(1)
  have "hr_headers resp = rate_headers l now ?d @ [(''Retry-After'', dec_of_int (ceil_div (x + ?w - now) 1000))]"
    by (auto simp: refusal_def)
  then have n: "n = ceil_div (x + ?w - now) 1000"
    using assms(8) by (simp add: rate_headers_def split: if_splits)
  have "x + ?w \<le> later"
    using ceil_div_bounds(1) [of 1000 "x + ?w - now"] assms(9) unfolding n by linarith
  then have "in_window ?w later ?ts = in_window ?w later xs" unfolding ts by (simp add: in_window_def)
  moreover have "length (in_window ?w later xs) \<le> length xs" by (simp add: in_window_def)
  moreover have "int (Suc (length xs)) \<le> ?m"
    using assms(6) ts length_filter_le [of "\<lambda>t. now - t < ?w" "stamps s key"] by (simp add: in_window_def)
  moreover have "stamps s' key = ?ts" using denied by (simp add: run(2) stamps_consume)
  ultimately have "dec_allowed (decide ?w ?m later (in_window ?w later (stamps s' key)))" by (simp add: decide_def)
  then show ?thesis
    by (simp add: handle_memory [OF assms(1,2)] limiter_settle_def Let_def)
qed

definition example_limiter :: "unit limiter" where
  "example_limiter = \<lparr>li_windowMs = 30000, li_maxRequests = 1, li_keyFn = (\<lambda>req. Ret (defaultKeyGenerator req)),
     li_standardHeaders = True, li_skip = None\<rparr>"

theorem retry_after_suffices_witness:
  "\<exists>headers. fst (limiter_handle memory_consume example_limiter 30500 \<lparr>req_ip = None, req_remoteAddress = Some ''::1''\<rparr>
     (snd (limiter_handle memory_consume example_limiter 10500 \<lparr>req_ip = None, req_remoteAddress = Some ''::1''\<rparr>
        \<lparr>rs_entries = [(''::1'', [0])], rs_sweepTimer = Some 30000\<rparr>))) = Settled (headers, Next)"
proof -
  let ?s = "\<lparr>rs_entries = [(''::1'', [0])], rs_sweepTimer = Some 30000\<rparr>"
  let ?req = "\<lparr>req_ip = None, req_remoteAddress = Some ''::1''\<rparr>"
  have l: "li_keyFn example_limiter ?req = Ret ''::1''" "li_skip example_limiter = None"
    "li_windowMs example_limiter = 30000" "li_maxRequests example_limiter = 1"
    by (simp_all add: example_limiter_def defaultKeyGenerator_def)
  have s: "stamps ?s ''::1'' = [0]" by (simp add: stamps_def)
  have used: "used_by 0 ?s" by (auto simp: used_by_def stamps_def split: option.splits if_splits)
  have d: "decide 30000 1 10500 (in_window 30000 10500 [0]) = \<lparr>dec_allowed = False, dec_count = 1, dec_resetAt = Some 30000\<rparr>"
    by (simp add: decide_def in_window_def reset_of_def)
  have c: "ceil_div 19500 1000 = 20" by (simp add: ceil_div_def)
  let ?d = "\<lparr>dec_allowed = False, dec_count = 1, dec_resetAt = Some (30000 :: int)\<rparr>"
  let ?h = "rate_headers example_limiter 10500 ?d @ [(''Retry-After'', dec_of_int 20)]"
  have "limiter_handle memory_consume example_limiter 10500 ?req ?s =
      (Settled (?h, refusal ?h 20), snd (rate_consume ''::1'' 10500 30000 1 ?s))"
    unfolding handle_memory [OF l(1,2)] l s d using settle_refused [of ?d 30000 10500 example_limiter] by (simp add: c)
  from this [unfolded refusal_def]
  have run: "limiter_handle memory_consume example_limiter 10500 ?req ?s =
      (Settled (?h, Respond \<lparr>hr_status = 429, hr_headers = ?h, hr_body = error_json (makeErrorBody ''Too many requests''
         RateLimitExceeded (Some [(''retryAfter'', JNum (dec_of_int 20))]))\<rparr>), snd (rate_consume ''::1'' 10500 30000 1 ?s))" .
  have retry: "map_get ?h ''Retry-After'' = Some (dec_of_int 20)" by (simp add: rate_headers_def)
  have "\<exists>headers. fst (limiter_handle memory_consume example_limiter 30500 ?req (snd (rate_consume ''::1'' 10500 30000 1 ?s)))
      = Settled (headers, Next)"
    by (rule retry_after_suffices [OF l(1,2) _ used _ _ run, of 20]) (use l(4) s retry in simp_all)
  then show ?thesis unfolding run by simp
qed

section \<open>A store shared by limiters\<close>

text \<open>
  A store shared by limiters with different windows forgets too early: the sweep uses the window
  of the limiter that consumed first, so after it a key of a limiter with a longer window starts
  afresh although its timestamps are still inside that window.
\<close>

theorem shared_store_forgets:
  assumes "rs_sweepTimer s = Some short" and "map_wf (rs_entries s)" and "\<forall>x \<in> set (stamps s key). short \<le> now - x"
    and "0 < m" and "now \<le> later"
  shows "dec_allowed (fst (rate_consume key later long m (sweep now s)))"
proof -
  have "stamps (sweep now s) key = []"
    using assms(1-3) by (auto simp: stamps_sweep in_window_def filter_empty_conv)
  with assms(4) show ?thesis by (simp add: fst_rate_consume decide_def in_window_def)
qed

theorem shared_store_forgets_witness:
  "\<not> dec_allowed (fst (rate_consume ''b'' 1001 60000 1 (snd (rate_consume ''b'' 0 60000 1 (snd (rate_consume ''a'' 0 1000 9 new_rate_store))))))
    \<and> dec_allowed (fst (rate_consume ''b'' 1001 60000 1
        (sweep 1000 (snd (rate_consume ''b'' 0 60000 1 (snd (rate_consume ''a'' 0 1000 9 new_rate_store)))))))"
proof -
  let ?s = "snd (rate_consume ''b'' 0 60000 1 (snd (rate_consume ''a'' 0 1000 9 new_rate_store)))"
  have "map_wf (rs_entries new_rate_store)" "rs_sweepTimer new_rate_store = None" by (simp_all add: new_rate_store_def)
  then have s: "rs_sweepTimer ?s = Some 1000" "map_wf (rs_entries ?s)" "stamps ?s ''b'' = [0]"
    by (simp_all add: timer_consume wf_consume stamps_consume in_window_def decide_def)
  have "dec_allowed (fst (rate_consume ''b'' 1001 60000 1 (sweep 1000 ?s)))"
    by (rule shared_store_forgets [OF s(1,2)]) (simp_all add: s(3))
  moreover have "\<not> dec_allowed (fst (rate_consume ''b'' 1001 60000 1 ?s))"
    using s by (simp add: fst_rate_consume decide_def in_window_def)
  ultimately show ?thesis by simp
qed

end
