(* ===== verification/Challenge.thy ===== *)
theory Challenge
  imports Complex_Main Address
begin

text \<open>
  \<open>sep10-auth/src/challenge.ts\<close>: the validation in front of \<open>WebAuth.buildChallengeTx\<close>. The SDK's builder,
  its address checks and the clock are fields of a parameter \<open>challenge_env\<close>; logging is left out.
  \<open>CHR 0x97\<close> stands for the dash U+2014 in an error message.
\<close>

section \<open>Errors\<close>

definition invalid_client_address_error :: "string \<Rightarrow> thrown" where
  "invalid_client_address_error address =
     Exn ''InvalidClientAddressError'' (''Invalid client address: '' @ address) no_props"

definition invalid_memo_error :: "string \<Rightarrow> thrown" where
  "invalid_memo_error memo = Exn ''InvalidMemoError''
     (''Invalid memo: '' @ [CHR 0x22] @ memo @ [CHR 0x22] @ '' must be a numeric string representing a 64-bit unsigned integer'') no_props"

definition memo_with_muxed_account_error :: thrown where
  "memo_with_muxed_account_error = Exn ''MemoWithMuxedAccountError''
     ''sep10-auth: a memo cannot be combined with a muxed (M...) client account; SEP-10 identifies the sub-user by the mux id instead'' no_props"

definition invalid_timeout_error :: "string \<Rightarrow> thrown" where
  "invalid_timeout_error val = Exn ''InvalidTimeoutError''
     (''sep10-auth: timeoutSec must be a finite number greater than 0 and at most 3600, got '' @ val) no_props"

definition invalid_domain_error :: "string \<Rightarrow> string \<Rightarrow> thrown" where
  "invalid_domain_error name val = Exn ''InvalidDomainError''
     (''sep10-auth: '' @ name @ '' must be a bare domain (no scheme, path, or whitespace), got '' @ [CHR 0x22] @ val @ [CHR 0x22]) no_props"

definition unknown_home_domain_error :: "string \<Rightarrow> string list \<Rightarrow> thrown" where
  "unknown_home_domain_error requested configured = Exn ''UnknownHomeDomainError''
     (''sep10-auth: unknown home_domain '' @ [CHR 0x22] @ requested @ [CHR 0x22] @ ''; must be one of: '' @ join '', '' configured) no_props"

definition server_keypair_cannot_sign_error :: thrown where
  "server_keypair_cannot_sign_error = Exn ''ServerKeypairCannotSignError''
     (''sep10-auth: serverKeypair cannot sign '' @ [CHR 0x97] @ '' provide a keypair with a secret key, not a public-key-only keypair'') no_props"

section \<open>Domains\<close>

text \<open>The test of \<open>/:\/\/|\/|\s/\<close>.\<close>

definition not_bare :: "string \<Rightarrow> bool" where
  "not_bare s \<longleftrightarrow> str_includes ''://'' s \<or> str_includes ''/'' s \<or> list_ex is_ws s"

definition assertBareDomain :: "string \<Rightarrow> string \<Rightarrow> thrown + unit" where
  "assertBareDomain name val = (if not_bare val then Throw (invalid_domain_error name val) else Ret ())"

text \<open>An option that is one string or an array of them.\<close>

datatype one_or_many = One string | Many "string list"

fun as_array :: "one_or_many \<Rightarrow> string list" where
  "as_array (One d) = [d]"
| "as_array (Many ds) = ds"

definition resolveHomeDomain :: "string option \<Rightarrow> one_or_many \<Rightarrow> thrown + string" where
  "resolveHomeDomain requested configured =
     (let domains = as_array configured in
      if domains = [] then Throw (mk_error ''sep10-auth: configured home domains must not be empty'')
      else (case requested of
              None \<Rightarrow> Ret (hd domains)
            | Some r \<Rightarrow>
                if r = [] then Ret (hd domains)
                else if r \<notin> set domains then Throw (unknown_home_domain_error r domains)
                else Ret r))"

section \<open>Generating a challenge\<close>

text \<open>A number: its value, when it is finite, and how it prints.\<close>

record js_real =
  re_value :: "rat option"
  re_text :: string

record generate_options =
  go_homeDomain :: "string option"
  go_webAuthDomain :: "string option"
  go_networkPassphrase :: "string option"
  go_timeoutSec :: "js_real option"
  go_timeoutSeconds :: "js_real option"
  go_memo :: "string option"
  go_clientDomain :: "string option"
  go_clientSigningKey :: "string option"

record generated_challenge =
  gc_transactionXDR :: string
  gc_networkPassphrase :: string
  gc_expiresAt :: int

record keypair =
  kp_canSign :: bool
  kp_publicKey :: string

record challenge_request =
  cr_keypair :: keypair
  cr_clientAddress :: string
  cr_homeDomain :: string
  cr_timeout :: rat
  cr_networkPassphrase :: string
  cr_webAuthDomain :: string
  cr_memo :: "string option"
  cr_clientDomain :: "string option"
  cr_clientSigningKey :: "string option"

record 'w challenge_env =
  ce_isEd25519 :: "string \<Rightarrow> bool"
  ce_isMed25519 :: "string \<Rightarrow> bool"
  ce_testnet :: string
  ce_build :: "challenge_request \<Rightarrow> 'w \<Rightarrow> (thrown + string) \<times> 'w"
  ce_now :: "'w \<Rightarrow> int \<times> 'w"

definition isValidClientAddress :: "'w challenge_env \<Rightarrow> string \<Rightarrow> bool" where
  "isValidClientAddress env address \<longleftrightarrow> isValidStellarAddress (ce_isEd25519 env) address \<or> ce_isMed25519 env address"

definition memo_ok :: "string \<Rightarrow> bool" where
  "memo_ok memo \<longleftrightarrow> memo \<noteq> [] \<and> list_all is_digit memo \<and> nat_of_dec memo \<le> 2 ^ 64 - 1"

text \<open>\<open>new Date(ms)\<close> drops the fraction of a millisecond.\<close>

definition date_ms :: "rat \<Rightarrow> int" where
  "date_ms r = (if 0 \<le> r then \<lfloor>r\<rfloor> else \<lceil>r\<rceil>)"

definition challenge_timeout :: "generate_options \<Rightarrow> js_real" where
  "challenge_timeout options =
     (case go_timeoutSec options of Some t \<Rightarrow> t | None \<Rightarrow>
        (case go_timeoutSeconds options of Some t \<Rightarrow> t | None \<Rightarrow> \<lparr>re_value = Some 900, re_text = ''900''\<rparr>))"

definition check_memo :: "string \<Rightarrow> string option \<Rightarrow> thrown + unit" where
  "check_memo clientAddress memo =
     (case memo of
        None \<Rightarrow> Ret ()
      | Some m \<Rightarrow>
          if take 1 clientAddress = ''M'' then Throw memo_with_muxed_account_error
          else if \<not> memo_ok m then Throw (invalid_memo_error m) else Ret ())"

text \<open>The checks, in their order, and the request for the SDK that passes them.\<close>

definition check_challenge ::
  "'w challenge_env \<Rightarrow> string \<Rightarrow> keypair \<Rightarrow> generate_options \<Rightarrow> thrown + challenge_request" where
  "check_challenge env clientAddress serverKeypair options =
     (let homeDomain = (case go_homeDomain options of None \<Rightarrow> ''localhost:3000'' | Some d \<Rightarrow> d);
          webAuthDomain = (case go_webAuthDomain options of None \<Rightarrow> homeDomain | Some d \<Rightarrow> d);
          timeout = challenge_timeout options
      in
      if \<not> kp_canSign serverKeypair then Throw server_keypair_cannot_sign_error
      else if \<not> isValidClientAddress env clientAddress then Throw (invalid_client_address_error clientAddress)
      else js_bind (assertBareDomain ''homeDomain'' homeDomain) (\<lambda>_.
           js_bind (assertBareDomain ''webAuthDomain'' webAuthDomain) (\<lambda>_.
           js_bind (check_memo clientAddress (go_memo options)) (\<lambda>_.
             case re_value timeout of
               None \<Rightarrow> Throw (invalid_timeout_error (re_text timeout))
             | Some t \<Rightarrow>
                 if t \<le> 0 \<or> 3600 < t then Throw (invalid_timeout_error (re_text timeout))
                 else Ret \<lparr>cr_keypair = serverKeypair, cr_clientAddress = clientAddress, cr_homeDomain = homeDomain,
                   cr_timeout = t,
                   cr_networkPassphrase = (case go_networkPassphrase options of None \<Rightarrow> ce_testnet env | Some p \<Rightarrow> p),
                   cr_webAuthDomain = webAuthDomain, cr_memo = go_memo options, cr_clientDomain = go_clientDomain options,
                   cr_clientSigningKey = go_clientSigningKey options\<rparr>))))"

definition generateChallenge ::
  "'w challenge_env \<Rightarrow> string \<Rightarrow> keypair \<Rightarrow> generate_options \<Rightarrow> 'w \<Rightarrow> (thrown + generated_challenge) \<times> 'w" where
  "generateChallenge env clientAddress serverKeypair options w =
     (case check_challenge env clientAddress serverKeypair options of
        Throw e \<Rightarrow> (Throw e, w)
      | Ret req \<Rightarrow>
          (case ce_build env req w of
             (Throw e, w) \<Rightarrow> (Throw e, w)
           | (Ret transactionXDR, w) \<Rightarrow>
               (let (now, w) = ce_now env w in
                (Ret \<lparr>gc_transactionXDR = transactionXDR, gc_networkPassphrase = cr_networkPassphrase req,
                   gc_expiresAt = date_ms (of_int now + cr_timeout req * 1000)\<rparr>, w))))"

section \<open>Properties\<close>

text \<open>
  \<open>resolveHomeDomain\<close> answers with a configured domain: the requested one when it is configured,
  the first one when none is requested, and it throws otherwise.
\<close>

theorem resolveHomeDomain_cases:
  "(case resolveHomeDomain requested configured of
      Ret d \<Rightarrow> d \<in> set (as_array configured) \<and> (requested \<in> {None, Some [], Some d}) \<and> (requested \<noteq> Some d \<longrightarrow> d = hd (as_array configured))
    | Throw e \<Rightarrow> as_array configured = [] \<or> (\<exists>r. requested = Some r \<and> r \<noteq> [] \<and> r \<notin> set (as_array configured)
        \<and> e = unknown_home_domain_error r (as_array configured)))"
  by (auto simp: resolveHomeDomain_def Let_def split: option.splits)

lemma not_bare_iff: "not_bare s \<longleftrightarrow> CHR ''/'' \<in> set s \<or> (\<exists>c \<in> set s. is_ws c)"
proof -
  have "str_includes ''/'' s \<longleftrightarrow> CHR ''/'' \<in> set s" by (induction s) auto
  moreover have "str_includes ''://'' s \<Longrightarrow> CHR ''/'' \<in> set s"
    by (induction s) (auto simp: prefix_def)
  ultimately show ?thesis by (auto simp: not_bare_def list_ex_iff)
qed

text \<open>What the SDK must be asked for: the request of an acceptable call.\<close>

definition home_of :: "generate_options \<Rightarrow> string" where
  "home_of options = (case go_homeDomain options of None \<Rightarrow> ''localhost:3000'' | Some d \<Rightarrow> d)"

definition web_auth_of :: "generate_options \<Rightarrow> string" where
  "web_auth_of options = (case go_webAuthDomain options of None \<Rightarrow> home_of options | Some d \<Rightarrow> d)"

definition request_of :: "'w challenge_env \<Rightarrow> string \<Rightarrow> keypair \<Rightarrow> generate_options \<Rightarrow> rat \<Rightarrow> challenge_request" where
  "request_of env a kp options t =
     \<lparr>cr_keypair = kp, cr_clientAddress = a, cr_homeDomain = home_of options, cr_timeout = t,
      cr_networkPassphrase = (case go_networkPassphrase options of None \<Rightarrow> ce_testnet env | Some p \<Rightarrow> p),
      cr_webAuthDomain = web_auth_of options, cr_memo = go_memo options, cr_clientDomain = go_clientDomain options,
      cr_clientSigningKey = go_clientSigningKey options\<rparr>"

definition acceptable :: "'w challenge_env \<Rightarrow> string \<Rightarrow> keypair \<Rightarrow> generate_options \<Rightarrow> rat \<Rightarrow> bool" where
  "acceptable env a kp options t \<longleftrightarrow>
     kp_canSign kp \<and> isValidClientAddress env a \<and> \<not> not_bare (home_of options) \<and> \<not> not_bare (web_auth_of options)
     \<and> (\<forall>memo. go_memo options = Some memo \<longrightarrow> memo_ok memo \<and> take 1 a \<noteq> ''M'')
     \<and> re_value (challenge_timeout options) = Some t \<and> 0 < t \<and> t \<le> 3600"

lemma check_challenge_ok:
  "check_challenge env a kp options = Ret req \<longleftrightarrow>
     (\<exists>t. acceptable env a kp options t \<and> req = request_of env a kp options t)"
  unfolding check_challenge_def acceptable_def request_of_def home_of_def web_auth_of_def Let_def
    assertBareDomain_def check_memo_def js_bind_def
  by (auto split: option.splits if_splits sum.splits)

lemma date_ms_bounds:
  assumes "0 \<le> now" and "0 < t" and "t \<le> 3600"
  shows "now \<le> date_ms (of_int now + t * 1000) \<and> date_ms (of_int now + t * 1000) \<le> now + 3600 * 1000"
proof -
  have "0 \<le> of_int now + t * 1000" using assms by simp
  moreover have "now \<le> \<lfloor>of_int now + t * 1000\<rfloor>" using assms by (simp add: le_floor_iff)
  moreover have "\<lfloor>of_int now + t * 1000\<rfloor> \<le> \<lfloor>of_int (now + 3600 * 1000) :: rat\<rfloor>"
    using assms by (intro floor_mono) simp
  ultimately show ?thesis by (simp add: date_ms_def)
qed

text \<open>
  A challenge is built exactly for acceptable calls: the keypair can sign, the address is a
  \<open>G\<close> or \<open>M\<close> account, both domains are bare, a memo is an unsigned 64-bit integer and not combined
  with a muxed account, and the validity is positive and at most an hour. Otherwise nothing is
  asked of the SDK and the world is untouched.
\<close>

theorem generateChallenge_guard:
  "if \<exists>t. acceptable env a kp options t
   then \<exists>t. acceptable env a kp options t
      \<and> generateChallenge env a kp options w =
         (case ce_build env (request_of env a kp options t) w of
            (Throw e, w) \<Rightarrow> (Throw e, w)
          | (Ret xdr, w) \<Rightarrow> (let (now, w) = ce_now env w in
              (Ret \<lparr>gc_transactionXDR = xdr, gc_networkPassphrase = cr_networkPassphrase (request_of env a kp options t),
                 gc_expiresAt = date_ms (of_int now + t * 1000)\<rparr>, w)))
   else \<exists>e. generateChallenge env a kp options w = (Throw e, w)"
proof (cases "check_challenge env a kp options")
  case (Inl e)
  then have "\<nexists>t. acceptable env a kp options t" using check_challenge_ok [of env a kp options] by force
  with Inl show ?thesis by (simp add: generateChallenge_def)
next
  case (Inr req)
  then obtain t where t: "acceptable env a kp options t" "req = request_of env a kp options t"
    using check_challenge_ok by metis
  have "cr_timeout (request_of env a kp options t) = t" by (simp add: request_of_def)
  with Inr t(2) have "generateChallenge env a kp options w =
         (case ce_build env (request_of env a kp options t) w of
            (Throw e, w) \<Rightarrow> (Throw e, w)
          | (Ret xdr, w) \<Rightarrow> (let (now, w) = ce_now env w in
              (Ret \<lparr>gc_transactionXDR = xdr, gc_networkPassphrase = cr_networkPassphrase (request_of env a kp options t),
                 gc_expiresAt = date_ms (of_int now + t * 1000)\<rparr>, w)))"
    by (auto simp: generateChallenge_def Let_def split: prod.splits sum.splits)
  with t(1) show ?thesis by (simp only: if_P [OF exI]) blast
qed

text \<open>
  A challenge never outlives the hour that SEP-10 allows.
\<close>

theorem challenge_lifetime:
  assumes "fst (generateChallenge env a kp options w) = Ret c"
    and "\<And>w. 0 \<le> fst (ce_now env w)"
  shows "\<exists>now w'. now = fst (ce_now env w') \<and> now \<le> gc_expiresAt c \<and> gc_expiresAt c \<le> now + 3600 * 1000"
proof -
  from assms(1) obtain req where req: "check_challenge env a kp options = Ret req"
    by (auto simp: generateChallenge_def split: sum.splits)
  then have t: "0 < cr_timeout req" "cr_timeout req \<le> 3600"
    by (auto simp: check_challenge_ok acceptable_def request_of_def)
  from assms(1) req obtain xdr w' where "ce_build env req w = (Ret xdr, w')"
    and "gc_expiresAt c = date_ms (of_int (fst (ce_now env w')) + cr_timeout req * 1000)"
    by (auto simp: generateChallenge_def Let_def split: sum.splits prod.splits)
  with date_ms_bounds [OF assms(2) [of w'] t] show ?thesis by auto
qed

definition example_challenge_env :: "int challenge_env" where
  "example_challenge_env = \<lparr>ce_isEd25519 = (\<lambda>a. a = ''GA''), ce_isMed25519 = (\<lambda>a. a = ''MA''), ce_testnet = ''Test'',
     ce_build = (\<lambda>req w. (Ret (cr_clientAddress req), w + 1)), ce_now = (\<lambda>w. (7, w))\<rparr>"

definition example_generate_options :: generate_options where
  "example_generate_options = \<lparr>go_homeDomain = Some ''a.org'', go_webAuthDomain = None, go_networkPassphrase = None,
     go_timeoutSec = None, go_timeoutSeconds = None, go_memo = Some ''12'', go_clientDomain = None, go_clientSigningKey = None\<rparr>"

theorem challenge_lifetime_witness:
  "\<exists>c now w'. fst (generateChallenge example_challenge_env ''GA'' \<lparr>kp_canSign = True, kp_publicKey = ''GS''\<rparr> example_generate_options 0) = Ret c
    \<and> now = fst (ce_now example_challenge_env w') \<and> now \<le> gc_expiresAt c \<and> gc_expiresAt c \<le> now + 3600 * 1000"
proof -
  have "acceptable example_challenge_env ''GA'' \<lparr>kp_canSign = True, kp_publicKey = ''GS''\<rparr> example_generate_options 900"
    by (simp add: acceptable_def example_challenge_env_def example_generate_options_def isValidClientAddress_def
      isValidStellarAddress_def home_of_def web_auth_of_def challenge_timeout_def memo_ok_def nat_of_dec_def is_digit_def
      not_bare_iff is_ws_def)
  then have "check_challenge example_challenge_env ''GA'' \<lparr>kp_canSign = True, kp_publicKey = ''GS''\<rparr> example_generate_options
      = Ret (request_of example_challenge_env ''GA'' \<lparr>kp_canSign = True, kp_publicKey = ''GS''\<rparr> example_generate_options 900)"
    using check_challenge_ok by metis
  moreover have "ce_build example_challenge_env req w = (Ret (cr_clientAddress req), w + 1)"
    "ce_now example_challenge_env w = (7, w)" for req w
    by (simp_all add: example_challenge_env_def)
  ultimately obtain c where "fst (generateChallenge example_challenge_env ''GA'' \<lparr>kp_canSign = True, kp_publicKey = ''GS''\<rparr> example_generate_options 0) = Ret c"
    by (simp add: generateChallenge_def)
  moreover have "\<And>w. 0 \<le> fst (ce_now example_challenge_env w)" by (simp add: example_challenge_env_def)
  ultimately show ?thesis using challenge_lifetime by metis
qed

end
