(* ===== verification/Jwt.thy ===== *)
theory Jwt
  imports Json
begin

text \<open>
  \<open>sep10-auth/src/jwt.ts\<close>: the session token. SHA-256 and HMAC-SHA-256 of the \<open>crypto\<close> module are the
  parameters \<open>sha256\<close> and \<open>hmac\<close>; bytes are naturals below 256, and a string is its UTF-8 bytes.
\<close>

section \<open>Encoding\<close>

definition utf8_char :: "char \<Rightarrow> nat list" where
  "utf8_char c = (let n = of_char c :: nat in if n < 128 then [n] else [192 + n div 64, 128 + n mod 64])"

definition utf8 :: "string \<Rightarrow> nat list" where
  "utf8 s = concat (map utf8_char s)"

definition b64_char :: "nat \<Rightarrow> char" where
  "b64_char n =
     (if n < 26 then char_of (65 + n) else if n < 52 then char_of (97 + (n - 26))
      else if n < 62 then char_of (48 + (n - 52)) else if n = 62 then CHR ''-'' else CHR ''_'')"

text \<open>\<open>toString('base64url')\<close>: no padding.\<close>

fun base64url :: "nat list \<Rightarrow> string" where
  "base64url (a # b # c # r) =
     [b64_char (a div 4), b64_char (a mod 4 * 16 + b div 16), b64_char (b mod 16 * 4 + c div 64), b64_char (c mod 64)]
     @ base64url r"
| "base64url [a, b] = [b64_char (a div 4), b64_char (a mod 4 * 16 + b div 16), b64_char (b mod 16 * 4)]"
| "base64url [a] = [b64_char (a div 4), b64_char (a mod 4 * 16)]"
| "base64url [] = []"

definition hex_bytes :: "nat list \<Rightarrow> string" where
  "hex_bytes bs = concat (map (\<lambda>b. [to_lower_char (hex_digit (b div 16)), to_lower_char (hex_digit (b mod 16))]) bs)"

section \<open>Issuing\<close>

text \<open>The secret as bytes: a string secret is used as UTF-8. Lifetimes are whole seconds.\<close>

record jwt_options =
  jw_secret :: "nat list"
  jw_issuer :: string
  jw_subject :: string
  jw_expiresInSeconds :: "int option"
  jw_jtiSource :: "string option"
  jw_clientDomain :: "string option"
  jw_now :: "int option"

definition jwt_iat :: "int \<Rightarrow> jwt_options \<Rightarrow> int" where
  "jwt_iat clock options = (case jw_now options of None \<Rightarrow> clock | Some t \<Rightarrow> t) div 1000"

definition jwt_claims :: "(nat list \<Rightarrow> nat list) \<Rightarrow> int \<Rightarrow> jwt_options \<Rightarrow> (string \<times> json) list" where
  "jwt_claims sha256 clock options =
     (let iat = jwt_iat clock options in
      [(''iss'', JStr (jw_issuer options)), (''sub'', JStr (jw_subject options)), (''iat'', JNum (dec_of_int iat)),
       (''exp'', JNum (dec_of_int (iat + (case jw_expiresInSeconds options of None \<Rightarrow> 24 * 60 * 60 | Some e \<Rightarrow> e)))),
       (''jti'', JStr (hex_bytes (sha256 (utf8 (case jw_jtiSource options of
            None \<Rightarrow> jw_subject options @ '':'' @ dec_of_int iat | Some src \<Rightarrow> src)))))]
      @ (case jw_clientDomain options of None \<Rightarrow> [] | Some d \<Rightarrow> if d = [] then [] else [(''client_domain'', JStr d)]))"

definition jwt_header :: "(string \<times> json) list" where
  "jwt_header = [(''alg'', JStr ''HS256''), (''typ'', JStr ''JWT'')]"

definition signing_input :: "(nat list \<Rightarrow> nat list) \<Rightarrow> int \<Rightarrow> jwt_options \<Rightarrow> string" where
  "signing_input sha256 clock options =
     base64url (utf8 (stringify (JObj jwt_header))) @ ''.'' @ base64url (utf8 (stringify (JObj (jwt_claims sha256 clock options))))"

definition issueJwt ::
  "(nat list \<Rightarrow> nat list) \<Rightarrow> (nat list \<Rightarrow> nat list \<Rightarrow> nat list) \<Rightarrow> int \<Rightarrow> jwt_options \<Rightarrow> string" where
  "issueJwt sha256 hmac clock options =
     (let input = signing_input sha256 clock options in
      input @ ''.'' @ base64url (hmac (jw_secret options) (utf8 input)))"

section \<open>Decoding\<close>

definition b64_val :: "char \<Rightarrow> nat" where
  "b64_val c = (let n = of_char c :: nat in
     if c = CHR ''-'' then 62 else if c = CHR ''_'' then 63
     else if n < 58 then n - 48 + 52 else if n < 91 then n - 65 else n - 97 + 26)"

fun base64url_decode :: "string \<Rightarrow> nat list" where
  "base64url_decode (w # x # y # z # r) =
     [b64_val w * 4 + b64_val x div 16, b64_val x mod 16 * 16 + b64_val y div 4, b64_val y mod 4 * 64 + b64_val z]
     @ base64url_decode r"
| "base64url_decode [w, x, y] = [b64_val w * 4 + b64_val x div 16, b64_val x mod 16 * 16 + b64_val y div 4]"
| "base64url_decode [w, x] = [b64_val w * 4 + b64_val x div 16]"
| "base64url_decode _ = []"

lemma b64_val_char [simp]: "n < 64 \<Longrightarrow> b64_val (b64_char n) = n"
  by (auto simp: b64_val_def b64_char_def Let_def char_eq_iff simp del: of_char_eq_iff)

lemma b64_char_no_dot: "n < 64 \<Longrightarrow> b64_char n \<noteq> CHR ''.''"
  by (auto simp: b64_char_def char_eq_iff simp del: of_char_eq_iff)

lemma b64_digits:
  assumes "a < 256" "b < (256 :: nat)"
  shows "a div 4 < 64" "a mod 4 * 16 + b div 16 < 64" "a mod 4 * 16 < 64" "b mod 16 * 4 < 64"
  using assms by (auto simp: less_mult_imp_div_less)

lemma b64_digit3: "c < 256 \<Longrightarrow> b mod 16 * 4 + c div 64 < (64 :: nat)"
  by (auto simp: less_mult_imp_div_less)

lemma base64url_roundtrip: "\<forall>b \<in> set bs. b < 256 \<Longrightarrow> base64url_decode (base64url bs) = bs"
proof (induction bs rule: base64url.induct)
  case (1 a b c r)
  then have "a < 256" "b < 256" "c < 256" by simp_all
  then have "b div 16 < 16" "c div 64 < 4" by (simp_all add: less_mult_imp_div_less)
  with 1 show ?case using b64_digits [of a b] b64_digit3 [of c b] by simp
next
  case (2 a b)
  then have "b div 16 < 16" by (simp add: less_mult_imp_div_less)
  with 2 show ?case using b64_digits [of a b] by simp
next
  case (3 a)
  then show ?case using b64_digits [of a 0] by simp
qed simp

lemma base64url_no_dot: "\<forall>b \<in> set bs. b < 256 \<Longrightarrow> CHR ''.'' \<notin> set (base64url bs)"
proof (induction bs rule: base64url.induct)
  case (1 a b c r)
  then show ?case using b64_digits [of a b] b64_digit3 [of c b] b64_char_no_dot by (auto dest: sym)
next
  case (2 a b)
  then show ?case using b64_digits [of a b] b64_char_no_dot by (auto dest: sym)
next
  case (3 a)
  then show ?case using b64_digits [of a 0] b64_char_no_dot by (auto dest: sym)
qed simp

lemma utf8_char_bytes: "b \<in> set (utf8_char c) \<Longrightarrow> b < 256"
  using of_char_div_64 [of c] by (auto simp: utf8_char_def Let_def split: if_splits)

lemma utf8_bytes: "\<forall>b \<in> set (utf8 s). b < 256"
  using utf8_char_bytes by (auto simp: utf8_def)

lemma utf8_decode_char: "utf8_decode (utf8_char c @ bs) = c # utf8_decode bs"
proof (cases "(of_char c :: nat) < 128")
  case False
  have "(192 + of_char c div 64 - 192) * 64 + (128 + of_char c mod 64 - 128) = (of_char c :: nat)" by simp
  then have "char_of ((192 + of_char c div 64 - 192) * 64 + (128 + of_char c mod 64 - 128 :: nat)) = c"
    by (simp only: char_of_char)
  with False show ?thesis by (simp add: utf8_char_def Let_def)
qed (simp add: utf8_char_def)

lemma utf8_roundtrip: "utf8_decode (utf8 s) = s"
  unfolding utf8_def by (induction s) (simp_all add: utf8_decode_char)

lemma claims_ok: "json_ok (JObj (jwt_claims sha256 clock options))"
  using number_ok_dec by (auto simp: jwt_claims_def Let_def split: option.splits)

lemma split_in_three:
  "d \<notin> set x \<Longrightarrow> d \<notin> set y \<Longrightarrow> d \<notin> set z \<Longrightarrow> split_on d (x @ d # y @ d # z) = [x, y, z]"
  by (simp add: split_on_append_Cons split_on_notin)

lemma jwt_segments:
  assumes "\<And>k m. \<forall>b \<in> set (hmac k m). b < 256"
  shows "\<exists>h c sg. split_on (CHR ''.'') (issueJwt sha256 hmac clock options) = [h, c, sg]
    \<and> json_parse (utf8_decode (base64url_decode h)) = Ret (JObj [(''alg'', JStr ''HS256''), (''typ'', JStr ''JWT'')])
    \<and> json_parse (utf8_decode (base64url_decode c)) = Ret (JObj (jwt_claims sha256 clock options))
    \<and> base64url_decode sg = hmac (jw_secret options) (utf8 (h @ ''.'' @ c))"
proof -
  let ?h = "base64url (utf8 (stringify (JObj jwt_header)))"
  let ?c = "base64url (utf8 (stringify (JObj (jwt_claims sha256 clock options))))"
  let ?s = "base64url (hmac (jw_secret options) (utf8 (?h @ ''.'' @ ?c)))"
  have "CHR ''.'' \<notin> set ?h" "CHR ''.'' \<notin> set ?c" "CHR ''.'' \<notin> set ?s"
    by (intro base64url_no_dot utf8_bytes assms)+
  then have "split_on (CHR ''.'') (?h @ CHR ''.'' # ?c @ CHR ''.'' # ?s) = [?h, ?c, ?s]"
    by (rule split_in_three)
  moreover have "issueJwt sha256 hmac clock options = ?h @ CHR ''.'' # ?c @ CHR ''.'' # ?s"
    by (simp add: issueJwt_def signing_input_def)
  moreover have "json_parse (utf8_decode (base64url_decode ?h)) = Ret (JObj [(''alg'', JStr ''HS256''), (''typ'', JStr ''JWT'')])"
    by (simp only: base64url_roundtrip [OF utf8_bytes] utf8_roundtrip jwt_header_def)
      (rule json_parse_stringify, simp)
  moreover have "json_parse (utf8_decode (base64url_decode ?c)) = Ret (JObj (jwt_claims sha256 clock options))"
    by (simp only: base64url_roundtrip [OF utf8_bytes] utf8_roundtrip) (rule json_parse_stringify [OF claims_ok])
  moreover have "base64url_decode ?s = hmac (jw_secret options) (utf8 (?h @ ''.'' @ ?c))"
    by (rule base64url_roundtrip [OF assms])
  ultimately show ?thesis by metis
qed

text \<open>
  A token decodes to what went into it: it has three segments, the header and the claims come back
  from their segments as JSON, and the third segment is the MAC of the first two under the secret.
\<close>

theorem jwt_decodes:
  assumes "\<And>k m. \<forall>b \<in> set (hmac k m). b < 256"
  shows "\<exists>h c sg. split_on (CHR ''.'') (issueJwt sha256 hmac clock options) = [h, c, sg]
    \<and> json_parse (utf8_decode (base64url_decode h)) = Ret (JObj [(''alg'', JStr ''HS256''), (''typ'', JStr ''JWT'')])
    \<and> json_parse (utf8_decode (base64url_decode c)) = Ret (JObj (jwt_claims sha256 clock options))
    \<and> base64url_decode sg = hmac (jw_secret options) (utf8 (h @ ''.'' @ c))"
  by (rule jwt_segments [OF assms])

theorem jwt_decodes_witness:
  "\<exists>h c sg. split_on (CHR ''.'') (issueJwt (take 1) (\<lambda>k m. [1, 2]) 5000 \<lparr>jw_secret = [7], jw_issuer = ''https://a.b'', jw_subject = ''GA'',
       jw_expiresInSeconds = None, jw_jtiSource = None, jw_clientDomain = Some ''w.c'', jw_now = None\<rparr>) = [h, c, sg]
    \<and> json_parse (utf8_decode (base64url_decode c)) = Ret (JObj [(''iss'', JStr ''https://a.b''), (''sub'', JStr ''GA''),
       (''iat'', JNum ''5''), (''exp'', JNum ''86405''), (''jti'', JStr ''47''), (''client_domain'', JStr ''w.c'')])"
proof -
  let ?o = "\<lparr>jw_secret = [7], jw_issuer = ''https://a.b'', jw_subject = ''GA'',
       jw_expiresInSeconds = None, jw_jtiSource = None, jw_clientDomain = Some ''w.c'', jw_now = None\<rparr>"
  have "jwt_claims (take 1) 5000 ?o = [(''iss'', JStr ''https://a.b''), (''sub'', JStr ''GA''),
       (''iat'', JNum ''5''), (''exp'', JNum ''86405''), (''jti'', JStr ''47''), (''client_domain'', JStr ''w.c'')]"
    by (simp add: jwt_claims_def jwt_iat_def dec_of_int_def dec_of_nat.simps digit_char_def hex_bytes_def utf8_def utf8_char_def
      hex_digit_def to_lower_char_def) (simp_all add: char_eq_iff del: of_char_eq_iff)
  with jwt_decodes [of "\<lambda>k m. [1, 2]" "take 1" 5000 ?o] show ?thesis by fastforce
qed

end
