(* ===== verification/Verify.thy ===== *)
theory Verify
  imports Challenge Jwt
begin

text \<open>
  \<open>sep10-auth/src/verify.ts\<close>: \<open>verifyChallenge\<close> around the SDK. The SDK's parsing and signature checks,
  the ledger lookup and the clock are fields of a parameter \<open>verify_env\<close>; an SDK function gets the time
  that \<open>Date.now\<close> would give it. Memo and data bytes decode as in \<open>utf8_decode\<close>.
\<close>

section \<open>Data\<close>

record account_record =
  ac_med_threshold :: int
  ac_signers :: "(string \<times> int) list"

datatype memo_value = NoValue | Bytes "nat list" | Plain string

record challenge_tx =
  tx_memo_type :: string
  tx_memo :: memo_value
  tx_manage_data :: "(string \<times> nat list option) list"
  tx_hash :: "nat list"

text \<open>The arguments that every SDK check gets.\<close>

record sdk_args =
  sa_xdr :: string
  sa_serverAccountId :: string
  sa_networkPassphrase :: string
  sa_homeDomains :: one_or_many
  sa_webAuthDomain :: string

record 'w verify_env =
  ve_isEd25519 :: "string \<Rightarrow> bool"
  ve_testnet :: string
  ve_now :: "'w \<Rightarrow> int"
  ve_timeBounds :: "string \<Rightarrow> string \<Rightarrow> thrown + (int \<times> int) option"
  ve_readChallengeTx :: "sdk_args \<Rightarrow> int \<Rightarrow> thrown + string \<times> challenge_tx"
  ve_verifySigners :: "sdk_args \<Rightarrow> string list \<Rightarrow> int \<Rightarrow> thrown + unit"
  ve_verifyThreshold :: "sdk_args \<Rightarrow> int \<Rightarrow> (string \<times> int) list \<Rightarrow> int \<Rightarrow> thrown + unit"
  ve_baseAccount :: "string \<Rightarrow> thrown + string"

type_synonym 'w account_loader = "string \<Rightarrow> 'w \<Rightarrow> (thrown + account_record option) \<times> 'w"

record 'w verify_options =
  vo_serverAccountId :: string
  vo_networkPassphrase :: "string option"
  vo_homeDomains :: one_or_many
  vo_webAuthDomain :: one_or_many
  vo_expectedMemo :: "string option"
  vo_clockSkewToleranceSec :: "js_real option"
  vo_accountLoader :: "'w account_loader option"

datatype verify_error_code =
    InvalidServerAccountId | InvalidOptions | InvalidChallenge | ChallengeExpired | WrongSigner | WrongDomain
  | MemoMismatch | UnknownFailure

record verify_result =
  vr_valid :: bool
  vr_address :: string
  vr_clientDomain :: "string option"
  vr_jti :: "string option"
  vr_error :: "string option"
  vr_errorCode :: "verify_error_code option"

definition verify_failed :: "string \<Rightarrow> verify_error_code \<Rightarrow> verify_result" where
  "verify_failed error code = \<lparr>vr_valid = False, vr_address = [], vr_clientDomain = None, vr_jti = None,
     vr_error = Some error, vr_errorCode = Some code\<rparr>"

section \<open>Operations\<close>

text \<open>\<open>Date.now\<close> is replaced by a fixed time while \<open>fn\<close> runs and restored whether or not it throws.\<close>

definition skewed_now :: "'w verify_env \<Rightarrow> string \<Rightarrow> string \<Rightarrow> rat \<Rightarrow> int \<Rightarrow> int" where
  "skewed_now env xdr networkPassphrase toleranceSec now =
     (if toleranceSec = 0 then now
      else (case ve_timeBounds env xdr networkPassphrase of
              Throw e \<Rightarrow> now
            | Ret None \<Rightarrow> now
            | Ret (Some (minTime, maxTime)) \<Rightarrow>
                (let nowSec = now div 1000; window = 300 + toleranceSec in
                 if of_int nowSec < of_int minTime - window \<or> of_int maxTime + window < of_int nowSec then now
                 else min (max nowSec minTime) maxTime * 1000)))"

definition withClockSkewTolerance :: "'w verify_env \<Rightarrow> string \<Rightarrow> string \<Rightarrow> rat \<Rightarrow> (int \<Rightarrow> 'a) \<Rightarrow> int \<Rightarrow> 'a" where
  "withClockSkewTolerance env xdr networkPassphrase toleranceSec fn now =
     fn (skewed_now env xdr networkPassphrase toleranceSec now)"

definition encodeMemo :: "challenge_tx \<Rightarrow> string" where
  "encodeMemo tx =
     (case tx_memo tx of
        NoValue \<Rightarrow> []
      | Bytes bs \<Rightarrow> if tx_memo_type tx = ''hash'' \<or> tx_memo_type tx = ''return'' then hex_bytes bs else utf8_decode bs
      | Plain s \<Rightarrow> s)"

definition mentions :: "string \<Rightarrow> string list \<Rightarrow> bool" where
  "mentions msg subs = list_ex (\<lambda>sub. str_includes sub msg) subs"

definition classifyError :: "thrown \<Rightarrow> verify_error_code" where
  "classifyError err =
     (let msg = to_lower (if is_error err then thrown_message err else thrown_string err) in
      if mentions msg [''expired'', ''timebounds'', ''time bounds''] then ChallengeExpired
      else if mentions msg [''no signers'', ''not signed'', ''signature'', ''signer'', ''multisig'', ''signed by'', ''signing key''] then WrongSigner
      else if mentions msg [''web_auth_domain'', ''webauthdomainoperation'', ''webauthdomainkeyvalue'', ''home_domain'', ''homedomain''] then WrongDomain
      else if mentions msg [''invalid'', ''parse'', ''xdr'', ''network'', ''passphrase'', ''hash'', ''sequence'', ''source account'',
          ''operation'', ''memo''] then InvalidChallenge
      else UnknownFailure)"

definition memo_matches :: "challenge_tx \<Rightarrow> string \<Rightarrow> bool" where
  "memo_matches tx expected =
     (if tx_memo_type tx = ''hash'' \<or> tx_memo_type tx = ''return'' then encodeMemo tx = to_lower expected
      else encodeMemo tx = expected)"

definition client_domain_of :: "challenge_tx \<Rightarrow> string option" where
  "client_domain_of tx =
     (case find (\<lambda>(name, data). name = ''client_domain'') (tx_manage_data tx) of
        Some (name, Some bs) \<Rightarrow> (let d = utf8_decode bs in if d = [] then None else Some d)
      | _ \<Rightarrow> None)"

text \<open>The end of an iteration: the memo check and the success result.\<close>

definition conclude :: "'w verify_options \<Rightarrow> string \<Rightarrow> challenge_tx \<Rightarrow> verify_result" where
  "conclude options clientAccountID tx =
     (case vo_expectedMemo options of
        Some expected \<Rightarrow>
          if \<not> memo_matches tx expected then
            verify_failed (''sep10-auth: memo mismatch, expected '' @ [CHR 0x22] @ expected @ [CHR 0x22] @ '' but got '' @ [CHR 0x22]
              @ encodeMemo tx @ [CHR 0x22]) MemoMismatch
          else \<lparr>vr_valid = True, vr_address = clientAccountID, vr_clientDomain = client_domain_of tx,
            vr_jti = Some (hex_bytes (tx_hash tx)), vr_error = None, vr_errorCode = None\<rparr>
      | None \<Rightarrow> \<lparr>vr_valid = True, vr_address = clientAccountID, vr_clientDomain = client_domain_of tx,
          vr_jti = Some (hex_bytes (tx_hash tx)), vr_error = None, vr_errorCode = None\<rparr>)"

text \<open>
  One iteration of the loop over the candidate domains: it returns from the function, or throws into
  the \<open>catch\<close> that goes on to the next candidate.
\<close>

definition try_domain ::
  "'w verify_env \<Rightarrow> 'w verify_options \<Rightarrow> string \<Rightarrow> string \<Rightarrow> rat \<Rightarrow> string \<Rightarrow> 'w \<Rightarrow> (thrown + verify_result) \<times> 'w" where
  "try_domain env options networkPassphrase xdr tolerance webAuthDomain w =
     (let args = \<lparr>sa_xdr = xdr, sa_serverAccountId = vo_serverAccountId options, sa_networkPassphrase = networkPassphrase,
            sa_homeDomains = vo_homeDomains options, sa_webAuthDomain = webAuthDomain\<rparr>
      in
      case withClockSkewTolerance env xdr networkPassphrase tolerance (ve_readChallengeTx env args) (ve_now env w) of
        Throw e \<Rightarrow> (Throw e, w)
      | Ret (clientAccountID, tx) \<Rightarrow>
          (case (if take 1 clientAccountID = ''M'' then ve_baseAccount env clientAccountID else Ret clientAccountID) of
             Throw e \<Rightarrow> (Throw e, w)
           | Ret baseAccount \<Rightarrow>
               (case vo_accountLoader options of
                  None \<Rightarrow> (map_sum id (\<lambda>_. conclude options clientAccountID tx) (withClockSkewTolerance env xdr networkPassphrase tolerance
                         (ve_verifySigners env args [baseAccount]) (ve_now env w)), w)
                | Some loader \<Rightarrow>
                    (case loader baseAccount w of
                       (Throw e, w) \<Rightarrow>
                         (Ret (verify_failed (''sep10-auth: accountLoader failed: '' @ (if is_error e then thrown_message e else thrown_string e))
                            UnknownFailure), w)
                     | (Ret (Some account), w) \<Rightarrow>
                         (map_sum id (\<lambda>_. conclude options clientAccountID tx)
                            (withClockSkewTolerance env xdr networkPassphrase tolerance
                         (ve_verifyThreshold env args (ac_med_threshold account) (ac_signers account)) (ve_now env w)), w)
                     | (Ret None, w) \<Rightarrow>
                         (map_sum id (\<lambda>_. conclude options clientAccountID tx) (withClockSkewTolerance env xdr networkPassphrase tolerance
                         (ve_verifySigners env args [baseAccount]) (ve_now env w)), w)))))"

fun try_domains ::
  "'w verify_env \<Rightarrow> 'w verify_options \<Rightarrow> string \<Rightarrow> string \<Rightarrow> rat \<Rightarrow> thrown \<Rightarrow> string list \<Rightarrow> 'w \<Rightarrow> verify_result \<times> 'w" where
  "try_domains env options networkPassphrase xdr tolerance lastError [] w =
     (verify_failed (''sep10-auth: '' @ (if is_error lastError then thrown_message lastError else thrown_string lastError))
        (classifyError lastError), w)"
| "try_domains env options networkPassphrase xdr tolerance lastError (d # ds) w =
     (case try_domain env options networkPassphrase xdr tolerance d w of
        (Ret r, w) \<Rightarrow> (r, w)
      | (Throw e, w) \<Rightarrow> try_domains env options networkPassphrase xdr tolerance e ds w)"

text \<open>\<open>forEach\<close> with \<open>assertBareDomain\<close>.\<close>

fun assert_all :: "string \<Rightarrow> string list \<Rightarrow> thrown + unit" where
  "assert_all name [] = Ret ()"
| "assert_all name (d # ds) = js_bind (assertBareDomain name d) (\<lambda>_. assert_all name ds)"

definition verifyChallenge :: "'w verify_env \<Rightarrow> string \<Rightarrow> 'w verify_options \<Rightarrow> 'w \<Rightarrow> verify_result \<times> 'w" where
  "verifyChallenge env xdr options w =
     (if \<not> isValidStellarAddress (ve_isEd25519 env) (vo_serverAccountId options) then
        (verify_failed (''sep10-auth: Invalid serverAccountId: '' @ vo_serverAccountId options) InvalidServerAccountId, w)
      else
        (let networkPassphrase = (case vo_networkPassphrase options of None \<Rightarrow> ve_testnet env | Some p \<Rightarrow> p);
             skew = (case vo_clockSkewToleranceSec options of None \<Rightarrow> \<lparr>re_value = Some 0, re_text = ''0''\<rparr> | Some s \<Rightarrow> s);
             skew_error = verify_failed (''sep10-auth: clockSkewToleranceSec must be a finite, non-negative number, got '' @ re_text skew) InvalidOptions
         in
         case re_value skew of
           None \<Rightarrow> (skew_error, w)
         | Some tolerance \<Rightarrow>
             if tolerance < 0 then (skew_error, w)
             else
               (case js_bind (assert_all ''homeDomains'' (as_array (vo_homeDomains options)))
                       (\<lambda>_. assert_all ''webAuthDomain'' (as_array (vo_webAuthDomain options))) of
                  Throw e \<Rightarrow> (verify_failed (thrown_message e) InvalidOptions, w)
                | Ret _ \<Rightarrow>
                    try_domains env options networkPassphrase xdr tolerance (Nullish ''undefined'') (as_array (vo_webAuthDomain options)) w)))"

section \<open>Shape of the result\<close>

definition result_ok :: "verify_result \<Rightarrow> bool" where
  "result_ok r \<longleftrightarrow> (vr_errorCode r = None) = vr_valid r \<and> (vr_error r = None) = vr_valid r \<and> (vr_jti r \<noteq> None) = vr_valid r
     \<and> (vr_valid r \<or> vr_address r = [] \<and> vr_clientDomain r = None)"

lemma failed_ok [simp]: "result_ok (verify_failed e c)"
  by (simp add: result_ok_def verify_failed_def)

lemma failed_invalid [simp]: "\<not> vr_valid (verify_failed e c)"
  by (simp add: verify_failed_def)

lemma conclude_ok [simp]: "result_ok (conclude options a tx)"
  by (simp add: conclude_def result_ok_def verify_failed_def split: option.splits)

lemma try_domain_ok: "try_domain env options p xdr tol d w = (Ret r, w') \<Longrightarrow> result_ok r"
  by (auto simp: try_domain_def Let_def map_sum_def split: sum.splits option.splits prod.splits if_splits)

lemma try_domains_ok: "result_ok (fst (try_domains env options p xdr tol e ds w))"
  by (induction ds arbitrary: e w) (auto split: sum.splits prod.splits dest: try_domain_ok)

text \<open>
  C37. A result is either valid, with a token id and no error, or invalid, with an error, an error code
  and an empty address: an invalid result never names an account.
\<close>

theorem verify_result_shape: "result_ok (fst (verifyChallenge env xdr options w))"
  unfolding verifyChallenge_def Let_def
  by (auto split: sum.splits option.splits intro: try_domains_ok)

section \<open>What a valid result rests on\<close>

text \<open>
  The evidence for a result: the SDK read the challenge for the domain and named the client; the
  client's base account signed it, or its signers on the ledger reach the medium threshold; and the memo is
  the expected one. Every check saw the real time, or one moved by \<open>skewed_now\<close>.
\<close>

definition vouched ::
  "'w verify_env \<Rightarrow> 'w verify_options \<Rightarrow> string \<Rightarrow> string \<Rightarrow> rat \<Rightarrow> string \<Rightarrow> verify_result \<Rightarrow> bool" where
  "vouched env options p xdr tol d r \<longleftrightarrow>
     (let args = \<lparr>sa_xdr = xdr, sa_serverAccountId = vo_serverAccountId options, sa_networkPassphrase = p,
            sa_homeDomains = vo_homeDomains options, sa_webAuthDomain = d\<rparr> in
      \<exists>w1 w2 tx base.
        ve_readChallengeTx env args (skewed_now env xdr p tol (ve_now env w1)) = Ret (vr_address r, tx)
        \<and> (if take 1 (vr_address r) = ''M'' then ve_baseAccount env (vr_address r) else Ret (vr_address r)) = Ret base
        \<and> (case vo_accountLoader options of
             None \<Rightarrow> ve_verifySigners env args [base] (skewed_now env xdr p tol (ve_now env w2)) = Ret ()
           | Some loader \<Rightarrow>
               (loader base w1 = (Ret None, w2) \<and> ve_verifySigners env args [base] (skewed_now env xdr p tol (ve_now env w2)) = Ret ())
               \<or> (\<exists>account. loader base w1 = (Ret (Some account), w2)
                    \<and> ve_verifyThreshold env args (ac_med_threshold account) (ac_signers account)
                        (skewed_now env xdr p tol (ve_now env w2)) = Ret ()))
        \<and> (case vo_expectedMemo options of None \<Rightarrow> True | Some m \<Rightarrow> memo_matches tx m)
        \<and> vr_jti r = Some (hex_bytes (tx_hash tx)) \<and> vr_clientDomain r = client_domain_of tx)"

lemma conclude_valid:
  "vr_valid (conclude options a tx) \<Longrightarrow> vr_address (conclude options a tx) = a
     \<and> vr_jti (conclude options a tx) = Some (hex_bytes (tx_hash tx)) \<and> vr_clientDomain (conclude options a tx) = client_domain_of tx
     \<and> (case vo_expectedMemo options of None \<Rightarrow> True | Some m \<Rightarrow> memo_matches tx m)"
  by (auto simp: conclude_def verify_failed_def split: option.splits if_splits)

lemma map_sum_Ret: "map_sum id (\<lambda>_. c) s = Ret r \<longleftrightarrow> (\<exists>u. s = Ret u) \<and> r = c"
  by (cases s) auto

lemma try_domain_vouched:
  assumes "try_domain env options p xdr tol d w = (Ret r, w')" and "vr_valid r"
  shows "vouched env options p xdr tol d r"
proof -
  let ?args = "\<lparr>sa_xdr = xdr, sa_serverAccountId = vo_serverAccountId options, sa_networkPassphrase = p,
            sa_homeDomains = vo_homeDomains options, sa_webAuthDomain = d\<rparr>"
  obtain a tx where read: "ve_readChallengeTx env ?args (skewed_now env xdr p tol (ve_now env w)) = Ret (a, tx)"
    using assms(1) by (auto simp: try_domain_def withClockSkewTolerance_def Let_def split: sum.splits)
  obtain base where base: "(if take 1 a = ''M'' then ve_baseAccount env a else Ret a) = Ret base"
    using assms(1) read by (auto simp: try_domain_def withClockSkewTolerance_def Let_def split: sum.splits if_splits)
  note run = assms(1) [unfolded try_domain_def withClockSkewTolerance_def Let_def read base sum.case prod.case]
  show ?thesis
  proof (cases "vo_accountLoader options")
    case None
    with run have "ve_verifySigners env ?args [base] (skewed_now env xdr p tol (ve_now env w)) = Ret ()"
      and r: "r = conclude options a tx"
      by (auto simp: map_sum_Ret)
    with conclude_valid [of options a tx] assms(2) read base None show ?thesis
      unfolding vouched_def Let_def
      by - (rule exI [of _ w], rule exI [of _ w], rule exI [of _ tx], rule exI [of _ base], simp split: if_splits)
  next
    case (Some loader)
    obtain res w2 where l: "loader base w = (res, w2)" by fastforce
    from run Some l assms(2) obtain acct where res: "res = Ret acct" by (cases res) auto
    from run have r: "r = conclude options a tx" by (auto simp: Some l res map_sum_Ret split: option.splits)
    note v = conclude_valid [OF assms(2) [unfolded r]]
    show ?thesis
    proof (cases acct)
      case None
      with run have "ve_verifySigners env ?args [base] (skewed_now env xdr p tol (ve_now env w2)) = Ret ()"
        by (auto simp: Some l res map_sum_Ret)
      with v read base l res None Some show ?thesis unfolding vouched_def Let_def r 
        by - (rule exI [of _ w], rule exI [of _ w2], rule exI [of _ tx], rule exI [of _ base], simp split: if_splits)
    next
      case (Some account)
      with run have "ve_verifyThreshold env ?args (ac_med_threshold account) (ac_signers account)
          (skewed_now env xdr p tol (ve_now env w2)) = Ret ()"
        by (auto simp: \<open>vo_accountLoader options = Some loader\<close> l res map_sum_Ret)
      with v read base l res Some \<open>vo_accountLoader options = Some loader\<close> show ?thesis
        unfolding vouched_def Let_def r 
        by - (rule exI [of _ w], rule exI [of _ w2], rule exI [of _ tx], rule exI [of _ base], simp split: if_splits)
    qed
  qed
qed

lemma try_domains_vouched:
  "vr_valid (fst (try_domains env options p xdr tol e ds w)) \<Longrightarrow>
     \<exists>d \<in> set ds. vouched env options p xdr tol d (fst (try_domains env options p xdr tol e ds w))"
  by (induction ds arbitrary: e w) (auto split: sum.splits prod.splits dest: try_domain_vouched)

lemma assert_all_iff: "assert_all name ds = Ret () \<longleftrightarrow> list_all (\<lambda>d. \<not> not_bare d) ds"
  by (induction ds) (auto simp: assertBareDomain_def)

text \<open>
  C9. A valid result is vouched for: the options are sound, and for one of the configured web-auth
  domains the SDK read the challenge as the result's account, the signatures were checked against the
  master key or the ledger's signers, and the memo matched.
\<close>

theorem verify_valid_vouched:
  assumes "vr_valid (fst (verifyChallenge env xdr options w))"
  shows "isValidStellarAddress (ve_isEd25519 env) (vo_serverAccountId options)
    \<and> list_all (\<lambda>d. \<not> not_bare d) (as_array (vo_homeDomains options) @ as_array (vo_webAuthDomain options))
    \<and> (\<exists>tol d. 0 \<le> tol \<and> d \<in> set (as_array (vo_webAuthDomain options))
        \<and> vouched env options (case vo_networkPassphrase options of None \<Rightarrow> ve_testnet env | Some p \<Rightarrow> p) xdr tol d
            (fst (verifyChallenge env xdr options w)))"
proof -
  let ?p = "case vo_networkPassphrase options of None \<Rightarrow> ve_testnet env | Some p \<Rightarrow> p"
  from assms have server: "isValidStellarAddress (ve_isEd25519 env) (vo_serverAccountId options)"
    by (auto simp: verifyChallenge_def split: if_splits)
  define skew where "skew = (case vo_clockSkewToleranceSec options of None \<Rightarrow> \<lparr>re_value = Some 0, re_text = ''0''\<rparr> | Some s \<Rightarrow> s)"
  note def = verifyChallenge_def [of env xdr options w, folded skew_def, unfolded Let_def, folded skew_def]
  from assms server obtain tol where tol: "re_value skew = Some tol" "\<not> tol < 0"
    by (auto simp: def split: option.splits if_splits)
  from assms server tol obtain u where
    bare: "js_bind (assert_all ''homeDomains'' (as_array (vo_homeDomains options)))
        (\<lambda>_. assert_all ''webAuthDomain'' (as_array (vo_webAuthDomain options))) = Ret u"
    and eq: "verifyChallenge env xdr options w = try_domains env options ?p xdr tol (Nullish ''undefined'') (as_array (vo_webAuthDomain options)) w"
    by (cases "js_bind (assert_all ''homeDomains'' (as_array (vo_homeDomains options)))
        (\<lambda>_. assert_all ''webAuthDomain'' (as_array (vo_webAuthDomain options)))") (simp_all add: def)
  from bare have "assert_all ''homeDomains'' (as_array (vo_homeDomains options)) = Ret ()"
    and "assert_all ''webAuthDomain'' (as_array (vo_webAuthDomain options)) = Ret ()"
    by (cases "assert_all ''homeDomains'' (as_array (vo_homeDomains options))"; simp)+
  moreover from try_domains_vouched [OF assms [unfolded eq]]
  obtain d where "d \<in> set (as_array (vo_webAuthDomain options))" "vouched env options ?p xdr tol d (fst (verifyChallenge env xdr options w))"
    unfolding eq by blast
  moreover from tol(2) have "0 \<le> tol" by simp
  ultimately show ?thesis using server by (simp only: assert_all_iff list_all_append) blast
qed

text \<open>A server whose clock is the world, in milliseconds, with one challenge valid from 100 s to 1000 s.\<close>

definition example_tx :: challenge_tx where
  "example_tx = \<lparr>tx_memo_type = ''id'', tx_memo = Plain ''7'', tx_manage_data = [(''client_domain'', Some [119])], tx_hash = [10]\<rparr>"

definition in_bounds :: "int \<Rightarrow> bool" where
  "in_bounds now \<longleftrightarrow> 100 - 300 \<le> now div 1000 \<and> now div 1000 \<le> 1000 + 300"

definition example_verify_env :: "int verify_env" where
  "example_verify_env = \<lparr>ve_isEd25519 = (\<lambda>a. a = ''GS''), ve_testnet = ''Test'', ve_now = (\<lambda>w. w),
     ve_timeBounds = (\<lambda>xdr p. Ret (Some (100, 1000))),
     ve_readChallengeTx = (\<lambda>args now. if sa_webAuthDomain args = ''b.org'' \<and> in_bounds now then Ret (''GA'', example_tx)
        else Throw (mk_error ''The transaction has expired'')),
     ve_verifySigners = (\<lambda>args signers now. if signers = [''GA''] then Ret () else Throw (mk_error ''not signed'')),
     ve_verifyThreshold = (\<lambda>args threshold signers now. Throw (mk_error ''signers do not meet threshold'')),
     ve_baseAccount = Ret\<rparr>"

definition example_verify_options :: "rat \<Rightarrow> int verify_options" where
  "example_verify_options tol = \<lparr>vo_serverAccountId = ''GS'', vo_networkPassphrase = None, vo_homeDomains = One ''a.org'',
     vo_webAuthDomain = Many [''a.org'', ''b.org''], vo_expectedMemo = Some ''7'',
     vo_clockSkewToleranceSec = Some \<lparr>re_value = Some tol, re_text = ''?''\<rparr>, vo_accountLoader = None\<rparr>"

lemma bare_examples: "\<not> not_bare ''a.org''" "\<not> not_bare ''b.org''"
  by (simp_all add: not_bare_iff is_ws_def)

lemma example_verifies:
  assumes "0 \<le> tol"
  shows "verifyChallenge example_verify_env xdr (example_verify_options tol) w =
    (if in_bounds (skewed_now example_verify_env xdr ''Test'' tol w)
     then (\<lparr>vr_valid = True, vr_address = ''GA'', vr_clientDomain = Some ''w'', vr_jti = Some ''0a'', vr_error = None, vr_errorCode = None\<rparr>, w)
     else (verify_failed ''sep10-auth: The transaction has expired'' ChallengeExpired, w))"
proof -
  let ?o = "example_verify_options tol"
  have read: "withClockSkewTolerance example_verify_env xdr ''Test'' tol (ve_readChallengeTx example_verify_env args) w
      = (if sa_webAuthDomain args = ''b.org'' \<and> in_bounds (skewed_now example_verify_env xdr ''Test'' tol w) then Ret (''GA'', example_tx)
        else Throw (mk_error ''The transaction has expired''))" for args
    by (simp add: withClockSkewTolerance_def) (simp add: example_verify_env_def)
  have now: "ve_now example_verify_env w = w"
    and signers: "withClockSkewTolerance example_verify_env xdr ''Test'' tol (ve_verifySigners example_verify_env args [''GA'']) w = Ret ()"
    and strkey: "ve_isEd25519 example_verify_env ''GS''" "ve_testnet example_verify_env = ''Test''" for args
    by (simp_all add: withClockSkewTolerance_def) (simp_all add: example_verify_env_def)
  have "char_of (119 :: nat) = CHR ''w''" "hex_bytes [10] = ''0a''"
    by (simp_all add: hex_bytes_def hex_digit_def to_lower_char_def) (simp_all add: char_eq_iff del: of_char_eq_iff)
  then have conclude: "conclude ?o ''GA'' example_tx = \<lparr>vr_valid = True, vr_address = ''GA'', vr_clientDomain = Some ''w'',
      vr_jti = Some ''0a'', vr_error = None, vr_errorCode = None\<rparr>"
    by (simp add: conclude_def example_verify_options_def memo_matches_def encodeMemo_def example_tx_def client_domain_of_def)
  have expired: "classifyError (mk_error ''The transaction has expired'') = ChallengeExpired"
    by (simp add: classifyError_def mentions_def to_lower_def to_lower_char_def mk_error_def)
  have sel: "vo_accountLoader ?o = None" "as_array (vo_webAuthDomain ?o) = [''a.org'', ''b.org'']" "as_array (vo_homeDomains ?o) = [''a.org'']"
    "vo_serverAccountId ?o = ''GS''" "vo_networkPassphrase ?o = None" "vo_clockSkewToleranceSec ?o = Some \<lparr>re_value = Some tol, re_text = ''?''\<rparr>"
    by (simp_all add: example_verify_options_def)
  show ?thesis
    using assms
    by (simp add: verifyChallenge_def isValidStellarAddress_def sel strkey assertBareDomain_def bare_examples try_domain_def read now
      signers conclude expired map_sum_def)
qed

theorem verify_valid_vouched_witness:
  "\<exists>tol d. 0 \<le> tol \<and> d \<in> {''a.org'', ''b.org''}
    \<and> vouched example_verify_env (example_verify_options 60) ''Test'' ''AAAA'' tol d
        (fst (verifyChallenge example_verify_env ''AAAA'' (example_verify_options 60) 1350000))"
proof -
  have "in_bounds (skewed_now example_verify_env ''AAAA'' ''Test'' 60 1350000)"
    by (simp add: skewed_now_def example_verify_env_def in_bounds_def)
  then have "vr_valid (fst (verifyChallenge example_verify_env ''AAAA'' (example_verify_options 60) 1350000))"
    by (simp add: example_verifies)
  from verify_valid_vouched [OF this] show ?thesis by (simp add: example_verify_options_def example_verify_env_def)
qed

section \<open>Clock skew\<close>

text \<open>
  The tolerance does what it says: for an SDK check that accepts a challenge within 300 seconds of
  its time bounds, the wrapped check accepts it exactly within 300 seconds plus the tolerance.
\<close>

theorem clock_skew_widens_window:
  assumes "ve_timeBounds env xdr p = Ret (Some (minTime, maxTime))" and "minTime \<le> maxTime" and "0 \<le> tol"
    and "\<And>now. check now = (if minTime - 300 \<le> now div 1000 \<and> now div 1000 \<le> maxTime + 300 then Ret x else Throw e)"
  shows "withClockSkewTolerance env xdr p tol check now =
    (if of_int minTime - (300 + tol) \<le> of_int (now div 1000) \<and> of_int (now div 1000) \<le> of_int maxTime + (300 + tol)
     then Ret x else Throw e)"
proof -
  let ?s = "now div 1000"
  let ?inside = "of_int minTime - (300 + tol) \<le> of_int ?s \<and> of_int ?s \<le> of_int maxTime + (300 + tol)"
  have outer: "minTime - 300 \<le> ?s \<Longrightarrow> of_int minTime - (300 + tol) \<le> of_int ?s"
    "?s \<le> maxTime + 300 \<Longrightarrow> of_int ?s \<le> of_int maxTime + (300 + tol)"
  proof -
    assume "minTime - 300 \<le> ?s"
    then have "of_int (minTime - 300) \<le> (of_int ?s :: rat)" by (simp only: of_int_le_iff)
    with assms(3) show "of_int minTime - (300 + tol) \<le> of_int ?s" by simp
  next
    assume "?s \<le> maxTime + 300"
    then have "(of_int ?s :: rat) \<le> of_int (maxTime + 300)" by (simp only: of_int_le_iff)
    with assms(3) show "of_int ?s \<le> of_int maxTime + (300 + tol)" by simp
  qed
  show ?thesis
  proof (cases "tol = 0")
    case True
    have "(of_int (minTime - 300) \<le> (of_int ?s :: rat)) = (minTime - 300 \<le> ?s)" "((of_int ?s :: rat) \<le> of_int (maxTime + 300)) = (?s \<le> maxTime + 300)"
      by (simp_all only: of_int_le_iff)
    with True show ?thesis by (simp add: withClockSkewTolerance_def skewed_now_def assms(4))
  next
    case False
    show ?thesis
    proof (cases ?inside)
      case True
      have "skewed_now env xdr p tol now = min (max ?s minTime) maxTime * 1000"
        using False True by (simp add: skewed_now_def assms(1) Let_def not_less)
      moreover have "min (max ?s minTime) maxTime * 1000 div 1000 = min (max ?s minTime) maxTime" by simp
      moreover have "minTime - 300 \<le> min (max ?s minTime) maxTime" "min (max ?s minTime) maxTime \<le> maxTime + 300"
        using assms(2) by (simp_all add: min_def max_def)
      ultimately show ?thesis using True by (simp add: withClockSkewTolerance_def assms(4))
    next
      case outside: False
      then have "skewed_now env xdr p tol now = now"
        using False by (auto simp: skewed_now_def assms(1) Let_def not_less)
      with outside outer show ?thesis by (auto simp: withClockSkewTolerance_def assms(4))
    qed
  qed
qed

theorem clock_skew_widens_window_witness:
  "withClockSkewTolerance example_verify_env ''AAAA'' ''Test'' 60
     (\<lambda>now. if 100 - 300 \<le> now div 1000 \<and> now div 1000 \<le> 1000 + 300 then Ret (''GA'', example_tx) else Throw (mk_error ''expired'')) 1350000
   = Ret (''GA'', example_tx)"
proof -
  have "ve_timeBounds example_verify_env ''AAAA'' ''Test'' = Ret (Some (100, 1000))" by (simp add: example_verify_env_def)
  from clock_skew_widens_window [OF this _ _ refl, of 60 "(''GA'', example_tx)" "mk_error ''expired''" 1350000]
  show ?thesis by simp
qed

end
