(* ===== verification/Revocation.thy ===== *)
theory Revocation
  imports JsPrelude
begin

text \<open>
  The revocation stores of \<open>sep10-auth\<close>: the in-memory store of \<open>src/revocation.ts\<close> and the Redis
  store of \<open>examples/redisRevocationStore.ts\<close>. Times are in milliseconds; \<open>now\<close> is \<open>Date.now()\<close> at
  the call. \<open>until\<close> is \<open>None\<close> for a permanent revocation.
\<close>

section \<open>The contract\<close>

definition live :: "int \<Rightarrow> int option \<Rightarrow> bool" where
  "live now until = (case until of None \<Rightarrow> True | Some t \<Rightarrow> now < t)"

text \<open>
  What a caller relies on: a revocation that is in force now holds until it ends, touches no other
  address, and is undone by \<open>unrevoke\<close>; asking has no effect on later answers.
\<close>

locale revocation_store =
  fixes isRevoked :: "int \<Rightarrow> string \<Rightarrow> 's \<Rightarrow> bool \<times> 's"
    and revoke :: "int \<Rightarrow> string \<Rightarrow> int option \<Rightarrow> 's \<Rightarrow> 's"
    and unrevoke :: "string \<Rightarrow> 's \<Rightarrow> 's"
    and inv :: "'s \<Rightarrow> bool"
  assumes revoke_inv: "inv s \<Longrightarrow> inv (revoke now a until s)"
    and unrevoke_inv: "inv s \<Longrightarrow> inv (unrevoke a s)"
    and asked_inv: "inv s \<Longrightarrow> inv (snd (isRevoked now a s))"
    and revoke_same: "inv s \<Longrightarrow> live now until \<Longrightarrow> now \<le> t \<Longrightarrow> fst (isRevoked t a (revoke now a until s)) = live t until"
    and revoke_other: "inv s \<Longrightarrow> a \<noteq> b \<Longrightarrow> fst (isRevoked t b (revoke now a until s)) = fst (isRevoked t b s)"
    and unrevoke_same: "inv s \<Longrightarrow> \<not> fst (isRevoked t a (unrevoke a s))"
    and unrevoke_other: "inv s \<Longrightarrow> a \<noteq> b \<Longrightarrow> fst (isRevoked t b (unrevoke a s)) = fst (isRevoked t b s)"
    and ask_pure: "inv s \<Longrightarrow> now \<le> t \<Longrightarrow> fst (isRevoked t b (snd (isRevoked now a s))) = fst (isRevoked t b s)"

datatype revocation_op = Revoke int string "int option" | Unrevoke string | Ask int string

fun apply_op ::
  "(int \<Rightarrow> string \<Rightarrow> 's \<Rightarrow> bool \<times> 's) \<Rightarrow> (int \<Rightarrow> string \<Rightarrow> int option \<Rightarrow> 's \<Rightarrow> 's) \<Rightarrow> (string \<Rightarrow> 's \<Rightarrow> 's)
     \<Rightarrow> revocation_op \<Rightarrow> 's \<Rightarrow> 's" where
  "apply_op isRevoked revoke unrevoke (Revoke now a until) s = revoke now a until s"
| "apply_op isRevoked revoke unrevoke (Unrevoke a) s = unrevoke a s"
| "apply_op isRevoked revoke unrevoke (Ask now a) s = snd (isRevoked now a s)"

text \<open>The operations that leave an address alone up to a time.\<close>

fun spares :: "string \<Rightarrow> int \<Rightarrow> revocation_op \<Rightarrow> bool" where
  "spares a t (Revoke now b until) \<longleftrightarrow> a \<noteq> b"
| "spares a t (Unrevoke b) \<longleftrightarrow> a \<noteq> b"
| "spares a t (Ask now b) \<longleftrightarrow> now \<le> t"

context revocation_store begin

abbreviation run_ops :: "revocation_op list \<Rightarrow> 's \<Rightarrow> 's" where
  "run_ops ops s \<equiv> fold (apply_op isRevoked revoke unrevoke) ops s"

lemma spared:
  "inv s \<Longrightarrow> list_all (spares a t) ops \<Longrightarrow>
     inv (run_ops ops s) \<and> fst (isRevoked t a (run_ops ops s)) = fst (isRevoked t a s)"
proof (induction ops arbitrary: s)
  case (Cons oper ops)
  have "inv (apply_op isRevoked revoke unrevoke oper s)" using Cons.prems revoke_inv unrevoke_inv asked_inv by (cases oper) auto
  moreover have "fst (isRevoked t a (apply_op isRevoked revoke unrevoke oper s)) = fst (isRevoked t a s)"
    using Cons.prems revoke_other unrevoke_other ask_pure by (cases oper) auto
  ultimately show ?case using Cons by simp
qed simp

lemma stays_revoked:
  assumes "inv s" and "live now until" and "now \<le> t" and "list_all (spares a t) ops"
  shows "fst (isRevoked t a (run_ops ops (revoke now a until s))) = live t until"
  using spared [OF revoke_inv [OF assms(1)] assms(4), of now a until] revoke_same [OF assms(1-3)] by simp

end

section \<open>The in-memory store\<close>

record memory_store =
  ms_revoked :: "(string, int option) jsmap"
  ms_tokens :: "(string, int) jsmap"
  ms_maxEntries :: "int option"

definition new_memory_store :: "int option \<Rightarrow> memory_store" where
  "new_memory_store maxEntries = \<lparr>ms_revoked = [], ms_tokens = [], ms_maxEntries = maxEntries\<rparr>"

definition mem_isRevoked :: "int \<Rightarrow> string \<Rightarrow> memory_store \<Rightarrow> bool \<times> memory_store" where
  "mem_isRevoked now address s =
     (case map_get (ms_revoked s) address of
        None \<Rightarrow> (False, s)
      | Some None \<Rightarrow> (True, s)
      | Some (Some until) \<Rightarrow>
          if until \<le> now then (False, s\<lparr>ms_revoked := map_delete address (ms_revoked s)\<rparr>) else (True, s))"

text \<open>
  A loop over the entries in insertion order that deletes those satisfying \<open>P\<close> until the size
  fits: \<open>excess\<close> is how many entries are too many.
\<close>

fun evict_where :: "(int option \<Rightarrow> bool) \<Rightarrow> nat \<Rightarrow> (string, int option) jsmap \<Rightarrow> (string, int option) jsmap" where
  "evict_where P 0 m = m"
| "evict_where P (Suc excess) [] = []"
| "evict_where P (Suc excess) (e # m) =
     (if P (snd e) then evict_where P excess m else e # evict_where P (Suc excess) m)"

definition mem_revoke :: "int \<Rightarrow> string \<Rightarrow> int option \<Rightarrow> memory_store \<Rightarrow> memory_store" where
  "mem_revoke now address until s =
     (let m = map_set address until (map_delete address (ms_revoked s)) in
      case ms_maxEntries s of
        None \<Rightarrow> s\<lparr>ms_revoked := m\<rparr>
      | Some mx \<Rightarrow>
          if mx < 0 then s\<lparr>ms_revoked := m\<rparr>
          else if mx = 0 then s\<lparr>ms_revoked := []\<rparr>
          else
            (let m1 = evict_where (\<lambda>exp. exp \<noteq> None \<and> the exp \<le> now) (length m - nat mx) m;
                 m2 = evict_where (\<lambda>exp. exp \<noteq> None) (length m1 - nat mx) m1
             in s\<lparr>ms_revoked := evict_where (\<lambda>_. True) (length m2 - nat mx) m2\<rparr>))"

definition mem_unrevoke :: "string \<Rightarrow> memory_store \<Rightarrow> memory_store" where
  "mem_unrevoke address s = s\<lparr>ms_revoked := map_delete address (ms_revoked s)\<rparr>"

definition pruneExpiredTokens :: "int \<Rightarrow> memory_store \<Rightarrow> memory_store" where
  "pruneExpiredTokens now s = s\<lparr>ms_tokens := filter (\<lambda>(jti, expiresAt). now < expiresAt) (ms_tokens s)\<rparr>"

definition revokeToken :: "int \<Rightarrow> string \<Rightarrow> int \<Rightarrow> memory_store \<Rightarrow> memory_store" where
  "revokeToken now jti expiresAt s =
     (let s = pruneExpiredTokens now s in
      if expiresAt \<le> now then s else s\<lparr>ms_tokens := map_set jti expiresAt (ms_tokens s)\<rparr>)"

definition isTokenRevoked :: "int \<Rightarrow> string \<Rightarrow> memory_store \<Rightarrow> bool \<times> memory_store" where
  "isTokenRevoked now jti s =
     (case map_get (ms_tokens s) jti of
        None \<Rightarrow> (False, s)
      | Some expiresAt \<Rightarrow>
          if expiresAt \<le> now then (False, s\<lparr>ms_tokens := map_delete jti (ms_tokens s)\<rparr>) else (True, s))"

text \<open>\<open>list\<close> asks about every key of a snapshot, in order.\<close>

fun mem_list_loop :: "int \<Rightarrow> string list \<Rightarrow> memory_store \<Rightarrow> string list \<times> memory_store" where
  "mem_list_loop now [] s = ([], s)"
| "mem_list_loop now (a # as) s =
     (let (r, s) = mem_isRevoked now a s; (rs, s) = mem_list_loop now as s
      in (if r then a # rs else rs, s))"

definition mem_list :: "int \<Rightarrow> memory_store \<Rightarrow> string list \<times> memory_store" where
  "mem_list now s = mem_list_loop now (map_keys (ms_revoked s)) s"

definition mem_size :: "memory_store \<Rightarrow> nat" where
  "mem_size s = length (ms_revoked s)"

definition tokenSize :: "int \<Rightarrow> memory_store \<Rightarrow> nat \<times> memory_store" where
  "tokenSize now s = (let s = pruneExpiredTokens now s in (length (ms_tokens s), s))"

section \<open>The Redis store\<close>

text \<open>The four commands of the client interface, each at the server's time.\<close>

record 'r redis_commands =
  rd_get :: "int \<Rightarrow> string \<Rightarrow> 'r \<Rightarrow> string option"
  rd_set :: "int \<Rightarrow> string \<Rightarrow> string \<Rightarrow> int option \<Rightarrow> 'r \<Rightarrow> 'r"
  rd_scan :: "int \<Rightarrow> string \<Rightarrow> string \<Rightarrow> 'r \<Rightarrow> string \<times> string list"
  rd_del :: "string \<Rightarrow> 'r \<Rightarrow> 'r"

definition default_key_prefix :: "string option \<Rightarrow> string" where
  "default_key_prefix keyPrefix = (case keyPrefix of None \<Rightarrow> ''sep10:revoked:'' | Some p \<Rightarrow> p)"

definition redis_key :: "string \<Rightarrow> string \<Rightarrow> string" where
  "redis_key keyPrefix address = keyPrefix @ address"

definition redis_isRevoked :: "'r redis_commands \<Rightarrow> string \<Rightarrow> int \<Rightarrow> string \<Rightarrow> 'r \<Rightarrow> bool \<times> 'r" where
  "redis_isRevoked redis keyPrefix now address r = (rd_get redis now (redis_key keyPrefix address) r \<noteq> None, r)"

definition redis_revoke :: "'r redis_commands \<Rightarrow> string \<Rightarrow> int \<Rightarrow> string \<Rightarrow> int option \<Rightarrow> 'r \<Rightarrow> 'r" where
  "redis_revoke redis keyPrefix now address until r =
     (case until of
        Some t \<Rightarrow>
          (let ttlMs = t - now in
           if ttlMs \<le> 0 then r else rd_set redis now (redis_key keyPrefix address) ''1'' (Some ttlMs) r)
      | None \<Rightarrow> rd_set redis now (redis_key keyPrefix address) ''1'' None r)"

definition redis_unrevoke :: "'r redis_commands \<Rightarrow> string \<Rightarrow> string \<Rightarrow> 'r \<Rightarrow> 'r" where
  "redis_unrevoke redis keyPrefix address r = rd_del redis (redis_key keyPrefix address) r"

text \<open>The scan loop; a server that never returns cursor 0 keeps it going, which is \<open>None\<close>.\<close>

partial_function (option) redis_list_loop ::
  "'r redis_commands \<Rightarrow> string \<Rightarrow> int \<Rightarrow> string \<Rightarrow> string list \<Rightarrow> 'r \<Rightarrow> string list option" where
  "redis_list_loop redis keyPrefix now cursor addresses r =
     (let (nxt, keys) = rd_scan redis now cursor (keyPrefix @ ''*'') r;
          addresses = foldl (\<lambda>s k. set_add (drop (length keyPrefix) k) s) addresses keys
      in if nxt \<noteq> ''0'' then redis_list_loop redis keyPrefix now nxt addresses r else Some addresses)"

definition redis_list :: "'r redis_commands \<Rightarrow> string \<Rightarrow> int \<Rightarrow> 'r \<Rightarrow> string list option" where
  "redis_list redis keyPrefix now r = redis_list_loop redis keyPrefix now ''0'' [] r"

text \<open>A server: values with the time at which they expire, answering a scan in one page.\<close>

type_synonym redis_db = "(string, string \<times> int option) jsmap"

definition db_commands :: "redis_db redis_commands" where
  "db_commands = \<lparr>
     rd_get = (\<lambda>now k db. case map_get db k of
        None \<Rightarrow> None | Some (v, exp) \<Rightarrow> if live now exp then Some v else None),
     rd_set = (\<lambda>now k v px db. map_set k (v, map_option (\<lambda>ms. now + ms) px) db),
     rd_scan = (\<lambda>now cursor pattern db. (''0'', [k. (k, v, exp) \<leftarrow> db, live now exp, take (length pattern - 1) k = butlast pattern])),
     rd_del = (\<lambda>k db. map_delete k db)\<rparr>"


section \<open>The stores meet the contract\<close>

interpretation memory: revocation_store mem_isRevoked mem_revoke mem_unrevoke
  "\<lambda>s. map_wf (ms_revoked s) \<and> ms_maxEntries s = None"
  by unfold_locales
    (auto simp: mem_isRevoked_def mem_revoke_def mem_unrevoke_def live_def map_simps split: option.splits if_splits)

interpretation redis: revocation_store "redis_isRevoked db_commands keyPrefix" "redis_revoke db_commands keyPrefix"
  "redis_unrevoke db_commands keyPrefix" "\<lambda>_. True" for keyPrefix
  by unfold_locales
    (auto simp: redis_isRevoked_def redis_revoke_def redis_unrevoke_def db_commands_def redis_key_def live_def map_simps Let_def
      split: option.splits if_splits)

text \<open>
  Access stays cut off: after \<open>revoke\<close>, and whatever happens to other addresses, an unbounded
  in-memory store answers that the address is revoked exactly until the revocation ends.
\<close>

theorem memory_revocation_holds:
  assumes "ms_maxEntries s = None" and "map_wf (ms_revoked s)"
    and "live now until" and "now \<le> t" and "list_all (spares a t) ops"
  shows "fst (mem_isRevoked t a (fold (apply_op mem_isRevoked mem_revoke mem_unrevoke) ops (mem_revoke now a until s)))
    = live t until"
  by (rule memory.stays_revoked) (use assms in simp_all)

theorem memory_revocation_holds_witness:
  "fst (mem_isRevoked 5 ''GA'' (fold (apply_op mem_isRevoked mem_revoke mem_unrevoke)
      [Revoke 2 ''GB'' (Some 3), Ask 4 ''GB'', Unrevoke ''GC''] (mem_revoke 1 ''GA'' (Some 9) (new_memory_store None))))
    = live 5 (Some 9)"
  by (rule memory_revocation_holds) (simp_all add: new_memory_store_def live_def)

text \<open>
  The Redis store makes the same promise, on a server that keeps values until their TTL.
\<close>

theorem redis_revocation_holds:
  assumes "live now until" and "now \<le> t" and "list_all (spares a t) ops"
  shows "fst (redis_isRevoked db_commands p t a (fold (apply_op (redis_isRevoked db_commands p)
      (redis_revoke db_commands p) (redis_unrevoke db_commands p)) ops (redis_revoke db_commands p now a until db)))
    = live t until"
  by (rule redis.stays_revoked) (use assms in simp_all)

theorem redis_revocation_holds_witness:
  "fst (redis_isRevoked db_commands ''p:'' 5 ''GA'' (fold (apply_op (redis_isRevoked db_commands ''p:'')
      (redis_revoke db_commands ''p:'') (redis_unrevoke db_commands ''p:'')) [Unrevoke ''GB'']
      (redis_revoke db_commands ''p:'' 1 ''GA'' None [])))
    = live 5 None"
  by (rule redis_revocation_holds) (simp_all add: live_def)

section \<open>Capacity\<close>

lemma length_evict_where: "length m - excess \<le> length (evict_where P excess m)"
  by (induction P excess m rule: evict_where.induct) auto

lemma length_evict_all: "length (evict_where (\<lambda>_. True) excess m) = length m - excess"
  by (induction "\<lambda>_::int option. True" excess m rule: evict_where.induct) auto

lemma evict_where_keeps: "e \<in> set m \<Longrightarrow> \<not> P (snd e) \<Longrightarrow> e \<in> set (evict_where P excess m)"
  by (induction P excess m rule: evict_where.induct) auto

lemma evict_where_subset: "set (evict_where P excess m) \<subseteq> set m"
  by (induction P excess m rule: evict_where.induct) auto

lemma evict_where_enough:
  "length (filter (\<lambda>e. \<not> P (snd e)) m) \<le> length m - excess \<Longrightarrow> length (evict_where P excess m) = length m - excess"
proof (induction P excess m rule: evict_where.induct)
  case (3 P excess e m)
  have "length (filter (\<lambda>e. \<not> P (snd e)) m) \<le> length m" by simp
  with 3 show ?case by (auto simp: Suc_diff_le split: if_splits)
qed auto

lemma filter_evict_where: "filter (\<lambda>e. \<not> P (snd e)) (evict_where P excess m) = filter (\<lambda>e. \<not> P (snd e)) m"
  by (induction P excess m rule: evict_where.induct) auto

text \<open>
  With a capacity the store never holds more than that many revocations.
\<close>

theorem revocations_bounded:
  assumes "ms_maxEntries s = Some mx" and "0 \<le> mx"
  shows "int (mem_size (mem_revoke now a until s)) \<le> mx"
proof (cases "mx = 0")
  case True
  with assms show ?thesis by (simp add: mem_size_def mem_revoke_def Let_def)
next
  case False
  then obtain n where "mem_size (mem_revoke now a until s) = n - (n - nat mx)"
    using assms by (simp add: mem_size_def mem_revoke_def Let_def length_evict_all)
  with assms(2) show ?thesis by linarith
qed

theorem revocations_bounded_witness:
  "int (mem_size (mem_revoke 1 ''GC'' None (mem_revoke 1 ''GB'' None (mem_revoke 1 ''GA'' None (new_memory_store (Some 2)))))) \<le> 2"
  by (rule revocations_bounded) (simp_all add: mem_revoke_def new_memory_store_def Let_def)

text \<open>
  Eviction spares permanent revocations: as long as the permanent ones alone fit the capacity,
  none of them is dropped, however many temporary ones compete.
\<close>

theorem permanent_revocations_survive:
  assumes mx: "ms_maxEntries s = Some mx" "0 < mx" and wf: "map_wf (ms_revoked s)"
    and b: "a \<noteq> b" "map_get (ms_revoked s) b = Some None"
    and fits: "int (length (filter (\<lambda>e. snd e = None) (map_set a until (map_delete a (ms_revoked s))))) \<le> mx"
  shows "map_get (ms_revoked (mem_revoke now a until s)) b = Some None"
proof -
  let ?m = "map_set a until (map_delete a (ms_revoked s))"
  let ?m1 = "evict_where (\<lambda>exp. exp \<noteq> None \<and> the exp \<le> now) (length ?m - nat mx) ?m"
  let ?m2 = "evict_where (\<lambda>exp. exp \<noteq> None) (length ?m1 - nat mx) ?m1"
  have perm: "filter (\<lambda>e. snd e = None) ?m1 = filter (\<lambda>e. snd e = None) ?m"
  proof -
    have "filter (\<lambda>e. snd e = None) (evict_where (\<lambda>exp. exp \<noteq> None \<and> the exp \<le> now) k m) = filter (\<lambda>e. snd e = None) m" for k m
      by (induction "\<lambda>exp::int option. exp \<noteq> None \<and> the exp \<le> now" k m rule: evict_where.induct) auto
    then show ?thesis .
  qed
  have "length (filter (\<lambda>e. snd e = None) ?m1) \<le> nat mx"
    unfolding perm using fits mx(2) by linarith
  moreover have "length (filter (\<lambda>e. snd e = None) ?m1) \<le> length ?m1" by (rule length_filter_le)
  ultimately have "length (filter (\<lambda>e. \<not> snd e \<noteq> None) ?m1) \<le> length ?m1 - (length ?m1 - nat mx)"
    unfolding not_not by linarith
  then have "length ?m2 = length ?m1 - (length ?m1 - nat mx)"
    by (rule evict_where_enough)
  then have len: "length ?m2 - nat mx = 0" by linarith
  have res: "ms_revoked (mem_revoke now a until s) = ?m2"
    using mx len by (simp add: mem_revoke_def Let_def)
  have wfm: "map_wf ?m" using wf by simp
  have "distinct (map fst (evict_where P k m))" if "distinct (map fst m)" for P k and m :: "(string, int option) jsmap"
    using that
  proof (induction P k m rule: evict_where.induct)
    case (3 P excess e m)
    then show ?case using evict_where_subset [of P "Suc excess" m] by (auto dest: set_mp)
  qed auto
  then have wf2: "distinct (map fst ?m2)" using wfm by (simp add: map_wf_def)
  have "map_get ?m b = Some None" using b by (simp add: map_simps)
  then have "(b, None) \<in> set ?m" by (rule map_of_SomeD)
  then have "(b, None) \<in> set ?m2" by (intro evict_where_keeps) simp_all
  then show ?thesis using wf2 by (simp add: res)
qed

theorem permanent_revocations_survive_witness:
  "map_get (ms_revoked (mem_revoke 1 ''GB'' (Some 9) (mem_revoke 1 ''GA'' None (new_memory_store (Some 1))))) ''GA'' = Some None"
  by (rule permanent_revocations_survive [where mx = 1]) (simp_all add: mem_revoke_def new_memory_store_def Let_def map_wf_def)

section \<open>Where the two stores differ\<close>

text \<open>
  Revoking until a date in the past lifts a permanent revocation in the in-memory store; the
  Redis store, which claims to mirror it, keeps the revocation.
\<close>

theorem past_revocation_differs:
  assumes "until \<le> now" and "ms_maxEntries s = None" and "map_get (ms_revoked s) a = Some None"
    and "map_get db (redis_key p a) = Some (v, None)"
  shows "fst (mem_isRevoked now a s) \<and> \<not> fst (mem_isRevoked now a (mem_revoke now a (Some until) s))
    \<and> fst (redis_isRevoked db_commands p now a (redis_revoke db_commands p now a (Some until) db))"
  using assms
  by (simp add: mem_isRevoked_def mem_revoke_def redis_isRevoked_def redis_revoke_def db_commands_def live_def map_simps Let_def)

theorem past_revocation_differs_witness:
  "\<not> fst (mem_isRevoked 5 ''GA'' (mem_revoke 5 ''GA'' (Some 3) (mem_revoke 1 ''GA'' None (new_memory_store None))))
    \<and> fst (redis_isRevoked db_commands ''p:'' 5 ''GA''
         (redis_revoke db_commands ''p:'' 5 ''GA'' (Some 3) [(''p:GA'', (''1'', None))]))"
proof -
  have "map_get (ms_revoked (mem_revoke 1 ''GA'' None (new_memory_store None))) ''GA'' = Some None"
    "ms_maxEntries (mem_revoke 1 ''GA'' None (new_memory_store None)) = None"
    "map_get [(''p:GA'', (''1'', None))] (redis_key ''p:'' ''GA'') = Some (''1'', None :: int option)"
    by (simp_all add: mem_revoke_def new_memory_store_def redis_key_def)
  from past_revocation_differs [OF _ this(2,1,3), of 3 5] show ?thesis by simp
qed

section \<open>Tokens\<close>

text \<open>
  A revoked token stays revoked until its own expiry, revoking it changes no answer about
  another token, and no token is kept past its expiry.
\<close>

theorem token_revocation:
  assumes "map_wf (ms_tokens s)" and "now \<le> t"
  shows "fst (isTokenRevoked t jti (revokeToken now jti expiresAt s)) = (t < expiresAt \<or> (expiresAt \<le> now \<and> fst (isTokenRevoked t jti s)))
    \<and> (other \<noteq> jti \<longrightarrow> fst (isTokenRevoked t other (revokeToken now jti expiresAt s)) = fst (isTokenRevoked t other s))
    \<and> list_all (\<lambda>(j, e). now < e) (ms_tokens (revokeToken now jti expiresAt s))"
proof -
  let ?live = "filter (\<lambda>(jti, expiresAt). now < expiresAt) (ms_tokens s)"
  have get: "map_get ?live j = (case map_get (ms_tokens s) j of None \<Rightarrow> None | Some e \<Rightarrow> if now < e then Some e else None)" for j
    using map_get_filter [OF assms(1), of "\<lambda>(jti, expiresAt). now < expiresAt" j] by (simp split: option.splits)
  have live: "fst (isTokenRevoked t j (s\<lparr>ms_tokens := ?live\<rparr>)) = fst (isTokenRevoked t j s)" for j
    using assms(2) by (simp add: isTokenRevoked_def get split: option.splits)
  have all: "list_all (\<lambda>(j, e). now < e) ?live" by (simp add: list_all_iff)
  have "list_all (\<lambda>(j, e). now < e) (map_set jti expiresAt m)"
    if "list_all (\<lambda>(j, e). now < e) m" "now < expiresAt" for m
    using that by (induction m) auto
  with all have "list_all (\<lambda>(j, e). now < e) (ms_tokens (revokeToken now jti expiresAt s))"
    by (simp add: revokeToken_def pruneExpiredTokens_def Let_def)
  moreover have "fst (isTokenRevoked t jti (revokeToken now jti expiresAt s))
      = (t < expiresAt \<or> (expiresAt \<le> now \<and> fst (isTokenRevoked t jti s)))"
    using live [of jti] assms(2)
    by (auto simp: revokeToken_def pruneExpiredTokens_def Let_def isTokenRevoked_def map_simps split: option.splits)
  moreover have "fst (isTokenRevoked t other (revokeToken now jti expiresAt s)) = fst (isTokenRevoked t other s)" if "other \<noteq> jti"
    using live [of other] that
    by (auto simp: revokeToken_def pruneExpiredTokens_def Let_def isTokenRevoked_def map_simps split: option.splits)
  ultimately show ?thesis by blast
qed

theorem token_revocation_witness:
  "fst (isTokenRevoked 5 ''t1'' (revokeToken 1 ''t1'' 9 (new_memory_store None)))"
  using token_revocation [of "new_memory_store None" 1 5 "''t1''" 9 "''t2''"] by (simp add: new_memory_store_def map_wf_def)

end
