(* ===== verification/Middleware.thy ===== *)
theory Middleware
  imports Verify Errors Revocation
begin

text \<open>
  \<open>sep10-auth/src/middleware.ts\<close> and \<open>fastify.ts\<close>: reading the bearer token, verifying the challenge,
  consulting the revocation store, and the two framework adapters. The world is passed along; the
  revocation store's functions act on it and may reject. Logging is left out.
\<close>

section \<open>The bearer token\<close>

datatype token_result = Token string | NoToken string

text \<open>\<open>header\<close> is \<open>''\<close> when the request has none. The header is split at its first space.\<close>

definition parseBearerToken :: "string \<Rightarrow> token_result" where
  "parseBearerToken header =
     (if header = [] then NoToken ''missing bearer token''
      else if CHR '' '' \<notin> set header then NoToken ''missing bearer token''
      else
        (let scheme = takeWhile (\<lambda>c. c \<noteq> CHR '' '') header;
             rest = tl (dropWhile (\<lambda>c. c \<noteq> CHR '' '') header)
         in
         if to_lower scheme \<noteq> ''bearer'' then NoToken ''missing bearer token''
         else
           (let token = trim rest in
            if token = [] then NoToken ''missing bearer token''
            else if list_ex is_ws rest then NoToken ''malformed bearer token''
            else Token token)))"

definition parseCustomToken :: "string option \<Rightarrow> token_result" where
  "parseCustomToken token =
     (case token of None \<Rightarrow> NoToken ''missing bearer token''
      | Some t \<Rightarrow> if t = [] then NoToken ''missing bearer token'' else Token t)"

section \<open>Options\<close>

record 'w revocation_ops =
  ro_isRevoked :: "string \<Rightarrow> 'w \<Rightarrow> (thrown + bool) \<times> 'w"
  ro_isTokenRevoked :: "(string \<Rightarrow> 'w \<Rightarrow> (thrown + bool) \<times> 'w) option"

record auth_request =
  ar_headers :: "(string \<times> one_or_many) list"

record 'w auth_options =
  ao_verify :: "'w verify_options"
  ao_revocationStore :: "'w revocation_ops option"
  ao_maxTokenLength :: "int option"
  ao_getToken :: "(auth_request \<Rightarrow> string option) option"

text \<open>\<open>webAuthDomain\<close> and \<open>homeDomains\<close> have the same checks.\<close>

definition assert_domains :: "string \<Rightarrow> one_or_many \<Rightarrow> thrown + unit" where
  "assert_domains name ds =
     (if as_array ds = [] \<or> list_ex (\<lambda>d. d = []) (as_array ds) then
        Throw (mk_error (''sep10-auth: '' @ name @ '' must be a non-empty array of non-empty strings''))
      else assert_all name (as_array ds))"

definition assertSep10MiddlewareOptions :: "(string \<Rightarrow> bool) \<Rightarrow> 'w auth_options \<Rightarrow> thrown + string list" where
  "assertSep10MiddlewareOptions isEd25519 options =
     (let v = ao_verify options in
      if \<not> isEd25519 (vo_serverAccountId v) then
        Throw (mk_error (''sep10-auth: Invalid serverAccountId: '' @ vo_serverAccountId v))
      else js_bind (assert_domains ''homeDomains'' (vo_homeDomains v)) (\<lambda>_.
           js_bind (assert_domains ''webAuthDomain'' (vo_webAuthDomain v)) (\<lambda>_.
           Ret (as_array (vo_homeDomains v)))))"

section \<open>Authentication\<close>

datatype bearer_error = InvalidRequest | InvalidBearerToken

fun bearer_error_string :: "bearer_error \<Rightarrow> string" where
  "bearer_error_string InvalidRequest = ''invalid_request''"
| "bearer_error_string InvalidBearerToken = ''invalid_token''"

text \<open>A successful result, or one with the error, the reason and the \<open>WWW-Authenticate\<close> value.\<close>

datatype auth_result = AuthOk string "string option" | AuthFail bearer_error string string

definition buildWwwAuthenticate :: "string \<Rightarrow> bearer_error \<Rightarrow> string" where
  "buildWwwAuthenticate realm error =
     ''Bearer realm='' @ [CHR 0x22] @ realm @ [CHR 0x22] @ '', error='' @ [CHR 0x22] @ bearer_error_string error @ [CHR 0x22]"

definition realm_of :: "one_or_many \<Rightarrow> string" where
  "realm_of ds = (case as_array ds of [] \<Rightarrow> ''undefined'' | d # _ \<Rightarrow> d)"

definition auth_fail :: "'w auth_options \<Rightarrow> bearer_error \<Rightarrow> string \<Rightarrow> auth_result" where
  "auth_fail options error reason =
     AuthFail error reason (buildWwwAuthenticate (realm_of (vo_homeDomains (ao_verify options))) error)"

definition raw_authorization :: "(string \<times> one_or_many) list \<Rightarrow> string" where
  "raw_authorization headers =
     (case (case map_get headers ''authorization'' of Some v \<Rightarrow> Some v | None \<Rightarrow> map_get headers ''Authorization'') of
        None \<Rightarrow> []
      | Some v \<Rightarrow> (case as_array v of [] \<Rightarrow> [] | h # _ \<Rightarrow> h))"

definition verifyRequestHeaders ::
  "'w verify_env \<Rightarrow> (string \<times> one_or_many) list \<Rightarrow> 'w auth_options \<Rightarrow> 'w \<Rightarrow> auth_result \<times> 'w" where
  "verifyRequestHeaders env headers options w =
     (let maxTokenLength = (case ao_maxTokenLength options of None \<Rightarrow> 8192 | Some m \<Rightarrow> m) in
      case parseBearerToken (raw_authorization headers) of
        NoToken reason \<Rightarrow> (auth_fail options InvalidRequest reason, w)
      | Token token \<Rightarrow>
          if maxTokenLength < int (length token) then (auth_fail options InvalidBearerToken ''bearer token too large'', w)
          else
            (let (result, w) = verifyChallenge env token (ao_verify options) w in
             if \<not> vr_valid result then
               (auth_fail options InvalidBearerToken (case vr_error result of None \<Rightarrow> ''invalid token'' | Some e \<Rightarrow> e), w)
             else (AuthOk (vr_address result) (vr_jti result), w)))"

definition applyRevocationStore :: "auth_result \<Rightarrow> 'w auth_options \<Rightarrow> 'w \<Rightarrow> (thrown + auth_result) \<times> 'w" where
  "applyRevocationStore result options w =
     (case result of
        AuthFail error reason www \<Rightarrow> (Ret result, w)
      | AuthOk address jti \<Rightarrow>
          (case ao_revocationStore options of
             None \<Rightarrow> (Ret result, w)
           | Some store \<Rightarrow>
               (case ro_isRevoked store address w of
                  (Throw e, w) \<Rightarrow> (Throw e, w)
                | (Ret True, w) \<Rightarrow> (Ret (auth_fail options InvalidBearerToken ''address revoked''), w)
                | (Ret False, w) \<Rightarrow>
                    (case (jti, ro_isTokenRevoked store) of
                       (Some j, Some checkToken) \<Rightarrow>
                         (case checkToken j w of
                            (Throw e, w) \<Rightarrow> (Throw e, w)
                          | (Ret True, w) \<Rightarrow> (Ret (auth_fail options InvalidBearerToken ''token revoked''), w)
                          | (Ret False, w) \<Rightarrow> (Ret result, w))
                     | _ \<Rightarrow> (Ret result, w)))))"

definition authenticateRequest ::
  "'w verify_env \<Rightarrow> (string \<times> one_or_many) list \<Rightarrow> 'w auth_options \<Rightarrow> 'w \<Rightarrow> (thrown + auth_result) \<times> 'w" where
  "authenticateRequest env headers options w =
     (let (result, w) = verifyRequestHeaders env headers options w in applyRevocationStore result options w)"

section \<open>The adapters\<close>

definition error_code_of :: "bearer_error \<Rightarrow> string \<Rightarrow> sep10_code" where
  "error_code_of error reason =
     (if reason = ''address revoked'' \<or> reason = ''token revoked'' then TokenRevoked
      else if reason = ''bearer token too large'' then TokenTooLarge
      else if reason = ''malformed bearer token'' then MalformedToken
      else if error = InvalidRequest then MissingToken
      else InvalidToken)"

definition unauthorized :: "bearer_error \<Rightarrow> string \<Rightarrow> string \<Rightarrow> handled" where
  "unauthorized error reason www =
     Respond \<lparr>hr_status = 401, hr_headers = [(''WWW-Authenticate'', www)],
       hr_body = error_json (makeErrorBody ''unauthorized'' (error_code_of error reason) (Some [(''reason'', JStr reason)]))\<rparr>"

text \<open>
  Fastify's hook: what becomes of the request, and the address it was decorated with. A throw goes
  to Fastify's error handler.
\<close>

definition fastify_authenticate ::
  "'w verify_env \<Rightarrow> 'w auth_options \<Rightarrow> auth_request \<Rightarrow> 'w \<Rightarrow> (handled \<times> string option) \<times> 'w" where
  "fastify_authenticate env options req w =
     (case verifyRequestHeaders env (ar_headers req) options w of
        (AuthFail error reason www, w) \<Rightarrow> ((unauthorized error reason www, None), w)
      | (AuthOk address jti, w) \<Rightarrow>
          (if ao_revocationStore options \<noteq> None then
             (case applyRevocationStore (AuthOk address jti) options w of
                (Throw e, w) \<Rightarrow> ((NextError e, None), w)
              | (Ret (AuthFail error reason www), w) \<Rightarrow> ((unauthorized error reason www, None), w)
              | (Ret (AuthOk address jti), w) \<Rightarrow> ((Next, Some address), w))
           else ((Next, Some address), w)))"

text \<open>
  The Express handler does not wait for \<open>verifyRequestHeaders\<close>: \<open>result\<close> is a promise, whose properties
  \<open>ok\<close>, \<open>error\<close>, \<open>reason\<close> and \<open>wwwAuthenticate\<close> are undefined. \<open>APromise\<close> is that value.
\<close>

datatype held = APromise | Value auth_result

text \<open>The answer to a promise: \<open>String(undefined)\<close> as the header, and a \<open>details\<close> without its undefined reason.\<close>

definition unauthorized_promise :: handled where
  "unauthorized_promise =
     Respond \<lparr>hr_status = 401, hr_headers = [(''WWW-Authenticate'', ''undefined'')],
       hr_body = error_json (makeErrorBody ''unauthorized'' InvalidToken (Some []))\<rparr>"

definition express_finish :: "'w auth_options \<Rightarrow> held \<Rightarrow> 'w \<Rightarrow> (handled \<times> (string \<times> string option) option) \<times> 'w" where
  "express_finish options result w =
     (case result of
        APromise \<Rightarrow> ((unauthorized_promise, None), w)
      | Value (AuthFail error reason www) \<Rightarrow> ((unauthorized error reason www, None), w)
      | Value (AuthOk address jti) \<Rightarrow>
          (case (if ao_revocationStore options \<noteq> None then applyRevocationStore (AuthOk address jti) options w
                 else (Ret (AuthOk address jti), w)) of
             (Throw e, w) \<Rightarrow> ((NextError e, None), w)
           | (Ret (AuthFail error reason www), w) \<Rightarrow> ((unauthorized error reason www, None), w)
           | (Ret (AuthOk address jti), w) \<Rightarrow> ((Next, Some (address, jti)), w)))"

definition express_authenticate ::
  "'w verify_env \<Rightarrow> 'w auth_options \<Rightarrow> auth_request \<Rightarrow> 'w \<Rightarrow> (handled \<times> (string \<times> string option) option) \<times> 'w" where
  "express_authenticate env options req w =
     (case ao_getToken options of
        Some getToken \<Rightarrow>
          (case parseCustomToken (getToken req) of
             NoToken reason \<Rightarrow> express_finish options (Value (auth_fail options InvalidRequest reason)) w
           | Token token \<Rightarrow>
               (let (_, w) = verifyRequestHeaders env [(''authorization'', One (''Bearer '' @ token))] options w
                in express_finish options APromise w))
      | None \<Rightarrow>
          (let (_, w) = verifyRequestHeaders env
                 (case map_get (ar_headers req) ''authorization'' of None \<Rightarrow> [] | Some v \<Rightarrow> [(''authorization'', v)]) options w
           in express_finish options APromise w))"

section \<open>The bearer token, characterised\<close>

lemma trim_no_ws: "\<not> list_ex is_ws s \<Longrightarrow> trim s = s"
proof -
  assume "\<not> list_ex is_ws s"
  then have "dropWhile is_ws s = s" "dropWhile is_ws (rev s) = rev s"
    by (auto simp: dropWhile_eq_self_iff list_ex_iff hd_rev)
  then show ?thesis by (simp add: trim_def trim_left_def trim_right_def)
qed

lemma space_is_ws [simp]: "is_ws (CHR '' '')"
  by (simp add: is_ws_def)

lemma lower_bearer_no_space: "to_lower scheme = ''bearer'' \<Longrightarrow> CHR '' '' \<notin> set scheme"
proof
  assume b: "to_lower scheme = ''bearer''" and "CHR '' '' \<in> set scheme"
  then have "to_lower_char (CHR '' '') \<in> set (to_lower scheme)" by (auto simp: to_lower_def)
  then show False unfolding b by (simp add: to_lower_char_def)
qed

lemma at_space:
  assumes "CHR '' '' \<notin> set s"
  shows "takeWhile (\<lambda>c. c \<noteq> CHR '' '') (s @ CHR '' '' # r) = s" "dropWhile (\<lambda>c. c \<noteq> CHR '' '') (s @ CHR '' '' # r) = CHR '' '' # r"
  using assms by (induction s) auto

lemma token_iff:
  "parseBearerToken header = Token token \<longleftrightarrow>
     (\<exists>scheme. to_lower scheme = ''bearer'' \<and> header = scheme @ '' '' @ token) \<and> token \<noteq> [] \<and> \<not> list_ex is_ws token"
proof
  assume ok: "parseBearerToken header = Token token"
  then have "CHR '' '' \<in> set header" by (auto simp: parseBearerToken_def split: if_splits)
  then obtain scheme rest where h: "header = scheme @ CHR '' '' # rest" and "CHR '' '' \<notin> set scheme"
    by (auto dest: split_list_first)
  note at = at_space [OF this(2), of rest]
  from ok have "to_lower scheme = ''bearer''" "token = trim rest" "token \<noteq> []" "\<not> list_ex is_ws rest"
    by (auto simp: parseBearerToken_def Let_def h at split: if_splits)
  moreover from this have "token = rest" using trim_no_ws by blast
  ultimately show "(\<exists>scheme. to_lower scheme = ''bearer'' \<and> header = scheme @ '' '' @ token) \<and> token \<noteq> [] \<and> \<not> list_ex is_ws token"
    using h by auto
next
  assume "(\<exists>scheme. to_lower scheme = ''bearer'' \<and> header = scheme @ '' '' @ token) \<and> token \<noteq> [] \<and> \<not> list_ex is_ws token"
  then obtain scheme where s: "to_lower scheme = ''bearer''" "header = scheme @ CHR '' '' # token" "token \<noteq> []" "\<not> list_ex is_ws token"
    by auto
  with trim_no_ws [OF s(4)] at_space [OF lower_bearer_no_space [OF s(1)], of token]
  show "parseBearerToken header = Token token"
    by (simp add: parseBearerToken_def Let_def)
qed

text \<open>
  A token is taken from a header exactly when the header is the scheme \<open>Bearer\<close>, in any case, one
  space, and the token, which is not empty and has no whitespace.
\<close>

theorem parseBearerToken_iff:
  "parseBearerToken header = Token token \<longleftrightarrow>
     (\<exists>scheme. to_lower scheme = ''bearer'' \<and> header = scheme @ '' '' @ token) \<and> token \<noteq> [] \<and> \<not> list_ex is_ws token"
  by (rule token_iff)

section \<open>What authentication guarantees\<close>

definition not_revoked :: "'w auth_options \<Rightarrow> string \<Rightarrow> string option \<Rightarrow> 'w \<Rightarrow> bool" where
  "not_revoked options address jti w =
     (case ao_revocationStore options of
        None \<Rightarrow> True
      | Some store \<Rightarrow>
          (case ro_isRevoked store address w of
             (Ret False, w') \<Rightarrow>
               (case (jti, ro_isTokenRevoked store) of
                  (Some j, Some checkToken) \<Rightarrow> fst (checkToken j w') = Ret False
                | _ \<Rightarrow> True)
           | _ \<Rightarrow> False))"

lemma apply_ok:
  "fst (applyRevocationStore (AuthOk a j) options w) = Ret (AuthOk a' j') \<longleftrightarrow> a = a' \<and> j = j' \<and> not_revoked options a j w"
  by (auto simp: applyRevocationStore_def not_revoked_def auth_fail_def split: option.splits prod.splits sum.splits bool.splits)

lemma verify_headers_ok:
  "verifyRequestHeaders env headers options w = (AuthOk a j, w') \<longleftrightarrow>
     (\<exists>token r. parseBearerToken (raw_authorization headers) = Token token
        \<and> int (length token) \<le> (case ao_maxTokenLength options of None \<Rightarrow> 8192 | Some m \<Rightarrow> m)
        \<and> verifyChallenge env token (ao_verify options) w = (r, w') \<and> vr_valid r \<and> vr_address r = a \<and> vr_jti r = j)"
  by (auto simp: verifyRequestHeaders_def auth_fail_def Let_def not_less split: token_result.splits prod.splits if_splits)

text \<open>
  C10. \<open>authenticateRequest\<close> accepts a request exactly when it carries a bearer token of bounded length
  whose challenge verifies, and neither its account nor the token is revoked at that moment.
\<close>

theorem authenticateRequest_iff:
  "fst (authenticateRequest env headers options w) = Ret (AuthOk a j) \<longleftrightarrow>
     (\<exists>token r w'. parseBearerToken (raw_authorization headers) = Token token
        \<and> int (length token) \<le> (case ao_maxTokenLength options of None \<Rightarrow> 8192 | Some m \<Rightarrow> m)
        \<and> verifyChallenge env token (ao_verify options) w = (r, w') \<and> vr_valid r \<and> vr_address r = a \<and> vr_jti r = j
        \<and> not_revoked options a j w')"
proof -
  obtain res w' where res: "verifyRequestHeaders env headers options w = (res, w')" by fastforce
  show ?thesis
  proof (cases res)
    case (AuthOk a' j')
    with res have "fst (authenticateRequest env headers options w) = Ret (AuthOk a j) \<longleftrightarrow>
        verifyRequestHeaders env headers options w = (AuthOk a j, w') \<and> not_revoked options a j w'"
      by (auto simp: authenticateRequest_def apply_ok)
    then show ?thesis unfolding verify_headers_ok using res by (auto simp: verify_headers_ok AuthOk)
  next
    case (AuthFail e rs www)
    then have "\<nexists>w'. verifyRequestHeaders env headers options w = (AuthOk a j, w')" using res by simp
    then show ?thesis using res AuthFail unfolding verify_headers_ok
      by (auto simp: authenticateRequest_def applyRevocationStore_def)
  qed
qed

text \<open>
  C12. The Fastify adapter does what \<open>authenticateRequest\<close> says: it passes a request on exactly with the
  authenticated address, answers a failure with status 401, and hands a store failure on.
\<close>

theorem fastify_matches_authenticateRequest:
  "fastify_authenticate env options req w =
     (case authenticateRequest env (ar_headers req) options w of
        (Throw e, w) \<Rightarrow> ((NextError e, None), w)
      | (Ret (AuthFail error reason www), w) \<Rightarrow> ((unauthorized error reason www, None), w)
      | (Ret (AuthOk address jti), w) \<Rightarrow> ((Next, Some address), w))"
proof -
  obtain res w' where res: "verifyRequestHeaders env (ar_headers req) options w = (res, w')" by fastforce
  show ?thesis
    by (cases res; cases "ao_revocationStore options")
      (simp_all add: fastify_authenticate_def authenticateRequest_def res applyRevocationStore_def [of _ _ w'] split: prod.splits)
qed

lemma express_rejects:
  "\<exists>resp. fst (express_authenticate env options req w) = (Respond resp, None) \<and> hr_status resp = 401"
  by (auto simp: express_authenticate_def express_finish_def unauthorized_promise_def unauthorized_def auth_fail_def Let_def
    split: option.splits token_result.splits prod.splits)

text \<open>
  C11. The Express adapter rejects every request with status 401, however valid its token: it looks at
  the promise of the verification instead of its result.
\<close>

theorem express_rejects_all:
  "\<exists>resp. fst (express_authenticate env options req w) = (Respond resp, None) \<and> hr_status resp = 401"
  by (rule express_rejects)

section \<open>Revocation takes effect\<close>

text \<open>The in-memory store as the middleware sees it, in a world of the clock and the store.\<close>

definition memory_ops :: "(int \<times> memory_store) revocation_ops" where
  "memory_ops = \<lparr>ro_isRevoked = (\<lambda>a (now, s). let (b, s) = mem_isRevoked now a s in (Ret b, (now, s))),
     ro_isTokenRevoked = Some (\<lambda>j (now, s). let (b, s) = isTokenRevoked now j s in (Ret b, (now, s)))\<rparr>"


section \<open>Examples\<close>

text \<open>A server like \<open>example_verify_env\<close> whose world is the clock and a store.\<close>

definition example_auth_env :: "(int \<times> memory_store) verify_env" where
  "example_auth_env = \<lparr>ve_isEd25519 = (\<lambda>a. a = ''GS''), ve_testnet = ''Test'', ve_now = fst,
     ve_timeBounds = (\<lambda>xdr p. Ret None),
     ve_readChallengeTx = (\<lambda>args now. if sa_xdr args = ''AAAA'' then Ret (''GA'', example_tx) else Throw (mk_error ''bad xdr'')),
     ve_verifySigners = (\<lambda>args signers now. Ret ()),
     ve_verifyThreshold = (\<lambda>args threshold signers now. Ret ()),
     ve_baseAccount = Ret\<rparr>"

definition example_auth_options :: "(int \<times> memory_store) auth_options" where
  "example_auth_options = \<lparr>ao_verify = \<lparr>vo_serverAccountId = ''GS'', vo_networkPassphrase = None, vo_homeDomains = One ''a.org'',
       vo_webAuthDomain = One ''a.org'', vo_expectedMemo = None, vo_clockSkewToleranceSec = None, vo_accountLoader = None\<rparr>,
     ao_revocationStore = Some memory_ops, ao_maxTokenLength = None, ao_getToken = None\<rparr>"

definition example_auth_request :: auth_request where
  "example_auth_request = \<lparr>ar_headers = [(''authorization'', One ''Bearer AAAA'')]\<rparr>"

lemma example_token: "parseBearerToken ''Bearer AAAA'' = Token ''AAAA''"
proof -
  have "to_lower ''Bearer'' = ''bearer''" by (simp add: to_lower_def to_lower_char_def char_eq_iff del: of_char_eq_iff)
  moreover have "\<not> list_ex is_ws ''AAAA''" by (simp add: is_ws_def)
  ultimately have "(\<exists>scheme. to_lower scheme = ''bearer'' \<and> ''Bearer AAAA'' = scheme @ '' '' @ ''AAAA'') \<and> ''AAAA'' \<noteq> [] \<and> \<not> list_ex is_ws ''AAAA''"
    by (intro conjI exI [of _ "''Bearer''"]) simp_all
  then show ?thesis by (simp add: token_iff)
qed

lemma example_verified:
  "\<exists>j. verifyRequestHeaders example_auth_env (ar_headers example_auth_request) example_auth_options w = (AuthOk ''GA'' j, w)"
proof -
  have sel: "ve_isEd25519 example_auth_env ''GS''" "ve_readChallengeTx example_auth_env args now = (if sa_xdr args = ''AAAA'' then Ret (''GA'', example_tx) else Throw (mk_error ''bad xdr''))"
    "ve_verifySigners example_auth_env args signers now = Ret ()" for args now signers
    by (simp_all add: example_auth_env_def)
  have skew: "withClockSkewTolerance example_auth_env xdr p 0 f now = f now" for xdr p now and f :: "int \<Rightarrow> 'a"
    by (simp add: withClockSkewTolerance_def skewed_now_def)
  show ?thesis
    by (simp add: verifyRequestHeaders_def example_auth_request_def raw_authorization_def example_token example_auth_options_def
      verifyChallenge_def isValidStellarAddress_def sel skew assertBareDomain_def bare_examples try_domain_def conclude_def)
qed


text \<open>
  The adapters disagree: there is a request, from an account that is not revoked, that Fastify lets
  in and Express refuses.
\<close>

theorem adapters_disagree:
  "fst (fastify_authenticate example_auth_env example_auth_options example_auth_request (0, new_memory_store None)) = (Next, Some ''GA'')
    \<and> (\<exists>resp. fst (express_authenticate example_auth_env example_auth_options example_auth_request (0, new_memory_store None)) = (Respond resp, None)
        \<and> hr_status resp = 401)"
proof -
  let ?w = "(0 :: int, new_memory_store None)"
  obtain j where v: "verifyRequestHeaders example_auth_env (ar_headers example_auth_request) example_auth_options ?w = (AuthOk ''GA'' j, ?w)"
    using example_verified by blast
  have "applyRevocationStore (AuthOk ''GA'' j) example_auth_options ?w = (Ret (AuthOk ''GA'' j), ?w)"
    by (cases j) (simp_all add: applyRevocationStore_def example_auth_options_def memory_ops_def mem_isRevoked_def isTokenRevoked_def new_memory_store_def)
  then have "fst (fastify_authenticate example_auth_env example_auth_options example_auth_request ?w) = (Next, Some ''GA'')"
    by (simp add: fastify_authenticate_def v)
  then show ?thesis by (intro conjI express_rejects)
qed

end
