(* ===== verification/Events.thy ===== *)
theory Events
  imports Json
begin

text \<open>
  \<open>RawContractEvent\<close> and the \<open>EventSource\<close> interface of \<open>horizon-listener/src/eventSource.ts\<close>, which every
  part of the listener uses. The value of an event is a JSON value.
\<close>

record raw_event =
  ev_id :: string
  ev_contractId :: string
  ev_ledger :: int
  ev_topic :: "string list"
  ev_value :: json

definition event_json :: "raw_event \<Rightarrow> json" where
  "event_json e = JObj [(''id'', JStr (ev_id e)), (''contractId'', JStr (ev_contractId e)),
     (''ledger'', JNum (dec_of_int (ev_ledger e))), (''topic'', JArr (map JStr (ev_topic e))), (''value'', ev_value e)]"

lemma json_ok_event [simp]: "json_ok (event_json e) \<longleftrightarrow> json_ok (ev_value e)"
proof -
  have "list_all json_ok (map JStr (ev_topic e))" by (simp add: list_all_iff)
  then show ?thesis by (simp add: event_json_def number_ok_dec)
qed

text \<open>Reading a property of \<open>undefined\<close> or \<open>null\<close> throws, of another primitive is undefined.\<close>

definition get_prop :: "json \<Rightarrow> string \<Rightarrow> thrown + json option" where
  "get_prop j k = (case j of JObj kvs \<Rightarrow> Ret (map_get (rev kvs) k)
     | JNull \<Rightarrow> Throw (type_error (''Cannot read properties of null (reading '' @ [CHR 0x27] @ k @ [CHR 0x27] @ '')''))
     | _ \<Rightarrow> Ret None)"

text \<open>What \<open>getEvents\<close> answers.\<close>

record event_page =
  pg_events :: "raw_event list"
  pg_nextCursor :: string
  pg_latestLedger :: "int option"

end
