(* ===== verification/WebForm.thy ===== *)
theory WebForm
  imports Uri Events Backoff
begin

text \<open>
  What the HTTP clients of the repository take from the platform: form encoding of query parameters, the text of
  a JSON value, and the part of a fetch response they read.
\<close>

text \<open>\<open>URLSearchParams\<close>: form encoding, where a space is a plus sign.\<close>

definition form_plain :: "char \<Rightarrow> bool" where
  "form_plain c \<longleftrightarrow> (let n = of_char c :: nat in
     (48 \<le> n \<and> n \<le> 57) \<or> (65 \<le> n \<and> n \<le> 90) \<or> (97 \<le> n \<and> n \<le> 122) \<or> c \<in> set [CHR ''*'', CHR ''-'', CHR ''.'', CHR ''_''])"

definition form_char :: "char \<Rightarrow> string" where
  "form_char c = (let n = of_char c :: nat in
     if form_plain c then [c] else if c = CHR '' '' then [CHR ''+'']
     else if n < 128 then percent n
     else percent (192 + n div 64) @ percent (128 + n mod 64))"

definition form_encode :: "string \<Rightarrow> string" where
  "form_encode s = concat (map form_char s)"

definition search_params :: "(string \<times> string) list \<Rightarrow> string" where
  "search_params ps = join ''&'' (map (\<lambda>(k, v). form_encode k @ ''='' @ form_encode v) ps)"

text \<open>
  \<open>String(v)\<close> of a JSON value; \<open>number_text\<close> prints the number of a token. An array prints its elements
  with \<open>null\<close> as nothing.
\<close>

fun js_String :: "(string \<Rightarrow> string) \<Rightarrow> json \<Rightarrow> string" where
  "js_String number_text JNull = ''null''"
| "js_String number_text (JBool b) = (if b then ''true'' else ''false'')"
| "js_String number_text (JNum t) = number_text t"
| "js_String number_text (JStr s) = s"
| "js_String number_text (JArr vs) = join '','' (map (\<lambda>v. if v = JNull then [] else js_String number_text v) vs)"
| "js_String number_text (JObj kvs) = ''[object Object]''"

text \<open>A value in a boolean context; \<open>None\<close> is \<open>undefined\<close>.\<close>

definition js_truthy :: "(string \<Rightarrow> string) \<Rightarrow> json option \<Rightarrow> bool" where
  "js_truthy number_text v \<longleftrightarrow> (case v of None \<Rightarrow> False | Some JNull \<Rightarrow> False | Some (JBool b) \<Rightarrow> b
     | Some (JNum t) \<Rightarrow> number_text t \<noteq> ''0'' | Some (JStr s) \<Rightarrow> s \<noteq> [] | Some _ \<Rightarrow> True)"

text \<open>\<open>parseInt(s, 10)\<close>; \<open>None\<close> is NaN. A number is exact here where the engine rounds it to a double.\<close>

definition parse_int :: "string \<Rightarrow> int option" where
  "parse_int s =
     (let t = trim_left s;
          (negative, u) = (case t of [] \<Rightarrow> (False, [])
            | c # r \<Rightarrow> if c = CHR ''-'' then (True, r) else if c = CHR ''+'' then (False, r) else (False, t));
          ds = takeWhile is_digit u
      in if ds = [] then None else Some ((if negative then - 1 else 1) * int (nat_of_dec ds)))"

text \<open>The parts of a fetch \<open>Response\<close>; \<open>fr_json\<close> is what \<open>json()\<close> settles to.\<close>

record fetch_response =
  fr_status :: int
  fr_statusText :: string
  fr_json :: "thrown + json"

definition fr_ok :: "fetch_response \<Rightarrow> bool" where
  "fr_ok r \<longleftrightarrow> 200 \<le> fr_status r \<and> fr_status r \<le> 299"

end
