(* ===== verification/Client.thy ===== *)
theory Client
  imports Challenge WebForm
begin

text \<open>
  \<open>sep10-auth/src/client.ts\<close>: \<open>authenticateWithSep10\<close>, the client side of SEP-10. Fetch, the resolution of
  \<open>stellar.toml\<close>, the SDK's reading of a challenge and its signing are the environment \<open>client_env\<close>; the options
  that inject a logger or a fetch are left out, the log lines too.
\<close>

datatype client_code =
    InvalidKeypair | InvalidServerAccountId | ServerKeyNotFound | TomlResolutionFailed | ChallengeRequestFailed
  | NetworkMismatch | InvalidServerSignature | AccountMismatch | TokenExchangeFailed

text \<open>What a call rejects with: the module's error class with its code, or another thrown value.\<close>

datatype client_error = Sep10ClientError client_code string | Other_Error thrown

record client_options =
  ao_authEndpoint :: string
  ao_keypair :: keypair
  ao_homeDomain :: string
  ao_clientDomain :: "string option"
  ao_serverAccountId :: "string option"
  ao_networkPassphrase :: "string option"
  ao_webAuthDomain :: "string option"
  ao_memo :: "string option"

datatype http_call = Get_Request string | Post_Request string "(string \<times> string) list" string

record 'w client_env =
  ck_isEd25519 :: "string \<Rightarrow> bool"
  ck_testnet :: string
  ck_resolveToml :: "string \<Rightarrow> 'w \<Rightarrow> (thrown + string option) \<times> 'w"
  ck_fetch :: "http_call \<Rightarrow> 'w \<Rightarrow> (thrown + fetch_response) \<times> 'w"
  ck_readChallengeTx :: "json option \<Rightarrow> string \<Rightarrow> string \<Rightarrow> string \<Rightarrow> string \<Rightarrow> 'w \<Rightarrow> thrown + string"
  ck_sign :: "json option \<Rightarrow> string \<Rightarrow> keypair \<Rightarrow> thrown + string"
  ck_number_text :: "string \<Rightarrow> string"

definition client_fail :: "client_code \<Rightarrow> string \<Rightarrow> client_error + 'a" where
  "client_fail code message = Throw (Sep10ClientError code message)"

definition escapes :: "thrown + 'a \<Rightarrow> client_error + 'a" where
  "escapes r = map_sum Other_Error id r"

definition error_text :: "thrown \<Rightarrow> string" where
  "error_text e = (if is_error e then thrown_message e else thrown_string e)"

definition is_given :: "string option \<Rightarrow> bool" where
  "is_given s \<longleftrightarrow> s \<noteq> None \<and> s \<noteq> Some []"

definition web_auth_domain :: "client_options \<Rightarrow> string" where
  "web_auth_domain options = or_default (ao_webAuthDomain options) (ao_homeDomain options)"

definition check_client_options :: "client_options \<Rightarrow> client_error + unit" where
  "check_client_options options =
     (if \<not> kp_canSign (ao_keypair options) then
        client_fail InvalidKeypair (''keypair must be able to sign '' @ [CHR 0x97] @ '' provide a keypair with a secret key'')
      else
        escapes (js_bind (assertBareDomain ''homeDomain'' (ao_homeDomain options)) (\<lambda>_.
                 js_bind (assertBareDomain ''webAuthDomain'' (web_auth_domain options)) (\<lambda>_.
                 if is_given (ao_clientDomain options) then assertBareDomain ''clientDomain'' (the (ao_clientDomain options))
                 else Ret ()))))"

text \<open>The server's key: the option, or the \<open>SIGNING_KEY\<close> of \<open>stellar.toml\<close>.\<close>

definition resolve_server :: "'w client_env \<Rightarrow> client_options \<Rightarrow> 'w \<Rightarrow> (client_error + string) \<times> 'w" where
  "resolve_server env options w =
     (if is_given (ao_serverAccountId options) then (Ret (the (ao_serverAccountId options)), w)
      else (case ck_resolveToml env (ao_homeDomain options) w of
          (Throw e, w) \<Rightarrow> (client_fail TomlResolutionFailed
             (''Failed to resolve stellar.toml for '' @ ao_homeDomain options @ '': '' @ error_text e), w)
        | (Ret key, w) \<Rightarrow>
            (if is_given key then Ret (the key)
             else client_fail ServerKeyNotFound (''No SIGNING_KEY found in stellar.toml for '' @ ao_homeDomain options), w)))"

definition challenge_params :: "client_options \<Rightarrow> (string \<times> string) list" where
  "challenge_params options =
     [(''account'', kp_publicKey (ao_keypair options)), (''home_domain'', ao_homeDomain options)]
     @ (if is_given (ao_clientDomain options) then [(''client_domain'', the (ao_clientDomain options))] else [])
     @ (if is_given (ao_memo options) then [(''memo'', the (ao_memo options))] else [])"

definition challenge_url :: "client_options \<Rightarrow> string" where
  "challenge_url options = ao_authEndpoint options @ ''?'' @ search_params (challenge_params options)"

text \<open>The error of an answer that is not ok; a body that does not parse counts as empty.\<close>

definition http_failure :: "'w client_env \<Rightarrow> client_code \<Rightarrow> string \<Rightarrow> fetch_response \<Rightarrow> client_error" where
  "http_failure env code what response =
     (let body = (case fr_json response of Throw e \<Rightarrow> JObj [] | Ret body \<Rightarrow> body) in
      case get_prop body ''error'' of
        Throw e \<Rightarrow> Other_Error e
      | Ret err \<Rightarrow> Sep10ClientError code (what @ '' ('' @ dec_of_int (fr_status response) @ ''): '' @
          (case err of None \<Rightarrow> fr_statusText response | Some JNull \<Rightarrow> fr_statusText response
           | Some v \<Rightarrow> js_String (ck_number_text env) v)))"

definition request_json ::
  "'w client_env \<Rightarrow> client_code \<Rightarrow> string \<Rightarrow> http_call \<Rightarrow> 'w \<Rightarrow> (client_error + json) \<times> 'w" where
  "request_json env code what call w =
     (case ck_fetch env call w of
        (Throw e, w) \<Rightarrow> (client_fail code (what @ '': '' @ error_text e), w)
      | (Ret response, w) \<Rightarrow>
          (if fr_ok response then escapes (fr_json response) else Throw (http_failure env code what response), w))"

definition network_of_options :: "'w client_env \<Rightarrow> client_options \<Rightarrow> string" where
  "network_of_options env options = or_default (ao_networkPassphrase options) (ck_testnet env)"

text \<open>The checks of the challenge and its signing.\<close>

definition signed_challenge ::
  "'w client_env \<Rightarrow> client_options \<Rightarrow> string \<Rightarrow> json \<Rightarrow> 'w \<Rightarrow> client_error + string" where
  "signed_challenge env options serverAccountId challenge w =
     (let networkPassphrase = network_of_options env options; account = kp_publicKey (ao_keypair options) in
      js_bind (escapes (get_prop challenge ''network_passphrase'')) (\<lambda>p.
        if p \<noteq> Some (JStr networkPassphrase) then
          client_fail NetworkMismatch (''Network passphrase mismatch: expected '' @ [CHR 0x22] @ networkPassphrase @ [CHR 0x22] @ '', got ''
            @ [CHR 0x22] @ (case p of None \<Rightarrow> ''undefined'' | Some v \<Rightarrow> js_String (ck_number_text env) v) @ [CHR 0x22])
        else js_bind (escapes (get_prop challenge ''transaction'')) (\<lambda>tx.
          case ck_readChallengeTx env tx serverAccountId networkPassphrase (ao_homeDomain options) (web_auth_domain options) w of
            Throw e \<Rightarrow> client_fail InvalidServerSignature (''Server signature validation failed: '' @ error_text e)
          | Ret clientAccountID \<Rightarrow>
              if clientAccountID \<noteq> account then
                client_fail AccountMismatch (''Challenge account mismatch: expected '' @ [CHR 0x22] @ account @ [CHR 0x22] @ '', got ''
                  @ [CHR 0x22] @ clientAccountID @ [CHR 0x22])
              else escapes (ck_sign env tx networkPassphrase (ao_keypair options)))))"

definition exchange_call :: "client_options \<Rightarrow> string \<Rightarrow> http_call" where
  "exchange_call options signedXDR = Post_Request (ao_authEndpoint options) [(''Content-Type'', ''application/json'')]
     (stringify (JObj [(''transaction'', JStr signedXDR)]))"

text \<open>The token is whatever the answer holds under \<open>token\<close>.\<close>

definition authenticateWithSep10 ::
  "'w client_env \<Rightarrow> client_options \<Rightarrow> 'w \<Rightarrow> (client_error + json option) \<times> 'w" where
  "authenticateWithSep10 env options w =
     (case check_client_options options of
        Throw e \<Rightarrow> (Throw e, w)
      | Ret _ \<Rightarrow> (case resolve_server env options w of
          (Throw e, w) \<Rightarrow> (Throw e, w)
        | (Ret serverAccountId, w) \<Rightarrow>
            if \<not> isValidStellarAddress (ck_isEd25519 env) serverAccountId then
              (client_fail InvalidServerAccountId (''Invalid serverAccountId: '' @ serverAccountId), w)
            else (case request_json env ChallengeRequestFailed ''Challenge request failed'' (Get_Request (challenge_url options)) w of
              (Throw e, w) \<Rightarrow> (Throw e, w)
            | (Ret challenge, w) \<Rightarrow> (case signed_challenge env options serverAccountId challenge w of
                Throw e \<Rightarrow> (Throw e, w)
              | Ret signedXDR \<Rightarrow>
                  (case request_json env TokenExchangeFailed ''Token exchange failed'' (exchange_call options signedXDR) w of
                     (Throw e, w) \<Rightarrow> (Throw e, w)
                   | (Ret result, w) \<Rightarrow> (escapes (get_prop result ''token''), w))))))"

section \<open>Properties\<close>

text \<open>The same environment, keeping the requests it makes.\<close>

definition recording :: "'w client_env \<Rightarrow> ('w \<times> http_call list) client_env" where
  "recording env = \<lparr>ck_isEd25519 = ck_isEd25519 env, ck_testnet = ck_testnet env,
     ck_resolveToml = (\<lambda>d (w, calls). case ck_resolveToml env d w of (r, w) \<Rightarrow> (r, w, calls)),
     ck_fetch = (\<lambda>c (w, calls). case ck_fetch env c w of (r, w) \<Rightarrow> (r, w, calls @ [c])),
     ck_readChallengeTx = (\<lambda>tx server net home web (w, calls). ck_readChallengeTx env tx server net home web w),
     ck_sign = ck_sign env, ck_number_text = ck_number_text env\<rparr>"

lemma recording_simps [simp]:
  "ck_isEd25519 (recording env) = ck_isEd25519 env" "ck_testnet (recording env) = ck_testnet env"
  "ck_sign (recording env) = ck_sign env" "ck_number_text (recording env) = ck_number_text env"
  "ck_resolveToml (recording env) d (w, calls) = (case ck_resolveToml env d w of (r, w) \<Rightarrow> (r, w, calls))"
  "ck_fetch (recording env) c (w, calls) = (case ck_fetch env c w of (r, w) \<Rightarrow> (r, w, calls @ [c]))"
  "ck_readChallengeTx (recording env) tx server net home web (w, calls) = ck_readChallengeTx env tx server net home web w"
  by (simp_all add: recording_def)

lemma resolve_recording: "resolve_server (recording env) options (w, calls) =
    (case resolve_server env options w of (r, w) \<Rightarrow> (r, w, calls))"
  by (simp add: resolve_server_def split: prod.split sum.split)

lemma http_failure_recording [simp]: "http_failure (recording env) code what response = http_failure env code what response"
  unfolding http_failure_def recording_simps ..

lemma request_recording: "request_json (recording env) code what call (w, calls) =
    (case request_json env code what call w of (r, w) \<Rightarrow> (r, w, calls @ [call]))"
  by (simp add: request_json_def split: prod.split sum.split)

lemma signed_recording: "signed_challenge (recording env) options server challenge (w, calls) = signed_challenge env options server challenge w"
  unfolding signed_challenge_def network_of_options_def recording_simps ..

lemma escapes_Ret [simp]: "escapes r = Ret a \<longleftrightarrow> r = Ret a"
  by (cases r) (simp_all add: escapes_def)

lemma escapes_Throw [simp]: "escapes r = Throw e \<longleftrightarrow> (\<exists>x. r = Throw x \<and> e = Other_Error x)"
  by (cases r) (auto simp: escapes_def)

lemma client_fail_neq [simp]: "client_fail code m \<noteq> Ret a" "client_fail code m \<noteq> Throw (Other_Error e)"
  by (simp_all add: client_fail_def)

text \<open>What the client has checked of a challenge it signs.\<close>

definition vouched_challenge :: "'w client_env \<Rightarrow> client_options \<Rightarrow> string \<Rightarrow> string \<Rightarrow> bool" where
  "vouched_challenge env options server signedXDR \<longleftrightarrow>
     (\<exists>tx w. ck_readChallengeTx env tx server (network_of_options env options) (ao_homeDomain options) (web_auth_domain options) w
          = Ret (kp_publicKey (ao_keypair options))
        \<and> ck_sign env tx (network_of_options env options) (ao_keypair options) = Ret signedXDR)"

lemma signed_challenge_vouched:
  assumes "signed_challenge env options server challenge w = Ret signedXDR"
  shows "vouched_challenge env options server signedXDR"
proof -
  from assms obtain tx where tx: "(case ck_readChallengeTx env tx server (network_of_options env options) (ao_homeDomain options)
      (web_auth_domain options) w of Throw e \<Rightarrow> client_fail InvalidServerSignature (''Server signature validation failed: '' @ error_text e)
    | Ret a \<Rightarrow> if a \<noteq> kp_publicKey (ao_keypair options) then
        client_fail AccountMismatch (''Challenge account mismatch: expected '' @ [CHR 0x22] @ kp_publicKey (ao_keypair options)
          @ [CHR 0x22] @ '', got '' @ [CHR 0x22] @ a @ [CHR 0x22])
      else escapes (ck_sign env tx (network_of_options env options) (ao_keypair options))) = Ret signedXDR"
    by (auto simp: signed_challenge_def Let_def js_bind_Ret_iff split: if_splits)
  then show ?thesis unfolding vouched_challenge_def
    by (cases "ck_readChallengeTx env tx server (network_of_options env options) (ao_homeDomain options) (web_auth_domain options) w")
      (auto split: if_splits)
qed

text \<open>
  C15. Whatever the server answers, the client posts at most one transaction, and only one it signed after the SDK read
  it as a challenge of the server's key, for the client's own account, home domain, web-auth domain and network. The key is
  the one of the options or of stellar.toml and is a valid account. Every call makes no request, only the request for
  the challenge, or that and the exchange, and without the exchange it fails.
\<close>

theorem client_sends_only_vouched:
  "case authenticateWithSep10 (recording env) options (w, []) of (r, _, calls) \<Rightarrow>
     (\<exists>e. r = Throw e \<and> calls \<in> {[], [Get_Request (challenge_url options)]})
     \<or> (\<exists>server signedXDR. calls = [Get_Request (challenge_url options), exchange_call options signedXDR]
          \<and> fst (resolve_server env options w) = Ret server \<and> ck_isEd25519 env server \<and> vouched_challenge env options server signedXDR)"
proof (cases "check_client_options options")
  case (Inr u)
  obtain r1 w1 where resolve: "resolve_server env options w = (r1, w1)" by fastforce
  show ?thesis
  proof (cases r1)
    case server: (Inr server)
    obtain r2 w2 where get: "request_json env ChallengeRequestFailed ''Challenge request failed'' (Get_Request (challenge_url options)) w1 = (r2, w2)"
      by fastforce
    show ?thesis
    proof (cases "ck_isEd25519 env server")
      case valid: True
      show ?thesis
      proof (cases r2)
        case challenge: (Inr challenge)
        show ?thesis
          by (cases "signed_challenge env options server challenge w2")
            (use signed_challenge_vouched [of env options server challenge w2] in
              \<open>auto simp: authenticateWithSep10_def Inr resolve_recording resolve server isValidStellarAddress_def valid request_recording get
                challenge signed_recording split: sum.split prod.split\<close>)
      qed (simp add: authenticateWithSep10_def Inr resolve_recording resolve server isValidStellarAddress_def valid request_recording get)
    qed (simp add: authenticateWithSep10_def Inr resolve_recording resolve server isValidStellarAddress_def client_fail_def)
  qed (simp add: authenticateWithSep10_def Inr resolve_recording resolve)
qed (simp add: authenticateWithSep10_def)

lemma client_accepts:
  assumes "check_client_options options = Ret u" and "resolve_server env options w = (Ret server, w1)" and "ck_isEd25519 env server"
    and "request_json env ChallengeRequestFailed ''Challenge request failed'' (Get_Request (challenge_url options)) w1 = (Ret challenge, w2)"
    and "signed_challenge env options server challenge w2 = Ret signedXDR"
    and "request_json env TokenExchangeFailed ''Token exchange failed'' (exchange_call options signedXDR) w2 = (Ret result, w3)"
    and "get_prop result ''token'' = Ret token"
  shows "authenticateWithSep10 env options w = (Ret token, w3)"
  using assms by (simp add: authenticateWithSep10_def isValidStellarAddress_def escapes_def)

lemma signed_challenge_accepts:
  assumes "get_prop challenge ''network_passphrase'' = Ret (Some (JStr (network_of_options env options)))"
    and "get_prop challenge ''transaction'' = Ret tx"
    and "ck_readChallengeTx env tx server (network_of_options env options) (ao_homeDomain options) (web_auth_domain options) w
      = Ret (kp_publicKey (ao_keypair options))"
    and "ck_sign env tx (network_of_options env options) (ao_keypair options) = Ret signedXDR"
  shows "signed_challenge env options server challenge w = Ret signedXDR"
  using assms by (simp add: signed_challenge_def Let_def escapes_def)

section \<open>Which failures carry a code\<close>

text \<open>What makes the documented promise true: bare domains, answers that are JSON objects, and a signing that works.\<close>

definition well_behaved :: "'w client_env \<Rightarrow> client_options \<Rightarrow> bool" where
  "well_behaved env options \<longleftrightarrow>
     \<not> not_bare (ao_homeDomain options) \<and> \<not> not_bare (web_auth_domain options)
     \<and> (\<forall>d. ao_clientDomain options = Some d \<longrightarrow> \<not> not_bare d)
     \<and> (\<forall>call w r w'. ck_fetch env call w = (Ret r, w') \<longrightarrow> (\<exists>kvs. fr_json r = Ret (JObj kvs)))
     \<and> (\<forall>tx. \<exists>s. ck_sign env tx (network_of_options env options) (ao_keypair options) = Ret s)"

lemma get_prop_object [simp]: "get_prop (JObj kvs) k = Ret (map_get (rev kvs) k)"
  by (simp add: get_prop_def)

lemma well_behaved_fetch: "well_behaved env options \<Longrightarrow> ck_fetch env call w = (Ret r, w') \<Longrightarrow> \<exists>kvs. fr_json r = Ret (JObj kvs)"
  unfolding well_behaved_def by blast

lemma well_behaved_sign: "well_behaved env options \<Longrightarrow>
    ck_sign env tx (network_of_options env options) (ao_keypair options) \<noteq> Throw e"
  unfolding well_behaved_def by (metis Inl_Inr_False)

lemma request_coded:
  assumes "well_behaved env options" and "request_json env code what call w = (r, w')"
  shows "(\<exists>kvs. r = Ret (JObj kvs)) \<or> (\<exists>code m. r = Throw (Sep10ClientError code m))"
proof (cases "ck_fetch env call w")
  case (Pair f w2)
  show ?thesis
  proof (cases f)
    case (Inr response)
    with well_behaved_fetch [OF assms(1), of call w response w2] Pair obtain kvs where "fr_json response = Ret (JObj kvs)" by auto
    with assms(2) Pair Inr show ?thesis by (auto simp: request_json_def http_failure_def escapes_def split: if_splits)
  qed (use assms(2) Pair in \<open>auto simp: request_json_def client_fail_def\<close>)
qed

lemma signed_coded:
  assumes "well_behaved env options"
  shows "signed_challenge env options server (JObj kvs) w \<noteq> Throw (Other_Error e)"
proof -
  have "escapes (ck_sign env tx (network_of_options env options) (ao_keypair options)) \<noteq> Throw (Other_Error e)" for tx
    using well_behaved_sign [OF assms] by simp
  then show ?thesis
    by (simp add: signed_challenge_def Let_def escapes_def split: sum.split)
qed

lemma options_coded: "well_behaved env options \<Longrightarrow> check_client_options options \<noteq> Throw (Other_Error e)"
  by (auto simp: well_behaved_def check_client_options_def assertBareDomain_def escapes_def is_given_def client_fail_def)

lemma resolve_coded: "fst (resolve_server env options w) \<noteq> Throw (Other_Error e)"
  by (auto simp: resolve_server_def client_fail_def split: prod.split sum.split)

text \<open>
  The documented promise that every failure is a Sep10ClientError with a code holds for bare domains, servers that
  answer JSON objects only and a signing that succeeds.
\<close>

theorem client_failures_coded:
  assumes wb: "well_behaved env options"
  shows "fst (authenticateWithSep10 env options w) \<noteq> Throw (Other_Error e)"
proof (cases "check_client_options options")
  case (Inr u)
  obtain r1 w1 where resolve: "resolve_server env options w = (r1, w1)" by fastforce
  obtain r2 w2 where get: "request_json env ChallengeRequestFailed ''Challenge request failed'' (Get_Request (challenge_url options)) w1 = (r2, w2)"
    by fastforce
  show ?thesis
  proof (cases r2)
    case challenge: (Inr challenge)
    with request_coded [OF wb get] obtain kvs where kvs: "challenge = JObj kvs" by auto
    show ?thesis
    proof (cases "signed_challenge env options (projr r1) challenge w2")
      case signed: (Inr signedXDR)
      obtain r3 w3 where post: "request_json env TokenExchangeFailed ''Token exchange failed'' (exchange_call options signedXDR) w2 = (r3, w3)"
        by fastforce
      from request_coded [OF wb post] resolve_coded [of env options w e] show ?thesis
        by (cases r1) (use Inr resolve get challenge signed post in
          \<open>auto simp: authenticateWithSep10_def isValidStellarAddress_def client_fail_def escapes_def\<close>)
    qed (use Inr resolve get challenge signed_coded [OF wb] resolve_coded [of env options w e] kvs in
        \<open>cases r1; auto simp: authenticateWithSep10_def isValidStellarAddress_def client_fail_def\<close>)
  qed (use Inr resolve get request_coded [OF wb get] resolve_coded [of env options w e] in
      \<open>cases r1; auto simp: authenticateWithSep10_def isValidStellarAddress_def client_fail_def\<close>)
qed (use options_coded [OF wb, of e] in \<open>simp add: authenticateWithSep10_def\<close>)

text \<open>
  It does not hold otherwise: a domain that is not bare rejects with the error of assertBareDomain, and a successful
  answer that is not JSON with the error of its parser.
\<close>

theorem client_domain_error_uncoded:
  assumes "kp_canSign (ao_keypair options)" and "not_bare (ao_homeDomain options)"
  shows "authenticateWithSep10 env options w = (Throw (Other_Error (invalid_domain_error ''homeDomain'' (ao_homeDomain options))), w)"
  using assms by (simp add: authenticateWithSep10_def check_client_options_def assertBareDomain_def escapes_def)

theorem client_json_error_uncoded:
  assumes "check_client_options options = Ret ()" "resolve_server env options w = (Ret server, w1)" "ck_isEd25519 env server"
    "ck_fetch env (Get_Request (challenge_url options)) w1 = (Ret response, w2)" "fr_ok response" "fr_json response = Throw e"
  shows "authenticateWithSep10 env options w = (Throw (Other_Error e), w2)"
  using assms by (simp add: authenticateWithSep10_def isValidStellarAddress_def request_json_def escapes_def)

section \<open>Examples\<close>

definition example_client_options :: client_options where
  "example_client_options = \<lparr>ao_authEndpoint = ''https://a.org/auth'', ao_keypair = \<lparr>kp_canSign = True, kp_publicKey = ''GA''\<rparr>,
     ao_homeDomain = ''a.org'', ao_clientDomain = None, ao_serverAccountId = Some ''GS'', ao_networkPassphrase = Some ''Test'',
     ao_webAuthDomain = Some ''b.org'', ao_memo = None\<rparr>"

definition example_client_env :: "json \<Rightarrow> unit client_env" where
  "example_client_env body = \<lparr>ck_isEd25519 = (\<lambda>a. a = ''GS''), ck_testnet = ''Test'', ck_resolveToml = (\<lambda>d w. (Ret None, w)),
     ck_fetch = (\<lambda>c w. (Ret \<lparr>fr_status = 200, fr_statusText = ''OK'', fr_json = Ret body\<rparr>, w)),
     ck_readChallengeTx = (\<lambda>tx server net home web w. Ret ''GA''), ck_sign = (\<lambda>tx net kp. Ret ''signed''), ck_number_text = (\<lambda>t. t)\<rparr>"

lemma example_client_bare: "\<not> not_bare ''a.org''" "\<not> not_bare ''b.org''"
  by (simp_all add: not_bare_iff is_ws_def)

theorem client_failures_coded_witness:
  "fst (authenticateWithSep10 (example_client_env (JObj [])) example_client_options ()) \<noteq> Throw (Other_Error e)"
proof (rule client_failures_coded)
  show "well_behaved (example_client_env (JObj [])) example_client_options"
    by (simp add: well_behaved_def example_client_options_def web_auth_domain_def example_client_bare)
      (simp add: example_client_env_def)
qed

theorem client_domain_error_uncoded_witness:
  "authenticateWithSep10 (example_client_env (JObj [])) (example_client_options\<lparr>ao_homeDomain := ''a/b''\<rparr>) ()
     = (Throw (Other_Error (invalid_domain_error ''homeDomain'' ''a/b'')), ())"
  using client_domain_error_uncoded [of "example_client_options\<lparr>ao_homeDomain := ''a/b''\<rparr>" "example_client_env (JObj [])" "()"]
  by (simp add: example_client_options_def not_bare_iff)

end
