(* ===== verification/Router.thy ===== *)
theory Router
  imports Middleware RateLimiter
begin

text \<open>
  \<open>sep10-auth/src/router.ts\<close>: the construction of the router, the two endpoints, and the rate limiter in
  front of them. Parsed query and body values are \<open>query_value\<close>s; Express itself is left out. The
  resolver of signing keys and a custom token issuer are the user's, act on the world and may reject.
\<close>

section \<open>Options\<close>

datatype js_secret = SecretString string | SecretBuffer "nat list"

record 'w router_options =
  rt_serverKeypair :: keypair
  rt_homeDomain :: one_or_many
  rt_webAuthDomain :: "one_or_many option"
  rt_networkPassphrase :: "string option"
  rt_challengeTimeoutSeconds :: "js_real option"
  rt_jwtSecret :: "js_secret option"
  rt_jwtExpiresInSeconds :: "int option"
  rt_jwtIssuer :: "string option"
  rt_issueToken :: "(string \<Rightarrow> string option \<Rightarrow> string \<Rightarrow> 'w \<Rightarrow> (thrown + string) \<times> 'w) option"
  rt_resolveClientSigningKey :: "(string \<Rightarrow> 'w \<Rightarrow> (thrown + string) \<times> 'w) option"
  rt_maxTransactionLength :: "int option"
  rt_accountLoader :: "'w account_loader option"

record 'w router_env =
  rn_challenge :: "'w challenge_env"
  rn_verify :: "'w verify_env"
  rn_sha256 :: "nat list \<Rightarrow> nat list"
  rn_hmac :: "nat list \<Rightarrow> nat list \<Rightarrow> nat list"

text \<open>What the closures of the routes capture.\<close>

record 'w sep10_router =
  sr_homeDomains :: "string list"
  sr_webAuthDomains :: "string list"
  sr_networkPassphrase :: string
  sr_maxTransactionLength :: int
  sr_issueToken :: "string \<Rightarrow> string option \<Rightarrow> string \<Rightarrow> 'w \<Rightarrow> (thrown + string) \<times> 'w"
  sr_options :: "'w router_options"

section \<open>Construction\<close>

fun secret_bytes :: "js_secret \<Rightarrow> nat list" where
  "secret_bytes (SecretString s) = utf8 s"
| "secret_bytes (SecretBuffer b) = b"

definition secret_given :: "js_secret option \<Rightarrow> bool" where
  "secret_given s \<longleftrightarrow> s \<noteq> None \<and> s \<noteq> Some (SecretString [])"

definition default_issuer :: "'w router_env \<Rightarrow> 'w router_options \<Rightarrow> string list \<Rightarrow> js_secret
    \<Rightarrow> string \<Rightarrow> string option \<Rightarrow> string \<Rightarrow> 'w \<Rightarrow> (thrown + string) \<times> 'w" where
  "default_issuer env options homeDomains secret account clientDomain transaction w =
     (Ret (issueJwt (rn_sha256 env) (rn_hmac env) (ve_now (rn_verify env) w)
        \<lparr>jw_secret = secret_bytes secret,
         jw_issuer = (case rt_jwtIssuer options of None \<Rightarrow> ''https://'' @ hd homeDomains | Some i \<Rightarrow> i),
         jw_subject = account, jw_expiresInSeconds = rt_jwtExpiresInSeconds options, jw_jtiSource = Some transaction,
         jw_clientDomain = clientDomain, jw_now = None\<rparr>), w)"

definition createSep10Router :: "'w router_env \<Rightarrow> 'w router_options \<Rightarrow> thrown + 'w sep10_router" where
  "createSep10Router env options =
     (let homeDomains = as_array (rt_homeDomain options);
          webAuthDomains = (case rt_webAuthDomain options of None \<Rightarrow> [hd homeDomains] | Some ds \<Rightarrow> as_array ds)
      in
      js_bind (assert_domains ''homeDomain'' (rt_homeDomain options)) (\<lambda>_.
      js_bind (assert_domains ''webAuthDomain'' (Many webAuthDomains)) (\<lambda>_.
        if \<not> kp_canSign (rt_serverKeypair options) then Throw (mk_error ''sep10-auth: serverKeypair must be able to sign'')
        else if rt_issueToken options = None \<and> \<not> secret_given (rt_jwtSecret options) then
          Throw (mk_error ''sep10-auth: either jwtSecret or issueToken must be provided'')
        else Ret \<lparr>sr_homeDomains = homeDomains, sr_webAuthDomains = webAuthDomains,
          sr_networkPassphrase = (case rt_networkPassphrase options of None \<Rightarrow> ve_testnet (rn_verify env) | Some p \<Rightarrow> p),
          sr_maxTransactionLength = (case rt_maxTransactionLength options of None \<Rightarrow> 8192 | Some m \<Rightarrow> m),
          sr_issueToken = (case rt_issueToken options of Some issue \<Rightarrow> issue
             | None \<Rightarrow> default_issuer env options homeDomains (the (rt_jwtSecret options))),
          sr_options = options\<rparr>)))"

section \<open>The endpoints\<close>

datatype query_value = QString string | QArray "query_value list" | QOther

definition firstString :: "query_value \<Rightarrow> string option" where
  "firstString v =
     (case (case v of QArray [] \<Rightarrow> QOther | QArray (x # _) \<Rightarrow> x | _ \<Rightarrow> v) of
        QString s \<Rightarrow> if s = [] then None else Some s
      | _ \<Rightarrow> None)"

definition bad_request :: "string \<Rightarrow> sep10_code \<Rightarrow> handled" where
  "bad_request error code = Respond \<lparr>hr_status = 400, hr_headers = [], hr_body = error_json (makeErrorBody error code None)\<rparr>"

definition ok_json :: "(string \<times> json) list \<Rightarrow> handled" where
  "ok_json props = Respond \<lparr>hr_status = 200, hr_headers = [], hr_body = JObj props\<rparr>"

definition quoted :: "string \<Rightarrow> string" where
  "quoted s = [CHR 0x22] @ s @ [CHR 0x22]"

record auth_query =
  aq_account :: query_value
  aq_home_domain :: query_value
  aq_memo :: query_value
  aq_client_domain :: query_value

text \<open>The handler's outer \<open>catch\<close>: only three classes of errors are the client's.\<close>

definition get_caught :: "thrown \<Rightarrow> handled" where
  "get_caught error =
     (case error of
        Exn name _ _ \<Rightarrow>
          if name = ''InvalidClientAddressError'' then bad_request (''invalid '' @ quoted ''account'' @ '' query parameter'') InvalidAccount
          else if name = ''InvalidMemoError'' then bad_request (''invalid '' @ quoted ''memo'' @ '' query parameter'') InvalidMemo
          else if name = ''InvalidDomainError'' then bad_request ''invalid domain parameter'' InvalidDomain
          else NextError error
      | _ \<Rightarrow> NextError error)"

text \<open>The signing key of a \<open>client_domain\<close>: an early answer, or the key to go on with.\<close>

definition resolve_client ::
  "'w sep10_router \<Rightarrow> string option \<Rightarrow> 'w \<Rightarrow> (handled + string option) \<times> 'w" where
  "resolve_client r clientDomain w =
     (case clientDomain of
        None \<Rightarrow> (Inr None, w)
      | Some d \<Rightarrow>
          (case rt_resolveClientSigningKey (sr_options r) of
             None \<Rightarrow> (Inl (bad_request (quoted ''client_domain'' @ '' is not supported'') ClientDomainUnsupported), w)
           | Some resolve \<Rightarrow>
               (case (if not_bare d then (Throw (invalid_domain_error ''client_domain'' d), w) else resolve d w) of
                  (Throw e, w) \<Rightarrow>
                    (Inl (bad_request (''invalid '' @ quoted ''client_domain'' @ '' query parameter'') InvalidClientDomain), w)
                | (Ret key, w) \<Rightarrow> (Inr (Some key), w))))"

definition get_options :: "'w sep10_router \<Rightarrow> string \<Rightarrow> string option \<Rightarrow> string option \<Rightarrow> string option \<Rightarrow> generate_options" where
  "get_options r homeDomain memo clientDomain key =
     \<lparr>go_homeDomain = Some homeDomain,
      go_webAuthDomain = Some (if homeDomain \<in> set (sr_webAuthDomains r) then homeDomain else hd (sr_webAuthDomains r)),
      go_networkPassphrase = Some (sr_networkPassphrase r), go_timeoutSec = None,
      go_timeoutSeconds = rt_challengeTimeoutSeconds (sr_options r), go_memo = memo, go_clientDomain = clientDomain,
      go_clientSigningKey = key\<rparr>"

definition get_auth :: "'w router_env \<Rightarrow> 'w sep10_router \<Rightarrow> auth_query \<Rightarrow> 'w \<Rightarrow> handled \<times> 'w" where
  "get_auth env r q w =
     (case firstString (aq_account q) of
        None \<Rightarrow> (bad_request (''missing required '' @ quoted ''account'' @ '' query parameter'') MissingAccount, w)
      | Some account \<Rightarrow>
          (let homeDomain = (case firstString (aq_home_domain q) of None \<Rightarrow> hd (sr_homeDomains r) | Some d \<Rightarrow> d) in
           if homeDomain \<notin> set (sr_homeDomains r) then
             (bad_request (''invalid '' @ quoted ''home_domain'' @ '' query parameter'') InvalidHomeDomain, w)
           else
             (case resolve_client r (firstString (aq_client_domain q)) w of
                (Inl answer, w) \<Rightarrow> (answer, w)
              | (Inr key, w) \<Rightarrow>
                  (case generateChallenge (rn_challenge env) account (rt_serverKeypair (sr_options r))
                          (get_options r homeDomain (firstString (aq_memo q)) (firstString (aq_client_domain q)) key) w of
                     (Throw e, w) \<Rightarrow> (get_caught e, w)
                   | (Ret challenge, w) \<Rightarrow>
                       (ok_json [(''transaction'', JStr (gc_transactionXDR challenge)),
                          (''network_passphrase'', JStr (gc_networkPassphrase challenge))], w)))))"

definition post_options :: "'w sep10_router \<Rightarrow> 'w verify_options" where
  "post_options r =
     \<lparr>vo_serverAccountId = kp_publicKey (rt_serverKeypair (sr_options r)), vo_networkPassphrase = Some (sr_networkPassphrase r),
      vo_homeDomains = Many (sr_homeDomains r), vo_webAuthDomain = Many (sr_webAuthDomains r), vo_expectedMemo = None,
      vo_clockSkewToleranceSec = None, vo_accountLoader = rt_accountLoader (sr_options r)\<rparr>"

definition post_auth :: "'w router_env \<Rightarrow> 'w sep10_router \<Rightarrow> query_value \<Rightarrow> 'w \<Rightarrow> handled \<times> 'w" where
  "post_auth env r transaction w =
     (case firstString transaction of
        None \<Rightarrow> (bad_request (''missing required '' @ quoted ''transaction'' @ '' parameter'') MissingTransaction, w)
      | Some tx \<Rightarrow>
          if sr_maxTransactionLength r < int (length tx) then
            (bad_request (quoted ''transaction'' @ '' is too large'') TransactionTooLarge, w)
          else
            (let (result, w) = verifyChallenge (rn_verify env) tx (post_options r) w in
             if \<not> vr_valid result then
               (bad_request (case vr_error result of None \<Rightarrow> ''invalid challenge transaction'' | Some e \<Rightarrow> e) InvalidTransaction, w)
             else
               (case sr_issueToken r (vr_address result) (vr_clientDomain result) tx w of
                  (Throw e, w) \<Rightarrow> (NextError e, w)
                | (Ret token, w) \<Rightarrow> (ok_json [(''token'', JStr token)], w))))"

datatype auth_call = GetAuth auth_query | PostAuth query_value

definition route :: "'w router_env \<Rightarrow> 'w sep10_router \<Rightarrow> auth_call \<Rightarrow> 'w \<Rightarrow> handled \<times> 'w" where
  "route env r call w = (case call of GetAuth q \<Rightarrow> get_auth env r q w | PostAuth t \<Rightarrow> post_auth env r t w)"

text \<open>The mounted limiter comes first; it may be switched off.\<close>

definition router_handle ::
  "'w router_env \<Rightarrow> 'w sep10_router \<Rightarrow> 'x limiter option
    \<Rightarrow> (string \<Rightarrow> int \<Rightarrow> int \<Rightarrow> int \<Rightarrow> 's \<Rightarrow> (thrown + rate_decision) \<times> 's) \<Rightarrow> 'x client_request_scheme \<Rightarrow> auth_call
    \<Rightarrow> 's \<times> 'w \<Rightarrow> limiter_outcome \<times> 's \<times> 'w" where
  "router_handle env r limiter consume req call sw =
     (case sw of (s, w) \<Rightarrow>
        (case limiter of
           None \<Rightarrow> (case route env r call w of (h, w) \<Rightarrow> (Settled ([], h), s, w))
         | Some l \<Rightarrow>
             (case limiter_handle consume l (ve_now (rn_verify env) w) req s of
                (Settled (headers, Next), s) \<Rightarrow> (case route env r call w of (h, w) \<Rightarrow> (Settled (headers, h), s, w))
              | (out, s) \<Rightarrow> (out, s, w))))"

section \<open>Tokens\<close>

text \<open>
  A token is handed out exactly for a posted transaction of bounded length whose challenge verifies
  for the router's own account, network and domains, and it is the token issued for the verified account.
\<close>

theorem post_auth_token_iff:
  "(\<exists>resp. post_auth env r transaction w = (Respond resp, w') \<and> hr_status resp = 200) \<longleftrightarrow>
     (\<exists>tx result w1 token. firstString transaction = Some tx \<and> int (length tx) \<le> sr_maxTransactionLength r
        \<and> verifyChallenge (rn_verify env) tx (post_options r) w = (result, w1) \<and> vr_valid result
        \<and> sr_issueToken r (vr_address result) (vr_clientDomain result) tx w1 = (Ret token, w')
        \<and> post_auth env r transaction w = (ok_json [(''token'', JStr token)], w'))"
  by (auto simp: post_auth_def bad_request_def ok_json_def Let_def not_less split: option.splits prod.splits sum.splits if_splits)

lemma router_issuer:
  assumes "createSep10Router env options = Ret r" and "rt_issueToken options = None"
  shows "\<exists>secret. rt_jwtSecret options = Some secret \<and> sr_issueToken r = default_issuer env options (sr_homeDomains r) secret"
proof -
  from assms have "secret_given (rt_jwtSecret options)"
    by (auto simp: createSep10Router_def Let_def js_bind_def split: sum.splits if_splits)
  then obtain secret where "rt_jwtSecret options = Some secret" by (auto simp: secret_given_def)
  with assms show ?thesis
    by (auto simp: createSep10Router_def Let_def js_bind_def split: sum.splits if_splits)
qed

text \<open>
  C18. End to end: with the built-in issuer, a token that \<open>POST /auth\<close> hands out decodes to claims whose
  subject is the account that the challenge verification vouched for, under a MAC with the router's secret.
\<close>

theorem issued_token_names_account:
  assumes router: "createSep10Router env options = Ret r" "rt_issueToken options = None"
    and post: "post_auth env r transaction w = (ok_json [(''token'', JStr token)], w')"
    and bytes: "\<And>k m. \<forall>b \<in> set (rn_hmac env k m). b < 256"
  shows "\<exists>tx result w1 h c sg claims secret. firstString transaction = Some tx
    \<and> verifyChallenge (rn_verify env) tx (post_options r) w = (result, w1) \<and> vr_valid result
    \<and> split_on (CHR ''.'') token = [h, c, sg]
    \<and> json_parse (utf8_decode (base64url_decode c)) = Ret (JObj claims)
    \<and> map_get claims ''sub'' = Some (JStr (vr_address result))
    \<and> rt_jwtSecret options = Some secret \<and> base64url_decode sg = rn_hmac env (secret_bytes secret) (utf8 (h @ ''.'' @ c))"
proof -
  from post obtain tx result w1 where tx: "firstString transaction = Some tx"
    "verifyChallenge (rn_verify env) tx (post_options r) w = (result, w1)" "vr_valid result"
    "sr_issueToken r (vr_address result) (vr_clientDomain result) tx w1 = (Ret token, w')"
    by (auto simp: post_auth_def bad_request_def ok_json_def Let_def not_less split: option.splits prod.splits sum.splits if_splits)
  from router_issuer [OF router] obtain secret where secret: "rt_jwtSecret options = Some secret"
    and issuer: "sr_issueToken r = default_issuer env options (sr_homeDomains r) secret" by blast
  define o' where "o' = \<lparr>jw_secret = secret_bytes secret,
         jw_issuer = (case rt_jwtIssuer options of None \<Rightarrow> ''https://'' @ hd (sr_homeDomains r) | Some i \<Rightarrow> i),
         jw_subject = vr_address result, jw_expiresInSeconds = rt_jwtExpiresInSeconds options, jw_jtiSource = Some tx,
         jw_clientDomain = vr_clientDomain result, jw_now = None\<rparr>"
  have token: "token = issueJwt (rn_sha256 env) (rn_hmac env) (ve_now (rn_verify env) w1) o'"
    using tx(4) by (auto simp: issuer default_issuer_def o'_def)
  have "map_get (jwt_claims (rn_sha256 env) (ve_now (rn_verify env) w1) o') ''sub'' = Some (JStr (vr_address result))"
    by (simp add: jwt_claims_def Let_def o'_def)
  with jwt_segments [where hmac = "rn_hmac env" and ?sha256.0 = "rn_sha256 env" and clock = "ve_now (rn_verify env) w1" and options = o',
      OF bytes, folded token] tx secret
  show ?thesis by (simp add: o'_def) metis
qed

section \<open>Challenges\<close>

lemma router_domains:
  assumes "createSep10Router env options = Ret r"
  shows "sr_homeDomains r \<noteq> [] \<and> sr_webAuthDomains r \<noteq> []
    \<and> list_all (\<lambda>d. d \<noteq> [] \<and> \<not> not_bare d) (sr_homeDomains r @ sr_webAuthDomains r)
    \<and> sr_options r = options \<and> kp_canSign (rt_serverKeypair options)"
  using assms
  by (auto simp: createSep10Router_def assert_domains_def Let_def js_bind_def assert_all_iff list_all_iff list_ex_iff
      split: sum.splits if_splits option.splits)

text \<open>
  \<open>GET /auth\<close> builds challenges only for configured domains: an answer with status 200 means that the
  requested account is valid, the home domain is the requested or the first configured one, and the SDK
  was asked, with the router's own keypair, for that domain and a configured web-auth domain.
\<close>

theorem get_auth_sound:
  assumes router: "createSep10Router env options = Ret r"
    and got: "get_auth env r q w = (Respond resp, w')" "hr_status resp = 200"
  shows "\<exists>account home web key t w1 xdr w2. firstString (aq_account q) = Some account
    \<and> home = (case firstString (aq_home_domain q) of None \<Rightarrow> hd (sr_homeDomains r) | Some d \<Rightarrow> d)
    \<and> home \<in> set (sr_homeDomains r) \<and> web \<in> set (sr_webAuthDomains r)
    \<and> acceptable (rn_challenge env) account (rt_serverKeypair options)
        (get_options r home (firstString (aq_memo q)) (firstString (aq_client_domain q)) key) t
    \<and> ce_build (rn_challenge env) (request_of (rn_challenge env) account (rt_serverKeypair options)
        (get_options r home (firstString (aq_memo q)) (firstString (aq_client_domain q)) key) t) w1 = (Ret xdr, w2)
    \<and> web_auth_of (get_options r home (firstString (aq_memo q)) (firstString (aq_client_domain q)) key) = web
    \<and> map_get (case hr_body resp of JObj kvs \<Rightarrow> kvs | _ \<Rightarrow> []) ''transaction'' = Some (JStr xdr)"
proof -
  let ?home = "case firstString (aq_home_domain q) of None \<Rightarrow> hd (sr_homeDomains r) | Some d \<Rightarrow> d"
  note dom = router_domains [OF router]
  from got obtain account where account: "firstString (aq_account q) = Some account"
    by (auto simp: get_auth_def bad_request_def split: option.splits)
  from got account have home: "?home \<in> set (sr_homeDomains r)"
    by (auto simp: get_auth_def bad_request_def Let_def split: if_splits)
  obtain k w1 where k: "resolve_client r (firstString (aq_client_domain q)) w = (k, w1)" by fastforce
  obtain key where key: "k = Inr key"
  proof (cases k)
    case (Inl answer)
    have "hr_status x = 400" if "answer = Respond x" for x
      using k that Inl by (auto simp: resolve_client_def bad_request_def split: option.splits prod.splits sum.splits)
    with got account home k Inl show ?thesis by (auto simp: get_auth_def Let_def)
  qed
  let ?o = "get_options r ?home (firstString (aq_memo q)) (firstString (aq_client_domain q)) key"
  obtain res w2 where gen: "generateChallenge (rn_challenge env) account (rt_serverKeypair options) ?o w1 = (res, w2)" by fastforce
  obtain ch where ch: "res = Ret ch"
  proof (cases res)
    case (Inl e)
    have "hr_status x = 400" if "get_caught e = Respond x" for x
      using that by (cases e) (auto simp: get_caught_def bad_request_def split: if_splits)
    with got account home k key gen Inl dom show ?thesis by (auto simp: get_auth_def Let_def)
  qed
  have body: "hr_body resp = JObj [(''transaction'', JStr (gc_transactionXDR ch)), (''network_passphrase'', JStr (gc_networkPassphrase ch))]"
    using got account home k key gen ch dom by (auto simp: get_auth_def Let_def ok_json_def)
  from gen ch obtain req where req: "check_challenge (rn_challenge env) account (rt_serverKeypair options) ?o = Ret req"
    by (auto simp: generateChallenge_def split: sum.splits)
  then obtain t where t: "acceptable (rn_challenge env) account (rt_serverKeypair options) ?o t"
    "req = request_of (rn_challenge env) account (rt_serverKeypair options) ?o t"
    using check_challenge_ok by metis
  from gen ch req have build: "\<exists>w2. ce_build (rn_challenge env) req w1 = (Ret (gc_transactionXDR ch), w2)"
    by (auto simp: generateChallenge_def Let_def split: sum.splits prod.splits)
  have "web_auth_of ?o \<in> set (sr_webAuthDomains r)"
    using dom by (auto simp: web_auth_of_def get_options_def)
  with account home t(1) body build [unfolded t(2)] show ?thesis
    by - (rule exI [of _ account], rule exI [of _ ?home], rule exI [of _ "web_auth_of ?o"], rule exI [of _ key], rule exI [of _ t],
      rule exI [of _ w1], rule exI [of _ "gc_transactionXDR ch"], simp)
qed

text \<open>
  A memo together with a muxed account is the client's mistake, and the endpoint treats it as an
  internal error: the request goes to the error handler instead of being answered with status 400.
\<close>

theorem muxed_memo_internal_error:
  assumes "createSep10Router env options = Ret r"
    and "firstString (aq_account q) = Some (CHR ''M'' # account)" and "isValidClientAddress (rn_challenge env) (CHR ''M'' # account)"
    and "firstString (aq_home_domain q) = None" and "firstString (aq_client_domain q) = None" and "firstString (aq_memo q) = Some memo"
  shows "get_auth env r q w = (NextError memo_with_muxed_account_error, w)"
proof -
  note dom = router_domains [OF assms(1)]
  have home: "hd (sr_homeDomains r) \<in> set (sr_homeDomains r)" using dom by simp
  then have bare: "\<not> not_bare (hd (sr_homeDomains r))" "\<not> not_bare (hd (sr_webAuthDomains r))"
    using dom by (auto simp: list_all_iff)
  let ?o = "get_options r (hd (sr_homeDomains r)) (Some memo) None None"
  have "check_challenge (rn_challenge env) (CHR ''M'' # account) (rt_serverKeypair options) ?o = Throw memo_with_muxed_account_error"
    using dom assms(3) bare
    by (simp add: check_challenge_def get_options_def Let_def assertBareDomain_def check_memo_def)
  then show ?thesis
    using dom home assms by (simp add: get_auth_def resolve_client_def generateChallenge_def get_caught_def memo_with_muxed_account_error_def)
qed

section \<open>Examples\<close>

definition example_router_env :: "int router_env" where
  "example_router_env = \<lparr>rn_challenge = example_challenge_env\<lparr>ce_isMed25519 := (\<lambda>a. a = ''MA'')\<rparr>, rn_verify = example_verify_env,
     rn_sha256 = take 1, rn_hmac = (\<lambda>k m. [1, 2])\<rparr>"

definition example_router_options :: "int router_options" where
  "example_router_options = \<lparr>rt_serverKeypair = \<lparr>kp_canSign = True, kp_publicKey = ''GS''\<rparr>, rt_homeDomain = One ''a.org'',
     rt_webAuthDomain = Some (One ''b.org''), rt_networkPassphrase = None, rt_challengeTimeoutSeconds = None,
     rt_jwtSecret = Some (SecretString ''k''), rt_jwtExpiresInSeconds = None, rt_jwtIssuer = None, rt_issueToken = None,
     rt_resolveClientSigningKey = None, rt_maxTransactionLength = None, rt_accountLoader = None\<rparr>"

definition example_router :: "int sep10_router" where
  "example_router = \<lparr>sr_homeDomains = [''a.org''], sr_webAuthDomains = [''b.org''], sr_networkPassphrase = ''Test'',
     sr_maxTransactionLength = 8192,
     sr_issueToken = default_issuer example_router_env example_router_options [''a.org''] (SecretString ''k''),
     sr_options = example_router_options\<rparr>"

lemma example_options_fields:
  "rt_homeDomain example_router_options = One ''a.org''" "rt_webAuthDomain example_router_options = Some (One ''b.org'')"
  "rt_serverKeypair example_router_options = \<lparr>kp_canSign = True, kp_publicKey = ''GS''\<rparr>"
  "rt_issueToken example_router_options = None" "rt_jwtSecret example_router_options = Some (SecretString ''k'')"
  "rt_networkPassphrase example_router_options = None" "rt_maxTransactionLength example_router_options = None"
  "rt_accountLoader example_router_options = None" "rt_challengeTimeoutSeconds example_router_options = None"
  by (simp_all add: example_router_options_def)

lemma example_router_created: "createSep10Router example_router_env example_router_options = Ret example_router"
proof -
  have "ve_testnet (rn_verify example_router_env) = ''Test''" by (simp add: example_router_env_def example_verify_env_def)
  with bare_examples show ?thesis
    by (simp add: createSep10Router_def Let_def example_options_fields assert_domains_def assertBareDomain_def secret_given_def
      example_router_def)
qed

lemma example_post:
  "\<exists>token. post_auth example_router_env example_router (QString ''AAAA'') 500000 = (ok_json [(''token'', JStr token)], 500000)"
proof -
  have v: "rn_verify example_router_env = example_verify_env" by (simp add: example_router_env_def)
  have sel: "ve_isEd25519 example_verify_env ''GS''" "ve_now example_verify_env w = w"
    "ve_readChallengeTx example_verify_env args 500000 = (if sa_webAuthDomain args = ''b.org'' then Ret (''GA'', example_tx)
      else Throw (mk_error ''The transaction has expired''))"
    "ve_verifySigners example_verify_env args [''GA''] now = Ret ()" for w args now
    by (simp_all add: example_verify_env_def in_bounds_def)
  have skew: "withClockSkewTolerance example_verify_env xdr p 0 f now = f now" for xdr p now and f :: "int \<Rightarrow> 'a"
    by (simp add: withClockSkewTolerance_def skewed_now_def)
  have "\<exists>j d. verifyChallenge example_verify_env ''AAAA'' (post_options example_router) 500000
      = (\<lparr>vr_valid = True, vr_address = ''GA'', vr_clientDomain = d, vr_jti = j, vr_error = None, vr_errorCode = None\<rparr>, 500000)"
    by (simp add: verifyChallenge_def post_options_def example_router_def example_options_fields isValidStellarAddress_def sel skew
      assertBareDomain_def bare_examples try_domain_def conclude_def)
  then obtain j d where "verifyChallenge example_verify_env ''AAAA'' (post_options example_router) 500000
      = (\<lparr>vr_valid = True, vr_address = ''GA'', vr_clientDomain = d, vr_jti = j, vr_error = None, vr_errorCode = None\<rparr>, 500000)" by blast
  moreover have "sr_maxTransactionLength example_router = 8192"
    "sr_issueToken example_router = default_issuer example_router_env example_router_options [''a.org''] (SecretString ''k'')"
    by (simp_all add: example_router_def)
  ultimately show ?thesis by (simp add: post_auth_def firstString_def v default_issuer_def) blast
qed

theorem issued_token_names_account_witness:
  "\<exists>token h c sg claims. post_auth example_router_env example_router (QString ''AAAA'') 500000 = (ok_json [(''token'', JStr token)], 500000)
    \<and> split_on (CHR ''.'') token = [h, c, sg] \<and> json_parse (utf8_decode (base64url_decode c)) = Ret (JObj claims)
    \<and> base64url_decode sg = [1, 2]"
proof -
  obtain token where post: "post_auth example_router_env example_router (QString ''AAAA'') 500000 = (ok_json [(''token'', JStr token)], 500000)"
    using example_post by blast
  have hmac: "rn_hmac example_router_env k m = [1, 2]" for k m by (simp add: example_router_env_def)
  have "\<forall>b \<in> set (rn_hmac example_router_env k m). b < 256" for k m by (simp add: hmac)
  from issued_token_names_account [OF example_router_created example_options_fields(4) post this] post
  show ?thesis unfolding hmac by blast
qed

definition example_query :: "string \<Rightarrow> auth_query" where
  "example_query account = \<lparr>aq_account = QString account, aq_home_domain = QOther, aq_memo = QString ''12'', aq_client_domain = QOther\<rparr>"

lemma example_query_fields:
  "account \<noteq> [] \<Longrightarrow> firstString (aq_account (example_query account)) = Some account"
  "firstString (aq_home_domain (example_query account)) = None" "firstString (aq_client_domain (example_query account)) = None"
  "firstString (aq_memo (example_query account)) = Some ''12''"
  by (simp_all add: example_query_def firstString_def)

theorem muxed_memo_internal_error_witness:
  "get_auth example_router_env example_router (example_query ''MA'') 0 = (NextError memo_with_muxed_account_error, 0)"
proof -
  have "isValidClientAddress (rn_challenge example_router_env) ''MA''" by (simp add: isValidClientAddress_def example_router_env_def)
  from muxed_memo_internal_error [OF example_router_created _ this, of "example_query ''MA''"] show ?thesis
    by (simp add: example_query_fields)
qed

theorem get_auth_sound_witness:
  "\<exists>resp web xdr. get_auth example_router_env example_router (example_query ''GA'') 0 = (Respond resp, 1)
    \<and> web \<in> set (sr_webAuthDomains example_router)
    \<and> map_get (case hr_body resp of JObj kvs \<Rightarrow> kvs | _ \<Rightarrow> []) ''transaction'' = Some (JStr xdr)"
proof -
  let ?o = "get_options example_router ''a.org'' (Some ''12'') None None"
  have env: "isValidClientAddress (rn_challenge example_router_env) ''GA''"
    "ce_build (rn_challenge example_router_env) req w = (Ret (cr_clientAddress req), w + 1)" "ce_now (rn_challenge example_router_env) w = (7, w)" for req w
    by (simp_all add: isValidClientAddress_def isValidStellarAddress_def example_router_env_def example_challenge_env_def)
  have "acceptable (rn_challenge example_router_env) ''GA'' (rt_serverKeypair example_router_options) ?o 900"
    using env(1) bare_examples
    by (simp add: acceptable_def get_options_def example_router_def example_options_fields home_of_def web_auth_of_def
      challenge_timeout_def memo_ok_def nat_of_dec_def is_digit_def)
  then have "check_challenge (rn_challenge example_router_env) ''GA'' (rt_serverKeypair example_router_options) ?o
      = Ret (request_of (rn_challenge example_router_env) ''GA'' (rt_serverKeypair example_router_options) ?o 900)"
    using check_challenge_ok by metis
  then have gen: "\<exists>c. generateChallenge (rn_challenge example_router_env) ''GA'' (rt_serverKeypair example_router_options) ?o 0 = (Ret c, 1)"
    by (simp add: generateChallenge_def env)
  have r: "sr_homeDomains example_router = [''a.org'']" "sr_options example_router = example_router_options" by (simp_all add: example_router_def)
  have got: "\<exists>resp. get_auth example_router_env example_router (example_query ''GA'') 0 = (Respond resp, 1) \<and> hr_status resp = 200"
    using gen by (auto simp: get_auth_def example_query_fields r resolve_client_def ok_json_def)
  then obtain resp where "get_auth example_router_env example_router (example_query ''GA'') 0 = (Respond resp, 1)" "hr_status resp = 200" by blast
  from get_auth_sound [OF example_router_created this] this(1) show ?thesis by blast
qed

end
