(* ===== verification/Login.thy ===== *)
theory Login
  imports Client Router
begin

text \<open>
  The whole SEP-10 login: the client of \<open>client.ts\<close> against the router of \<open>router.ts\<close>, with the challenge and its
  verification in between. What carries a request to a route and an answer back (the HTTP stack, Express and its
  body parser) is a parameter, and so is the SDK on both sides.
\<close>

record transport =
  tp_request :: "http_call \<Rightarrow> auth_call"
  tp_response :: "handled \<Rightarrow> fetch_response"

definition served :: "'w router_env \<Rightarrow> 'w sep10_router \<Rightarrow> transport \<Rightarrow> http_call \<Rightarrow> 'w \<Rightarrow> (thrown + fetch_response) \<times> 'w" where
  "served env r t call w = (case route env r (tp_request t call) w of (h, w) \<Rightarrow> (Ret (tp_response t h), w))"

text \<open>
  What a transport must do for one client: parse its query string and its JSON body, and carry status and JSON of an
  answer.
\<close>

definition query_of :: "(string \<times> string) list \<Rightarrow> auth_query" where
  "query_of ps = (let param = (\<lambda>k. case map_of ps k of None \<Rightarrow> QOther | Some v \<Rightarrow> QString v) in
     \<lparr>aq_account = param ''account'', aq_home_domain = param ''home_domain'', aq_memo = param ''memo'',
      aq_client_domain = param ''client_domain''\<rparr>)"

definition carries :: "transport \<Rightarrow> client_options \<Rightarrow> bool" where
  "carries t options \<longleftrightarrow>
     tp_request t (Get_Request (challenge_url options)) = GetAuth (query_of (challenge_params options))
     \<and> (\<forall>tx. tp_request t (exchange_call options tx) = PostAuth (QString tx))
     \<and> (\<forall>resp. fr_status (tp_response t (Respond resp)) = hr_status resp
          \<and> fr_json (tp_response t (Respond resp)) = json_parse (stringify (hr_body resp)))"

lemma request_served:
  assumes "ck_fetch cenv = served env r t" and "route env r (tp_request t call) w = (ok_json props, w')"
    and "carries t options" and "json_ok (JObj props)"
  shows "request_json cenv code what call w = (Ret (JObj props), w')"
  using assms by (simp add: request_json_def served_def ok_json_def carries_def json_parse_stringify fr_ok_def escapes_def
      del: json_ok.simps stringify.simps)

text \<open>The loop over the web-auth domains finds the one the challenge was built for.\<close>

lemma try_domains_finds:
  assumes "\<And>d. d \<noteq> web \<Longrightarrow> \<exists>e. try_domain env options p xdr tol d w = (Throw e, w)"
    and "try_domain env options p xdr tol web w = (Ret r, w')" and "web \<in> set ds"
  shows "try_domains env options p xdr tol e0 ds w = (r, w')"
  using assms(3)
proof (induction ds arbitrary: e0)
  case (Cons d ds)
  then show ?case using assms(1) [of d] assms(2) by (cases "d = web") auto
qed simp

lemma verify_accepts:
  assumes "ve_isEd25519 env (vo_serverAccountId options)" and "vo_clockSkewToleranceSec options = None"
    and "list_all (\<lambda>d. \<not> not_bare d) (as_array (vo_homeDomains options) @ as_array (vo_webAuthDomain options))"
    and "vo_networkPassphrase options = Some net" and "vo_accountLoader options = None" and "vo_expectedMemo options = None"
    and "web \<in> set (as_array (vo_webAuthDomain options))" and "take 1 account \<noteq> ''M''"
    and read: "\<And>d. ve_readChallengeTx env \<lparr>sa_xdr = xdr, sa_serverAccountId = vo_serverAccountId options, sa_networkPassphrase = net,
        sa_homeDomains = vo_homeDomains options, sa_webAuthDomain = d\<rparr> (ve_now env w) = (if d = web then Ret (account, tx) else Throw (e d))"
    and signers: "ve_verifySigners env \<lparr>sa_xdr = xdr, sa_serverAccountId = vo_serverAccountId options, sa_networkPassphrase = net,
        sa_homeDomains = vo_homeDomains options, sa_webAuthDomain = web\<rparr> [account] (ve_now env w) = Ret ()"
  shows "verifyChallenge env xdr options w = (\<lparr>vr_valid = True, vr_address = account, vr_clientDomain = client_domain_of tx,
      vr_jti = Some (hex_bytes (tx_hash tx)), vr_error = None, vr_errorCode = None\<rparr>, w)"
proof -
  have skew: "withClockSkewTolerance env xdr p 0 f now = f now" for p now and f :: "int \<Rightarrow> 'b"
    by (simp add: withClockSkewTolerance_def skewed_now_def)
  have found: "try_domain env options net xdr 0 web w = (Ret \<lparr>vr_valid = True, vr_address = account, vr_clientDomain = client_domain_of tx,
      vr_jti = Some (hex_bytes (tx_hash tx)), vr_error = None, vr_errorCode = None\<rparr>, w)"
    using assms(5, 6, 8) by (simp add: try_domain_def skew read signers conclude_def)
  have others: "\<exists>e. try_domain env options net xdr 0 d w = (Throw e, w)" if "d \<noteq> web" for d
    using that by (simp add: try_domain_def skew read)
  have bare: "assert_all ''homeDomains'' (as_array (vo_homeDomains options)) = Ret ()"
    "assert_all ''webAuthDomain'' (as_array (vo_webAuthDomain options)) = Ret ()"
    using assms(3) by (simp_all add: assert_all_iff)
  show ?thesis
    using assms(1, 2, 4) try_domains_finds [OF others found assms(7), of "Nullish ''undefined''"]
    by (simp add: verifyChallenge_def isValidStellarAddress_def bare)
qed

text \<open>
  C14. Login works end to end. A client whose home domain the router serves, which names the router's account and
  network and expects the web-auth domain the router uses for it, asks for a challenge, signs it, posts it, and gets
  the token the router issues for the client's own account, provided both sides' SDK reads that challenge for that web-auth
  domain (the server's for no other) and the server's finds the client's signature.
\<close>

theorem client_logs_in:
  assumes router: "createSep10Router env ro = Ret r" "rt_accountLoader ro = None" "ve_isEd25519 (rn_verify env) server"
    and domains: "home \<in> set (sr_homeDomains r)" "web = (if home \<in> set (sr_webAuthDomains r) then home else hd (sr_webAuthDomains r))"
    and client: "kp_canSign (ao_keypair co)" "kp_publicKey (ao_keypair co) = account" "ao_homeDomain co = home" "web_auth_domain co = web"
      "network_of_options cenv co = sr_networkPassphrase r" "ao_serverAccountId co = Some server" "server \<noteq> []" "ck_isEd25519 cenv server"
      "ao_clientDomain co = None" "ao_memo co = None" "ck_fetch cenv = served env r t" "carries t co"
    and server: "server = kp_publicKey (rt_serverKeypair ro)" "account \<noteq> []" "take 1 account \<noteq> ''M''"
      "acceptable (rn_challenge env) account (rt_serverKeypair ro) (get_options r home None None None) timeout"
      "ce_build (rn_challenge env) (request_of (rn_challenge env) account (rt_serverKeypair ro) (get_options r home None None None) timeout) w = (Ret xdr, w1)"
      "ce_now (rn_challenge env) w1 = (now, w2)"
    and signing: "ck_readChallengeTx cenv (Some (JStr xdr)) server (sr_networkPassphrase r) home web w2 = Ret account"
      "ck_sign cenv (Some (JStr xdr)) (sr_networkPassphrase r) (ao_keypair co) = Ret signed" "signed \<noteq> []"
      "int (length signed) \<le> sr_maxTransactionLength r"
    and reads: "\<And>d. ve_readChallengeTx (rn_verify env) \<lparr>sa_xdr = signed, sa_serverAccountId = server, sa_networkPassphrase = sr_networkPassphrase r,
        sa_homeDomains = Many (sr_homeDomains r), sa_webAuthDomain = d\<rparr> (ve_now (rn_verify env) w2) = (if d = web then Ret (account, tx) else Throw (e d))"
      "ve_verifySigners (rn_verify env) \<lparr>sa_xdr = signed, sa_serverAccountId = server, sa_networkPassphrase = sr_networkPassphrase r,
        sa_homeDomains = Many (sr_homeDomains r), sa_webAuthDomain = web\<rparr> [account] (ve_now (rn_verify env) w2) = Ret ()"
    and issued: "sr_issueToken r account (client_domain_of tx) signed w2 = (Ret token, w3)"
  shows "authenticateWithSep10 cenv co w = (Ret (Some (JStr token)), w3)"
proof -
  note dom = router_domains [OF router(1)]
  have web: "web \<in> set (sr_webAuthDomains r)" using dom domains(2) by simp
  have home: "home \<noteq> []" "\<not> not_bare home" "\<not> not_bare web" using dom domains(1) web by (auto simp: list_all_iff)
  let ?co = "get_options r home None None None"
  have query: "firstString (aq_account (query_of (challenge_params co))) = Some account"
    "firstString (aq_home_domain (query_of (challenge_params co))) = Some home"
    "firstString (aq_memo (query_of (challenge_params co))) = None" "firstString (aq_client_domain (query_of (challenge_params co))) = None"
    using client server(2) home(1) by (simp_all add: query_of_def challenge_params_def is_given_def firstString_def)
  have "check_challenge (rn_challenge env) account (rt_serverKeypair ro) ?co
      = Ret (request_of (rn_challenge env) account (rt_serverKeypair ro) ?co timeout)"
    using check_challenge_ok server(4) by blast
  then have generated: "\<exists>expires. generateChallenge (rn_challenge env) account (rt_serverKeypair ro) ?co w
      = (Ret \<lparr>gc_transactionXDR = xdr, gc_networkPassphrase = sr_networkPassphrase r, gc_expiresAt = expires\<rparr>, w2)"
    using server(5, 6) by (simp add: generateChallenge_def request_of_def get_options_def)
  let ?challenge = "[(''transaction'', JStr xdr), (''network_passphrase'', JStr (sr_networkPassphrase r))]"
  have "route env r (tp_request t (Get_Request (challenge_url co))) w = (ok_json ?challenge, w2)"
    using generated client(12) dom domains(1)
    by (auto simp: carries_def route_def get_auth_def query resolve_client_def)
  then have get: "request_json cenv ChallengeRequestFailed ''Challenge request failed'' (Get_Request (challenge_url co)) w = (Ret (JObj ?challenge), w2)"
    by (rule request_served [OF client(11) _ client(12)]) simp
  have "verifyChallenge (rn_verify env) signed (post_options r) w2 = (\<lparr>vr_valid = True, vr_address = account,
      vr_clientDomain = client_domain_of tx, vr_jti = Some (hex_bytes (tx_hash tx)), vr_error = None, vr_errorCode = None\<rparr>, w2)"
    using dom router(2, 3) server(1, 3) web reads
    by (intro verify_accepts [where web = web and net = "sr_networkPassphrase r" and e = e]) (auto simp: post_options_def list_all_iff)
  then have "route env r (tp_request t (exchange_call co signed)) w2 = (ok_json [(''token'', JStr token)], w3)"
    using client(12) signing(3, 4) issued by (simp add: carries_def route_def post_auth_def firstString_def)
  then have post: "request_json cenv TokenExchangeFailed ''Token exchange failed'' (exchange_call co signed) w2 = (Ret (JObj [(''token'', JStr token)]), w3)"
    by (rule request_served [OF client(11) _ client(12)]) simp
  have "check_client_options co = Ret ()" "resolve_server cenv co w = (Ret server, w)"
    using client home by (simp_all add: check_client_options_def assertBareDomain_def escapes_def is_given_def resolve_server_def)
  from client_accepts [OF this client(8) get signed_challenge_accepts post] show ?thesis
    using client(2-5) signing(1, 2) by simp
qed

definition example_transport :: transport where
  "example_transport = \<lparr>tp_request = (\<lambda>call. case call of
       Get_Request url \<Rightarrow> GetAuth (query_of (if url = challenge_url example_client_options then challenge_params example_client_options else []))
     | Post_Request url headers body \<Rightarrow> PostAuth (case json_parse body of Ret (JObj [(k, JStr tx)]) \<Rightarrow> QString tx | _ \<Rightarrow> QOther)),
     tp_response = (\<lambda>h. case h of
       Respond resp \<Rightarrow> \<lparr>fr_status = hr_status resp, fr_statusText = [], fr_json = json_parse (stringify (hr_body resp))\<rparr>
     | _ \<Rightarrow> \<lparr>fr_status = 500, fr_statusText = [], fr_json = Throw syntax_error\<rparr>)\<rparr>"

definition example_login_env :: "int client_env" where
  "example_login_env = \<lparr>ck_isEd25519 = (\<lambda>a. a = ''GS''), ck_testnet = ''Test'', ck_resolveToml = (\<lambda>d w. (Ret None, w)),
     ck_fetch = served example_router_env example_router example_transport,
     ck_readChallengeTx = (\<lambda>tx server net home web w. if tx = Some (JStr ''GA'') then Ret ''GA'' else Throw (mk_error ''no'')),
     ck_sign = (\<lambda>tx net kp. Ret ''signed''), ck_number_text = (\<lambda>t. t)\<rparr>"

lemma example_carries: "carries example_transport example_client_options"
proof -
  have "json_parse (stringify (JObj [(''transaction'', JStr tx)])) = Ret (JObj [(''transaction'', JStr tx)])" for tx
    by (rule json_parse_stringify) simp
  then show ?thesis
    unfolding carries_def exchange_call_def by (simp add: example_transport_def del: stringify.simps)
qed

lemma example_acceptable: "acceptable (rn_challenge example_router_env) ''GA'' (rt_serverKeypair example_router_options)
    (get_options example_router ''a.org'' None None None) 900"
  using bare_examples
  by (simp add: acceptable_def get_options_def example_router_def example_options_fields home_of_def web_auth_of_def challenge_timeout_def)
    (simp add: isValidClientAddress_def isValidStellarAddress_def example_router_env_def example_challenge_env_def)

theorem client_logs_in_witness:
  "\<exists>token. authenticateWithSep10 example_login_env example_client_options 500000 = (Ret (Some (JStr token)), 500001)"
proof -
  have router: "sr_homeDomains example_router = [''a.org'']" "sr_webAuthDomains example_router = [''b.org'']"
    "sr_networkPassphrase example_router = ''Test''" "sr_maxTransactionLength example_router = 8192"
    "sr_issueToken example_router = default_issuer example_router_env example_router_options [''a.org''] (SecretString ''k'')"
    by (simp_all add: example_router_def)
  have sdk: "ve_isEd25519 (rn_verify example_router_env) ''GS''" "ve_now (rn_verify example_router_env) w = w"
    "ce_build (rn_challenge example_router_env) (request_of cenv a kp op t) w = (Ret a, w + 1)" "ce_now (rn_challenge example_router_env) w = (7, w)"
    "ve_readChallengeTx (rn_verify example_router_env) args 500001 = (if sa_webAuthDomain args = ''b.org'' then Ret (''GA'', example_tx)
      else Throw (mk_error ''The transaction has expired''))"
    "ve_verifySigners (rn_verify example_router_env) args [''GA''] now = Ret ()" for w req args now cenv a kp op t
    by (simp_all add: example_router_env_def example_verify_env_def example_challenge_env_def in_bounds_def request_of_def)
  have issued: "\<exists>token. default_issuer example_router_env example_router_options [''a.org''] (SecretString ''k'') ''GA''
      (client_domain_of example_tx) ''signed'' 500001 = (Ret token, 500001)"
    by (simp add: default_issuer_def)
  then obtain token where "sr_issueToken example_router ''GA'' (client_domain_of example_tx) ''signed'' 500001 = (Ret token, 500001)"
    unfolding router by blast
  moreover have env: "ck_isEd25519 example_login_env ''GS''" "ck_fetch example_login_env = served example_router_env example_router example_transport"
    "ck_readChallengeTx example_login_env (Some (JStr ''GA'')) s n h d w = Ret ''GA''" "ck_sign example_login_env x n kp = Ret ''signed''"
    for s n h d w x kp by (simp_all add: example_login_env_def)
  ultimately have "authenticateWithSep10 example_login_env example_client_options 500000 = (Ret (Some (JStr token)), 500001)"
    using example_carries example_acceptable
    by (intro client_logs_in [OF example_router_created, where server = "''GS''" and home = "''a.org''" and web = "''b.org''" and account = "''GA''"
        and t = example_transport and timeout = 900 and xdr = "''GA''" and signed = "''signed''" and tx = example_tx
        and e = "\<lambda>d. mk_error ''The transaction has expired''" and now = 7 and ?w1.0 = 500001 and ?w2.0 = 500001])
      (simp_all add: sdk router env example_options_fields example_client_options_def web_auth_domain_def network_of_options_def)
  then show ?thesis by blast
qed

end
