(* ===== verification/DeadLetter.thy ===== *)
theory DeadLetter
  imports Events "HOL-Library.Sublist" "HOL-Library.Multiset"
begin

text \<open>
  \<open>horizon-listener/src/deadLetterQueue.ts\<close>: the in-memory and the JSON-lines queue, and the replay.
  The synchronous file functions are a parameter and may throw. A stored entry is kept as the JSON object it is, since entries loaded from a file are not validated.
\<close>

section \<open>Entries\<close>

text \<open>\<open>stack\<close> is the error's stack, when it has one; \<open>now\<close> the time as an ISO string.\<close>

definition toEntry :: "raw_event \<Rightarrow> thrown \<Rightarrow> string option \<Rightarrow> string \<Rightarrow> json" where
  "toEntry e err stack now = JObj [(''event'', event_json e),
     (''error'', JObj ((''message'', JStr (thrown_message (to_error err))) # (case stack of None \<Rightarrow> [] | Some s \<Rightarrow> [(''stack'', JStr s)]))),
     (''timestamp'', JStr now)]"

definition entry_event :: "json \<Rightarrow> thrown + json option" where
  "entry_event j = get_prop j ''event''"

definition entry_id :: "json \<Rightarrow> thrown + json option" where
  "entry_id j = js_bind (entry_event j) (\<lambda>e. case e of
     None \<Rightarrow> Throw (type_error (''Cannot read properties of undefined (reading '' @ [CHR 0x27] @ ''id'' @ [CHR 0x27] @ '')''))
   | Some ev \<Rightarrow> get_prop ev ''id'')"

section \<open>The in-memory queue\<close>

type_synonym dlq = "json list"

definition mem_enqueue :: "raw_event \<Rightarrow> thrown \<Rightarrow> string option \<Rightarrow> string \<Rightarrow> dlq \<Rightarrow> dlq" where
  "mem_enqueue e err stack now q = q @ [toEntry e err stack now]"

text \<open>
  \<open>findIndex\<close> and \<open>splice\<close>. The id sought may be undefined, when it was read from a malformed
  entry; an id that is an array or an object is not modelled, as \<open>===\<close> would compare its identity.
\<close>

fun find_entry :: "json option \<Rightarrow> json list \<Rightarrow> thrown + nat option" where
  "find_entry eventId [] = Ret None"
| "find_entry eventId (j # js) =
     js_bind (entry_id j) (\<lambda>i. if i = eventId then Ret (Some 0)
       else js_bind (find_entry eventId js) (\<lambda>n. Ret (map_option Suc n)))"

definition mem_remove :: "json option \<Rightarrow> dlq \<Rightarrow> (thrown + bool) \<times> dlq" where
  "mem_remove eventId q =
     (case find_entry eventId q of
        Throw e \<Rightarrow> (Throw e, q)
      | Ret None \<Rightarrow> (Ret False, q)
      | Ret (Some i) \<Rightarrow> (Ret True, take i q @ drop (Suc i) q))"

section \<open>The file queue\<close>

record 'f sync_fs =
  sf_mkdir :: "string \<Rightarrow> 'f \<Rightarrow> (thrown + unit) \<times> 'f"
  sf_exists :: "string \<Rightarrow> 'f \<Rightarrow> bool"
  sf_read :: "string \<Rightarrow> 'f \<Rightarrow> thrown + string"
  sf_write :: "string \<Rightarrow> string \<Rightarrow> 'f \<Rightarrow> (thrown + unit) \<times> 'f"
  sf_append :: "string \<Rightarrow> string \<Rightarrow> 'f \<Rightarrow> (thrown + unit) \<times> 'f"

record file_dlq =
  fq_path :: string
  fq_entries :: dlq

fun parse_lines :: "string list \<Rightarrow> thrown + json list" where
  "parse_lines [] = Ret []"
| "parse_lines (l # ls) = js_bind (json_parse l) (\<lambda>j. js_bind (parse_lines ls) (\<lambda>js. Ret (j # js)))"

definition load_entries :: "string \<Rightarrow> thrown + json list" where
  "load_entries text_content =
     parse_lines (filter (\<lambda>line. trim line \<noteq> []) (split_on (CHR 0x0A) text_content))"

definition new_file_dlq :: "'f sync_fs \<Rightarrow> (string \<Rightarrow> string) \<Rightarrow> string \<Rightarrow> 'f \<Rightarrow> (thrown + file_dlq) \<times> 'f" where
  "new_file_dlq fs dirname path f =
     (case sf_mkdir fs (dirname path) f of
        (Throw e, f) \<Rightarrow> (Throw e, f)
      | (Ret _, f) \<Rightarrow>
          if sf_exists fs path f then
            (js_bind (sf_read fs path f) (\<lambda>t. js_bind (load_entries t) (\<lambda>js. Ret \<lparr>fq_path = path, fq_entries = js\<rparr>)), f)
          else
            (case sf_write fs path [] f of
               (Throw e, f) \<Rightarrow> (Throw e, f)
             | (Ret _, f) \<Rightarrow> (Ret \<lparr>fq_path = path, fq_entries = []\<rparr>, f)))"

definition entry_line :: "json \<Rightarrow> string" where
  "entry_line j = stringify j @ [CHR 0x0A]"

definition file_enqueue ::
  "'f sync_fs \<Rightarrow> raw_event \<Rightarrow> thrown \<Rightarrow> string option \<Rightarrow> string \<Rightarrow> file_dlq \<times> 'f \<Rightarrow> (thrown + unit) \<times> file_dlq \<times> 'f" where
  "file_enqueue fs e err stack now qf =
     (case qf of (q, f) \<Rightarrow>
        (let entry = toEntry e err stack now in
         case sf_append fs (fq_path q) (entry_line entry) f of
           (Throw x, f) \<Rightarrow> (Throw x, q, f)
         | (Ret _, f) \<Rightarrow> (Ret (), q\<lparr>fq_entries := fq_entries q @ [entry]\<rparr>, f)))"

definition persist :: "'f sync_fs \<Rightarrow> file_dlq \<times> 'f \<Rightarrow> (thrown + unit) \<times> file_dlq \<times> 'f" where
  "persist fs qf =
     (case qf of (q, f) \<Rightarrow> (case sf_write fs (fq_path q) (concat (map entry_line (fq_entries q))) f of (r, f) \<Rightarrow> (r, q, f)))"

definition file_remove :: "'f sync_fs \<Rightarrow> json option \<Rightarrow> file_dlq \<times> 'f \<Rightarrow> (thrown + bool) \<times> file_dlq \<times> 'f" where
  "file_remove fs eventId qf =
     (case qf of (q, f) \<Rightarrow>
        (case mem_remove eventId (fq_entries q) of
           (Throw x, es) \<Rightarrow> (Throw x, q, f)
         | (Ret removed, es) \<Rightarrow>
             (let q = q\<lparr>fq_entries := es\<rparr> in
              if removed then
                (case persist fs (q, f) of (Throw x, q, f) \<Rightarrow> (Throw x, q, f) | (Ret _, q, f) \<Rightarrow> (Ret removed, q, f))
              else (Ret removed, q, f))))"

definition file_clear :: "'f sync_fs \<Rightarrow> file_dlq \<times> 'f \<Rightarrow> (thrown + unit) \<times> file_dlq \<times> 'f" where
  "file_clear fs qf = (case qf of (q, f) \<Rightarrow> persist fs (q\<lparr>fq_entries := []\<rparr>, f))"

section \<open>Replay\<close>

text \<open>\<open>slice(0, n)\<close>: a negative end counts from the back.\<close>

definition slice0 :: "int \<Rightarrow> 'a list \<Rightarrow> 'a list" where
  "slice0 n xs = (if n < 0 then take (length xs - nat (- n)) xs else take (nat n) xs)"

record replay_result =
  re_delivered :: nat
  re_failed :: nat
  re_attempted :: nat

text \<open>
  The loop over the snapshot of the entries. The \<open>try\<close> covers the read of the event, the delivery and
  the removal; \<open>delivered\<close> is counted before the removal.
\<close>

fun replay_loop ::
  "(json option \<Rightarrow> 'w \<Rightarrow> (thrown + unit) \<times> 'w) \<Rightarrow> (json option \<Rightarrow> 'q \<Rightarrow> (thrown + bool) \<times> 'q) \<Rightarrow> bool
    \<Rightarrow> json list \<Rightarrow> replay_result \<Rightarrow> 'q \<times> 'w \<Rightarrow> replay_result \<times> 'q \<times> 'w" where
  "replay_loop send remove dryRun [] res qw = (res, qw)"
| "replay_loop send remove dryRun (j # js) res (q, w) =
     (case entry_event j of
        Throw e \<Rightarrow> replay_loop send remove dryRun js (res\<lparr>re_failed := Suc (re_failed res)\<rparr>) (q, w)
      | Ret ev \<Rightarrow>
          (case send ev w of
             (Throw e, w) \<Rightarrow> replay_loop send remove dryRun js (res\<lparr>re_failed := Suc (re_failed res)\<rparr>) (q, w)
           | (Ret _, w) \<Rightarrow>
               (let res = res\<lparr>re_delivered := Suc (re_delivered res)\<rparr> in
                if dryRun then replay_loop send remove dryRun js res (q, w)
                else
                  (case entry_id j of
                     Ret i \<Rightarrow>
                       (case remove i q of
                          (Throw e, q) \<Rightarrow> replay_loop send remove dryRun js (res\<lparr>re_failed := Suc (re_failed res)\<rparr>) (q, w)
                        | (Ret _, q) \<Rightarrow> replay_loop send remove dryRun js res (q, w))
                   | Throw e \<Rightarrow> replay_loop send remove dryRun js (res\<lparr>re_failed := Suc (re_failed res)\<rparr>) (q, w)))))"

definition replayDeadLetterQueue ::
  "('q \<Rightarrow> json list) \<Rightarrow> (json option \<Rightarrow> 'q \<Rightarrow> (thrown + bool) \<times> 'q) \<Rightarrow> (json option \<Rightarrow> 'w \<Rightarrow> (thrown + unit) \<times> 'w)
    \<Rightarrow> bool \<Rightarrow> int option \<Rightarrow> 'q \<times> 'w \<Rightarrow> replay_result \<times> 'q \<times> 'w" where
  "replayDeadLetterQueue getAll remove send dryRun limit qw =
     (let entries = (case limit of None \<Rightarrow> getAll (fst qw) | Some n \<Rightarrow> slice0 n (getAll (fst qw))) in
      replay_loop send remove dryRun entries \<lparr>re_delivered = 0, re_failed = 0, re_attempted = length entries\<rparr> qw)"

section \<open>What the queues promise\<close>

text \<open>An entry whose id can be read, and the removal of the first entry of an id.\<close>

definition readable :: "json \<Rightarrow> bool" where
  "readable j \<longleftrightarrow> (case entry_id j of Ret _ \<Rightarrow> True | Throw _ \<Rightarrow> False)"

definition the_id :: "json \<Rightarrow> json option" where
  "the_id j = (case entry_id j of Ret i \<Rightarrow> i | Throw _ \<Rightarrow> None)"

fun drop_first :: "json option \<Rightarrow> json list \<Rightarrow> json list" where
  "drop_first i [] = []"
| "drop_first i (j # js) = (if the_id j = i then js else j # drop_first i js)"

lemma entry_id_readable: "readable j \<Longrightarrow> entry_id j = Ret (the_id j)"
  by (simp add: readable_def the_id_def split: sum.splits)

lemma entry_event_readable: "readable j \<Longrightarrow> \<exists>ev. entry_event j = Ret (Some ev)"
  by (cases "entry_event j") (auto simp: readable_def entry_id_def js_bind_def split: sum.splits option.splits)

lemma mem_remove_spec:
  "list_all readable q \<Longrightarrow> mem_remove i q = (Ret (i \<in> set (map the_id q)), drop_first i q)"
  by (induction q) (auto simp: mem_remove_def entry_id_readable js_bind_def split: sum.splits option.splits prod.splits)

lemma drop_first_subseq: "subseq (drop_first i js) js"
  by (induction js) auto

lemma drop_first_ids: "image_mset the_id (mset (drop_first i js)) = image_mset the_id (mset js) - {#i#}"
  by (induction js) (auto simp: diff_add_mset_swap)

lemma set_drop_first: "set (drop_first i js) \<subseteq> set js"
  by (induction js) auto

lemma drop_first_all: "list_all P js \<Longrightarrow> list_all P (drop_first i js)"
  using set_drop_first [of i js] by (auto simp: list_all_iff)

locale dead_letter_queue =
  fixes getAll :: "'q \<Rightarrow> json list"
    and remove :: "json option \<Rightarrow> 'q \<Rightarrow> (thrown + bool) \<times> 'q"
    and usable :: "'q \<Rightarrow> bool"
  assumes entries_readable: "usable q \<Longrightarrow> list_all readable (getAll q)"
    and remove_first: "usable q \<Longrightarrow> i \<in> set (map the_id (getAll q)) \<Longrightarrow>
      \<exists>q'. remove i q = (Ret True, q') \<and> usable q' \<and> getAll q' = drop_first i (getAll q)"

text \<open>The deliveries of a list of entries, one after the other: which of them succeeded.\<close>

fun deliveries :: "(json option \<Rightarrow> 'w \<Rightarrow> (thrown + unit) \<times> 'w) \<Rightarrow> json list \<Rightarrow> 'w \<Rightarrow> (json \<times> bool) list \<times> 'w" where
  "deliveries send [] w = ([], w)"
| "deliveries send (j # js) w =
     (case send (case entry_event j of Ret ev \<Rightarrow> ev | Throw _ \<Rightarrow> None) w of
        (r, w) \<Rightarrow> (case deliveries send js w of (ds, w) \<Rightarrow> ((j, case r of Ret _ \<Rightarrow> True | Throw _ \<Rightarrow> False) # ds, w)))"

definition delivered_ids :: "(json \<times> bool) list \<Rightarrow> json option list" where
  "delivered_ids ds = map (the_id \<circ> fst) (filter snd ds)"

definition undelivered :: "(json \<times> bool) list \<Rightarrow> json list" where
  "undelivered ds = map fst (filter (Not \<circ> snd) ds)"

lemma deliveries_entries: "deliveries send js w = (ds, w') \<Longrightarrow> map fst ds = js"
  by (induction js arbitrary: w ds w') (auto split: prod.splits)

context dead_letter_queue
begin

lemma replay_loop_spec:
  assumes "usable q" and "deliveries send js w = (ds, w')" and "list_all readable js"
    and "mset (map the_id js) \<subseteq># mset (map the_id (getAll q))"
  shows "\<exists>q'. replay_loop send remove False js res (q, w) =
      (res\<lparr>re_delivered := re_delivered res + length (filter snd ds), re_failed := re_failed res + length (undelivered ds)\<rparr>, q', w')
    \<and> usable q' \<and> subseq (getAll q') (getAll q)
    \<and> mset (map the_id (getAll q')) = mset (map the_id (getAll q)) - mset (delivered_ids ds)"
  using assms
proof (induction js arbitrary: q w ds res)
  case Nil
  then show ?case by (auto simp: delivered_ids_def undelivered_def)
next
  case (Cons j js)
  obtain ev where ev: "entry_event j = Ret (Some ev)" using entry_event_readable Cons.prems by fastforce
  have i: "entry_id j = Ret (the_id j)" using entry_id_readable Cons.prems by simp
  obtain r w1 where r: "send (Some ev) w = (r, w1)" by fastforce
  obtain ds' where ds': "deliveries send js w1 = (ds', w')" "ds = (j, case r of Ret _ \<Rightarrow> True | Throw _ \<Rightarrow> False) # ds'"
    using Cons.prems(2) by (auto simp: ev r split: prod.splits)
  show ?case
  proof (cases r)
    case (Inl e)
    have "mset (map the_id js) \<subseteq># mset (map the_id (getAll q))"
      using Cons.prems(4) by (auto dest: mset_subset_eq_insertD subset_mset.less_imp_le)
    from Cons.IH [OF Cons.prems(1) ds'(1) _ this, of "res\<lparr>re_failed := Suc (re_failed res)\<rparr>"] Cons.prems(3) show ?thesis
      by (simp add: ev r Inl ds'(2) delivered_ids_def undelivered_def)
  next
    case (Inr u)
    have "the_id j \<in> set (map the_id (getAll q))"
      using Cons.prems(4) mset_subset_eqD [of _ _ "the_id j"] by fastforce
    from remove_first [OF Cons.prems(1) this] obtain q1 where
      q1: "remove (the_id j) q = (Ret True, q1)" "usable q1" "getAll q1 = drop_first (the_id j) (getAll q)" by blast
    have "mset (map the_id js) \<subseteq># mset (map the_id (getAll q1))"
      using Cons.prems(4) by (simp add: q1 drop_first_ids insert_subset_eq_iff)
    from Cons.IH [OF q1(2) ds'(1) _ this, of "res\<lparr>re_delivered := Suc (re_delivered res)\<rparr>"] Cons.prems(3)
    obtain q' where "replay_loop send remove False js (res\<lparr>re_delivered := Suc (re_delivered res)\<rparr>) (q1, w1) =
       (res\<lparr>re_delivered := Suc (re_delivered res) + length (filter snd ds'), re_failed := re_failed res + length (undelivered ds')\<rparr>, q', w')"
      "usable q'" "subseq (getAll q') (getAll q1)"
      "mset (map the_id (getAll q')) = mset (map the_id (getAll q1)) - mset (delivered_ids ds')"
      by auto
    moreover from this(3) have "subseq (getAll q') (getAll q)"
      using drop_first_subseq subseq_order.order_trans unfolding q1 by blast
    ultimately show ?thesis
      by (auto simp: ev i r Inr ds'(2) q1 delivered_ids_def undelivered_def drop_first_ids)
  qed
qed

lemma replay_spec:
  assumes "usable q"
    and "deliveries send (case limit of None \<Rightarrow> getAll q | Some n \<Rightarrow> slice0 n (getAll q)) w = (ds, w')"
  shows "\<exists>q'. replayDeadLetterQueue getAll remove send False limit (q, w) =
      (\<lparr>re_delivered = length (filter snd ds), re_failed = length (undelivered ds), re_attempted = length ds\<rparr>, q', w')
    \<and> usable q' \<and> subseq (getAll q') (getAll q)
    \<and> mset (map the_id (getAll q')) = mset (map the_id (getAll q)) - mset (delivered_ids ds)"
proof -
  let ?js = "case limit of None \<Rightarrow> getAll q | Some n \<Rightarrow> slice0 n (getAll q)"
  have "\<exists>n. ?js = take n (getAll q)"
    by (auto simp: slice0_def split: option.split intro: exI [of _ "length (getAll q)"])
  then obtain n where n: "?js = take n (getAll q)" ..
  have "list_all readable ?js"
    using entries_readable [OF assms(1)] by (auto simp: n list_all_iff dest: in_set_takeD)
  moreover have "mset (map the_id ?js) \<subseteq># mset (map the_id (getAll q))"
    unfolding n by (metis append_take_drop_id map_append mset_append mset_subset_eq_add_left)
  ultimately have "\<exists>q'. replay_loop send remove False ?js \<lparr>re_delivered = 0, re_failed = 0, re_attempted = length ?js\<rparr> (q, w) =
      (\<lparr>re_delivered = 0 + length (filter snd ds), re_failed = 0 + length (undelivered ds), re_attempted = length ?js\<rparr>, q', w')
    \<and> usable q' \<and> subseq (getAll q') (getAll q)
    \<and> mset (map the_id (getAll q')) = mset (map the_id (getAll q)) - mset (delivered_ids ds)"
    using replay_loop_spec [OF assms, of "\<lparr>re_delivered = 0, re_failed = 0, re_attempted = length ?js\<rparr>"] by simp
  moreover have "length ?js = length ds"
    using deliveries_entries [OF assms(2)] by (metis length_map)
  ultimately show ?thesis by (cases limit) (simp_all add: replayDeadLetterQueue_def)
qed

end

interpretation memory_queue: dead_letter_queue "\<lambda>q. q" mem_remove "list_all readable"
  by unfold_locales (auto simp: mem_remove_spec drop_first_all)

section \<open>The file queue on reliable files\<close>

text \<open>
  What the file queue relies on: in a good state, creating the directory leaves the files as they are,
  a written file reads back as written, and appending adds to the end.
\<close>

locale reliable_files =
  fixes fs :: "'f sync_fs" and good :: "'f \<Rightarrow> bool"
  assumes mkdir_ok: "good f \<Longrightarrow> \<exists>f'. sf_mkdir fs d f = (Ret (), f') \<and> good f'
      \<and> (\<forall>p. sf_exists fs p f' = sf_exists fs p f \<and> sf_read fs p f' = sf_read fs p f)"
    and write_ok: "good f \<Longrightarrow> \<exists>f'. sf_write fs p s f = (Ret (), f') \<and> good f' \<and> sf_exists fs p f' \<and> sf_read fs p f' = Ret s"
    and append_ok: "good f \<Longrightarrow> sf_exists fs p f \<Longrightarrow> sf_read fs p f = Ret t \<Longrightarrow>
      \<exists>f'. sf_append fs p s f = (Ret (), f') \<and> good f' \<and> sf_exists fs p f' \<and> sf_read fs p f' = Ret (t @ s)"

text \<open>The file holds the entries, one per line, and each is a well-formed entry.\<close>

definition entry_ok :: "json \<Rightarrow> bool" where
  "entry_ok j \<longleftrightarrow> json_ok j \<and> (\<exists>kvs. j = JObj kvs) \<and> readable j"

definition in_step :: "'f sync_fs \<Rightarrow> file_dlq \<times> 'f \<Rightarrow> bool" where
  "in_step fs qf \<longleftrightarrow> (case qf of (q, f) \<Rightarrow> sf_exists fs (fq_path q) f
     \<and> sf_read fs (fq_path q) f = Ret (concat (map entry_line (fq_entries q))) \<and> list_all entry_ok (fq_entries q))"

lemma split_lines:
  "\<forall>x \<in> set xs. d \<notin> set x \<Longrightarrow> split_on d (concat (map (\<lambda>x. x @ [d]) xs)) = xs @ [[]]"
  by (induction xs) (auto simp: split_on_append_Cons)

lemma trim_object: "trim (stringify (JObj kvs)) \<noteq> []"
proof -
  have "\<not> is_ws (CHR ''{'')" "\<not> is_ws (CHR ''}'')" by (simp_all add: is_ws_def)
  then show ?thesis by (simp add: trim_def trim_left_def trim_right_def)
qed

lemma load_entries_stored: "list_all entry_ok js \<Longrightarrow> load_entries (concat (map entry_line js)) = Ret js"
proof -
  assume ok: "list_all entry_ok js"
  then have "\<forall>l \<in> set (map stringify js). CHR 0x0A \<notin> set l"
    by (auto simp: list_all_iff entry_ok_def stringify_no_newline)
  then have "split_on (CHR 0x0A) (concat (map entry_line js)) = map stringify js @ [[]]"
    using split_lines [of "map stringify js"] by (simp add: entry_line_def [abs_def] comp_def)
  moreover have "filter (\<lambda>line. trim line \<noteq> []) (map stringify js) = map stringify js"
    using ok trim_object by (fastforce simp: filter_id_conv list_all_iff entry_ok_def)
  moreover have "parse_lines (map stringify js) = Ret js"
    using ok by (induction js) (auto simp: entry_ok_def json_parse_stringify js_bind_def)
  ultimately show ?thesis by (simp add: load_entries_def trim_def trim_left_def trim_right_def)
qed

lemma toEntry_ids [simp]:
  "entry_event (toEntry e err stack now) = Ret (Some (event_json e))"
  "entry_id (toEntry e err stack now) = Ret (Some (JStr (ev_id e)))"
  by (simp_all add: toEntry_def entry_id_def entry_event_def get_prop_def js_bind_def event_json_def)

lemma toEntry_ok: "json_ok (ev_value e) \<Longrightarrow> entry_ok (toEntry e err stack now)"
  by (auto simp: entry_ok_def readable_def) (simp_all add: toEntry_def split: option.split)

context reliable_files
begin

lemma enqueue_in_step:
  assumes "good f" and "in_step fs (q, f)" and "json_ok (ev_value e)"
  shows "\<exists>q' f'. file_enqueue fs e err stack now (q, f) = (Ret (), q', f') \<and> good f' \<and> in_step fs (q', f')
    \<and> fq_entries q' = fq_entries q @ [toEntry e err stack now] \<and> fq_path q' = fq_path q"
  using append_ok [OF assms(1), of "fq_path q" _ "entry_line (toEntry e err stack now)"] assms(2) toEntry_ok [OF assms(3)]
  by (fastforce simp: in_step_def file_enqueue_def Let_def)

lemma persist_in_step:
  assumes "good f" and "list_all entry_ok (fq_entries q)"
  shows "\<exists>f'. persist fs (q, f) = (Ret (), q, f') \<and> good f' \<and> in_step fs (q, f')"
  using write_ok [OF assms(1), of "fq_path q" "concat (map entry_line (fq_entries q))"] assms(2)
  by (fastforce simp: in_step_def persist_def)

lemma entry_ok_readable: "list_all entry_ok js \<Longrightarrow> list_all readable js"
  by (auto simp: list_all_iff entry_ok_def)

lemma remove_in_step:
  assumes "good f" and "in_step fs (q, f)"
  shows "\<exists>q' f'. file_remove fs i (q, f) = (Ret (i \<in> set (map the_id (fq_entries q))), q', f') \<and> good f' \<and> in_step fs (q', f')
    \<and> fq_entries q' = drop_first i (fq_entries q) \<and> fq_path q' = fq_path q"
proof -
  let ?q = "q\<lparr>fq_entries := drop_first i (fq_entries q)\<rparr>"
  have ok: "list_all entry_ok (fq_entries q)" using assms(2) by (simp add: in_step_def)
  have "drop_first i js = js" if "i \<notin> set (map the_id js)" for js
    using that by (induction js) auto
  moreover obtain f' where "persist fs (?q, f) = (Ret (), ?q, f')" "good f'" "in_step fs (?q, f')"
    using persist_in_step [OF assms(1), of ?q] drop_first_all [OF ok] by auto
  ultimately show ?thesis
    using assms entry_ok_readable [OF ok] by (fastforce simp: file_remove_def mem_remove_spec Let_def)
qed

lemma clear_in_step:
  assumes "good f" and "in_step fs (q, f)"
  shows "\<exists>q' f'. file_clear fs (q, f) = (Ret (), q', f') \<and> good f' \<and> in_step fs (q', f') \<and> fq_entries q' = [] \<and> fq_path q' = fq_path q"
  using persist_in_step [OF assms(1), of "q\<lparr>fq_entries := []\<rparr>"] by (auto simp: file_clear_def)

lemma reopen:
  assumes "good f" and "in_step fs (q, f)"
  shows "\<exists>f'. new_file_dlq fs dirname (fq_path q) f = (Ret q, f') \<and> good f' \<and> in_step fs (q, f')"
proof -
  obtain f' where f': "sf_mkdir fs (dirname (fq_path q)) f = (Ret (), f')" "good f'"
    "\<forall>p. sf_exists fs p f' = sf_exists fs p f \<and> sf_read fs p f' = sf_read fs p f"
    using mkdir_ok [OF assms(1)] by blast
  moreover have "load_entries (concat (map entry_line (fq_entries q))) = Ret (fq_entries q)"
    using assms(2) by (simp add: in_step_def load_entries_stored)
  ultimately show ?thesis using assms(2) by (auto simp: new_file_dlq_def in_step_def js_bind_def)
qed

end

text \<open>Hence the file queue on reliable files keeps the promises of a queue.\<close>

sublocale reliable_files \<subseteq> file_queue: dead_letter_queue
  "\<lambda>(q, f). fq_entries q" "file_remove fs" "\<lambda>(q, f). good f \<and> in_step fs (q, f)"
proof (unfold_locales, goal_cases)
  case (1 qf)
  then show ?case using entry_ok_readable by (auto simp: in_step_def)
next
  case (2 qf i)
  then show ?case using remove_in_step [of "snd qf" "fst qf" i] by (fastforce split: prod.splits)
qed

text \<open>A disk, as documented: a map from paths to contents. Writing and appending create the file.\<close>

type_synonym disk = "string \<rightharpoonup> string"

definition disk_fs :: "disk sync_fs" where
  "disk_fs = \<lparr>sf_mkdir = (\<lambda>p d. (Ret (), d)), sf_exists = (\<lambda>p d. d p \<noteq> None),
     sf_read = (\<lambda>p d. case d p of Some s \<Rightarrow> Ret s | None \<Rightarrow> Throw (mk_error ''ENOENT'')),
     sf_write = (\<lambda>p s d. (Ret (), d(p \<mapsto> s))),
     sf_append = (\<lambda>p s d. (Ret (), d(p \<mapsto> (case d p of Some t \<Rightarrow> t | None \<Rightarrow> []) @ s)))\<rparr>"

interpretation disk: reliable_files disk_fs "\<lambda>_. True"
  by unfold_locales (auto simp: disk_fs_def split: option.splits)

section \<open>Properties\<close>

datatype dlq_op = Enqueue raw_event thrown "string option" string | Remove "json option" | Clear

text \<open>The state after an operation on the file queue, whatever it answers.\<close>

fun file_op :: "'f sync_fs \<Rightarrow> dlq_op \<Rightarrow> file_dlq \<times> 'f \<Rightarrow> file_dlq \<times> 'f" where
  "file_op fs (Enqueue e err stack now) qf = snd (file_enqueue fs e err stack now qf)"
| "file_op fs (Remove i) qf = snd (file_remove fs i qf)"
| "file_op fs Clear qf = snd (file_clear fs qf)"

fun json_event :: "dlq_op \<Rightarrow> bool" where
  "json_event (Enqueue e err stack now) = json_ok (ev_value e)"
| "json_event _ = True"

context reliable_files
begin

lemma new_in_step:
  assumes "good f" and "\<not> sf_exists fs path f"
  shows "\<exists>f'. new_file_dlq fs dirname path f = (Ret \<lparr>fq_path = path, fq_entries = []\<rparr>, f') \<and> good f'
    \<and> in_step fs (\<lparr>fq_path = path, fq_entries = []\<rparr>, f')"
proof -
  obtain f1 where f1: "sf_mkdir fs (dirname path) f = (Ret (), f1)" "good f1" "\<not> sf_exists fs path f1"
    using mkdir_ok [OF assms(1)] assms(2) by metis
  show ?thesis
    using f1 write_ok [OF f1(2), of path "[]"] by (fastforce simp: new_file_dlq_def in_step_def)
qed

lemma op_in_step:
  assumes "good (snd qf)" and "in_step fs qf" and "json_event a"
  shows "good (snd (file_op fs a qf)) \<and> in_step fs (file_op fs a qf) \<and> fq_path (fst (file_op fs a qf)) = fq_path (fst qf)"
proof -
  obtain q f where qf: "qf = (q, f)" by fastforce
  show ?thesis
  proof (cases a)
    case (Enqueue e err stack now)
    with assms show ?thesis
      using enqueue_in_step [of f q e err stack now] by (auto simp: qf)
  next
    case (Remove i)
    with assms show ?thesis using remove_in_step [of f q i] by (auto simp: qf)
  next
    case Clear
    with assms show ?thesis using clear_in_step [of f q] by (auto simp: qf)
  qed
qed

lemma ops_in_step:
  "good (snd qf) \<Longrightarrow> in_step fs qf \<Longrightarrow> list_all json_event ops \<Longrightarrow>
    good (snd (fold (file_op fs) ops qf)) \<and> in_step fs (fold (file_op fs) ops qf)
    \<and> fq_path (fst (fold (file_op fs) ops qf)) = fq_path (fst qf)"
  by (induction ops arbitrary: qf) (use op_in_step in auto)

lemma survives_restart:
  assumes "good f" and "\<not> sf_exists fs path f" and "list_all json_event ops"
    and "new_file_dlq fs dirname path f = (Ret q0, f0)" and "fold (file_op fs) ops (q0, f0) = (q, f1)"
  shows "\<exists>f2. new_file_dlq fs dirname path f1 = (Ret q, f2)"
  using new_in_step [OF assms(1,2), of dirname] ops_in_step [of "(q0, f0)" ops] reopen [of f1 q dirname] assms(3-5)
  by auto

end

text \<open>
  C28. The file queue survives a restart: after any sequence of enqueues, removals and clears on a queue
  that started from a fresh file, opening the file again yields exactly the entries the first process
  held, in the same order, provided the event values are JSON values and the files behave as documented.
\<close>

theorem file_queue_survives_restart:
  assumes "reliable_files fs good" and "good f" and "\<not> sf_exists fs path f" and "list_all json_event ops"
    and "new_file_dlq fs dirname path f = (Ret q0, f0)" and "fold (file_op fs) ops (q0, f0) = (q, f1)"
  shows "\<exists>f2. new_file_dlq fs dirname path f1 = (Ret q, f2)"
  by (rule reliable_files.survives_restart [OF assms])

definition example_event :: raw_event where
  "example_event = \<lparr>ev_id = ''1-1'', ev_contractId = ''C'', ev_ledger = 7, ev_topic = [''add''], ev_value = JNull\<rparr>"

definition example_ops :: "dlq_op list" where
  "example_ops = [Enqueue example_event (mk_error ''down'') None ''now'',
     Enqueue (example_event\<lparr>ev_id := ''1-2''\<rparr>) (mk_error ''down'') None ''now'', Remove (Some (JStr ''1-1''))]"

theorem file_queue_survives_restart_witness:
  "\<exists>q f1 f2. fold (file_op disk_fs) example_ops (\<lparr>fq_path = ''q'', fq_entries = []\<rparr>, [''q'' \<mapsto> []]) = (q, f1)
    \<and> fq_entries q = [toEntry (example_event\<lparr>ev_id := ''1-2''\<rparr>) (mk_error ''down'') None ''now'']
    \<and> new_file_dlq disk_fs (\<lambda>_. []) ''q'' f1 = (Ret q, f2)"
proof -
  have ok: "reliable_files disk_fs (\<lambda>_. True)" by unfold_locales
  have new: "new_file_dlq disk_fs (\<lambda>_. []) ''q'' Map.empty = (Ret \<lparr>fq_path = ''q'', fq_entries = []\<rparr>, [''q'' \<mapsto> []])"
    by (simp add: new_file_dlq_def disk_fs_def)
  have ops: "list_all json_event example_ops" by (simp add: example_ops_def example_event_def)
  obtain q f1 where run: "fold (file_op disk_fs) example_ops (\<lparr>fq_path = ''q'', fq_entries = []\<rparr>, [''q'' \<mapsto> []]) = (q, f1)"
    by fastforce
  moreover have "fq_entries q = [toEntry (example_event\<lparr>ev_id := ''1-2''\<rparr>) (mk_error ''down'') None ''now'']"
    using run by (simp add: example_ops_def file_enqueue_def file_remove_def persist_def mem_remove_def js_bind_def
      disk_fs_def example_event_def Let_def) auto
  ultimately show ?thesis
    using file_queue_survives_restart [OF ok TrueI _ ops new run] by (auto simp: disk_fs_def)
qed


text \<open>An endpoint that refuses the event \<open>1-1\<close>.\<close>

definition picky_send :: "json option \<Rightarrow> nat \<Rightarrow> (thrown + unit) \<times> nat" where
  "picky_send ev w = (if ev = Some (event_json example_event) then Throw (mk_error ''refused'') else Ret (), Suc w)"

definition example_queue :: dlq where
  "example_queue = [toEntry example_event (mk_error ''down'') None ''now'',
     toEntry (example_event\<lparr>ev_id := ''1-2''\<rparr>) (mk_error ''down'') None ''now'']"


lemma replay_loop_double:
  assumes "\<And>ev w. fst (send ev w) = Ret ()" and "\<And>i q. \<exists>e. fst (remove i q) = Throw e" and "list_all readable js"
  shows "\<exists>q' w'. replay_loop send remove False js res (q, w) =
    (res\<lparr>re_delivered := re_delivered res + length js, re_failed := re_failed res + length js\<rparr>, q', w')"
  using assms(3)
proof (induction js arbitrary: res q w)
  case (Cons j js)
  obtain ev where ev: "entry_event j = Ret (Some ev)" using entry_event_readable Cons.prems by fastforce
  have i: "entry_id j = Ret (the_id j)" using entry_id_readable Cons.prems by simp
  obtain w1 where w1: "send (Some ev) w = (Ret (), w1)" using assms(1) by (metis prod.collapse)
  obtain e q1 where q1: "remove (the_id j) q = (Throw e, q1)" using assms(2) by (metis prod.collapse)
  show ?case
    using Cons.IH [of "res\<lparr>re_delivered := Suc (re_delivered res), re_failed := Suc (re_failed res)\<rparr>" q1 w1] Cons.prems
    by (simp add: ev i w1 q1)
qed simp

text \<open>
  When the removal fails after a successful delivery, as it does when the file cannot be written, the
  entry is counted both as delivered and as failed, so that the two counts exceed the attempts.
\<close>

theorem replay_counts_twice:
  assumes "\<And>ev w. fst (send ev w) = Ret ()" and "\<And>i q. \<exists>e. fst (remove i q) = Throw e" and "list_all readable (getAll q)"
  shows "\<exists>q' w'. replayDeadLetterQueue getAll remove send False None (q, w) =
    (\<lparr>re_delivered = length (getAll q), re_failed = length (getAll q), re_attempted = length (getAll q)\<rparr>, q', w')"
  using replay_loop_double [of send remove, OF assms, of "\<lparr>re_delivered = 0, re_failed = 0, re_attempted = length (getAll q)\<rparr>" q w]
  by (simp add: replayDeadLetterQueue_def Let_def)

theorem replay_counts_twice_witness:
  "fst (replayDeadLetterQueue (\<lambda>q. q) (\<lambda>i q. (Throw (mk_error ''EROFS''), q)) (\<lambda>ev w. (Ret (), w)) False None (example_queue, ()))
    = \<lparr>re_delivered = 2, re_failed = 2, re_attempted = 2\<rparr>"
  using replay_counts_twice [of "\<lambda>ev w. (Ret (), w)" "\<lambda>i q. (Throw (mk_error ''EROFS''), q)" "\<lambda>q. q" example_queue "()"]
  by (fastforce simp: example_queue_def readable_def)

end
