(* ===== verification/Webhook.thy ===== *)
theory Webhook
  imports Events Backoff Jwt
begin

text \<open>
  \<open>horizon-listener/src/webhook.ts\<close>: signing and verifying, the delivery loop with its retries, and batching.

  HMAC-SHA-256 is the parameter \<open>hmac\<close> on bytes, \<open>fetch\<close>, the clock, the timer and the random source are
  the environment \<open>webhook_env\<close>. A request carries the timeout after which its abort signal fires; an
  aborted \<open>fetch\<close> rejects. Metrics and spans are not modelled. The class declares neither
  \<open>propagateTraceContext\<close> nor \<open>dispatcher\<close>, so that both read as undefined: no \<open>traceparent\<close> header and
  no dispatcher is ever sent. \<open>readErrorBody\<close> is a free name of the module and is looked up in the global
  scope; \<open>we_readErrorBody\<close> is that binding, when there is one.
\<close>

section \<open>Signatures\<close>

definition sign :: "(nat list \<Rightarrow> nat list \<Rightarrow> nat list) \<Rightarrow> string \<Rightarrow> string \<Rightarrow> string \<Rightarrow> string" where
  "sign hmac secret timestamp body = hex_bytes (hmac (utf8 secret) (utf8 (timestamp @ ''.'' @ body)))"

definition verifyWebhookSignature ::
  "(nat list \<Rightarrow> nat list \<Rightarrow> nat list) \<Rightarrow> nat list \<Rightarrow> string \<Rightarrow> string \<Rightarrow> string list \<Rightarrow> bool" where
  "verifyWebhookSignature hmac rawBody timestamp signatureHeader secrets =
     (let provided = map (\<lambda>s. utf8 (trim s)) (split_on (CHR '','') signatureHeader);
          material = utf8 (timestamp @ ''.'') @ rawBody
      in list_ex (\<lambda>secret.
           let expected = utf8 (''sha256='' @ hex_bytes (hmac (utf8 secret) material))
           in list_ex (\<lambda>p. length p = length expected \<and> p = expected) provided) secrets)"

section \<open>The sender\<close>

datatype signing_secret = OneSecret string | Secrets "string list"

record webhook_options =
  wh_url :: string
  wh_signingSecret :: "signing_secret option"
  wh_timeoutMs :: "int option"
  wh_maxRetries :: "rat option"
  wh_batchSize :: "int option"
  wh_batchMaxWaitMs :: "int option"

text \<open>The number \<open>maxRetries\<close> may be any finite number. The timer is only known to be set or not.\<close>

record webhook_sender =
  ws_url :: string
  ws_secrets :: "string list"
  ws_timeoutMs :: "int option"
  ws_maxRetries :: rat
  ws_batchSize :: int
  ws_batchMaxWaitMs :: int
  ws_buffer :: "raw_event list"
  ws_timer :: bool

definition signing_secrets :: "signing_secret option \<Rightarrow> string list" where
  "signing_secrets secrets = filter (\<lambda>s. s \<noteq> [])
     (case secrets of None \<Rightarrow> [] | Some (Secrets ss) \<Rightarrow> ss | Some (OneSecret s) \<Rightarrow> if s = [] then [] else [s])"

text \<open>\<open>new URL(url).protocol\<close> is the parameter \<open>protocol_of\<close>; it throws on a malformed URL.\<close>

definition new_webhook_sender :: "(string \<Rightarrow> thrown + string) \<Rightarrow> webhook_options \<Rightarrow> thrown + webhook_sender" where
  "new_webhook_sender protocol_of options =
     (case protocol_of (wh_url options) of
        Throw err \<Rightarrow> Throw (mk_error (''horizon-listener: HttpWebhookSender invalid URL '' @ [CHR 0x22] @ wh_url options
          @ [CHR 0x22] @ '' ('' @ thrown_message err @ '')''))
      | Ret protocol \<Rightarrow>
          if take 4 protocol \<noteq> ''http'' then
            Throw (mk_error (''horizon-listener: HttpWebhookSender invalid URL '' @ [CHR 0x22] @ wh_url options
              @ [CHR 0x22] @ '' (must start with http:// or https://)''))
          else Ret \<lparr>ws_url = wh_url options, ws_secrets = signing_secrets (wh_signingSecret options),
            ws_timeoutMs = wh_timeoutMs options, ws_maxRetries = or_default (wh_maxRetries options) 3,
            ws_batchSize = max 1 (or_default (wh_batchSize options) 1),
            ws_batchMaxWaitMs = or_default (wh_batchMaxWaitMs options) 1000, ws_buffer = [], ws_timer = False\<rparr>)"

section \<open>Delivery\<close>

record webhook_request =
  rq_url :: string
  rq_headers :: "(string \<times> string) list"
  rq_body :: string
  rq_timeoutMs :: "int option"

record 'w webhook_env =
  we_hmac :: "nat list \<Rightarrow> nat list \<Rightarrow> nat list"
  we_fetch :: "webhook_request \<Rightarrow> 'w \<Rightarrow> (thrown + int) \<times> 'w"
  we_readErrorBody :: "(int \<Rightarrow> 'w \<Rightarrow> (thrown + string) \<times> 'w) option"
  we_now :: "'w \<Rightarrow> int"
  we_random :: "'w \<Rightarrow> rat \<times> 'w"
  we_wait :: "rat \<Rightarrow> 'w \<Rightarrow> 'w"

definition webhook_http_error :: "string \<Rightarrow> int \<Rightarrow> thrown" where
  "webhook_http_error message status = Exn ''WebhookHttpError'' message (no_props\<lparr>p_status := Some status\<rparr>)"

definition response_ok :: "int \<Rightarrow> bool" where
  "response_ok status \<longleftrightarrow> 200 \<le> status \<and> status \<le> 299"

text \<open>One attempt. Only the code of an answer is looked at.\<close>

definition post :: "'w webhook_env \<Rightarrow> webhook_request \<Rightarrow> 'w \<Rightarrow> (thrown + unit) \<times> 'w" where
  "post env req w =
     (case we_fetch env req w of
        (Throw e, w) \<Rightarrow> (Throw e, w)
      | (Ret status, w) \<Rightarrow>
          if response_ok status then (Ret (), w)
          else (case we_readErrorBody env of
              None \<Rightarrow> (Throw (reference_error ''readErrorBody''), w)
            | Some readErrorBody \<Rightarrow>
                (case readErrorBody status w of
                   (Throw e, w) \<Rightarrow> (Throw e, w)
                 | (Ret errorBody, w) \<Rightarrow>
                     (Throw (webhook_http_error (''horizon-listener: webhook POST to '' @ rq_url req @ '' failed with status ''
                        @ dec_of_int status @ (if errorBody = [] then [] else '': '' @ errorBody)) status), w))))"

text \<open>
  \<open>error instanceof WebhookHttpError\<close> with a status of the 400s. Only \<open>post\<close> makes errors of that class, the
  error of \<open>fetch\<close> being of the platform.
\<close>

fun is_permanent :: "thrown \<Rightarrow> bool" where
  "is_permanent (Exn name m props) \<longleftrightarrow> name = ''WebhookHttpError''
     \<and> (case p_status props of Some status \<Rightarrow> 400 \<le> status \<and> status < 500 | None \<Rightarrow> False)"
| "is_permanent _ \<longleftrightarrow> False"

text \<open>The wait before an attempt after the first.\<close>

definition before_attempt :: "'w webhook_env \<Rightarrow> nat \<Rightarrow> 'w \<Rightarrow> (thrown + unit) \<times> 'w" where
  "before_attempt env attempt w =
     (if attempt > 0 then
        (case computeBackoffDelayMs (we_random env) (JInt (int attempt - 1)) default_backoff w of
           (Throw e, w) \<Rightarrow> (Throw e, w)
         | (Ret delayMs, w) \<Rightarrow> (Ret (), we_wait env delayMs w))
      else (Ret (), w))"

text \<open>
  The loop. It returns without an error once \<open>attempt\<close> exceeds \<open>maxRetries\<close>, which happens when that
  number is negative or not whole.
\<close>

function deliver_loop :: "'w webhook_env \<Rightarrow> webhook_request \<Rightarrow> rat \<Rightarrow> nat \<Rightarrow> 'w \<Rightarrow> (thrown + unit) \<times> 'w" where
  "deliver_loop env req maxRetries attempt w =
     (if of_nat attempt \<le> maxRetries then
        (case before_attempt env attempt w of
           (Throw e, w) \<Rightarrow> (Throw e, w)
         | (Ret _, w) \<Rightarrow>
             (case post env req w of
                (Ret _, w) \<Rightarrow> (Ret (), w)
              | (Throw err, w) \<Rightarrow>
                  if is_permanent err \<or> of_nat attempt = maxRetries then (Throw (to_error err), w)
                  else deliver_loop env req maxRetries (Suc attempt) w))
      else (Ret (), w))"
  by pat_completeness auto
termination
proof (relation "measure (\<lambda>(env, req, maxRetries, attempt, w). nat (floor maxRetries + 1 - int attempt))", goal_cases)
  case (2 env req maxRetries attempt)
  then have "int attempt \<le> floor maxRetries" by (simp add: le_floor_iff)
  then show ?case by simp
qed simp

declare deliver_loop.simps [simp del]

definition signature_header :: "(nat list \<Rightarrow> nat list \<Rightarrow> nat list) \<Rightarrow> string list \<Rightarrow> string \<Rightarrow> string \<Rightarrow> string" where
  "signature_header hmac secrets timestamp body =
     join '','' (map (\<lambda>secret. ''sha256='' @ sign hmac secret timestamp body) secrets)"

definition delivery_headers :: "(nat list \<Rightarrow> nat list \<Rightarrow> nat list) \<Rightarrow> int \<Rightarrow> string list \<Rightarrow> string \<Rightarrow> string \<Rightarrow> (string \<times> string) list" where
  "delivery_headers hmac now secrets body idempotencyKey =
     [(''Content-Type'', ''application/json''), (''Idempotency-Key'', idempotencyKey)]
     @ (if secrets \<noteq> [] then
          let timestamp = dec_of_int (now div 1000) in
          [(''X-Timestamp'', timestamp),
           (''X-Signature'', signature_header hmac secrets timestamp body)]
        else [])"

definition delivery_request :: "'w webhook_env \<Rightarrow> webhook_sender \<Rightarrow> string \<Rightarrow> string \<Rightarrow> 'w \<Rightarrow> webhook_request" where
  "delivery_request env s body idempotencyKey w = \<lparr>rq_url = ws_url s,
     rq_headers = delivery_headers (we_hmac env) (we_now env w) (ws_secrets s) body idempotencyKey, rq_body = body,
     rq_timeoutMs = (case ws_timeoutMs s of Some t \<Rightarrow> if t = 0 then None else Some t | None \<Rightarrow> None)\<rparr>"

definition deliver :: "'w webhook_env \<Rightarrow> webhook_sender \<Rightarrow> string \<Rightarrow> string \<Rightarrow> 'w \<Rightarrow> (thrown + unit) \<times> 'w" where
  "deliver env s body idempotencyKey w =
     deliver_loop env (delivery_request env s body idempotencyKey w) (ws_maxRetries s) 0 w"

text \<open>\<open>send\<close> without batching, and the delivery of a batch.\<close>

definition send_one :: "'w webhook_env \<Rightarrow> webhook_sender \<Rightarrow> raw_event \<Rightarrow> 'w \<Rightarrow> (thrown + unit) \<times> 'w" where
  "send_one env s event w = deliver env s (stringify (JObj [(''event'', event_json event)])) (ev_id event) w"

definition batch_key :: "(nat list \<Rightarrow> nat list \<Rightarrow> nat list) \<Rightarrow> raw_event list \<Rightarrow> string" where
  "batch_key hmac events = hex_bytes (hmac (utf8 ''batch'') (utf8 (join '','' (map ev_id events))))"

definition deliver_batch :: "'w webhook_env \<Rightarrow> webhook_sender \<Rightarrow> raw_event list \<Rightarrow> 'w \<Rightarrow> (thrown + unit) \<times> 'w" where
  "deliver_batch env s events w =
     deliver env s (stringify (JObj [(''events'', JArr (map event_json events))])) (batch_key (we_hmac env) events) w"

section \<open>Batching\<close>

text \<open>
  The synchronous part of \<open>flush\<close>: the timer is cleared and the buffer taken. The batch taken is delivered
  and then every one of its promises is settled as the delivery was.
\<close>

definition flush_take :: "webhook_sender \<Rightarrow> raw_event list \<times> webhook_sender" where
  "flush_take s = (ws_buffer s, s\<lparr>ws_buffer := [], ws_timer := False\<rparr>)"

text \<open>\<open>send\<close> with a batch size above one: the batch to deliver at once, if the buffer is full.\<close>

definition send_buffered :: "webhook_sender \<Rightarrow> raw_event \<Rightarrow> raw_event list \<times> webhook_sender" where
  "send_buffered s event =
     (let s = s\<lparr>ws_buffer := ws_buffer s @ [event]\<rparr> in
      if int (length (ws_buffer s)) \<ge> ws_batchSize s then flush_take s
      else if \<not> ws_timer s then ([], s\<lparr>ws_timer := True\<rparr>)
      else ([], s))"

text \<open>What can happen to a batching sender; \<open>stop\<close> is \<open>flush\<close>. A timer fires only while it is set.\<close>

datatype batch_op = Send raw_event | Flush | TimerFires

fun batch_step :: "batch_op \<Rightarrow> webhook_sender \<Rightarrow> raw_event list \<times> webhook_sender" where
  "batch_step (Send e) s = send_buffered s e"
| "batch_step Flush s = flush_take s"
| "batch_step TimerFires s = (if ws_timer s then flush_take s else ([], s))"

text \<open>The batches delivered, one after the other; an empty one is not sent.\<close>

fun batch_run :: "batch_op list \<Rightarrow> webhook_sender \<Rightarrow> raw_event list list \<times> webhook_sender" where
  "batch_run [] s = ([], s)"
| "batch_run (a # as) s =
     (case batch_step a s of (b, s) \<Rightarrow> (case batch_run as s of (bs, s) \<Rightarrow> (if b = [] then bs else b # bs, s)))"

text \<open>How the promises of a batch settle.\<close>

definition settle_batch :: "thrown + unit \<Rightarrow> raw_event list \<Rightarrow> (raw_event \<times> (thrown + unit)) list" where
  "settle_batch result pending =
     map (\<lambda>e. (e, case result of Ret _ \<Rightarrow> Ret () | Throw err \<Rightarrow> Throw (to_error err))) pending"

section \<open>Signatures verify, and bind timestamp and body\<close>

definition byte_mac :: "(nat list \<Rightarrow> nat list \<Rightarrow> nat list) \<Rightarrow> bool" where
  "byte_mac hmac \<longleftrightarrow> (\<forall>k m. \<forall>b \<in> set (hmac k m). b < 256)"

definition signature_part :: "(nat list \<Rightarrow> nat list \<Rightarrow> nat list) \<Rightarrow> string \<Rightarrow> nat list \<Rightarrow> string" where
  "signature_part hmac secret material = ''sha256='' @ hex_bytes (hmac (utf8 secret) material)"

lemma hex_lower_of_char:
  "n < 16 \<Longrightarrow> (of_char (to_lower_char (hex_digit n)) :: nat) = (if n < 10 then 48 + n else 87 + n)"
  by (simp add: of_char_to_lower_char of_char_hex_digit Let_def)

lemma hex_bytes_chars:
  assumes "\<forall>b \<in> set bs. b < 256" and "c \<in> set (hex_bytes bs)"
  shows "48 \<le> (of_char c :: nat) \<and> (of_char c :: nat) \<le> 102"
proof -
  have digit: "48 \<le> (of_char (to_lower_char (hex_digit n)) :: nat) \<and> (of_char (to_lower_char (hex_digit n)) :: nat) \<le> 102"
    if "n < 16" for n
    unfolding hex_lower_of_char [OF that] using that by simp
  obtain b where "b \<in> set bs" and c: "c = to_lower_char (hex_digit (b div 16)) \<or> c = to_lower_char (hex_digit (b mod 16))"
    using assms(2) by (auto simp: hex_bytes_def)
  then have "b div 16 < 16" using assms(1) by (auto intro: less_mult_imp_div_less)
  with c digit show ?thesis by (metis mod_less_divisor zero_less_numeral)
qed

lemma hex_lower_inj:
  assumes "to_lower_char (hex_digit m) = to_lower_char (hex_digit n)" and "m < 16" and "n < 16"
  shows "m = n"
proof -
  have "(if m < 10 then 48 + m else 87 + m) = (if n < 10 then 48 + n else 87 + n)"
    using hex_lower_of_char [OF assms(2)] hex_lower_of_char [OF assms(3)] by (simp only: assms(1))
  then show ?thesis using assms(2,3) by (simp split: if_splits)
qed

lemma hex_bytes_inj:
  "\<lbrakk>hex_bytes xs = hex_bytes ys; \<forall>b \<in> set xs. b < 256; \<forall>b \<in> set ys. b < 256\<rbrakk> \<Longrightarrow> xs = ys"
proof (induction xs arbitrary: ys)
  case Nil
  then show ?case by (cases ys) (auto simp: hex_bytes_def)
next
  case (Cons x xs)
  then obtain y zs where ys: "ys = y # zs" by (cases ys) (auto simp: hex_bytes_def)
  with Cons.prems have "x div 16 = y div 16" "x mod 16 = y mod 16" "hex_bytes xs = hex_bytes zs"
    by (auto simp: hex_bytes_def intro!: hex_lower_inj less_mult_imp_div_less)
  moreover from this(1,2) have "x = y" by (metis div_mult_mod_eq)
  ultimately show ?case using Cons ys by simp
qed

lemma utf8_inj: "utf8 s = utf8 t \<longleftrightarrow> s = t"
  by (metis utf8_roundtrip)

lemma utf8_append: "utf8 (s @ t) = utf8 s @ utf8 t"
  by (simp add: utf8_def)

lemma utf8_Cons: "utf8 (c # t) = utf8_char c @ utf8 t"
  by (simp add: utf8_def)

lemma utf8_Nil: "utf8 [] = []"
  by (simp add: utf8_def)

lemmas utf8_simps = utf8_append utf8_Cons utf8_Nil

text \<open>A word of characters from \<open>0\<close> to \<open>f\<close>, behind its algorithm, is one part of the header.\<close>

lemma signature_part_plain:
  assumes "byte_mac hmac"
  shows "CHR '','' \<notin> set (signature_part hmac secret material)" and "trim (signature_part hmac secret material) = signature_part hmac secret material"
proof -
  let ?h = "hex_bytes (hmac (utf8 secret) material)"
  have h: "48 \<le> (of_char c :: nat) \<and> (of_char c :: nat) \<le> 102" if "c \<in> set ?h" for c
    using hex_bytes_chars that assms unfolding byte_mac_def by blast
  then show "CHR '','' \<notin> set (signature_part hmac secret material)"
    using h [of "CHR '',''"] by (auto simp: signature_part_def)
  have ws: "\<not> is_ws c" if "c \<in> set (signature_part hmac secret material)" for c
    using that h [of c] by (auto simp: signature_part_def is_ws_of_char)
  have drop: "dropWhile is_ws xs = xs" if "\<forall>c \<in> set xs. \<not> is_ws c" for xs
    using that by (cases xs) auto
  show "trim (signature_part hmac secret material) = signature_part hmac secret material"
    using ws by (simp add: trim_def trim_left_def trim_right_def drop)
qed

lemma verify_iff:
  "verifyWebhookSignature hmac rawBody timestamp header secrets \<longleftrightarrow>
    (\<exists>secret \<in> set secrets. \<exists>p \<in> set (split_on (CHR '','') header).
       trim p = signature_part hmac secret (utf8 (timestamp @ ''.'') @ rawBody))"
proof -
  have eq: "length xs = length ys \<and> xs = ys \<longleftrightarrow> xs = ys" for xs ys :: "nat list" by auto
  show ?thesis
    unfolding verifyWebhookSignature_def signature_part_def [symmetric] Let_def list_ex_iff eq set_map bex_simps utf8_inj
    by (rule refl)
qed

lemma header_parts:
  assumes "byte_mac hmac" and "secrets \<noteq> []"
  shows "split_on (CHR '','') (signature_header hmac secrets timestamp body) =
    map (\<lambda>secret. signature_part hmac secret (utf8 (timestamp @ ''.'') @ utf8 body)) secrets"
proof -
  have "''sha256='' @ sign hmac secret timestamp body = signature_part hmac secret (utf8 (timestamp @ ''.'') @ utf8 body)" for secret
    by (simp add: signature_part_def sign_def utf8_simps)
  then have "signature_header hmac secrets timestamp body =
      join '','' (map (\<lambda>secret. signature_part hmac secret (utf8 (timestamp @ ''.'') @ utf8 body)) secrets)"
    by (simp only: signature_header_def)
  then show ?thesis
    using assms(2) signature_part_plain(1) [OF assms(1)] by (simp add: split_on_join)
qed

lemma bex_comm: "(\<exists>x \<in> A. \<exists>y \<in> B. P x y) \<longleftrightarrow> (\<exists>y \<in> B. \<exists>x \<in> A. P x y)"
  by blast

lemma verify_signed_iff:
  assumes "byte_mac hmac" and "secrets \<noteq> []"
  shows "verifyWebhookSignature hmac rawBody' timestamp'
      (signature_header hmac secrets timestamp body) secrets' \<longleftrightarrow>
    (\<exists>secret \<in> set secrets. \<exists>secret' \<in> set secrets'.
      hmac (utf8 secret) (utf8 (timestamp @ ''.'') @ utf8 body) = hmac (utf8 secret') (utf8 (timestamp' @ ''.'') @ rawBody'))"
proof -
  have eq: "signature_part hmac s m = signature_part hmac s' m' \<longleftrightarrow> hmac (utf8 s) m = hmac (utf8 s') m'" for s m s' m'
  proof
    assume "signature_part hmac s m = signature_part hmac s' m'"
    then show "hmac (utf8 s) m = hmac (utf8 s') m'"
      using assms(1) hex_bytes_inj by (simp add: byte_mac_def signature_part_def)
  qed (simp add: signature_part_def)
  show ?thesis
    unfolding verify_iff header_parts [OF assms] set_map bex_simps signature_part_plain(2) [OF assms(1)] eq
    by (rule bex_comm)
qed

lemma utf8_no_dot: "CHR ''.'' \<notin> set t \<Longrightarrow> 46 \<notin> set (utf8 t)"
proof (induction t)
  case (Cons c t)
  have "46 \<notin> set (utf8_char c)" if "c \<noteq> CHR ''.''"
    using that by (auto simp: utf8_char_def Let_def char_eq_iff)
  with Cons show ?case by (auto simp: utf8_def)
qed (simp add: utf8_def)

lemma material_inj:
  assumes "utf8 (t @ ''.'') @ b = utf8 (t' @ ''.'') @ b'" and "CHR ''.'' \<notin> set t" and "CHR ''.'' \<notin> set t'"
  shows "t = t' \<and> b = b'"
proof -
  have dot: "utf8 ''.'' = [46]" by (simp add: utf8_def utf8_char_def)
  have eq: "utf8 t @ 46 # b = utf8 t' @ 46 # b'" using assms(1) by (simp add: dot utf8_append)
  have "takeWhile (\<lambda>x. x \<noteq> 46) (xs @ 46 # r) = xs \<and> dropWhile (\<lambda>x. x \<noteq> 46) (xs @ 46 # r) = 46 # r"
    if "46 \<notin> set xs" for xs r :: "nat list"
    using that by (simp add: takeWhile_append dropWhile_append)
  then have "utf8 t = utf8 t' \<and> 46 # b = 46 # b'"
    using eq utf8_no_dot [OF assms(2)] utf8_no_dot [OF assms(3)] by metis
  then show ?thesis by (simp add: utf8_inj)
qed

text \<open>
  Signatures survive a rotation of secrets: whatever the body and the time of a delivery, the signature
  header it carries verifies for every receiver that holds one of the sender's secrets.
\<close>

theorem webhook_rotation:
  assumes "byte_mac hmac" and "secret \<in> set senderSecrets" and "secret \<in> set receiverSecrets"
  shows "\<exists>timestamp header. map_of (delivery_headers hmac now senderSecrets body key) ''X-Timestamp'' = Some timestamp
    \<and> map_of (delivery_headers hmac now senderSecrets body key) ''X-Signature'' = Some header
    \<and> verifyWebhookSignature hmac (utf8 body) timestamp header receiverSecrets"
proof -
  have "senderSecrets \<noteq> []" using assms(2) by auto
  then show ?thesis
    using assms by (auto simp: delivery_headers_def Let_def verify_signed_iff)
qed

text \<open>A toy MAC that keeps the key and the message apart, to evaluate the functions on.\<close>

definition toy_mac :: "nat list \<Rightarrow> nat list \<Rightarrow> nat list" where
  "toy_mac k m = map (\<lambda>b. b mod 256) (concat (map (\<lambda>b. [1, b]) k) @ 0 # m)"

lemma toy_byte_mac: "byte_mac toy_mac"
  unfolding byte_mac_def toy_mac_def by auto

theorem webhook_rotation_witness:
  "\<exists>timestamp header. map_of (delivery_headers toy_mac 5000 [''new'', ''old''] ''{}'' ''k'') ''X-Timestamp'' = Some timestamp
    \<and> map_of (delivery_headers toy_mac 5000 [''new'', ''old''] ''{}'' ''k'') ''X-Signature'' = Some header
    \<and> verifyWebhookSignature toy_mac (utf8 ''{}'') timestamp header [''old'']"
  by (rule webhook_rotation [of _ "''old''"]) (auto simp: toy_byte_mac)

definition signed_material :: "string \<Rightarrow> nat list \<Rightarrow> nat list" where
  "signed_material timestamp rawBody = utf8 (timestamp @ ''.'') @ rawBody"

text \<open>
  C22. A signature binds the timestamp and the body: a receiver that accepts the header of a delivery with
  another timestamp or another body has met a collision of the MAC. The timestamps must not contain a
  dot, which the receiver has to check, since the signed text is the timestamp, a dot, and the body.
\<close>

theorem webhook_signature_binds:
  assumes "byte_mac hmac" and "senderSecrets \<noteq> []"
    and "verifyWebhookSignature hmac rawBody timestamp'
      (signature_header hmac senderSecrets timestamp body) receiverSecrets"
    and "CHR ''.'' \<notin> set timestamp" and "CHR ''.'' \<notin> set timestamp'"
    and "\<And>secret secret'. \<lbrakk>secret \<in> set senderSecrets; secret' \<in> set receiverSecrets;
      hmac (utf8 secret) (signed_material timestamp (utf8 body)) = hmac (utf8 secret') (signed_material timestamp' rawBody)\<rbrakk>
      \<Longrightarrow> signed_material timestamp (utf8 body) = signed_material timestamp' rawBody"
  shows "timestamp' = timestamp \<and> rawBody = utf8 body"
proof -
  obtain secret secret' where "secret \<in> set senderSecrets" and "secret' \<in> set receiverSecrets"
    and "hmac (utf8 secret) (signed_material timestamp (utf8 body)) = hmac (utf8 secret') (signed_material timestamp' rawBody)"
    using assms(3) unfolding verify_signed_iff [OF assms(1,2)] signed_material_def by blast
  from assms(6) [OF this] have "timestamp = timestamp' \<and> utf8 body = rawBody"
    unfolding signed_material_def by (rule material_inj) (rule assms(4), rule assms(5))
  then show ?thesis by simp
qed

theorem webhook_signature_binds_witness:
  "verifyWebhookSignature toy_mac (utf8 ''x'') ''5'' (signature_header toy_mac [''s''] ''5'' ''x'') [''s'']
    \<and> ''5'' = ''5'' \<and> utf8 ''x'' = utf8 ''x''"
proof -
  have ver: "verifyWebhookSignature toy_mac (utf8 ''x'') ''5'' (signature_header toy_mac [''s''] ''5'' ''x'') [''s'']"
    by (simp add: verify_signed_iff toy_byte_mac)
  show ?thesis
    by (rule conjI [OF ver], rule webhook_signature_binds [OF toy_byte_mac _ ver]) simp_all
qed

text \<open>
  Without that check a signature does not bind the timestamp: a delivery whose body contains a dot
  verifies under another timestamp and a shorter body.
\<close>

theorem webhook_timestamp_shift:
  assumes "byte_mac hmac" and "senderSecrets \<noteq> []" and "hd senderSecrets \<in> set receiverSecrets"
    and "body = start @ ''.'' @ rest"
  shows "verifyWebhookSignature hmac (utf8 rest) (timestamp @ ''.'' @ start)
    (signature_header hmac senderSecrets timestamp body) receiverSecrets"
  unfolding verify_signed_iff [OF assms(1,2)]
  by (rule bexI [OF _ hd_in_set [OF assms(2)]], rule bexI [OF _ assms(3)]) (simp add: assms(4) utf8_simps)

theorem webhook_timestamp_shift_witness:
  "verifyWebhookSignature toy_mac (utf8 ''x'') ''5.v1''
    (signature_header toy_mac [''s''] ''5'' ''v1.x'') [''s'']"
  using webhook_timestamp_shift [of toy_mac "[''s'']" "[''s'']" "''v1.x''" "''v1''" "''x''" "''5''"]
  by (simp add: toy_byte_mac)

section \<open>Retries\<close>

text \<open>
  An endpoint that answers the k-th request with \<open>answers k\<close>; the world is the list of requests it got.
  \<open>reader\<close> is the global \<open>readErrorBody\<close>, when there is one.
\<close>

definition scripted_endpoint ::
  "(nat list \<Rightarrow> nat list \<Rightarrow> nat list) \<Rightarrow> int \<Rightarrow> (int \<Rightarrow> string) option \<Rightarrow> (nat \<Rightarrow> thrown + int) \<Rightarrow> webhook_request list webhook_env" where
  "scripted_endpoint hmac now reader answers = \<lparr>we_hmac = hmac, we_fetch = (\<lambda>req w. (answers (length w), w @ [req])),
     we_readErrorBody = map_option (\<lambda>r status w. (Ret (r status), w)) reader,
     we_now = (\<lambda>w. now), we_random = (\<lambda>w. (0, w)), we_wait = (\<lambda>d w. w)\<rparr>"

definition attempt_outcome :: "(int \<Rightarrow> string) option \<Rightarrow> string \<Rightarrow> thrown + int \<Rightarrow> thrown + unit" where
  "attempt_outcome reader url answer =
     (case answer of
        Throw e \<Rightarrow> Throw e
      | Ret status \<Rightarrow>
          if response_ok status then Ret ()
          else (case reader of
              None \<Rightarrow> Throw (reference_error ''readErrorBody'')
            | Some r \<Rightarrow> Throw (webhook_http_error (''horizon-listener: webhook POST to '' @ url @ '' failed with status ''
                  @ dec_of_int status @ (if r status = [] then [] else '': '' @ r status)) status)))"

definition is_final :: "(int \<Rightarrow> string) option \<Rightarrow> string \<Rightarrow> thrown + int \<Rightarrow> bool" where
  "is_final reader url answer = (case attempt_outcome reader url answer of Ret _ \<Rightarrow> True | Throw e \<Rightarrow> is_permanent e)"

lemma post_scripted:
  "post (scripted_endpoint hmac now reader answers) req w =
     (attempt_outcome reader (rq_url req) (answers (length w)), w @ [req])"
  by (simp add: post_def scripted_endpoint_def attempt_outcome_def split: sum.split option.split)

lemma before_attempt_scripted: "before_attempt (scripted_endpoint hmac now reader answers) attempt w = (Ret (), w)"
  by (simp add: before_attempt_def scripted_endpoint_def computeBackoffDelayMs_default)

definition reported :: "thrown + unit \<Rightarrow> thrown + unit" where
  "reported r = (case r of Ret _ \<Rightarrow> Ret () | Throw e \<Rightarrow> Throw (to_error e))"

lemma deliver_loop_scripted:
  assumes "length w \<le> n"
  shows "\<exists>m. length w \<le> m \<and> m \<le> n \<and> (\<forall>k. length w \<le> k \<longrightarrow> k < m \<longrightarrow> \<not> is_final reader (rq_url req) (answers k))
    \<and> (m = n \<or> is_final reader (rq_url req) (answers m))
    \<and> deliver_loop (scripted_endpoint hmac now reader answers) req (of_nat n) (length w) w =
        (reported (attempt_outcome reader (rq_url req) (answers m)), w @ replicate (Suc m - length w) req)"
  using assms
proof (induction "n - length w" arbitrary: w)
  case 0
  then have "length w = n" by simp
  then show ?case
    by (auto simp: deliver_loop.simps [of _ _ _ "length w"] before_attempt_scripted post_scripted reported_def split: sum.split)
next
  case (Suc d)
  show ?case
  proof (cases "is_final reader (rq_url req) (answers (length w))")
    case True
    then show ?thesis
      using Suc.hyps(2) by (intro exI [of _ "length w"])
        (auto simp: deliver_loop.simps [of _ _ _ "length w"] before_attempt_scripted post_scripted reported_def is_final_def
          split: sum.splits)
  next
    case False
    then obtain e where e: "attempt_outcome reader (rq_url req) (answers (length w)) = Throw e" "\<not> is_permanent e"
      by (auto simp: is_final_def split: sum.splits)
    have "d = n - length (w @ [req])" and "length (w @ [req]) \<le> n" using Suc.hyps(2) by simp_all
    from Suc.hyps(1) [OF this] obtain m where
      "length (w @ [req]) \<le> m" "m \<le> n" "\<forall>k. length (w @ [req]) \<le> k \<longrightarrow> k < m \<longrightarrow> \<not> is_final reader (rq_url req) (answers k)"
        "m = n \<or> is_final reader (rq_url req) (answers m)"
        "deliver_loop (scripted_endpoint hmac now reader answers) req (of_nat n) (length (w @ [req])) (w @ [req]) =
          (reported (attempt_outcome reader (rq_url req) (answers m)), (w @ [req]) @ replicate (Suc m - length (w @ [req])) req)"
      by blast
    then have m: "Suc (length w) \<le> m" "m \<le> n" "\<forall>k. Suc (length w) \<le> k \<longrightarrow> k < m \<longrightarrow> \<not> is_final reader (rq_url req) (answers k)"
        "m = n \<or> is_final reader (rq_url req) (answers m)"
        "deliver_loop (scripted_endpoint hmac now reader answers) req (of_nat n) (Suc (length w)) (w @ [req]) =
          (reported (attempt_outcome reader (rq_url req) (answers m)), w @ req # replicate (m - length w) req)"
      by simp_all
    have "w @ req # replicate (m - length w) req = w @ replicate (Suc m - length w) req"
      using m(1) by (simp add: Suc_diff_le)
    moreover have "\<forall>k. length w \<le> k \<longrightarrow> k < m \<longrightarrow> \<not> is_final reader (rq_url req) (answers k)"
      using m(3) False by (metis not_less_eq_eq order_antisym_conv)
    ultimately show ?thesis
      using m Suc.hyps(2) e
      by (intro exI [of _ m]) (auto simp: deliver_loop.simps [of _ _ _ "length w"] before_attempt_scripted post_scripted)
  qed
qed

lemma deliver_scripted:
  assumes "ws_maxRetries s = of_nat n"
  shows "\<exists>m req. m \<le> n \<and> map_of (rq_headers req) ''Idempotency-Key'' = Some key
    \<and> (\<forall>k < m. \<not> is_final reader (ws_url s) (answers k)) \<and> (m = n \<or> is_final reader (ws_url s) (answers m))
    \<and> deliver (scripted_endpoint hmac now reader answers) s body key [] =
        (reported (attempt_outcome reader (ws_url s) (answers m)), replicate (Suc m) req)"
proof -
  let ?env = "scripted_endpoint hmac now reader answers"
  let ?req = "delivery_request ?env s body key []"
  have "rq_url ?req = ws_url s" and "map_of (rq_headers ?req) ''Idempotency-Key'' = Some key"
    by (simp_all add: delivery_request_def delivery_headers_def)
  then show ?thesis
    using deliver_loop_scripted [of "[]" n reader ?req answers hmac now] assms by (force simp: deliver_def)
qed

text \<open>
  C23. What a delivery does at an endpoint, whatever it answers, with a retry budget of \<open>n\<close>: it sends one and
  the same request, idempotency key included, up to the first answer that settles it, a success or a
  permanent error, and at most \<open>n + 1\<close> times. It resolves exactly when that last answer was a success.
\<close>

theorem webhook_attempts:
  assumes "ws_maxRetries s = of_nat n"
  shows "\<exists>m req. m \<le> n \<and> map_of (rq_headers req) ''Idempotency-Key'' = Some key
    \<and> (\<forall>k < m. \<not> is_final reader (ws_url s) (answers k)) \<and> (m = n \<or> is_final reader (ws_url s) (answers m))
    \<and> deliver (scripted_endpoint hmac now reader answers) s body key [] =
        (reported (attempt_outcome reader (ws_url s) (answers m)), replicate (Suc m) req)"
  by (rule deliver_scripted [OF assms])

definition example_sender :: webhook_sender where
  "example_sender = \<lparr>ws_url = ''https://h'', ws_secrets = [''s''], ws_timeoutMs = None, ws_maxRetries = 2,
     ws_batchSize = 1, ws_batchMaxWaitMs = 1000, ws_buffer = [], ws_timer = False\<rparr>"

text \<open>The endpoint is down once, and then accepts.\<close>

definition flaky :: "nat \<Rightarrow> thrown + int" where
  "flaky k = Ret (if k = 0 then 503 else 200)"

theorem webhook_attempts_witness:
  "\<exists>req. deliver (scripted_endpoint toy_mac 5000 None flaky) example_sender ''{}'' ''1-1'' [] = (Ret (), [req, req])"
proof -
  have n: "ws_maxRetries example_sender = of_nat 2" by (simp add: example_sender_def)
  obtain m req where m: "m \<le> 2" "\<forall>k < m. \<not> is_final None (ws_url example_sender) (flaky k)"
    "m = 2 \<or> is_final None (ws_url example_sender) (flaky m)"
    "deliver (scripted_endpoint toy_mac 5000 None flaky) example_sender ''{}'' ''1-1'' [] =
       (reported (attempt_outcome None (ws_url example_sender) (flaky m)), replicate (Suc m) req)"
    using webhook_attempts [OF n, of "''1-1''" None flaky toy_mac 5000 "''{}''"] by blast
  have "\<not> is_final None url (flaky 0)" and one: "is_final None url (flaky 1)" for url
    by (simp_all add: is_final_def attempt_outcome_def flaky_def response_ok_def reference_error_def)
  then have "m \<noteq> 0" and "\<not> 1 < m" using m(2,3) by (metis zero_neq_numeral, blast)
  then have "m = 1" by simp
  with m(4) show ?thesis
    by (auto simp: reported_def attempt_outcome_def flaky_def response_ok_def)
qed

text \<open>
  A 4xx answer is documented as never retried. It is not, with a global \<open>readErrorBody\<close>; but the module
  defines none, the construction of the error throws a ReferenceError, and the delivery is retried to the
  end of the budget and rejects with that ReferenceError instead of the status.
\<close>

theorem client_error_retried:
  assumes "ws_maxRetries s = of_nat n" and "\<And>k. \<exists>status. answers k = Ret status \<and> 400 \<le> status \<and> status < 500"
  shows "(\<exists>req. snd (deliver (scripted_endpoint hmac now (Some r) answers) s body key []) = [req])
    \<and> (\<exists>req. deliver (scripted_endpoint hmac now None answers) s body key [] =
        (Throw (reference_error ''readErrorBody''), replicate (Suc n) req))"
proof
  have "is_final (Some r) (ws_url s) (answers 0)"
    using assms(2) [of 0] by (auto simp: is_final_def attempt_outcome_def response_ok_def webhook_http_error_def)
  moreover obtain m req where "\<forall>k < m. \<not> is_final (Some r) (ws_url s) (answers k)"
    and "snd (deliver (scripted_endpoint hmac now (Some r) answers) s body key []) = replicate (Suc m) req"
    using deliver_scripted [OF assms(1), of key "Some r" answers hmac now body] by fastforce
  ultimately show "\<exists>req. snd (deliver (scripted_endpoint hmac now (Some r) answers) s body key []) = [req]"
    by (cases m) auto
next
  have err: "attempt_outcome None (ws_url s) (answers k) = Throw (reference_error ''readErrorBody'')" for k
    using assms(2) [of k] by (auto simp: attempt_outcome_def response_ok_def)
  then have "\<not> is_final None (ws_url s) (answers k)" for k
    by (simp add: is_final_def reference_error_def)
  then show "\<exists>req. deliver (scripted_endpoint hmac now None answers) s body key [] =
        (Throw (reference_error ''readErrorBody''), replicate (Suc n) req)"
    using deliver_scripted [OF assms(1), of key None answers hmac now body]
    by (auto simp: err reported_def to_error_def reference_error_def)
qed

theorem client_error_retried_witness:
  "(\<exists>req. snd (deliver (scripted_endpoint toy_mac 5000 (Some (\<lambda>_. [])) (\<lambda>_. Ret 401)) example_sender ''{}'' ''1-1'' []) = [req])
    \<and> (\<exists>req. deliver (scripted_endpoint toy_mac 5000 None (\<lambda>_. Ret 401)) example_sender ''{}'' ''1-1'' [] =
        (Throw (reference_error ''readErrorBody''), [req, req, req]))"
  using client_error_retried [of example_sender 2 "\<lambda>_. Ret 401" toy_mac 5000 "\<lambda>_. []" "''{}''" "''1-1''"]
  by (simp add: example_sender_def numeral_2_eq_2)

lemma deliver_loop_resolves:
  assumes "\<And>n. maxRetries \<noteq> of_nat n" and "\<And>e k. answers k = Throw e \<Longrightarrow> \<not> is_permanent e"
  shows "fst (deliver_loop (scripted_endpoint hmac now None answers) req maxRetries attempt w) = Ret ()"
proof (induction "nat (floor maxRetries + 1 - int attempt)" arbitrary: attempt w rule: less_induct)
  case less
  show ?case
  proof (cases "of_nat attempt \<le> maxRetries")
    case True
    then have "int attempt \<le> floor maxRetries" by (simp add: le_floor_iff)
    then have IH: "fst (deliver_loop (scripted_endpoint hmac now None answers) req maxRetries (Suc attempt) w') = Ret ()" for w'
      by (intro less) simp
    have "\<not> is_permanent e" if "attempt_outcome None (rq_url req) (answers (length w)) = Throw e" for e
      using that assms(2) by (auto simp: attempt_outcome_def reference_error_def split: sum.splits if_splits)
    with True IH assms(1) show ?thesis
      by (subst deliver_loop.simps) (auto simp: before_attempt_scripted post_scripted eq_commute [of "of_nat _"] split: sum.split)
  qed (simp add: deliver_loop.simps [of _ _ _ attempt])
qed

text \<open>
  A retry budget that is negative or not whole is accepted, and with it a delivery never rejects because of
  the endpoint: it resolves although every attempt failed, or although nothing was sent.
\<close>

theorem odd_budget_resolves:
  assumes "\<And>n. ws_maxRetries s \<noteq> of_nat n" and "\<And>e k. answers k = Throw e \<Longrightarrow> \<not> is_permanent e"
  shows "fst (deliver (scripted_endpoint hmac now None answers) s body key []) = Ret ()
    \<and> (ws_maxRetries s < 0 \<longrightarrow> snd (deliver (scripted_endpoint hmac now None answers) s body key []) = [])"
proof
  show "fst (deliver (scripted_endpoint hmac now None answers) s body key []) = Ret ()"
    unfolding deliver_def by (rule deliver_loop_resolves [OF assms])
qed (simp add: deliver_def deliver_loop.simps [of _ _ _ 0])

theorem odd_budget_resolves_witness:
  "deliver (scripted_endpoint toy_mac 5000 None (\<lambda>_. Ret 503)) (example_sender\<lparr>ws_maxRetries := -1\<rparr>) ''{}'' ''1-1'' [] = (Ret (), [])"
proof -
  have neg: "ws_maxRetries (example_sender\<lparr>ws_maxRetries := -1\<rparr>) \<noteq> of_nat n" for n
    using of_nat_0_le_iff [of n, where 'a = rat] by (simp add: example_sender_def)
  show ?thesis
    using odd_budget_resolves [OF neg, of "\<lambda>_. Ret 503" toy_mac 5000 "''{}''" "''1-1''"]
    by (simp add: prod_eq_iff)
qed

section \<open>Batches conserve events\<close>

definition batching_ok :: "webhook_sender \<Rightarrow> bool" where
  "batching_ok s \<longleftrightarrow> 1 < ws_batchSize s \<and> int (length (ws_buffer s)) < ws_batchSize s \<and> (ws_timer s \<longleftrightarrow> ws_buffer s \<noteq> [])"

fun sent_events :: "batch_op list \<Rightarrow> raw_event list" where
  "sent_events [] = []"
| "sent_events (Send e # as) = e # sent_events as"
| "sent_events (a # as) = sent_events as"

lemma batch_step_ok:
  assumes "batching_ok s" and "batch_step a s = (b, s')"
  shows "batching_ok s' \<and> ws_batchSize s' = ws_batchSize s \<and> b @ ws_buffer s' = ws_buffer s @ sent_events [a]
    \<and> int (length b) \<le> ws_batchSize s"
proof (cases a)
  case (Send e)
  with assms show ?thesis
    by (auto simp: batching_ok_def send_buffered_def flush_take_def Let_def split: if_splits)
qed (use assms in \<open>auto simp: batching_ok_def flush_take_def split: if_splits\<close>)

lemma batch_run_ok:
  "batching_ok s \<Longrightarrow> batch_run ops s = (bs, s') \<Longrightarrow>
    batching_ok s' \<and> ws_batchSize s' = ws_batchSize s \<and> concat bs @ ws_buffer s' = ws_buffer s @ sent_events ops
    \<and> list_all (\<lambda>b. b \<noteq> [] \<and> int (length b) \<le> ws_batchSize s) bs"
proof (induction ops arbitrary: s bs)
  case (Cons a ops)
  obtain b s1 bs1 where step: "batch_step a s = (b, s1)" and run: "batch_run ops s1 = (bs1, s')"
    and bs: "bs = (if b = [] then bs1 else b # bs1)"
    using Cons.prems(2) by (auto split: prod.splits)
  note ok = batch_step_ok [OF Cons.prems(1) step]
  then have "batching_ok s1" by simp
  note IH = Cons.IH [OF this run]
  have "sent_events (a # ops) = sent_events [a] @ sent_events ops" by (cases a) auto
  moreover have "concat bs @ ws_buffer s' = b @ concat bs1 @ ws_buffer s'" by (simp add: bs)
  moreover have "concat bs1 @ ws_buffer s' = ws_buffer s1 @ sent_events ops" using IH by simp
  moreover have "b @ ws_buffer s1 = ws_buffer s @ sent_events [a]" using ok by simp
  ultimately have "concat bs @ ws_buffer s' = ws_buffer s @ sent_events (a # ops)"
    by (metis append.assoc)
  then show ?case using ok IH by (simp add: bs)
qed simp

text \<open>
  C24. Batching loses, repeats and reorders nothing: after any sequence of sends, flushes and timer runs, the
  batches sent followed by what is still buffered are exactly the events sent. Every batch has at least one
  and at most \<open>batchSize\<close> events, fewer than that are ever buffered, and whenever something is buffered the
  timer that will flush it is set.
\<close>

theorem batching_conserves:
  assumes "batching_ok s" and "batch_run ops s = (bs, s')"
  shows "concat bs @ ws_buffer s' = ws_buffer s @ sent_events ops
    \<and> list_all (\<lambda>b. b \<noteq> [] \<and> int (length b) \<le> ws_batchSize s) bs
    \<and> int (length (ws_buffer s')) < ws_batchSize s \<and> (ws_buffer s' \<noteq> [] \<longleftrightarrow> ws_timer s')"
  using batch_run_ok [OF assms] by (simp add: batching_ok_def)

definition example_sent :: "nat \<Rightarrow> raw_event" where
  "example_sent n = \<lparr>ev_id = replicate n (CHR ''i''), ev_contractId = ''C'', ev_ledger = 1, ev_topic = [], ev_value = JNull\<rparr>"

theorem batching_conserves_witness:
  "\<exists>s'. batch_run [Send (example_sent 1), Send (example_sent 2), Send (example_sent 3)] (example_sender\<lparr>ws_batchSize := 2\<rparr>)
      = ([[example_sent 1, example_sent 2]], s') \<and> ws_buffer s' = [example_sent 3] \<and> ws_timer s'"
proof -
  let ?s = "example_sender\<lparr>ws_batchSize := 2\<rparr>"
  let ?ops = "[Send (example_sent 1), Send (example_sent 2), Send (example_sent 3)]"
  have ok: "batching_ok ?s" by (simp add: batching_ok_def example_sender_def)
  obtain s' where run: "batch_run ?ops ?s = ([[example_sent 1, example_sent 2]], s')"
    by (simp add: send_buffered_def flush_take_def example_sender_def)
  from batching_conserves [OF ok run] have "ws_buffer s' = [example_sent 3]" and "ws_timer s'"
    by (auto simp: example_sender_def)
  with run show ?thesis by (intro exI conjI)
qed

end
