(* ===== verification/MultiWebhook.thy ===== *)
theory MultiWebhook
  imports DeadLetter Webhook
begin

text \<open>
  \<open>horizon-listener/src/multiWebhook.ts\<close>: the fan-out of an event to several targets, each with its own
  sender, requiredness and dead-letter queue. All sends are started before the first is awaited, and all are
  settled before a dead-letter queue is touched; the model runs each group in the order of the targets, one of
  the orders in which independent targets can settle. The failures are collected in the order of the targets
  in any case, since that part of the callbacks runs synchronously.
\<close>

section \<open>Targets\<close>

record 'w webhook_target =
  wt_name :: string
  wt_send :: "raw_event \<Rightarrow> 'w \<Rightarrow> (thrown + unit) \<times> 'w"
  wt_required :: "bool option"
  wt_enqueue :: "(raw_event \<Rightarrow> thrown \<Rightarrow> 'w \<Rightarrow> (thrown + unit) \<times> 'w) option"

record target_failure =
  tf_target :: string
  tf_required :: bool
  tf_error :: thrown

text \<open>What \<open>send\<close> rejects with: its own error, or whatever a dead-letter queue threw.\<close>

datatype multi_error = Multi_Delivery string "target_failure list" | Queue_Error thrown

fun check_names :: "string list \<Rightarrow> 'w webhook_target list \<Rightarrow> thrown + unit" where
  "check_names seen [] = Ret ()"
| "check_names seen (t # ts) =
     (if wt_name t \<in> set seen then
        Throw (mk_error (''horizon-listener: MultiWebhookSender duplicate target name '' @ [CHR 0x22] @ wt_name t @ [CHR 0x22]))
      else check_names (seen @ [wt_name t]) ts)"

definition new_multi_sender :: "'w webhook_target list option \<Rightarrow> thrown + 'w webhook_target list" where
  "new_multi_sender targets =
     (case targets of
        None \<Rightarrow> Throw (mk_error ''horizon-listener: MultiWebhookSender requires at least one target'')
      | Some ts \<Rightarrow>
          if ts = [] then Throw (mk_error ''horizon-listener: MultiWebhookSender requires at least one target'')
          else js_bind (check_names [] ts) (\<lambda>_. Ret ts))"

section \<open>Sending\<close>

text \<open>\<open>Promise.allSettled\<close> over the sends.\<close>

fun send_all :: "'w webhook_target list \<Rightarrow> raw_event \<Rightarrow> 'w \<Rightarrow> (thrown + unit) list \<times> 'w" where
  "send_all [] event w = ([], w)"
| "send_all (t # ts) event w =
     (case wt_send t event w of (r, w) \<Rightarrow> (case send_all ts event w of (rs, w) \<Rightarrow> (r # rs, w)))"

definition failures_of :: "('w webhook_target \<times> (thrown + unit)) list \<Rightarrow> target_failure list" where
  "failures_of settled = concat (map (\<lambda>(t, r). case r of
       Ret _ \<Rightarrow> []
     | Throw reason \<Rightarrow> [\<lparr>tf_target = wt_name t, tf_required = (case wt_required t of None \<Rightarrow> True | Some b \<Rightarrow> b),
         tf_error = to_error reason\<rparr>]) settled)"

text \<open>
  The dead-letter queues of the failed targets. \<open>Promise.all\<close> rejects with the first rejection; the calls
  have all been made.
\<close>

fun enqueue_all :: "('w webhook_target \<times> (thrown + unit)) list \<Rightarrow> raw_event \<Rightarrow> 'w \<Rightarrow> (thrown + unit) \<times> 'w" where
  "enqueue_all [] event w = (Ret (), w)"
| "enqueue_all ((t, r) # settled) event w =
     (case (r, wt_enqueue t) of
        (Throw reason, Some enqueue) \<Rightarrow>
          (case enqueue event (to_error reason) w of
             (q, w) \<Rightarrow> (case enqueue_all settled event w of (rest, w) \<Rightarrow> (js_bind q (\<lambda>_. rest), w)))
      | _ \<Rightarrow> enqueue_all settled event w)"

definition delivery_message :: "target_failure list \<Rightarrow> string" where
  "delivery_message requiredFailures = ''horizon-listener: required webhook target(s) failed: ''
     @ join '', '' (map (\<lambda>f. tf_target f @ '' ('' @ thrown_message (tf_error f) @ '')'') requiredFailures)"

definition multi_send :: "'w webhook_target list \<Rightarrow> raw_event \<Rightarrow> 'w \<Rightarrow> (multi_error + unit) \<times> 'w" where
  "multi_send targets event w =
     (case send_all targets event w of
        (results, w) \<Rightarrow>
          (let settled = zip targets results;
               failures = failures_of settled
           in case enqueue_all settled event w of
                (Throw e, w) \<Rightarrow> (Throw (Queue_Error e), w)
              | (Ret _, w) \<Rightarrow>
                  (let requiredFailures = filter tf_required failures in
                   if requiredFailures \<noteq> [] then
                     (Throw (Multi_Delivery (delivery_message requiredFailures) failures), w)
                   else (Ret (), w))))"

section \<open>Properties\<close>

text \<open>
  Targets whose sends and queues answer as given, on a log of the calls made.
\<close>

datatype call = Sent string | Queued string

record target_script =
  sc_name :: string
  sc_required :: "bool option"
  sc_answer :: "thrown + unit"
  sc_queue :: "(thrown + unit) option"

definition scripted_target :: "target_script \<Rightarrow> call list webhook_target" where
  "scripted_target c = \<lparr>wt_name = sc_name c, wt_send = (\<lambda>event w. (sc_answer c, w @ [Sent (sc_name c)])),
     wt_required = sc_required c,
     wt_enqueue = map_option (\<lambda>q event err w. (q, w @ [Queued (sc_name c)])) (sc_queue c)\<rparr>"

definition target_failed :: "target_script \<Rightarrow> bool" where
  "target_failed c = (case sc_answer c of Throw _ \<Rightarrow> True | Ret _ \<Rightarrow> False)"

definition is_required :: "target_script \<Rightarrow> bool" where
  "is_required c = (case sc_required c of None \<Rightarrow> True | Some b \<Rightarrow> b)"

definition dead_lettered :: "target_script \<Rightarrow> bool" where
  "dead_lettered c \<longleftrightarrow> target_failed c \<and> sc_queue c \<noteq> None"

lemma scripted_target_simps [simp]:
  "wt_name (scripted_target c) = sc_name c" "wt_required (scripted_target c) = sc_required c"
  "wt_send (scripted_target c) event w = (sc_answer c, w @ [Sent (sc_name c)])"
  by (simp_all add: scripted_target_def)

lemma send_all_scripted:
  "send_all (map scripted_target cs) event w = (map sc_answer cs, w @ map (Sent \<circ> sc_name) cs)"
  by (induction cs arbitrary: w) simp_all

lemma failures_scripted:
  "failures_of (zip (map scripted_target cs) (map sc_answer cs)) =
     map (\<lambda>c. \<lparr>tf_target = sc_name c, tf_required = is_required c, tf_error = to_error (projl (sc_answer c))\<rparr>)
       (filter target_failed cs)"
  by (induction cs) (auto simp: failures_of_def target_failed_def is_required_def split: sum.split)

definition queue_ok :: "target_script \<Rightarrow> bool" where
  "queue_ok c \<longleftrightarrow> (case sc_queue c of Some (Throw _) \<Rightarrow> False | _ \<Rightarrow> True)"

lemma enqueue_scripted:
  "enqueue_all ((scripted_target c, sc_answer c) # is) event w =
     (if dead_lettered c then
        (case enqueue_all is event (w @ [Queued (sc_name c)]) of (rest, w) \<Rightarrow> (js_bind (the (sc_queue c)) (\<lambda>_. rest), w))
      else enqueue_all is event w)"
  by (auto simp: dead_lettered_def target_failed_def scripted_target_def split: sum.split option.split)

lemma queue_ok_answer: "dead_lettered c \<Longrightarrow> queue_ok c \<Longrightarrow> the (sc_queue c) = Ret ()"
  by (cases "the (sc_queue c)") (auto simp: dead_lettered_def queue_ok_def split: sum.splits)

lemma queue_not_ok: "target_failed c \<Longrightarrow> \<not> queue_ok c \<Longrightarrow> dead_lettered c \<and> (\<exists>e. the (sc_queue c) = Throw e)"
  by (auto simp: dead_lettered_def queue_ok_def split: option.splits sum.splits)

lemma enqueue_all_log:
  "snd (enqueue_all (zip (map scripted_target cs) (map sc_answer cs)) event w) =
     w @ map (Queued \<circ> sc_name) (filter dead_lettered cs)"
  by (induction cs arbitrary: w) (simp_all add: enqueue_scripted case_prod_beta del: enqueue_all.simps(2))

lemma enqueue_all_result:
  "list_all queue_ok (filter target_failed cs) \<Longrightarrow>
     fst (enqueue_all (zip (map scripted_target cs) (map sc_answer cs)) event w) = Ret ()"
  by (induction cs arbitrary: w)
    (simp_all add: enqueue_scripted case_prod_beta queue_ok_answer dead_lettered_def del: enqueue_all.simps(2) split: if_splits)

lemma enqueue_all_rejects:
  "\<lbrakk>c \<in> set cs; target_failed c; \<not> queue_ok c\<rbrakk> \<Longrightarrow>
     \<exists>e. fst (enqueue_all (zip (map scripted_target cs) (map sc_answer cs)) event w) = Throw e"
proof (induction cs arbitrary: w)
  case (Cons d cs)
  show ?case
  proof (cases "c = d")
    case True
    with queue_not_ok [OF Cons.prems(2,3)] show ?thesis
      by (auto simp: enqueue_scripted case_prod_beta simp del: enqueue_all.simps(2))
  next
    case False
    with Cons obtain e where "fst (enqueue_all (zip (map scripted_target cs) (map sc_answer cs)) event (w @ [Queued (sc_name d)])) = Throw e"
      by fastforce
    moreover obtain e' where "fst (enqueue_all (zip (map scripted_target cs) (map sc_answer cs)) event w) = Throw e'"
      using False Cons by fastforce
    ultimately show ?thesis
      by (cases "the (sc_queue d)") (simp_all add: enqueue_scripted case_prod_beta del: enqueue_all.simps(2))
  qed
qed simp

definition outcome_of :: "target_script list \<Rightarrow> multi_error + unit" where
  "outcome_of cs =
     (let failures = map (\<lambda>c. \<lparr>tf_target = sc_name c, tf_required = is_required c, tf_error = to_error (projl (sc_answer c))\<rparr>)
            (filter target_failed cs);
          requiredFailures = filter tf_required failures
      in if requiredFailures = [] then Ret () else Throw (Multi_Delivery (delivery_message requiredFailures) failures))"

text \<open>
  C32. Targets fail independently: every target is sent the event exactly once whatever the others do, exactly the
  failed ones with a queue are dead-lettered, and, when the queues work, \<open>send\<close> resolves exactly when no
  required target failed and otherwise names every failed target, required or not.
\<close>

theorem multi_send_independent:
  assumes "list_all queue_ok (filter target_failed cs)"
  shows "multi_send (map scripted_target cs) event [] =
    (outcome_of cs, map (Sent \<circ> sc_name) cs @ map (Queued \<circ> sc_name) (filter dead_lettered cs))"
  using enqueue_all_log [of cs event "map (Sent \<circ> sc_name) cs"] enqueue_all_result [OF assms, of event "map (Sent \<circ> sc_name) cs"]
  by (cases "enqueue_all (zip (map scripted_target cs) (map sc_answer cs)) event (map (Sent \<circ> sc_name) cs)")
    (simp add: multi_send_def send_all_scripted failures_scripted outcome_of_def Let_def)

definition siem :: target_script where
  "siem = \<lparr>sc_name = ''siem'', sc_required = None, sc_answer = Ret (), sc_queue = None\<rparr>"

definition audit_target :: target_script where
  "audit_target = \<lparr>sc_name = ''audit'', sc_required = Some False, sc_answer = Throw (mk_error ''down''), sc_queue = Some (Ret ())\<rparr>"

theorem multi_send_independent_witness:
  "multi_send (map scripted_target [audit_target, siem]) example_event [] =
     (Ret (), [Sent ''audit'', Sent ''siem'', Queued ''audit''])"
  using multi_send_independent [of "[audit_target, siem]" example_event]
  by (simp add: queue_ok_def target_failed_def dead_lettered_def outcome_of_def is_required_def siem_def audit_target_def)

text \<open>
  An optional target is documented never to block the acknowledgement. It does when its dead-letter queue
  fails: then \<open>send\<close> rejects with the error of the queue, though every required target has confirmed, and the
  failures of the targets are not reported.
\<close>

theorem queue_failure_blocks:
  assumes "c \<in> set cs" and "target_failed c" and "\<not> queue_ok c"
  shows "\<exists>e. fst (multi_send (map scripted_target cs) event []) = Throw (Queue_Error e)"
  using enqueue_all_rejects [OF assms, of event "map (Sent \<circ> sc_name) cs"]
  by (cases "enqueue_all (zip (map scripted_target cs) (map sc_answer cs)) event (map (Sent \<circ> sc_name) cs)")
    (auto simp: multi_send_def send_all_scripted)

theorem queue_failure_blocks_witness:
  "\<exists>e. fst (multi_send (map scripted_target [audit_target\<lparr>sc_queue := Some (Throw (mk_error ''ENOSPC''))\<rparr>, siem]) example_event [])
     = Throw (Queue_Error e)"
  by (rule queue_failure_blocks [of "audit_target\<lparr>sc_queue := Some (Throw (mk_error ''ENOSPC''))\<rparr>"])
    (simp_all add: audit_target_def target_failed_def queue_ok_def)

end
