(* ===== verification/Listener.thy ===== *)
theory Listener
  imports Events Backoff
begin

text \<open>
  \<open>horizon-listener/src/listener.ts\<close>: the polling loop, the processing of a page and of an event.

  The event source, the handlers, the sleep and the random source act on a world \<open>'w\<close>. \<open>le_stops\<close> counts the
  calls of \<open>stop\<close> so far: the loop runs as long as there was none since it began, and a rejected sleep was aborted
  exactly when there was one during it. The module imports \<open>CursorOutOfRangeError\<close> from a module that does not
  export it: \<open>le_gap\<close> is that class, as the classification of errors it gives, and \<open>None\<close> when the import is
  undefined. \<open>onGap\<close> is a member the class does not declare, read as \<open>le_onGap\<close>. Logging, spans, counters and
  histograms are not modelled; the ledger lag is.
\<close>

section \<open>Options and state\<close>

datatype poll_mode = Poll | Stream
datatype ordering_key = ByContract | Unordered

record event_retry =
  er_maxRetries :: "int option"
  er_backoff :: backoff_options

text \<open>\<open>maxRetries\<close> is a number or, as \<open>None\<close>, \<open>Infinity\<close>.\<close>

record listener_options =
  lo_pollIntervalMs :: rat
  lo_maxRetries :: "rat option"
  lo_backoff :: backoff_options
  lo_mode :: poll_mode
  lo_eventRetry :: "event_retry option"
  lo_concurrency :: int
  lo_orderingKey :: ordering_key

record listener_config =
  lc_pollIntervalMs :: "rat option"
  lc_maxRetries :: "rat option option"
  lc_backoff :: "backoff_options option"
  lc_startLedger :: "int option"
  lc_mode :: "poll_mode option"
  lc_eventRetry :: "event_retry option"
  lc_concurrency :: "rat option"
  lc_orderingKey :: "ordering_key option"

record listener =
  hl_cursor :: "string option"
  hl_running :: bool
  hl_attempt :: nat
  hl_backfilling :: bool
  hl_ledgerLag :: "int option"

definition new_listener :: "listener_config \<Rightarrow> listener_options \<times> listener" where
  "new_listener c =
     (\<lparr>lo_pollIntervalMs = or_default (lc_pollIntervalMs c) 5000, lo_maxRetries = or_default (lc_maxRetries c) (Some 10),
        lo_backoff = or_default (lc_backoff c) default_backoff, lo_mode = or_default (lc_mode c) Poll,
        lo_eventRetry = lc_eventRetry c, lo_concurrency = max 1 (floor (or_default (lc_concurrency c) 1)),
        lo_orderingKey = or_default (lc_orderingKey c) ByContract\<rparr>,
      \<lparr>hl_cursor = None, hl_running = False, hl_attempt = 0, hl_backfilling = (lc_startLedger c \<noteq> None), hl_ledgerLag = None\<rparr>)"

record gap =
  gp_requested :: string
  gp_oldestAvailable :: "int option"

record 'w listener_env =
  le_getEvents :: "string option \<Rightarrow> 'w \<Rightarrow> (thrown + event_page) \<times> 'w"
  le_resetToLedger :: "(int \<Rightarrow> 'w \<Rightarrow> 'w) option"
  le_onEvent :: "raw_event \<Rightarrow> 'w \<Rightarrow> (thrown + unit) \<times> 'w"
  le_onEventFailure :: "(raw_event \<Rightarrow> thrown \<Rightarrow> 'w \<Rightarrow> (thrown + unit) \<times> 'w) option"
  le_sleep :: "rat \<Rightarrow> 'w \<Rightarrow> (thrown + unit) \<times> 'w"
  le_random :: "'w \<Rightarrow> rat \<times> 'w"
  le_stops :: "'w \<Rightarrow> nat"
  le_pick :: "'w \<Rightarrow> nat"
  le_gap :: "(thrown \<Rightarrow> gap option) option"
  le_onGap :: "string option"

section \<open>One event\<close>

definition max_event_attempts :: "listener_options \<Rightarrow> int" where
  "max_event_attempts opts = (case lo_eventRetry opts of None \<Rightarrow> 1 | Some r \<Rightarrow> max 1 (or_default (er_maxRetries r) 3))"

definition retry_options_of :: "listener_options \<Rightarrow> backoff_options" where
  "retry_options_of opts = (case lo_eventRetry opts of None \<Rightarrow> default_backoff | Some r \<Rightarrow> er_backoff r)"

text \<open>
  The attempts: no error, the last error, or an exception that leaves the function, from the sleep or the
  computation of the delay.
\<close>

function event_loop :: "'w listener_env \<Rightarrow> listener_options \<Rightarrow> raw_event \<Rightarrow> int \<Rightarrow> 'w \<Rightarrow> (thrown + thrown option) \<times> 'w" where
  "event_loop env opts event eventAttempt w =
     (case le_onEvent env event w of
        (Ret _, w) \<Rightarrow> (Ret None, w)
      | (Throw err, w) \<Rightarrow>
          if eventAttempt \<ge> max_event_attempts opts then (Ret (Some err), w)
          else (case computeBackoffDelayMs (le_random env) (JInt eventAttempt) (retry_options_of opts) w of
                  (Throw e, w) \<Rightarrow> (Throw e, w)
                | (Ret delayMs, w) \<Rightarrow>
                    (case le_sleep env delayMs w of
                       (Throw e, w) \<Rightarrow> (Throw e, w)
                     | (Ret _, w) \<Rightarrow> event_loop env opts event (eventAttempt + 1) w)))"
  by pat_completeness auto
termination
  by (relation "measure (\<lambda>(env, opts, event, eventAttempt, w). nat (max_event_attempts opts - eventAttempt))") auto

declare event_loop.simps [simp del]

text \<open>What \<open>onEventFailure\<close> throws is logged and dropped.\<close>

definition processEvent :: "'w listener_env \<Rightarrow> listener_options \<Rightarrow> raw_event \<Rightarrow> 'w \<Rightarrow> (thrown + unit) \<times> 'w" where
  "processEvent env opts event w =
     (case event_loop env opts event 1 w of
        (Throw e, w) \<Rightarrow> (Throw e, w)
      | (Ret None, w) \<Rightarrow> (Ret (), w)
      | (Ret (Some err), w) \<Rightarrow>
          (case le_onEventFailure env of
             None \<Rightarrow> (Ret (), w)
           | Some onEventFailure \<Rightarrow> (Ret (), snd (onEventFailure event err w))))"

section \<open>One page\<close>

fun process_all :: "'w listener_env \<Rightarrow> listener_options \<Rightarrow> raw_event list \<Rightarrow> 'w \<Rightarrow> (thrown + unit) \<times> 'w" where
  "process_all env opts [] w = (Ret (), w)"
| "process_all env opts (e # es) w =
     (case processEvent env opts e w of
        (Throw x, w) \<Rightarrow> (Throw x, w)
      | (Ret _, w) \<Rightarrow> process_all env opts es w)"

text \<open>The lanes, in the order in which their keys occur; without an ordering key every event has its own.\<close>

definition add_to_lane :: "(string \<times> raw_event list) list \<Rightarrow> raw_event \<Rightarrow> (string \<times> raw_event list) list" where
  "add_to_lane lanes e = (case map_get lanes (ev_contractId e) of
       Some lane \<Rightarrow> map_set (ev_contractId e) (lane @ [e]) lanes
     | None \<Rightarrow> map_set (ev_contractId e) [e] lanes)"

definition make_lanes :: "ordering_key \<Rightarrow> raw_event list \<Rightarrow> raw_event list list" where
  "make_lanes key events = (case key of
       ByContract \<Rightarrow> map snd (foldl add_to_lane [] events)
     | Unordered \<Rightarrow> map (\<lambda>e. [e]) events)"

text \<open>
  The workers. \<open>wk_busy\<close> holds, for each worker still running, what is left of its lane, the event in flight
  first; \<open>wk_queue\<close> the lanes nobody has taken. When the event of a worker has been processed, the worker goes on
  with its lane or shifts the next one from the queue, and ends when there is none. Which worker is next to
  finish is for the environment to say. An event is processed as a whole; the calls of the handler in
  different lanes may overlap in time. After a rejection the page is given up; what the other workers still
  do in the background is not modelled.
\<close>

record worker_pool =
  wk_busy :: "raw_event list list"
  wk_queue :: "raw_event list list"

definition start_pool :: "int \<Rightarrow> raw_event list list \<Rightarrow> worker_pool" where
  "start_pool concurrency lanes =
     (let n = min (nat concurrency) (length lanes) in \<lparr>wk_busy = take n lanes, wk_queue = drop n lanes\<rparr>)"

definition advance :: "nat \<Rightarrow> worker_pool \<Rightarrow> worker_pool" where
  "advance i p =
     (case tl (wk_busy p ! i) of
        e # es \<Rightarrow> p\<lparr>wk_busy := (wk_busy p)[i := e # es]\<rparr>
      | [] \<Rightarrow> (case wk_queue p of
           lane # lanes \<Rightarrow> \<lparr>wk_busy = (wk_busy p)[i := lane], wk_queue = lanes\<rparr>
         | [] \<Rightarrow> p\<lparr>wk_busy := take i (wk_busy p) @ drop (Suc i) (wk_busy p)\<rparr>))"

definition pool_size :: "worker_pool \<Rightarrow> nat" where
  "pool_size p = (\<Sum>lane \<leftarrow> wk_busy p @ wk_queue p. Suc (length lane))"

lemma sum_list_update_less:
  "i < length xs \<Longrightarrow> f y < f (xs ! i) \<Longrightarrow> (\<Sum>x \<leftarrow> xs[i := y]. f x) < (\<Sum>x \<leftarrow> xs. f x :: nat)"
  by (induction xs arbitrary: i) (auto split: nat.splits)

lemma sum_list_nth_split:
  "i < length xs \<Longrightarrow> (\<Sum>x \<leftarrow> xs. f x :: nat) = (\<Sum>x \<leftarrow> take i xs. f x) + f (xs ! i) + (\<Sum>x \<leftarrow> drop (Suc i) xs. f x)"
  by (metis (no_types, lifting) add.assoc append_take_drop_id Cons_nth_drop_Suc list.map(2) map_append sum_list.Cons sum_list_append)

lemma advance_smaller: "i < length (wk_busy p) \<Longrightarrow> pool_size (advance i p) < pool_size p"
  unfolding pool_size_def map_append sum_list_append
  by (cases "wk_busy p ! i")
    (auto simp: advance_def upd_conv_take_nth_drop sum_list_nth_split [of i "wk_busy p"] split: list.splits)

function run_pool :: "'w listener_env \<Rightarrow> listener_options \<Rightarrow> worker_pool \<Rightarrow> 'w \<Rightarrow> (thrown + unit) \<times> 'w" where
  "run_pool env opts p w =
     (if wk_busy p = [] then (Ret (), w)
      else
        (let i = le_pick env w mod length (wk_busy p) in
         case processEvent env opts (hd (wk_busy p ! i)) w of
           (Throw e, w) \<Rightarrow> (Throw e, w)
         | (Ret _, w) \<Rightarrow> run_pool env opts (advance i p) w))"
  by pat_completeness auto
termination
  by (relation "measure (\<lambda>(env, opts, p, w). pool_size p)") (auto intro!: advance_smaller)

declare run_pool.simps [simp del]

definition processPage :: "'w listener_env \<Rightarrow> listener_options \<Rightarrow> raw_event list \<Rightarrow> 'w \<Rightarrow> (thrown + unit) \<times> 'w" where
  "processPage env opts events w =
     (if lo_concurrency opts \<le> 1 then process_all env opts events w
      else run_pool env opts (start_pool (lo_concurrency opts) (make_lanes (lo_orderingKey opts) events)) w)"

section \<open>The polling loop\<close>

text \<open>The member \<open>running\<close>: set by \<open>run\<close>, cleared by \<open>run\<close> itself or by a \<open>stop\<close> since it began.\<close>

definition is_running :: "'w listener_env \<Rightarrow> nat \<Rightarrow> listener \<Rightarrow> 'w \<Rightarrow> bool" where
  "is_running env n0 st w \<longleftrightarrow> hl_running st \<and> le_stops env w = n0"

text \<open>How an iteration ends: \<open>continue\<close> or the end of the body, \<open>break\<close>, or an exception.\<close>

datatype iteration = Again | Leave | Raise thrown

text \<open>The sleeps of the loop, with their abort signal.\<close>

definition loop_sleep :: "'w listener_env \<Rightarrow> rat \<Rightarrow> 'w \<Rightarrow> iteration \<times> 'w" where
  "loop_sleep env ms w =
     (case le_sleep env ms w of
        (Ret _, w') \<Rightarrow> (Again, w')
      | (Throw e, w') \<Rightarrow> (if le_stops env w' \<noteq> le_stops env w then Leave else Raise e, w'))"

definition instanceof_error :: thrown where
  "instanceof_error = type_error (''Right-hand side of '' @ [CHR 0x27] @ ''instanceof'' @ [CHR 0x27] @ '' is not an object'')"

definition giving_up :: "nat \<Rightarrow> thrown" where
  "giving_up attempt = mk_error (''horizon-listener: giving up after '' @ dec_of_nat attempt @ '' consecutive failed polls'')"

definition exhausted :: "listener_options \<Rightarrow> nat \<Rightarrow> bool" where
  "exhausted opts attempt = (case lo_maxRetries opts of None \<Rightarrow> False | Some m \<Rightarrow> m \<le> of_nat attempt)"

text \<open>A cursor outside the retention window.\<close>

definition poll_gap :: "'w listener_env \<Rightarrow> thrown \<Rightarrow> gap \<Rightarrow> listener \<Rightarrow> 'w \<Rightarrow> iteration \<times> listener \<times> 'w" where
  "poll_gap env err g st w =
     (case (gp_oldestAvailable g, le_resetToLedger env) of
        (Some oldest, Some resetToLedger) \<Rightarrow>
          if le_onGap env = Some ''skipToOldest'' then
            (Again, st\<lparr>hl_cursor := None, hl_attempt := 0\<rparr>, resetToLedger oldest w)
          else (Raise err, st\<lparr>hl_running := False\<rparr>, w)
      | _ \<Rightarrow> (Raise err, st\<lparr>hl_running := False\<rparr>, w))"

definition poll_failed :: "'w listener_env \<Rightarrow> listener_options \<Rightarrow> thrown \<Rightarrow> listener \<Rightarrow> 'w \<Rightarrow> iteration \<times> listener \<times> 'w" where
  "poll_failed env opts err st w =
     (let st = st\<lparr>hl_attempt := Suc (hl_attempt st)\<rparr> in
      case le_gap env of
        None \<Rightarrow> (Raise instanceof_error, st, w)
      | Some as_gap \<Rightarrow>
          (case as_gap err of
             Some g \<Rightarrow> poll_gap env err g st w
           | None \<Rightarrow>
               if exhausted opts (hl_attempt st) then (Raise (giving_up (hl_attempt st)), st\<lparr>hl_running := False\<rparr>, w)
               else (case computeBackoffDelayMs (le_random env) (JInt (int (hl_attempt st) - 1)) (lo_backoff opts) w of
                       (Throw e, w) \<Rightarrow> (Raise e, st, w)
                     | (Ret delayMs, w) \<Rightarrow> (case loop_sleep env delayMs w of (r, w) \<Rightarrow> (r, st, w)))))"

definition ledger_lag :: "event_page \<Rightarrow> int option" where
  "ledger_lag page = map_option (\<lambda>latest. max 0 (latest
     - (if pg_events page \<noteq> [] then ev_ledger (last (pg_events page)) else latest))) (pg_latestLedger page)"

text \<open>After the page: the cursor, the lag, the end of a backfill, and whether to sleep.\<close>

definition after_page :: "'w listener_env \<Rightarrow> listener_options \<Rightarrow> nat \<Rightarrow> event_page \<Rightarrow> listener \<Rightarrow> 'w \<Rightarrow> iteration \<times> listener \<times> 'w" where
  "after_page env opts n0 page st w =
     (let st = st\<lparr>hl_cursor := Some (pg_nextCursor page),
            hl_ledgerLag := (case ledger_lag page of None \<Rightarrow> hl_ledgerLag st | Some l \<Rightarrow> Some l)\<rparr>
      in if hl_backfilling st \<and> pg_events page \<noteq> [] then
           (if is_running env n0 st w then Again else Leave, st, w)
         else
           let st = st\<lparr>hl_backfilling := False\<rparr> in
           if \<not> is_running env n0 st w then (Leave, st, w)
           else if lo_mode opts = Stream \<and> pg_events page \<noteq> [] then (Again, st, w)
           else (case loop_sleep env (lo_pollIntervalMs opts) w of (r, w) \<Rightarrow> (r, st, w)))"

definition poll_once :: "'w listener_env \<Rightarrow> listener_options \<Rightarrow> nat \<Rightarrow> listener \<Rightarrow> 'w \<Rightarrow> iteration \<times> listener \<times> 'w" where
  "poll_once env opts n0 st w =
     (case le_getEvents env (hl_cursor st) w of
        (Throw err, w) \<Rightarrow> poll_failed env opts err st w
      | (Ret page, w) \<Rightarrow>
          (let st = st\<lparr>hl_attempt := 0\<rparr> in
           case processPage env opts (pg_events page) w of
             (Throw e, w) \<Rightarrow> (Raise e, st, w)
           | (Ret _, w) \<Rightarrow> after_page env opts n0 page st w))"

text \<open>The loop may run forever: \<open>None\<close> when \<open>fuel\<close> iterations do not end it.\<close>

fun run_loop :: "nat \<Rightarrow> 'w listener_env \<Rightarrow> listener_options \<Rightarrow> nat \<Rightarrow> listener \<Rightarrow> 'w \<Rightarrow> ((thrown + unit) \<times> listener \<times> 'w) option" where
  "run_loop 0 env opts n0 st w = None"
| "run_loop (Suc fuel) env opts n0 st w =
     (if \<not> is_running env n0 st w then Some (Ret (), st, w)
      else (case poll_once env opts n0 st w of
          (Again, st, w) \<Rightarrow> run_loop fuel env opts n0 st w
        | (Leave, st, w) \<Rightarrow> Some (Ret (), st, w)
        | (Raise e, st, w) \<Rightarrow> Some (Throw e, st, w)))"

definition run :: "nat \<Rightarrow> 'w listener_env \<Rightarrow> listener_options \<Rightarrow> listener \<Rightarrow> 'w \<Rightarrow> ((thrown + unit) \<times> listener \<times> 'w) option" where
  "run fuel env opts st w = run_loop fuel env opts (le_stops env w) (st\<lparr>hl_running := True, hl_attempt := 0\<rparr>) w"

text \<open>\<open>start\<close>; an abort of its signal calls \<open>stop\<close> and is counted there.\<close>

definition start :: "nat \<Rightarrow> 'w listener_env \<Rightarrow> listener_options \<Rightarrow> bool \<Rightarrow> listener \<Rightarrow> 'w \<Rightarrow> ((thrown + unit) \<times> listener \<times> 'w) option" where
  "start fuel env opts aborted st w = (if aborted then Some (Ret (), st, w) else run fuel env opts st w)"

record listener_status =
  st_running :: bool
  st_cursor :: "string option"
  st_consecutiveFailures :: nat
  st_backfilling :: bool

definition getStatus :: "'w listener_env \<Rightarrow> nat \<Rightarrow> listener \<Rightarrow> 'w \<Rightarrow> listener_status" where
  "getStatus env n0 st w = \<lparr>st_running = is_running env n0 st w, st_cursor = hl_cursor st,
     st_consecutiveFailures = hl_attempt st, st_backfilling = hl_backfilling st\<rparr>"

section \<open>Lanes\<close>

definition of_contract :: "string \<Rightarrow> raw_event list \<Rightarrow> raw_event list" where
  "of_contract k es = filter (\<lambda>e. ev_contractId e = k) es"

lemma of_contract_simps [simp]:
  "of_contract k [] = []"
  "of_contract k (e # es) = (if ev_contractId e = k then e # of_contract k es else of_contract k es)"
  "of_contract k (es @ fs) = of_contract k es @ of_contract k fs"
  by (simp_all add: of_contract_def)

text \<open>Lanes that share no contract: at most one of them has events of a given contract.\<close>

definition separate :: "raw_event list list \<Rightarrow> bool" where
  "separate lanes \<longleftrightarrow> (\<forall>k. length (filter (\<lambda>l. of_contract k l \<noteq> []) lanes) \<le> 1)"

text \<open>The events of a contract do not depend on the order of separate lanes.\<close>

lemma concat_nonempty: "concat (filter (\<lambda>l. l \<noteq> []) ls) = concat ls"
  by (induction ls) auto

lemma short_mset_eq: "mset xs = mset ys \<Longrightarrow> length xs \<le> 1 \<Longrightarrow> xs = ys"
  by (cases xs; cases "tl xs") (auto simp: mset_single_iff_right)

lemma of_contract_concat: "of_contract k (concat ls) = concat (filter (\<lambda>l. l \<noteq> []) (map (of_contract k) ls))"
  by (simp add: concat_nonempty) (simp add: of_contract_def [abs_def] filter_concat)

lemma separate_perm:
  assumes "separate ls" and "mset ls = mset ls'"
  shows "of_contract k (concat ls) = of_contract k (concat ls')"
proof -
  have "filter (\<lambda>l. l \<noteq> []) (map (of_contract k) ls) = filter (\<lambda>l. l \<noteq> []) (map (of_contract k) ls')"
  proof (rule short_mset_eq)
    show "mset (filter (\<lambda>l. l \<noteq> []) (map (of_contract k) ls)) = mset (filter (\<lambda>l. l \<noteq> []) (map (of_contract k) ls'))"
      by (simp add: assms(2))
    show "length (filter (\<lambda>l. l \<noteq> []) (map (of_contract k) ls)) \<le> 1"
      using assms(1) by (simp add: separate_def filter_map comp_def)
  qed
  then show ?thesis by (simp add: of_contract_concat)
qed

lemma separate_mset: "mset ls = mset ls' \<Longrightarrow> separate ls \<longleftrightarrow> separate ls'"
  unfolding separate_def by (metis mset_filter size_mset)

text \<open>Taking the first event of a lane.\<close>

lemma take_event:
  assumes "mset ls = add_mset (e # es) r" and "mset ls' = r + (if es = [] then {#} else {#es#})"
  shows "mset (concat ls) = add_mset e (mset (concat ls'))"
    and "separate ls \<Longrightarrow> separate ls'"
    and "separate ls \<Longrightarrow> of_contract k (concat ls) = of_contract k (e # concat ls')"
proof -
  obtain rs where rs: "mset rs = r" by (metis ex_mset)
  let ?ls = "(e # es) # rs" and ?ls' = "(if es = [] then [] else [es]) @ rs"
  have m: "mset ls = mset ?ls" "mset ls' = mset ?ls'" by (simp_all add: assms rs)
  have "mset (concat xs) = mset (concat ys)" if "mset xs = mset ys" for xs ys :: "raw_event list list"
    using that by (metis mset_concat mset_map sum_mset_sum_list)
  from this [OF m(1)] this [OF m(2)] show "mset (concat ls) = add_mset e (mset (concat ls'))" by simp
  have less: "length (filter (\<lambda>l. of_contract k l \<noteq> []) ?ls') \<le> length (filter (\<lambda>l. of_contract k l \<noteq> []) ?ls)" for k
    by simp
  show sep: "separate ls'" if "separate ls"
  proof -
    have "separate ?ls" using that separate_mset [OF m(1)] by blast
    then have "separate ?ls'" unfolding separate_def using less by (meson order_trans)
    then show ?thesis using separate_mset [OF m(2)] by blast
  qed
  show "of_contract k (concat ls) = of_contract k (e # concat ls')" if "separate ls"
    using separate_perm [OF that m(1), of k] separate_perm [OF sep [OF that] m(2), of k] by simp
qed

text \<open>Whichever worker finishes, the pool has that event less.\<close>

definition pool_lanes :: "worker_pool \<Rightarrow> raw_event list list" where
  "pool_lanes p = wk_busy p @ wk_queue p"

definition pool_ok :: "worker_pool \<Rightarrow> bool" where
  "pool_ok p \<longleftrightarrow> list_all (\<lambda>l. l \<noteq> []) (pool_lanes p) \<and> (wk_busy p = [] \<longrightarrow> wk_queue p = [])"

lemma mset_at: "i < length xs \<Longrightarrow> mset xs = add_mset (xs ! i) (mset (take i xs @ drop (Suc i) xs))"
  by (metis id_take_nth_drop mset.simps(2) mset_append union_mset_add_mset_right)

lemma mset_update_at: "i < length xs \<Longrightarrow> mset (xs[i := x]) = add_mset x (mset (take i xs @ drop (Suc i) xs))"
  by (simp add: upd_conv_take_nth_drop)

lemma advance_pool:
  assumes "pool_ok p" and "i < length (wk_busy p)"
  obtains e es r where "wk_busy p ! i = e # es" "mset (pool_lanes p) = add_mset (e # es) r"
    "mset (pool_lanes (advance i p)) = r + (if es = [] then {#} else {#es#})" "pool_ok (advance i p)"
    "length (wk_busy (advance i p)) \<le> length (wk_busy p)"
proof -
  have "wk_busy p ! i \<noteq> []" using assms by (auto simp: pool_ok_def pool_lanes_def list_all_iff)
  then obtain e es where lane: "wk_busy p ! i = e # es" by (cases "wk_busy p ! i") auto
  let ?r = "mset (take i (wk_busy p) @ drop (Suc i) (wk_busy p)) + mset (wk_queue p)"
  have before: "mset (pool_lanes p) = add_mset (e # es) ?r"
    using mset_at [OF assms(2)] by (simp add: pool_lanes_def lane)
  have after: "mset (pool_lanes (advance i p)) = ?r + (if es = [] then {#} else {#es#})"
    using mset_update_at [OF assms(2)] by (cases es; cases "wk_queue p") (simp_all add: advance_def pool_lanes_def lane)
  have ok: "list_all (\<lambda>l. l \<noteq> []) (pool_lanes (advance i p))"
  proof -
    have "\<forall>l \<in># mset (pool_lanes p). l \<noteq> []" using assms(1) by (simp add: pool_ok_def list_all_iff)
    then have "\<forall>l \<in># ?r. l \<noteq> []" unfolding before by simp
    then have "\<forall>l \<in># mset (pool_lanes (advance i p)). l \<noteq> []" unfolding after by (auto split: if_splits)
    then show ?thesis by (simp add: list_all_iff)
  qed
  moreover have "wk_busy (advance i p) = [] \<longrightarrow> wk_queue (advance i p) = []"
    using assms(2) by (auto simp: advance_def lane split: list.splits)
  moreover have "length (wk_busy (advance i p)) \<le> length (wk_busy p)"
    using assms(2) by (simp add: advance_def split: list.split)
  ultimately show thesis using that [OF lane before after] by (simp add: pool_ok_def)
qed

text \<open>
  Running the workers is processing the events one after the other, in some order that keeps the events of a
  contract in theirs.
\<close>

lemma run_pool_serial:
  assumes "pool_ok p"
  shows "\<exists>order. run_pool env opts p w = process_all env opts order w \<and> mset order = mset (concat (pool_lanes p))
    \<and> (separate (pool_lanes p) \<longrightarrow> (\<forall>k. of_contract k order = of_contract k (concat (pool_lanes p))))"
  using assms
proof (induction env opts p w rule: run_pool.induct)
  case (1 env opts p w)
  show ?case
  proof (cases "wk_busy p = []")
    case True
    then show ?thesis using 1(2) by (intro exI [of _ "[]"]) (simp add: run_pool.simps pool_ok_def pool_lanes_def)
  next
    case False
    let ?i = "le_pick env w mod length (wk_busy p)"
    have i: "?i < length (wk_busy p)" using False by simp
    from advance_pool [OF 1(2) i] obtain e es r where
      step: "wk_busy p ! ?i = e # es" "mset (pool_lanes p) = add_mset (e # es) r"
        "mset (pool_lanes (advance ?i p)) = r + (if es = [] then {#} else {#es#})" "pool_ok (advance ?i p)" by blast
    note take = take_event [OF step(2,3)]
    obtain x w1 where x: "processEvent env opts e w = (x, w1)" by fastforce
    have "\<exists>order. (case x of Throw err \<Rightarrow> (Throw err, w1) | Ret _ \<Rightarrow> run_pool env opts (advance ?i p) w1) =
          (case x of Throw err \<Rightarrow> (Throw err, w1) | Ret _ \<Rightarrow> process_all env opts order w1)
        \<and> mset order = mset (concat (pool_lanes (advance ?i p)))
        \<and> (separate (pool_lanes (advance ?i p)) \<longrightarrow> (\<forall>k. of_contract k order = of_contract k (concat (pool_lanes (advance ?i p)))))"
      using 1(1) [OF False refl, of x w1] step(4) x by (cases x) (auto simp: step(1))
    then obtain order where order: "(case x of Throw err \<Rightarrow> (Throw err, w1) | Ret _ \<Rightarrow> run_pool env opts (advance ?i p) w1) =
          (case x of Throw err \<Rightarrow> (Throw err, w1) | Ret _ \<Rightarrow> process_all env opts order w1)"
        "mset order = mset (concat (pool_lanes (advance ?i p)))"
        "separate (pool_lanes (advance ?i p)) \<longrightarrow> (\<forall>k. of_contract k order = of_contract k (concat (pool_lanes (advance ?i p))))"
      by blast
    have "run_pool env opts p w = process_all env opts (e # order) w"
      using False order(1) by (subst run_pool.simps) (simp add: Let_def step(1) x)
    then show ?thesis
      using take order(2,3) by (intro exI [of _ "e # order"]) auto
  qed
qed

text \<open>The lanes of a page hold its events, and those by contract are separate.\<close>

definition lanes_ok :: "(string \<times> raw_event list) list \<Rightarrow> bool" where
  "lanes_ok lanes \<longleftrightarrow> map_wf lanes \<and> (\<forall>(k, lane) \<in> set lanes. lane \<noteq> [] \<and> (\<forall>e \<in> set lane. ev_contractId e = k))"

lemma pairs_induct [case_names Nil Cons]:
  "P [] \<Longrightarrow> (\<And>k v xs. P xs \<Longrightarrow> P ((k, v) # xs)) \<Longrightarrow> P xs"
  by (induction xs) auto

lemma lanes_ok_simps [simp]:
  "lanes_ok []"
  "lanes_ok ((k, lane) # lanes) \<longleftrightarrow>
     lane \<noteq> [] \<and> (\<forall>e \<in> set lane. ev_contractId e = k) \<and> k \<notin> fst ` set lanes \<and> lanes_ok lanes"
  by (auto simp: lanes_ok_def map_wf_def)

lemma add_to_lane_simps [simp]:
  "add_to_lane [] e = [(ev_contractId e, [e])]"
  "add_to_lane ((k, lane) # lanes) e =
     (if ev_contractId e = k then (k, lane @ [e]) # lanes else (k, lane) # add_to_lane lanes e)"
  by (auto simp: add_to_lane_def split: option.split)

lemma add_to_lane_set: "fst ` set (add_to_lane lanes e) = insert (ev_contractId e) (fst ` set lanes)"
  by (induction lanes rule: pairs_induct) auto

lemma add_to_lane_ok: "lanes_ok lanes \<Longrightarrow> lanes_ok (add_to_lane lanes e)"
  by (induction lanes rule: pairs_induct) (auto simp: add_to_lane_set)

lemma other_lanes: "lanes_ok lanes \<Longrightarrow> k \<notin> fst ` set lanes \<Longrightarrow> l \<in> snd ` set lanes \<Longrightarrow> of_contract k l = []"
  by (force simp: lanes_ok_def of_contract_def filter_empty_conv)

lemma other_concat: "lanes_ok lanes \<Longrightarrow> k \<notin> fst ` set lanes \<Longrightarrow> of_contract k (concat (map snd lanes)) = []"
  using other_lanes [of lanes k] by (auto simp: of_contract_concat filter_empty_conv)

lemma add_to_lane_events:
  "lanes_ok lanes \<Longrightarrow> mset (concat (map snd (add_to_lane lanes e))) = add_mset e (mset (concat (map snd lanes)))
    \<and> of_contract k (concat (map snd (add_to_lane lanes e))) = of_contract k (concat (map snd lanes) @ [e])"
  by (induction lanes rule: pairs_induct) (auto simp: other_concat)

lemma lanes_of_page:
  "lanes_ok (foldl add_to_lane [] events)
    \<and> mset (concat (map snd (foldl add_to_lane [] events))) = mset events
    \<and> of_contract k (concat (map snd (foldl add_to_lane [] events))) = of_contract k events"
proof (induction events rule: rev_induct)
  case (snoc e events)
  then show ?case
    using add_to_lane_ok add_to_lane_events [of "foldl add_to_lane [] events" e k] by auto
qed simp

lemma lanes_separate: "lanes_ok lanes \<Longrightarrow> separate (map snd lanes)"
proof (induction lanes rule: pairs_induct)
  case (Cons k lane lanes)
  show ?case unfolding separate_def
  proof
    fix k'
    show "length (filter (\<lambda>l. of_contract k' l \<noteq> []) (map snd ((k, lane) # lanes))) \<le> 1"
    proof (cases "k' = k")
      case True
      with Cons(2) other_lanes [of lanes k] have "filter (\<lambda>l. of_contract k' l \<noteq> []) (map snd lanes) = []"
        by (auto simp: filter_empty_conv)
      then show ?thesis by simp
    next
      case False
      with Cons(2) have "of_contract k' lane = []" by (auto simp: of_contract_def filter_empty_conv)
      with Cons show ?thesis by (simp add: separate_def)
    qed
  qed
qed (simp add: separate_def)

lemma make_lanes_ok:
  "list_all (\<lambda>l. l \<noteq> []) (make_lanes key events) \<and> mset (concat (make_lanes key events)) = mset events
    \<and> (key = ByContract \<longrightarrow> separate (make_lanes key events) \<and> of_contract k (concat (make_lanes key events)) = of_contract k events)"
  using lanes_of_page [of events k] lanes_separate [of "foldl add_to_lane [] events"]
  by (cases key) (auto simp: make_lanes_def lanes_ok_def list_all_iff case_prod_beta)

lemma start_pool_ok:
  "0 < concurrency \<Longrightarrow> list_all (\<lambda>l. l \<noteq> []) lanes \<Longrightarrow> pool_ok (start_pool concurrency lanes) \<and> pool_lanes (start_pool concurrency lanes) = lanes"
  by (auto simp: pool_ok_def pool_lanes_def start_pool_def Let_def)

lemma page_serial:
  "\<exists>order. processPage env opts events w = process_all env opts order w \<and> mset order = mset events
    \<and> (lo_orderingKey opts = ByContract \<longrightarrow> (\<forall>k. of_contract k order = of_contract k events))"
proof (cases "lo_concurrency opts \<le> 1")
  case True
  then show ?thesis by (intro exI [of _ events]) (simp add: processPage_def)
next
  case False
  let ?lanes = "make_lanes (lo_orderingKey opts) events"
  let ?p = "start_pool (lo_concurrency opts) ?lanes"
  have p: "pool_ok ?p" "pool_lanes ?p = ?lanes"
    using start_pool_ok [of "lo_concurrency opts" ?lanes] make_lanes_ok [of "lo_orderingKey opts" events] False by auto
  from run_pool_serial [OF p(1), of env opts w] obtain order where
    order: "run_pool env opts ?p w = process_all env opts order w" "mset order = mset (concat ?lanes)"
      "separate ?lanes \<longrightarrow> (\<forall>k. of_contract k order = of_contract k (concat ?lanes))"
    unfolding p(2) by blast
  then show ?thesis
    using make_lanes_ok [of "lo_orderingKey opts" events] False
    by (intro exI [of _ order]) (auto simp: processPage_def)
qed


section \<open>Delivery\<close>

text \<open>
  \<open>handled w\<close> are the events given to \<open>onEvent\<close> so far: only \<open>onEvent\<close> adds to them, and it always does,
  whether it fails or not.
\<close>

definition records :: "'w listener_env \<Rightarrow> ('w \<Rightarrow> raw_event list) \<Rightarrow> bool" where
  "records env handled \<longleftrightarrow>
     (\<forall>e w. handled (snd (le_onEvent env e w)) = handled w @ [e])
     \<and> (\<forall>c w. handled (snd (le_getEvents env c w)) = handled w)
     \<and> (\<forall>ms w. handled (snd (le_sleep env ms w)) = handled w)
     \<and> (\<forall>w. handled (snd (le_random env w)) = handled w)
     \<and> (\<forall>f e x w. le_onEventFailure env = Some f \<longrightarrow> handled (snd (f e x w)) = handled w)"

text \<open>
  A source of the stream \<open>all\<close>: a cursor stands for a position in it, and a page has the events that follow
  and the cursor behind them. It may fail at any time.
\<close>

definition streams :: "'w listener_env \<Rightarrow> (string option \<Rightarrow> nat) \<Rightarrow> raw_event list \<Rightarrow> bool" where
  "streams env pos all \<longleftrightarrow>
     (\<forall>c w page w'. pos c \<le> length all \<longrightarrow> le_getEvents env c w = (Ret page, w') \<longrightarrow>
        pg_events page = take (length (pg_events page)) (drop (pos c) all)
        \<and> pos (Some (pg_nextCursor page)) = pos c + length (pg_events page))"

lemma processEvent_records:
  assumes "records env handled" and "lo_eventRetry opts = None"
  shows "\<exists>w'. processEvent env opts e w = (Ret (), w') \<and> handled w' = handled w @ [e]"
proof -
  obtain r w1 where r: "le_onEvent env e w = (r, w1)" by fastforce
  have "handled w1 = handled w @ [e]" using assms(1) r unfolding records_def by (metis snd_conv)
  then show ?thesis
    using assms by (cases r) (auto simp: processEvent_def event_loop.simps [of _ _ _ 1] r max_event_attempts_def records_def split: option.split)
qed

lemma process_all_records:
  assumes "records env handled" and "lo_eventRetry opts = None"
  shows "\<exists>w'. process_all env opts es w = (Ret (), w') \<and> handled w' = handled w @ es"
proof (induction es arbitrary: w)
  case (Cons e es)
  obtain w1 where w1: "processEvent env opts e w = (Ret (), w1)" "handled w1 = handled w @ [e]"
    using processEvent_records [OF assms] by blast
  with Cons.IH [of w1] show ?case by auto
qed simp

text \<open>The events of a stretch of the stream, in an order that a listener with these options may handle them in.\<close>

definition handles :: "listener_options \<Rightarrow> raw_event list \<Rightarrow> raw_event list \<Rightarrow> bool" where
  "handles opts order es \<longleftrightarrow> mset order = mset es
     \<and> (lo_orderingKey opts = ByContract \<longrightarrow> (\<forall>k. of_contract k order = of_contract k es))"

lemma handles_append: "handles opts o1 es1 \<Longrightarrow> handles opts o2 es2 \<Longrightarrow> handles opts (o1 @ o2) (es1 @ es2)"
  by (simp add: handles_def)

lemma handles_Nil: "handles opts [] []"
  by (simp add: handles_def)

lemma processPage_records:
  assumes "records env handled" and "lo_eventRetry opts = None"
  shows "\<exists>order w'. processPage env opts es w = (Ret (), w') \<and> handled w' = handled w @ order \<and> handles opts order es"
  using page_serial [of env opts es w] process_all_records [OF assms] unfolding handles_def by metis

lemma loop_sleep_records: "records env handled \<Longrightarrow> handled (snd (loop_sleep env ms w)) = handled w"
  using surjective_pairing [of "le_sleep env ms w"]
  by (auto simp: records_def loop_sleep_def case_prod_beta split: sum.split)

lemma computeBackoff_records:
  assumes "records env handled"
  shows "handled (snd (computeBackoffDelayMs (le_random env) a b w)) = handled w"
  using assms
  by (cases a) (auto simp: computeBackoffDelayMs.simps Let_def case_prod_beta records_def)

lemma poll_failed_records:
  assumes "records env handled" and "le_onGap env = None" and "poll_failed env opts err st w = (it, st', w')"
  shows "hl_cursor st' = hl_cursor st \<and> handled w' = handled w"
  using assms(2,3) computeBackoff_records [OF assms(1)] loop_sleep_records [OF assms(1)]
  by (auto simp: poll_failed_def poll_gap_def Let_def split: option.splits if_splits prod.splits sum.splits) (metis snd_conv)+

lemma after_page_records:
  assumes "records env handled" and "after_page env opts n0 page st w = (it, st', w')"
  shows "hl_cursor st' = Some (pg_nextCursor page) \<and> handled w' = handled w"
  using assms(2) loop_sleep_records [OF assms(1)]
  by (auto simp: after_page_def Let_def split: if_splits prod.splits) (metis snd_conv)+

lemma poll_once_delivers:
  assumes "records env handled" and "lo_eventRetry opts = None" and "le_onGap env = None" and "streams env pos all"
    and "pos (hl_cursor st) \<le> length all" and "poll_once env opts n0 st w = (it, st', w')"
  shows "\<exists>n order. pos (hl_cursor st') = pos (hl_cursor st) + n \<and> pos (hl_cursor st') \<le> length all
    \<and> handled w' = handled w @ order \<and> handles opts order (take n (drop (pos (hl_cursor st)) all))"
proof -
  obtain r w1 where r: "le_getEvents env (hl_cursor st) w = (r, w1)" by fastforce
  have w1: "handled w1 = handled w" using assms(1) r unfolding records_def by (metis snd_conv)
  show ?thesis
  proof (cases r)
    case (Inl err)
    then have "poll_failed env opts err st w1 = (it, st', w')" using assms(6) by (simp add: poll_once_def r)
    from poll_failed_records [OF assms(1,3) this] w1 assms(5) handles_Nil show ?thesis
      by (intro exI [of _ 0] exI [of _ "[]"]) simp
  next
    case (Inr page)
    let ?es = "pg_events page"
    have page: "?es = take (length ?es) (drop (pos (hl_cursor st)) all)" "pos (Some (pg_nextCursor page)) = pos (hl_cursor st) + length ?es"
      using assms(4,5) r Inr unfolding streams_def by blast+
    have "length ?es \<le> length all - pos (hl_cursor st)"
      by (subst page(1)) simp
    with assms(5) have bound: "pos (hl_cursor st) + length ?es \<le> length all" by simp
    obtain order w2 where proc: "processPage env opts ?es w1 = (Ret (), w2)" "handled w2 = handled w1 @ order" "handles opts order ?es"
      using processPage_records [OF assms(1,2)] by blast
    then have "after_page env opts n0 page (st\<lparr>hl_attempt := 0\<rparr>) w2 = (it, st', w')"
      using assms(6) by (simp add: poll_once_def r Inr)
    from after_page_records [OF assms(1) this] page bound proc(2,3) w1 show ?thesis
      by (intro exI [of _ "length ?es"] exI [of _ order]) simp
  qed
qed

lemma run_loop_delivers:
  assumes "records env handled" and "lo_eventRetry opts = None" and "le_onGap env = None" and "streams env pos all"
  shows "\<lbrakk>pos (hl_cursor st) \<le> length all; run_loop fuel env opts n0 st w = Some (r, st', w')\<rbrakk> \<Longrightarrow>
    \<exists>n order. pos (hl_cursor st') = pos (hl_cursor st) + n
      \<and> handled w' = handled w @ order \<and> handles opts order (take n (drop (pos (hl_cursor st)) all))"
proof (induction fuel arbitrary: st w)
  case (Suc fuel)
  show ?case
  proof (cases "is_running env n0 st w")
    case False
    with Suc.prems(2) handles_Nil show ?thesis by (intro exI [of _ 0] exI [of _ "[]"]) simp
  next
    case True
    obtain it st1 w1 where once: "poll_once env opts n0 st w = (it, st1, w1)" by (metis prod_cases3)
    from poll_once_delivers [OF assms Suc.prems(1) once] obtain n order where
      step: "pos (hl_cursor st1) = pos (hl_cursor st) + n" "pos (hl_cursor st1) \<le> length all" "handled w1 = handled w @ order"
        "handles opts order (take n (drop (pos (hl_cursor st)) all))" by blast
    show ?thesis
    proof (cases it)
      case Again
      with Suc.prems(2) True once have "run_loop fuel env opts n0 st1 w1 = Some (r, st', w')" by simp
      from Suc.IH [OF step(2) this] obtain m order' where
        rest: "pos (hl_cursor st') = pos (hl_cursor st1) + m" "handled w' = handled w1 @ order'"
          "handles opts order' (take m (drop (pos (hl_cursor st1)) all))" by blast
      have "take n (drop (pos (hl_cursor st)) all) @ take m (drop (pos (hl_cursor st1)) all) = take (n + m) (drop (pos (hl_cursor st)) all)"
        by (simp only: take_add step(1) drop_drop add.commute [of n "pos (hl_cursor st)"])
      with handles_append [OF step(4) rest(3)] step(1,3) rest(1,2) show ?thesis
        by (intro exI [of _ "n + m"] exI [of _ "order @ order'"]) simp
    next
      case Leave
      with Suc.prems(2) True once step show ?thesis by (intro exI [of _ n] exI [of _ order]) simp
    next
      case (Raise e)
      with Suc.prems(2) True once step show ?thesis by (intro exI [of _ n] exI [of _ order]) simp
    qed
  qed
qed simp


text \<open>
  A source of three events in pages of two, which fails at the fourth poll; the world is the polls so far, the
  events handled and the calls of \<open>stop\<close>. Sleeping after the second poll is interrupted by \<open>stop\<close>.
\<close>

record example_world =
  ew_polls :: nat
  ew_handled :: "raw_event list"
  ew_stops :: nat

definition sample_event :: "string \<Rightarrow> string \<Rightarrow> raw_event" where
  "sample_event i c = \<lparr>ev_id = i, ev_contractId = c, ev_ledger = 1, ev_topic = [], ev_value = JNull\<rparr>"

definition sample_stream :: "raw_event list" where
  "sample_stream = [sample_event ''a'' ''C'', sample_event ''b'' ''D'', sample_event ''c'' ''C'']"

definition sample_pos :: "string option \<Rightarrow> nat" where
  "sample_pos c = length (or_default c [])"

definition sample_env :: "example_world listener_env" where
  "sample_env = \<lparr>le_getEvents = (\<lambda>c w.
       (let page = take 2 (drop (sample_pos c) sample_stream) in
        Ret \<lparr>pg_events = page, pg_nextCursor = replicate (sample_pos c + length page) (CHR ''.''), pg_latestLedger = None\<rparr>,
        w\<lparr>ew_polls := Suc (ew_polls w)\<rparr>)),
     le_resetToLedger = None, le_onEvent = (\<lambda>e w. (Throw (mk_error ''handler''), w\<lparr>ew_handled := ew_handled w @ [e]\<rparr>)),
     le_onEventFailure = None,
     le_sleep = (\<lambda>ms w. if ew_polls w = 2 then (Throw (mk_error ''aborted''), w\<lparr>ew_stops := 1\<rparr>) else (Ret (), w)),
     le_random = (\<lambda>w. (0, w)), le_stops = ew_stops, le_pick = (\<lambda>w. 1), le_gap = None, le_onGap = None\<rparr>"

definition sample_options :: listener_options where
  "sample_options = \<lparr>lo_pollIntervalMs = 5000, lo_maxRetries = Some 10, lo_backoff = default_backoff, lo_mode = Poll,
     lo_eventRetry = None, lo_concurrency = 2, lo_orderingKey = ByContract\<rparr>"

definition sample_listener :: listener where
  "sample_listener = \<lparr>hl_cursor = None, hl_running = False, hl_attempt = 0, hl_backfilling = False, hl_ledgerLag = None\<rparr>"

definition sample_world :: example_world where
  "sample_world = \<lparr>ew_polls = 0, ew_handled = [], ew_stops = 0\<rparr>"

lemma sample_records: "records sample_env ew_handled"
  by (simp add: records_def sample_env_def)

lemma sample_streams: "streams sample_env sample_pos sample_stream"
  by (auto simp: streams_def sample_env_def Let_def sample_pos_def min_def)

lemmas sample_defs = sample_env_def sample_options_def sample_listener_def sample_world_def sample_pos_def sample_stream_def
  sample_event_def

lemma sample_run:
  "\<exists>st' w'. run 5 sample_env sample_options sample_listener sample_world = Some (Ret (), st', w') \<and> hl_cursor st' = Some ''...''"
  by (simp add: run_def numeral_eq_Suc is_running_def poll_once_def processPage_def make_lanes_def start_pool_def run_pool.simps
    advance_def processEvent_def event_loop.simps max_event_attempts_def after_page_def loop_sleep_def ledger_lag_def sample_defs Let_def)



section \<open>Failing polls\<close>

text \<open>
  The first failed poll ends the listener, whatever the retry budget and the backoff say: the class the
  error is tested against is undefined, the test throws a TypeError out of \<open>run\<close>, and \<open>getStatus\<close> goes on
  reporting a running listener.
\<close>

theorem first_failure_fatal:
  assumes "le_gap env = None" and "le_getEvents env (hl_cursor st) w = (Throw e, w1)" and "le_stops env w1 = le_stops env w"
  shows "\<exists>st'. run (Suc fuel) env opts st w = Some (Throw instanceof_error, st', w1)
    \<and> hl_cursor st' = hl_cursor st \<and> st_running (getStatus env (le_stops env w) st' w1)"
  using assms by (simp add: run_def is_running_def poll_once_def poll_failed_def getStatus_def)

text \<open>A node that is down; the world counts the polls. \<open>gap_class\<close> is the class of the errors for pruned history.\<close>

definition down_env :: "(thrown \<Rightarrow> gap option) option \<Rightarrow> nat listener_env" where
  "down_env gap_class = \<lparr>le_getEvents = (\<lambda>c w. (Throw (mk_error ''ECONNREFUSED''), Suc w)),
     le_resetToLedger = None, le_onEvent = (\<lambda>e w. (Ret (), w)), le_onEventFailure = None, le_sleep = (\<lambda>ms w. (Ret (), w)),
     le_random = (\<lambda>w. (0, w)), le_stops = (\<lambda>w. 0), le_pick = (\<lambda>w. 0), le_gap = gap_class, le_onGap = None\<rparr>"

theorem first_failure_fatal_witness:
  "\<exists>st'. run 1 (down_env None) sample_options sample_listener 0 = Some (Throw instanceof_error, st', 1)
    \<and> hl_cursor st' = None \<and> st_running (getStatus (down_env None) 0 st' 1)"
  using first_failure_fatal [of "down_env None" sample_listener 0 "mk_error ''ECONNREFUSED''" 1 0 sample_options]
  by (simp add: down_env_def sample_listener_def)

lemma computeBackoff_returns: "0 \<le> a \<Longrightarrow> \<exists>d. computeBackoffDelayMs (\<lambda>w. (0, w)) (JInt a) opts w = (Ret d, w)"
  by (simp add: computeBackoffDelayMs.simps Let_def)

lemma poll_down:
  "poll_once (down_env (Some (\<lambda>_. None))) opts 0 st w =
     (if exhausted opts (Suc (hl_attempt st)) then
        (Raise (giving_up (Suc (hl_attempt st))), st\<lparr>hl_attempt := Suc (hl_attempt st), hl_running := False\<rparr>, Suc w)
      else (Again, st\<lparr>hl_attempt := Suc (hl_attempt st)\<rparr>, Suc w))"
  using computeBackoff_returns [of "int (hl_attempt st)" "lo_backoff opts" "Suc w"]
  by (auto simp: poll_once_def poll_failed_def down_env_def loop_sleep_def Let_def)

lemma run_down:
  assumes "lo_maxRetries opts = Some (of_nat n)"
  shows "\<lbrakk>hl_running st; hl_attempt st < max 1 n; max 1 n \<le> hl_attempt st + fuel\<rbrakk> \<Longrightarrow>
    \<exists>st'. run_loop fuel (down_env (Some (\<lambda>_. None))) opts 0 st w =
        Some (Throw (giving_up (max 1 n)), st', w + (max 1 n - hl_attempt st)) \<and> \<not> hl_running st'"
proof (induction fuel arbitrary: st w)
  case (Suc fuel)
  have running: "is_running (down_env (Some (\<lambda>_. None))) 0 st w" using Suc.prems(1) by (simp add: is_running_def down_env_def)
  show ?case
  proof (cases "Suc (hl_attempt st) = max 1 n")
    case True
    then have "exhausted opts (Suc (hl_attempt st))" using assms by (simp add: exhausted_def max_def split: if_splits)
    with True running show ?thesis by (auto simp: poll_down)
  next
    case False
    then have more: "Suc (hl_attempt st) < max 1 n" using Suc.prems(2) by linarith
    then have "\<not> exhausted opts (Suc (hl_attempt st))" using assms by (simp add: exhausted_def flip: of_nat_Suc)
    with running Suc.IH [of "st\<lparr>hl_attempt := Suc (hl_attempt st)\<rparr>" "Suc w"] Suc.prems more show ?thesis
      by (simp add: poll_down Suc_diff_Suc)
  qed
qed linarith

text \<open>
  C26. With the class in place the listener keeps its promise: a node that stays down is polled exactly
  \<open>maxRetries\<close> times, at least once, and then \<open>run\<close> rejects with the number of attempts and the listener is
  no longer running.
\<close>

theorem listener_gives_up:
  assumes "lo_maxRetries opts = Some (of_nat n)"
  shows "\<exists>st'. run (max 1 n) (down_env (Some (\<lambda>_. None))) opts st w = Some (Throw (giving_up (max 1 n)), st', w + max 1 n)
    \<and> \<not> hl_running st'"
  using run_down [OF assms, of "st\<lparr>hl_running := True, hl_attempt := 0\<rparr>" "max 1 n" w]
  by (simp add: run_def down_env_def)

theorem listener_gives_up_witness:
  "\<exists>st'. run 10 (down_env (Some (\<lambda>_. None))) sample_options sample_listener 0 = Some (Throw (giving_up 10), st', 10)
    \<and> \<not> hl_running st'"
  using listener_gives_up [of sample_options 10 sample_listener 0] by (simp add: sample_options_def)

section \<open>Failing handlers\<close>

record handler_world =
  hw_calls :: nat
  hw_failures :: "(raw_event \<times> thrown) list"

text \<open>A handler whose k-th call settles as \<open>answers k\<close>, with a failure hook that records and then throws.\<close>

definition handler_env :: "(nat \<Rightarrow> thrown + unit) \<Rightarrow> handler_world listener_env" where
  "handler_env answers = \<lparr>le_getEvents = (\<lambda>c w. (Throw (mk_error ''none''), w)), le_resetToLedger = None,
     le_onEvent = (\<lambda>e w. (answers (hw_calls w), w\<lparr>hw_calls := Suc (hw_calls w)\<rparr>)),
     le_onEventFailure = Some (\<lambda>e x w. (Throw (mk_error ''hook''), w\<lparr>hw_failures := hw_failures w @ [(e, x)]\<rparr>)),
     le_sleep = (\<lambda>ms w. (Ret (), w)), le_random = (\<lambda>w. (0, w)), le_stops = (\<lambda>w. 0), le_pick = (\<lambda>w. 0), le_gap = None, le_onGap = None\<rparr>"

lemma event_loop_handler:
  assumes "int (Suc (hw_calls w)) \<le> max_event_attempts opts"
  shows "\<exists>m. hw_calls w \<le> m \<and> int (Suc m) \<le> max_event_attempts opts \<and> (\<forall>k. hw_calls w \<le> k \<longrightarrow> k < m \<longrightarrow> answers k \<noteq> Ret ())
    \<and> (case answers m of Ret _ \<Rightarrow> True | Throw _ \<Rightarrow> int (Suc m) = max_event_attempts opts)
    \<and> event_loop (handler_env answers) opts e (int (Suc (hw_calls w))) w =
        (Ret (case answers m of Ret _ \<Rightarrow> None | Throw x \<Rightarrow> Some x), w\<lparr>hw_calls := Suc m\<rparr>)"
  using assms
proof (induction "nat (max_event_attempts opts) - hw_calls w" arbitrary: w rule: less_induct)
  case less
  let ?k = "hw_calls w"
  show ?case
  proof (cases "answers ?k")
    case (Inr u)
    then have "event_loop (handler_env answers) opts e (int (Suc ?k)) w = (Ret None, w\<lparr>hw_calls := Suc ?k\<rparr>)"
      by (subst event_loop.simps) (simp add: handler_env_def)
    then show ?thesis using less.prems Inr by (intro exI [of _ ?k]) simp
  next
    case (Inl x)
    show ?thesis
    proof (cases "int (Suc ?k) = max_event_attempts opts")
      case True
      then have "event_loop (handler_env answers) opts e (int (Suc ?k)) w = (Ret (Some x), w\<lparr>hw_calls := Suc ?k\<rparr>)"
        using Inl by (subst event_loop.simps) (simp add: handler_env_def)
      then show ?thesis using Inl True by (intro exI [of _ ?k]) simp
    next
      case False
      let ?w = "w\<lparr>hw_calls := Suc ?k\<rparr>"
      obtain d where d: "computeBackoffDelayMs (\<lambda>w. (0, w)) (JInt (int (Suc ?k))) (retry_options_of opts) ?w = (Ret d, ?w)"
        using computeBackoff_returns [of "int (Suc ?k)" "retry_options_of opts" ?w] by auto
      have step: "event_loop (handler_env answers) opts e (int (Suc ?k)) w = event_loop (handler_env answers) opts e (int (Suc ?k) + 1) ?w"
        using False less.prems Inl d by (subst event_loop.simps) (simp add: handler_env_def)
      have "nat (max_event_attempts opts) - hw_calls ?w < nat (max_event_attempts opts) - hw_calls w"
        and "int (Suc (hw_calls ?w)) \<le> max_event_attempts opts"
        using False less.prems by auto
      from less.hyps [OF this] obtain m where m: "hw_calls ?w \<le> m" "int (Suc m) \<le> max_event_attempts opts"
          "\<forall>k. hw_calls ?w \<le> k \<longrightarrow> k < m \<longrightarrow> answers k \<noteq> Ret ()"
          "case answers m of Ret _ \<Rightarrow> True | Throw _ \<Rightarrow> int (Suc m) = max_event_attempts opts"
          "event_loop (handler_env answers) opts e (int (Suc (hw_calls ?w))) ?w =
            (Ret (case answers m of Ret _ \<Rightarrow> None | Throw x \<Rightarrow> Some x), ?w\<lparr>hw_calls := Suc m\<rparr>)" by blast
      have "answers k \<noteq> Ret ()" if "?k \<le> k" and "k < m" for k
        using m(3) that Inl by (cases "k = ?k") auto
      with m(1,2,4,5) step show ?thesis
        by (intro exI [of _ m]) (simp add: add.commute)
    qed
  qed
qed

text \<open>
  A failing handler never stops the listener. With retries an event is given to the handler until it
  succeeds, at most as often as configured; the failure hook gets the event and the last error once, exactly
  when every attempt failed; and the processing resolves even if the hook throws too.
\<close>

theorem event_retries:
  "\<exists>m. int (Suc m) \<le> max_event_attempts opts \<and> (\<forall>k < m. answers k \<noteq> Ret ())
    \<and> processEvent (handler_env answers) opts e \<lparr>hw_calls = 0, hw_failures = []\<rparr> =
        (Ret (), \<lparr>hw_calls = Suc m, hw_failures = (case answers m of Ret _ \<Rightarrow> [] | Throw x \<Rightarrow> [(e, x)])\<rparr>)
    \<and> (case answers m of Ret _ \<Rightarrow> True | Throw _ \<Rightarrow> int (Suc m) = max_event_attempts opts)"
proof -
  let ?w = "\<lparr>hw_calls = 0, hw_failures = []\<rparr>"
  have "int (Suc (hw_calls ?w)) \<le> max_event_attempts opts" by (simp add: max_event_attempts_def split: option.split)
  from event_loop_handler [OF this, of answers e] obtain m where m: "int (Suc m) \<le> max_event_attempts opts"
      "\<forall>k < m. answers k \<noteq> Ret ()" "case answers m of Ret _ \<Rightarrow> True | Throw _ \<Rightarrow> int (Suc m) = max_event_attempts opts"
      "event_loop (handler_env answers) opts e 1 ?w =
        (Ret (case answers m of Ret _ \<Rightarrow> None | Throw x \<Rightarrow> Some x), ?w\<lparr>hw_calls := Suc m\<rparr>)" by auto
  then show ?thesis
    by (intro exI [of _ m]) (auto simp: processEvent_def handler_env_def split: sum.split)
qed

theorem event_retries_witness:
  "processEvent (handler_env (\<lambda>k. Throw (mk_error ''no''))) sample_options (sample_event ''a'' ''C'') \<lparr>hw_calls = 0, hw_failures = []\<rparr> =
     (Ret (), \<lparr>hw_calls = 1, hw_failures = [(sample_event ''a'' ''C'', mk_error ''no'')]\<rparr>)"
  using event_retries [of sample_options "\<lambda>k. Throw (mk_error ''no'')" "sample_event ''a'' ''C''"]
  by (auto simp: max_event_attempts_def sample_options_def)

end
