(* ===== verification/Decode.thy ===== *)
theory Decode
  imports Events
begin

text \<open>
  \<open>horizon-listener/src/decode.ts\<close>: native values made safe for JSON, and the decoding of contract values.

  \<open>js_native\<close> are the values \<open>scValToNative\<close> can produce, and the others \<open>toJsonSafe\<close> accepts: a finite
  number is kept as its printed token, a non-finite one as its name, a symbol or function as its \<open>String\<close>. The
  XDR decoder and \<open>scValToNative\<close> are parameters. The properties of a JSON object are kept in the order in
  which they were first set; that the language lists integer-like keys first is not modelled.
\<close>

section \<open>Native values\<close>

datatype js_native =
    NUndefined | NNull | NBigInt int | NString string | NBool bool | NNumber string | NNonFinite string
  | NBytes "nat list" | NArray "js_native list" | NMap "(js_native \<times> js_native) list"
  | NObject "(string \<times> js_native) list" | NOther string

text \<open>\<open>out[k] = v\<close> on a plain object. Assigning \<open>__proto__\<close> creates no property.\<close>

definition set_property :: "(string \<times> json) list \<Rightarrow> string \<times> json \<Rightarrow> (string \<times> json) list" where
  "set_property out kv = (if fst kv = ''__proto__'' then out else map_set (fst kv) (snd kv) out)"

definition object_of :: "(string \<times> json) list \<Rightarrow> json" where
  "object_of kvs = JObj (foldl set_property [] kvs)"

definition hex_of_bytes :: "nat list \<Rightarrow> string" where
  "hex_of_bytes bs = concat (map (\<lambda>b. [to_lower_char (hex_digit (b div 16)), to_lower_char (hex_digit (b mod 16))]) bs)"

text \<open>\<open>typeof safe === 'string' ? safe : JSON.stringify(safe)\<close>\<close>

definition string_or_json :: "json \<Rightarrow> string" where
  "string_or_json safe = (case safe of JStr s \<Rightarrow> s | _ \<Rightarrow> stringify safe)"

fun toJsonSafe :: "js_native \<Rightarrow> json" where
  "toJsonSafe NUndefined = JNull"
| "toJsonSafe NNull = JNull"
| "toJsonSafe (NBigInt i) = JStr (dec_of_int i)"
| "toJsonSafe (NString s) = JStr s"
| "toJsonSafe (NBool b) = JBool b"
| "toJsonSafe (NNumber t) = JNum t"
| "toJsonSafe (NNonFinite s) = JStr s"
| "toJsonSafe (NBytes bs) = JStr (hex_of_bytes bs)"
| "toJsonSafe (NArray vs) = JArr (map toJsonSafe vs)"
| "toJsonSafe (NMap kvs) = object_of (map (\<lambda>(k, v). (string_or_json (toJsonSafe k), toJsonSafe v)) kvs)"
| "toJsonSafe (NObject kvs) = object_of (map (\<lambda>(k, v). (k, toJsonSafe v)) kvs)"
| "toJsonSafe (NOther s) = JStr s"

definition keyToString :: "js_native \<Rightarrow> string" where
  "keyToString key = string_or_json (toJsonSafe key)"

section \<open>Contract values\<close>

text \<open>A value handed over by the SDK: an instance of \<open>xdr.ScVal\<close>, or anything else.\<close>

datatype 'sv rpc_value = ScVal 'sv | Native js_native

record 'sv xdr_sdk =
  xd_fromXDR :: "string \<Rightarrow> thrown + 'sv"
  xd_scValToNative :: "'sv \<Rightarrow> thrown + js_native"

fun toScVal :: "'sv xdr_sdk \<Rightarrow> 'sv rpc_value \<Rightarrow> 'sv option" where
  "toScVal sdk (ScVal sv) = Some sv"
| "toScVal sdk (Native (NString s)) = (case xd_fromXDR sdk s of Ret sv \<Rightarrow> Some sv | Throw _ \<Rightarrow> None)"
| "toScVal sdk (Native _) = None"

text \<open>A value that is not a contract value is passed through \<open>toJsonSafe\<close>; the other case cannot occur there.\<close>

definition native_of :: "'sv rpc_value \<Rightarrow> js_native" where
  "native_of v = (case v of Native n \<Rightarrow> n | ScVal _ \<Rightarrow> NObject [])"

definition decodeScValToJson :: "'sv xdr_sdk \<Rightarrow> 'sv rpc_value \<Rightarrow> thrown + json" where
  "decodeScValToJson sdk v =
     (case toScVal sdk v of
        Some sv \<Rightarrow> js_bind (xd_scValToNative sdk sv) (\<lambda>n. Ret (toJsonSafe n))
      | None \<Rightarrow> Ret (toJsonSafe (native_of v)))"

definition decodeTopicToString :: "'sv xdr_sdk \<Rightarrow> 'sv rpc_value \<Rightarrow> thrown + string" where
  "decodeTopicToString sdk v = js_bind (decodeScValToJson sdk v) (\<lambda>decoded. Ret (string_or_json decoded))"

section \<open>The result is JSON\<close>

text \<open>Number tokens are as the language prints finite numbers.\<close>

fun native_ok :: "js_native \<Rightarrow> bool" where
  "native_ok (NNumber t) \<longleftrightarrow> number_ok t \<and> list_all number_char t"
| "native_ok (NArray vs) \<longleftrightarrow> list_all native_ok vs"
| "native_ok (NMap kvs) \<longleftrightarrow> list_all (\<lambda>(k, v). native_ok k \<and> native_ok v) kvs"
| "native_ok (NObject kvs) \<longleftrightarrow> list_all (\<lambda>(k, v). native_ok v) kvs"
| "native_ok _ \<longleftrightarrow> True"

lemma update_all: "P v \<Longrightarrow> \<forall>kv \<in> set kvs. P (snd kv) \<Longrightarrow> \<forall>kv \<in> set (map_set k v kvs). P (snd kv)"
  by (induction kvs) auto

lemma object_ok:
  assumes "\<forall>kv \<in> set kvs. json_ok (snd kv)"
  shows "json_ok (object_of kvs)"
proof -
  have "\<forall>kv \<in> set (foldl set_property out kvs). json_ok (snd kv)" if "\<forall>kv \<in> set out. json_ok (snd kv)" for out
    using assms that
  proof (induction kvs arbitrary: out)
    case (Cons kv kvs)
    have "\<forall>kv \<in> set (set_property out kv). json_ok (snd kv)"
      using Cons.prems update_all [of json_ok "snd kv" out "fst kv"] by (simp add: set_property_def)
    with Cons show ?case by simp
  qed simp
  from this [of "[]"] show ?thesis by (auto simp: object_of_def list_all_iff)
qed

lemma toJsonSafe_ok: "native_ok v \<Longrightarrow> json_ok (toJsonSafe v)"
proof (induction v)
  case (NMap kvs)
  show ?case unfolding toJsonSafe.simps by (rule object_ok) (use NMap in \<open>fastforce simp: list_all_iff\<close>)
next
  case (NObject kvs)
  show ?case unfolding toJsonSafe.simps by (rule object_ok) (use NObject in \<open>fastforce simp: list_all_iff\<close>)
qed (auto simp: list_all_iff)

text \<open>
  Whatever native value is made safe, its JSON text parses back to it: bigints, bytes, maps and non-finite
  numbers included, nothing in the result is lost or changed on the way to a webhook receiver.
\<close>

theorem toJsonSafe_roundtrip:
  assumes "native_ok v"
  shows "json_parse (stringify (toJsonSafe v)) = Ret (toJsonSafe v)"
  using json_parse_stringify [OF toJsonSafe_ok [OF assms]] .

theorem toJsonSafe_roundtrip_witness:
  "json_parse (stringify (toJsonSafe (NMap [(NString ''n'', NBigInt (-5)), (NBytes [255], NArray [NNumber ''1.5''])])))
     = Ret (JObj [(''n'', JStr ''-5''), (''ff'', JArr [JNum ''1.5''])])"
proof -
  let ?v = "NMap [(NString ''n'', NBigInt (-5)), (NBytes [255], NArray [NNumber ''1.5''])]"
  have "native_ok ?v"
    by (simp add: number_ok_def fraction_ok_def exponent_ok_def number_char_def is_digit_def Let_def)
  moreover have "toJsonSafe ?v = JObj [(''n'', JStr ''-5''), (''ff'', JArr [JNum ''1.5''])]"
    by (simp add: object_of_def set_property_def string_or_json_def hex_of_bytes_def hex_digit_def to_lower_char_def
      dec_of_int_def dec_of_nat.simps digit_char_def char_of_def bit_0 Let_def)
  ultimately show ?thesis using toJsonSafe_roundtrip [of ?v] by simp
qed

text \<open>
  A topic decodes to the same string whether the RPC node hands it over as a contract value or as its
  base64 XDR, so that consumers see one format.
\<close>

theorem topic_formats_agree:
  assumes "xd_fromXDR sdk xdr = Ret sv"
  shows "decodeTopicToString sdk (Native (NString xdr)) = decodeTopicToString sdk (ScVal sv)
    \<and> decodeScValToJson sdk (Native (NString xdr)) = decodeScValToJson sdk (ScVal sv)"
  by (simp add: decodeTopicToString_def decodeScValToJson_def assms)

text \<open>A decoder of one text.\<close>

definition example_sdk :: "nat xdr_sdk" where
  "example_sdk = \<lparr>xd_fromXDR = (\<lambda>s. if s = ''AAAAAw=='' then Ret 3 else Throw (mk_error ''XDR'')),
     xd_scValToNative = (\<lambda>n. Ret (NBigInt (int n)))\<rparr>"

theorem topic_formats_agree_witness:
  "decodeTopicToString example_sdk (Native (NString ''AAAAAw=='')) = decodeTopicToString example_sdk (ScVal 3)
    \<and> decodeScValToJson example_sdk (Native (NString ''AAAAAw=='')) = Ret (JStr (dec_of_int 3))"
  using topic_formats_agree [of example_sdk "''AAAAAw==''" 3]
  by (simp add: example_sdk_def decodeScValToJson_def)

end
