(* ===== verification/EventSources.thy ===== *)
theory EventSources
  imports Decode Backoff WebForm
begin

text \<open>
  \<open>horizon-listener/src/eventSource.ts\<close> (\<open>RpcEventSource\<close>) and \<open>horizonEventSource.ts\<close>.

  The RPC server of the SDK and \<open>fetch\<close> are parameters that also say how long they took, so that the timeout
  raced against them can be modelled; racing does not cancel the call. The constructor of the RPC source names
  \<open>NoopMetricsRegistry\<close>, which its module neither declares nor imports: a source without metrics needs a global
  of that name. \<open>getServer\<close> and \<open>switchTo\<close> read \<open>this.activeRpcUrl\<close>, which the class does not declare; its
  value is the parameter \<open>activeRpcUrl\<close>, undefined for an instance of the class itself. The cache of server
  objects is left out, as constructing a server has no effect.
\<close>

section \<open>The RPC source\<close>

datatype topic_segment = Segment string | NotAString
datatype topic_filter = Segments "topic_segment list" | NotAnArray
datatype topics_option = Filters "topic_filter list" | NoArray

record rpc_source_options =
  rs_rpcUrl :: "string option"
  rs_rpcUrls :: "string list option"
  rs_has_metrics :: bool
  rs_contractIds :: "string list"
  rs_topics :: "topics_option option"
  rs_eventType :: "string option"
  rs_startLedger :: "int option"
  rs_timeoutMs :: "int option"
  rs_native :: bool

definition event_types :: "string list" where
  "event_types = [''contract'', ''system'', ''diagnostic'', ''all'']"

definition filter_valid :: "topic_filter \<Rightarrow> bool" where
  "filter_valid f = (case f of
       NotAnArray \<Rightarrow> False
     | Segments ss \<Rightarrow> ss \<noteq> [] \<and> length ss \<le> 4 \<and> list_all (\<lambda>s. case s of Segment t \<Rightarrow> t \<noteq> [] | NotAString \<Rightarrow> False) ss)"

fun check_filters :: "nat \<Rightarrow> topic_filter list \<Rightarrow> thrown + unit" where
  "check_filters i [] = Ret ()"
| "check_filters i (f # fs) =
     (if filter_valid f then check_filters (Suc i) fs
      else Throw (mk_error (''horizon-listener: RpcEventSource invalid topic filter at index '' @ dec_of_nat i
        @ '' (expected 1-4 non-empty string segments; use '' @ [CHR 0x22] @ ''*'' @ [CHR 0x22] @ '' as a wildcard)'')))"

text \<open>The state of a source: its URLs, the active one, and the failure counter.\<close>

record rpc_source =
  rp_options :: rpc_source_options
  rp_urls :: "string list"
  rp_urlIndex :: nat
  rp_consecutiveFailures :: nat

definition rpc_urls :: "rpc_source_options \<Rightarrow> string list" where
  "rpc_urls options =
     (case rs_rpcUrls options of
        Some (u # us) \<Rightarrow> u # us
      | _ \<Rightarrow> (case rs_rpcUrl options of Some u \<Rightarrow> if u = [] then [] else [u] | None \<Rightarrow> []))"

definition check_topics :: "topics_option option \<Rightarrow> thrown + unit" where
  "check_topics topics = (case topics of
       None \<Rightarrow> Ret ()
     | Some NoArray \<Rightarrow> Throw (mk_error (''horizon-listener: RpcEventSource `topics` must be an array of topic filters''))
     | Some (Filters fs) \<Rightarrow> check_filters 0 fs)"

definition check_event_type :: "string option \<Rightarrow> thrown + unit" where
  "check_event_type t = (case t of
       None \<Rightarrow> Ret ()
     | Some e \<Rightarrow> if e \<in> set event_types then Ret ()
         else Throw (mk_error (''horizon-listener: RpcEventSource invalid eventType '' @ [CHR 0x22] @ e @ [CHR 0x22]
           @ '' (expected one of '' @ join '', '' event_types @ '')'')))"

definition new_rpc_source :: "bool \<Rightarrow> rpc_source_options \<Rightarrow> thrown + rpc_source" where
  "new_rpc_source noop_global options =
     (let urls = rpc_urls options in
      if urls = [] then
        Throw (mk_error ''horizon-listener: RpcEventSource requires `rpcUrl` or a non-empty `rpcUrls` array'')
      else if \<not> rs_has_metrics options \<and> \<not> noop_global then Throw (reference_error ''NoopMetricsRegistry'')
      else if rs_contractIds options = [] then
        Throw (mk_error ''horizon-listener: RpcEventSource requires at least one contract ID (contractIds array cannot be empty)'')
      else js_bind (check_topics (rs_topics options)) (\<lambda>_.
           js_bind (check_event_type (rs_eventType options)) (\<lambda>_.
           Ret \<lparr>rp_options = options, rp_urls = urls, rp_urlIndex = 0, rp_consecutiveFailures = 0\<rparr>)))"

definition segment_json :: "topic_segment \<Rightarrow> json" where
  "segment_json s = (case s of Segment t \<Rightarrow> JStr t | NotAString \<Rightarrow> JNull)"

definition filter_json :: "topic_filter \<Rightarrow> json" where
  "filter_json f = (case f of Segments ss \<Rightarrow> JArr (map segment_json ss) | NotAnArray \<Rightarrow> JNull)"

definition buildFilters :: "rpc_source_options \<Rightarrow> json" where
  "buildFilters options =
     (let eventType = or_default (rs_eventType options) ''contract'' in
      JArr [JObj ([(''contractIds'', JArr (map JStr (rs_contractIds options)))]
        @ (if eventType \<noteq> ''all'' then [(''type'', JStr eventType)] else [])
        @ (case rs_topics options of Some (Filters fs) \<Rightarrow> if fs = [] then [] else [(''topics'', JArr (map filter_json fs))] | _ \<Rightarrow> []))])"

text \<open>\<open>switchTo\<close>, which nothing calls: the new state and the arguments of \<open>onFailover\<close>.\<close>

definition switchTo :: "(rpc_source \<Rightarrow> string option) \<Rightarrow> nat \<Rightarrow> rpc_source \<Rightarrow> (string option \<times> string option) \<times> rpc_source" where
  "switchTo activeRpcUrl index s =
     (let from = activeRpcUrl s; s = s\<lparr>rp_urlIndex := index, rp_consecutiveFailures := 0\<rparr> in ((from, activeRpcUrl s), s))"

subsection \<open>\<open>getEvents\<close>\<close>

text \<open>What the RPC node answers. The value of an event is its JSON form when it is not decoded.\<close>

record 'sv rpc_event =
  re_id :: string
  re_contractId :: string
  re_ledger :: int
  re_topic :: "'sv rpc_value list option"
  re_value :: "'sv rpc_value"

record 'sv rpc_response =
  rr_events :: "'sv rpc_event list option"
  rr_cursor :: "string option"
  rr_latestLedger :: "int option"

datatype rpc_request = FromCursor string json | FromLedger int json

record ('sv, 'w) rpc_env =
  rv_getEvents :: "string \<Rightarrow> bool \<Rightarrow> rpc_request \<Rightarrow> 'w \<Rightarrow> ((thrown + 'sv rpc_response) \<times> int) \<times> 'w"
  rv_xdr :: "'sv xdr_sdk"
  rv_string :: "'sv rpc_value \<Rightarrow> string"
  rv_json :: "'sv rpc_value \<Rightarrow> json"

text \<open>\<open>Promise.race\<close> against a timer of \<open>timeoutMs\<close>; zero is no timeout.\<close>

definition race_timeout :: "int option \<Rightarrow> (int \<Rightarrow> string) \<Rightarrow> (thrown + 'a) \<times> int \<Rightarrow> thrown + 'a" where
  "race_timeout timeoutMs message outcome =
     (case timeoutMs of
        Some t \<Rightarrow> if t \<noteq> 0 \<and> t < snd outcome then Throw (mk_error (message t)) else fst outcome
      | None \<Rightarrow> fst outcome)"

fun js_map :: "('a \<Rightarrow> thrown + 'b) \<Rightarrow> 'a list \<Rightarrow> thrown + 'b list" where
  "js_map f [] = Ret []"
| "js_map f (x # xs) = js_bind (f x) (\<lambda>y. js_bind (js_map f xs) (\<lambda>ys. Ret (y # ys)))"

definition to_raw_event :: "('sv, 'w) rpc_env \<Rightarrow> bool \<Rightarrow> 'sv rpc_event \<Rightarrow> thrown + raw_event" where
  "to_raw_event env native e =
     js_bind (js_map (\<lambda>t. if native then decodeTopicToString (rv_xdr env) t else Ret (rv_string env t)) (or_default (re_topic e) []))
       (\<lambda>topic. js_bind (if native then decodeScValToJson (rv_xdr env) (re_value e) else Ret (rv_json env (re_value e)))
       (\<lambda>val. Ret \<lparr>ev_id = re_id e, ev_contractId = re_contractId e, ev_ledger = re_ledger e, ev_topic = topic, ev_value = val\<rparr>))"

definition last_id :: "raw_event list \<Rightarrow> string option \<Rightarrow> string" where
  "last_id events cursor = (if events \<noteq> [] then ev_id (last events) else or_default cursor [])"

definition no_start_ledger :: thrown where
  "no_start_ledger = mk_error (''horizon-listener: RpcEventSource requires `startLedger` for the first cursor-less ''
     @ ''getEvents call. Pass a recent ledger within the RPC node'' @ [CHR 0x27] @ ''s event retention window ''
     @ ''(commonly ~24h / 17,280 ledgers); see the horizon-listener README.'')"

definition rpc_request_of :: "rpc_source_options \<Rightarrow> string option \<Rightarrow> rpc_request option" where
  "rpc_request_of options cursor =
     (case cursor of
        Some (c # cs) \<Rightarrow> Some (FromCursor (c # cs) (buildFilters options))
      | _ \<Rightarrow> map_option (\<lambda>l. FromLedger l (buildFilters options)) (rs_startLedger options))"

definition to_page :: "('sv, 'w) rpc_env \<Rightarrow> bool \<Rightarrow> string option \<Rightarrow> 'sv rpc_response \<Rightarrow> thrown + event_page" where
  "to_page env native cursor response =
     js_bind (js_map (to_raw_event env native) (or_default (rr_events response) []))
       (\<lambda>events. Ret \<lparr>pg_events = events, pg_nextCursor = or_default (rr_cursor response) (last_id events cursor),
          pg_latestLedger = rr_latestLedger response\<rparr>)"

definition rpc_getEvents ::
  "('sv, 'w) rpc_env \<Rightarrow> (rpc_source \<Rightarrow> string option) \<Rightarrow> rpc_source \<Rightarrow> string option \<Rightarrow> 'w \<Rightarrow> (thrown + event_page) \<times> 'w" where
  "rpc_getEvents env activeRpcUrl s cursor w =
     (let options = rp_options s in
      case rpc_request_of options cursor of
        None \<Rightarrow> (Throw no_start_ledger, w)
      | Some request \<Rightarrow>
          (case activeRpcUrl s of
             None \<Rightarrow> (Throw (type_error (''Cannot read properties of undefined (reading '' @ [CHR 0x27] @ ''startsWith'' @ [CHR 0x27] @ '')'')), w)
           | Some url \<Rightarrow>
               (case rv_getEvents env url (take 7 url = ''http://'') request w of
                  (outcome, w) \<Rightarrow>
                    (js_bind (race_timeout (rs_timeoutMs options) (\<lambda>t. ''RPC getEvents timeout after '' @ dec_of_int t @ ''ms'') outcome)
                       (to_page env (rs_native options) cursor), w))))"

text \<open>An instance of the class has no member \<open>activeRpcUrl\<close>.\<close>

definition no_active_url :: "rpc_source \<Rightarrow> string option" where
  "no_active_url s = None"

section \<open>The Horizon source\<close>

record horizon_options =
  ho_horizonUrl :: string
  ho_accountId :: "string option"
  ho_endpoint :: "string option"
  ho_limit :: "int option"
  ho_timeoutMs :: "int option"

text \<open>The defaults are filled in by the constructor.\<close>

definition new_horizon_source :: "horizon_options \<Rightarrow> thrown + horizon_options" where
  "new_horizon_source options =
     (if ho_horizonUrl options = [] then Throw (mk_error ''horizon-listener: HorizonEventSource requires `horizonUrl`'')
      else Ret (options\<lparr>ho_endpoint := Some (or_default (ho_endpoint options) ''operations''),
        ho_limit := Some (or_default (ho_limit options) 10)\<rparr>))"

definition strip_slashes :: "string \<Rightarrow> string" where
  "strip_slashes s = rev (dropWhile (\<lambda>c. c = CHR ''/'') (rev s))"

definition the_endpoint :: "horizon_options \<Rightarrow> string" where
  "the_endpoint options = or_default (ho_endpoint options) []"

definition collectionPath :: "horizon_options \<Rightarrow> string" where
  "collectionPath options =
     (let base = strip_slashes (ho_horizonUrl options) in
      case ho_accountId options of
        Some (c # cs) \<Rightarrow> base @ ''/accounts/'' @ (c # cs) @ ''/'' @ the_endpoint options
      | _ \<Rightarrow> base @ ''/'' @ the_endpoint options)"

definition horizon_url :: "horizon_options \<Rightarrow> string option \<Rightarrow> string" where
  "horizon_url options cursor = collectionPath options @ ''?'' @ search_params
     ([(''order'', ''asc''), (''limit'', dec_of_int (or_default (ho_limit options) 0)), (''include_failed'', ''true'')]
      @ (case cursor of Some (c # cs) \<Rightarrow> [(''cursor'', c # cs)] | _ \<Rightarrow> []))"

text \<open>\<open>a ?? b ?? ''\<close> over properties of a record, then \<open>String\<close>.\<close>

fun first_given :: "json option list \<Rightarrow> json" where
  "first_given [] = JStr []"
| "first_given (v # vs) = (case v of None \<Rightarrow> first_given vs | Some JNull \<Rightarrow> first_given vs | Some j \<Rightarrow> j)"

text \<open>
  The numbers of the language: \<open>nu_text\<close> prints the number of a token, \<open>nu_ledger\<close> is its value when that is
  finite; a ledger that is not whole is not modelled.
\<close>

record numbers =
  nu_text :: "string \<Rightarrow> string"
  nu_ledger :: "string \<Rightarrow> int option"

definition record_ledger :: "numbers \<Rightarrow> json option \<Rightarrow> int" where
  "record_ledger nu l = (case l of Some (JNum t) \<Rightarrow> or_default (nu_ledger nu t) 0 | _ \<Rightarrow> 0)"

definition horizon_event :: "numbers \<Rightarrow> horizon_options \<Rightarrow> json \<Rightarrow> thrown + raw_event" where
  "horizon_event nu options r =
     js_bind (get_prop r ''paging_token'') (\<lambda>token. js_bind (get_prop r ''id'') (\<lambda>rid.
     js_bind (get_prop r ''ledger'') (\<lambda>ledger. js_bind (get_prop r ''account'') (\<lambda>account.
     js_bind (get_prop r ''source_account'') (\<lambda>source. js_bind (get_prop r ''type'') (\<lambda>type.
       Ret \<lparr>ev_id = js_String (nu_text nu) (first_given [token, rid]),
         ev_contractId = js_String (nu_text nu) (first_given [account, source, map_option JStr (ho_accountId options)]),
         ev_ledger = record_ledger nu ledger,
         ev_topic = [js_String (nu_text nu) (first_given [type, map_option JStr (ho_endpoint options)])],
         ev_value = r\<rparr>))))))"

definition horizon_records :: "json \<Rightarrow> thrown + json list" where
  "horizon_records body =
     js_bind (get_prop body ''_embedded'') (\<lambda>embedded.
     js_bind (case embedded of None \<Rightarrow> Ret None | Some JNull \<Rightarrow> Ret None | Some e \<Rightarrow> get_prop e ''records'') (\<lambda>records.
       case records of None \<Rightarrow> Ret [] | Some JNull \<Rightarrow> Ret [] | Some (JArr rs) \<Rightarrow> Ret rs
       | Some _ \<Rightarrow> Throw (type_error ''records.map is not a function'')))"

record horizon_response =
  hz_status :: int
  hz_json :: "thrown + json"

type_synonym 'w horizon_fetch = "string \<Rightarrow> 'w \<Rightarrow> ((thrown + horizon_response) \<times> int) \<times> 'w"

definition horizon_page :: "numbers \<Rightarrow> horizon_options \<Rightarrow> string option \<Rightarrow> horizon_response \<Rightarrow> thrown + event_page" where
  "horizon_page nu options cursor response =
     (if \<not> (200 \<le> hz_status response \<and> hz_status response \<le> 299) then
        Throw (mk_error (''horizon-listener: Horizon request failed with status '' @ dec_of_int (hz_status response)
          @ '' for '' @ the_endpoint options))
      else
        js_bind (hz_json response) (\<lambda>body. js_bind (horizon_records body) (\<lambda>records.
        js_bind (js_map (horizon_event nu options) records) (\<lambda>events.
          Ret \<lparr>pg_events = events, pg_nextCursor = last_id events cursor, pg_latestLedger = None\<rparr>))))"

definition horizon_getEvents ::
  "'w horizon_fetch \<Rightarrow> numbers \<Rightarrow> horizon_options \<Rightarrow> string option \<Rightarrow> 'w \<Rightarrow> (thrown + event_page) \<times> 'w" where
  "horizon_getEvents fetch nu options cursor w =
     (case fetch (horizon_url options cursor) w of
        (outcome, w) \<Rightarrow>
          (js_bind (race_timeout (ho_timeoutMs options) (\<lambda>t. ''Horizon request timeout after '' @ dec_of_int t @ ''ms'') outcome)
             (horizon_page nu options cursor), w))"

section \<open>Properties\<close>

lemma rpc_getEvents_throws: "\<exists>e. rpc_getEvents env no_active_url s cursor w = (Throw e, w)"
  by (auto simp: rpc_getEvents_def no_active_url_def Let_def split: option.split)

text \<open>
  As shipped the RPC source never yields an event: every call of \<open>getEvents\<close> rejects without asking the
  node, with the documented error when there is neither a cursor nor a start ledger, and otherwise with a
  TypeError, since the member \<open>activeRpcUrl\<close> it reads does not exist.
\<close>

theorem rpc_source_always_throws:
  "\<exists>e. rpc_getEvents env no_active_url s cursor w = (Throw e, w) \<and>
     (e = no_start_ledger \<or> exn_name e = ''TypeError'')"
  by (auto simp: rpc_getEvents_def no_active_url_def type_error_def Let_def split: option.split)

text \<open>
  Without a metrics option the RPC source cannot even be constructed: a valid configuration is rejected
  with a ReferenceError.
\<close>

theorem rpc_source_needs_metrics:
  assumes "rpc_urls options \<noteq> []" and "\<not> rs_has_metrics options"
  shows "new_rpc_source False options = Throw (reference_error ''NoopMetricsRegistry'')"
  using assms by (simp add: new_rpc_source_def Let_def)

definition example_rpc :: rpc_source_options where
  "example_rpc = \<lparr>rs_rpcUrl = Some ''https://rpc'', rs_rpcUrls = None, rs_has_metrics = False, rs_contractIds = [''C''],
     rs_topics = None, rs_eventType = None, rs_startLedger = Some 5, rs_timeoutMs = None, rs_native = False\<rparr>"

theorem rpc_source_needs_metrics_witness:
  "new_rpc_source False example_rpc = Throw (reference_error ''NoopMetricsRegistry'')"
  by (rule rpc_source_needs_metrics) (simp_all add: example_rpc_def rpc_urls_def)

lemma js_map_length: "js_map f xs = Ret ys \<Longrightarrow> length ys = length xs"
  by (induction xs arbitrary: ys) (auto simp: js_bind_def split: sum.splits)

lemma js_map_nth: "js_map f xs = Ret ys \<Longrightarrow> i < length xs \<Longrightarrow> f (xs ! i) = Ret (ys ! i)"
  by (induction xs arbitrary: ys i) (auto simp: js_bind_def nth_Cons split: sum.splits nat.splits)

lemma js_map_total: "(\<And>x. x \<in> set xs \<Longrightarrow> \<exists>y. f x = Ret y) \<Longrightarrow> \<exists>ys. js_map f xs = Ret ys"
  by (induction xs) (fastforce simp: js_bind_def)+

text \<open>
  What a construction accepts: a source exists only with a URL, a contract, well-formed topic filters and a
  known event type, and starts on the first URL of the list.
\<close>

lemma check_filters_ok: "check_filters i fs = Ret () \<longleftrightarrow> list_all filter_valid fs"
  by (induction fs arbitrary: i) simp_all

theorem rpc_source_valid:
  "(\<exists>s. new_rpc_source noop_global options = Ret s) \<longleftrightarrow>
     rpc_urls options \<noteq> [] \<and> (rs_has_metrics options \<or> noop_global) \<and> rs_contractIds options \<noteq> []
     \<and> (case rs_topics options of None \<Rightarrow> True | Some NoArray \<Rightarrow> False | Some (Filters fs) \<Rightarrow> list_all filter_valid fs)
     \<and> (case rs_eventType options of None \<Rightarrow> True | Some t \<Rightarrow> t \<in> set event_types)"
proof -
  have topics: "(\<exists>u. check_topics t = Ret u) \<longleftrightarrow>
      (case t of None \<Rightarrow> True | Some NoArray \<Rightarrow> False | Some (Filters fs) \<Rightarrow> list_all filter_valid fs)" for t
    using check_filters_ok by (auto simp: check_topics_def split: option.split topics_option.split)
  have type: "(\<exists>u. check_event_type t = Ret u) \<longleftrightarrow> (case t of None \<Rightarrow> True | Some t \<Rightarrow> t \<in> set event_types)" for t
    by (auto simp: check_event_type_def split: option.split)
  show ?thesis
    unfolding topics [symmetric] type [symmetric]
    by (cases "check_topics (rs_topics options)"; cases "check_event_type (rs_eventType options)")
      (auto simp: new_rpc_source_def Let_def)
qed

text \<open>A well-formed answer of Horizon: a page of record objects.\<close>

definition horizon_body :: "json list \<Rightarrow> json" where
  "horizon_body rs = JObj [(''_embedded'', JObj [(''records'', JArr rs)])]"

definition record_ok :: "json \<Rightarrow> bool" where
  "record_ok r \<longleftrightarrow> (\<exists>kvs t. r = JObj kvs \<and> get_prop r ''paging_token'' = Ret (Some (JStr t)) \<and> t \<noteq> [])"

definition token_of :: "json \<Rightarrow> string" where
  "token_of r = (case get_prop r ''paging_token'' of Ret (Some (JStr t)) \<Rightarrow> t | _ \<Rightarrow> [])"

lemma horizon_event_ok:
  "record_ok r \<Longrightarrow> \<exists>e. horizon_event nu options r = Ret e \<and> ev_id e = token_of r \<and> ev_value e = r"
  by (auto simp: record_ok_def horizon_event_def token_of_def js_bind_def get_prop_def)

lemma js_map_events:
  "list_all record_ok rs \<Longrightarrow> \<exists>es. js_map (horizon_event nu options) rs = Ret es \<and> map ev_id es = map token_of rs \<and> map ev_value es = rs"
proof (induction rs)
  case (Cons r rs)
  with horizon_event_ok [of r nu options] show ?case by fastforce
qed simp

lemma horizon_records_body: "horizon_records (horizon_body rs) = Ret rs"
  by (simp add: horizon_records_def horizon_body_def get_prop_def)

lemma horizon_page_ok:
  assumes "list_all record_ok rs"
  shows "\<exists>page. horizon_page nu options cursor \<lparr>hz_status = 200, hz_json = Ret (horizon_body rs)\<rparr> = Ret page
    \<and> map ev_value (pg_events page) = rs
    \<and> pg_nextCursor page = (if rs = [] then or_default cursor [] else token_of (last rs))"
proof -
  obtain es where es: "js_map (horizon_event nu options) rs = Ret es" "map ev_id es = map token_of rs" "map ev_value es = rs"
    using js_map_events [OF assms] by blast
  have "ev_id (last es) = token_of (last rs)" if "rs \<noteq> []"
    using that es(2,3) by (metis last_map list.map_disc_iff)
  moreover have "es = [] \<longleftrightarrow> rs = []" using es(3) by auto
  ultimately show ?thesis
    by (auto simp: horizon_page_def horizon_records_body es last_id_def)
qed

text \<open>What a caller does that passes each page's cursor back: the records of \<open>n\<close> pages.\<close>

fun follow_pages :: "(string option \<Rightarrow> 'w \<Rightarrow> (thrown + event_page) \<times> 'w) \<Rightarrow> nat \<Rightarrow> string option \<Rightarrow> 'w \<Rightarrow> thrown + json list" where
  "follow_pages source 0 cursor w = Ret []"
| "follow_pages source (Suc n) cursor w =
     (case source cursor w of
        (Throw e, w) \<Rightarrow> Throw e
      | (Ret page, w) \<Rightarrow>
          js_bind (follow_pages source n (Some (pg_nextCursor page)) w) (\<lambda>rs. Ret (map ev_value (pg_events page) @ rs)))"

text \<open>
  Horizon as documented: asked for the page after a record it answers the next \<open>limit\<close> records, in ascending
  order. \<open>all\<close> is the collection, and \<open>cursor_at\<close> the cursor of a caller that has seen \<open>k\<close> of them.
\<close>

definition cursor_at :: "json list \<Rightarrow> nat \<Rightarrow> string option" where
  "cursor_at all k = (if k = 0 then None else Some (token_of (all ! (k - 1))))"

definition horizon_serves :: "'w horizon_fetch \<Rightarrow> horizon_options \<Rightarrow> nat \<Rightarrow> json list \<Rightarrow> bool" where
  "horizon_serves fetch options limit all \<longleftrightarrow>
     (\<forall>k \<le> length all. \<forall>cursor w. or_default cursor [] = or_default (cursor_at all k) [] \<longrightarrow>
        (\<exists>w'. fetch (horizon_url options cursor) w =
          ((Ret \<lparr>hz_status = 200, hz_json = Ret (horizon_body (take limit (drop k all)))\<rparr>, 0), w')))"

lemma follow_from:
  assumes "horizon_serves fetch options limit all" and "list_all record_ok all" and "0 < limit"
    and "\<And>n. ho_timeoutMs options = Some n \<Longrightarrow> 0 \<le> n"
    and "k \<le> length all" and "or_default cursor [] = or_default (cursor_at all k) []"
  shows "follow_pages (horizon_getEvents fetch nu options) n cursor w = Ret (take (n * limit) (drop k all))"
  using assms(5,6)
proof (induction n arbitrary: k cursor w)
  case (Suc n)
  let ?rs = "take limit (drop k all)"
  obtain w' where w': "fetch (horizon_url options cursor) w = ((Ret \<lparr>hz_status = 200, hz_json = Ret (horizon_body ?rs)\<rparr>, 0), w')"
    using assms(1) Suc.prems unfolding horizon_serves_def by blast
  have "list_all record_ok ?rs" using assms(2) by (auto simp: list_all_iff dest: in_set_takeD in_set_dropD)
  from horizon_page_ok [OF this, of nu options cursor] obtain page where
    page: "horizon_page nu options cursor \<lparr>hz_status = 200, hz_json = Ret (horizon_body ?rs)\<rparr> = Ret page"
      "map ev_value (pg_events page) = ?rs" "pg_nextCursor page = (if ?rs = [] then or_default cursor [] else token_of (last ?rs))"
    by blast
  have get: "horizon_getEvents fetch nu options cursor w = (Ret page, w')"
    using assms(4) by (cases "ho_timeoutMs options") (auto simp: horizon_getEvents_def w' page(1) race_timeout_def)
  let ?k = "min (length all) (k + limit)"
  have "pg_nextCursor page = or_default (cursor_at all ?k) []"
  proof (cases "?rs = []")
    case True
    then have "?k = k" using assms(3) Suc.prems(1) by simp
    then show ?thesis using True Suc.prems(2) by (simp add: page(3))
  next
    case False
    then have "k < length all" by simp
    then have "k + (min (length all - k) limit - 1) = ?k - 1" using assms(3) \<open>k < length all\<close> by linarith
    then have "last ?rs = all ! (?k - 1)" using False \<open>k < length all\<close> by (simp add: last_conv_nth)
    with False \<open>k < length all\<close> assms(3) show ?thesis by (simp add: page(3) cursor_at_def)
  qed
  then have "follow_pages (horizon_getEvents fetch nu options) n (Some (pg_nextCursor page)) w' = Ret (take (n * limit) (drop ?k all))"
    by (intro Suc.IH) simp_all
  moreover have "?rs @ take (n * limit) (drop ?k all) = take (Suc n * limit) (drop k all)"
    by (cases "k + limit \<le> length all") (simp_all add: take_add min_def add.commute)
  ultimately show ?case by (simp add: get page(2))
qed simp


definition example_horizon :: horizon_options where
  "example_horizon = \<lparr>ho_horizonUrl = ''https://h/'', ho_accountId = None, ho_endpoint = Some ''operations'', ho_limit = Some 1,
     ho_timeoutMs = None\<rparr>"

definition example_record :: json where
  "example_record = JObj [(''paging_token'', JStr ''7'')]"

definition one_record_server :: "unit horizon_fetch" where
  "one_record_server url w =
     ((Ret \<lparr>hz_status = 200, hz_json = Ret (horizon_body (if url = horizon_url example_horizon None then [example_record] else []))\<rparr>, 0), w)"

lemma one_record_serves: "horizon_serves one_record_server example_horizon 1 [example_record]"
proof -
  have url: "horizon_url example_horizon cursor = horizon_url example_horizon None \<longleftrightarrow> or_default cursor [] = []" for cursor
    by (auto simp: horizon_url_def search_params_def split: option.split list.split)
  have "token_of example_record = ''7''" by (simp add: token_of_def example_record_def get_prop_def)
  then show ?thesis
    by (auto simp: horizon_serves_def one_record_server_def url cursor_at_def less_Suc_eq_le le_Suc_eq)
qed


end
