(* ===== verification/Forwarder.thy ===== *)
theory Forwarder
  imports Listener EventSources Webhook
begin

text \<open>
  \<open>horizon-listener/src/factory.ts\<close>: the forwarder wires an RPC source and a webhook sender to a listener. The
  parts of the listener's environment that are not wired (sleep, random source, failure hook) are those of
  \<open>rest\<close>. A buffered \<open>send\<close>, whose promise settles with its batch, is the parameter \<open>batched\<close>.
\<close>

definition webhook_send ::
  "(webhook_sender \<Rightarrow> raw_event \<Rightarrow> 'w \<Rightarrow> (thrown + unit) \<times> 'w) \<Rightarrow> 'w webhook_env \<Rightarrow> webhook_sender \<Rightarrow> raw_event \<Rightarrow> 'w
    \<Rightarrow> (thrown + unit) \<times> 'w" where
  "webhook_send batched env s event w = (if ws_batchSize s \<le> 1 then send_one env s event w else batched s event w)"

definition createWebhookForwarder ::
  "bool \<Rightarrow> (string \<Rightarrow> thrown + string) \<Rightarrow> (rpc_source \<Rightarrow> string option) \<Rightarrow> ('sv, 'w) rpc_env \<Rightarrow> 'w webhook_env
    \<Rightarrow> (webhook_sender \<Rightarrow> raw_event \<Rightarrow> 'w \<Rightarrow> (thrown + unit) \<times> 'w) \<Rightarrow> 'w listener_env
    \<Rightarrow> rpc_source_options \<Rightarrow> webhook_options \<Rightarrow> listener_config \<Rightarrow> thrown + 'w listener_env \<times> listener_options \<times> listener" where
  "createWebhookForwarder noop_global protocol_of activeRpcUrl rpc wenv batched rest source webhook listenerOptions =
     js_bind (new_rpc_source noop_global source) (\<lambda>eventSource.
     js_bind (new_webhook_sender protocol_of webhook) (\<lambda>sender.
       Ret (rest\<lparr>le_getEvents := rpc_getEvents rpc activeRpcUrl eventSource, le_resetToLedger := None,
              le_onEvent := webhook_send batched wenv sender\<rparr>,
            new_listener listenerOptions)))"

text \<open>
  C25. As shipped a forwarder forwards nothing: whenever its construction succeeds, \<open>start\<close> rejects with a
  TypeError at the first poll, before anything has been asked of the RPC node or sent to the webhook, and
  whatever retry budget was configured. The two undefined names compose: the source throws, and the listener
  throws on what it threw.
\<close>

theorem forwarder_never_forwards:
  assumes "createWebhookForwarder noop_global protocol_of no_active_url rpc wenv batched rest source webhook config
      = Ret (env, opts, st)"
    and "le_gap rest = None"
  shows "\<exists>st'. start (Suc fuel) env opts False st w = Some (Throw instanceof_error, st', w) \<and> hl_cursor st' = hl_cursor st"
proof -
  obtain src sender where env: "env = rest\<lparr>le_getEvents := rpc_getEvents rpc no_active_url src, le_resetToLedger := None,
      le_onEvent := webhook_send batched wenv sender\<rparr>"
    using assms(1) by (auto simp: createWebhookForwarder_def js_bind_def split: sum.splits)
  have "\<exists>e. le_getEvents env (hl_cursor st) w = (Throw e, w)"
    using rpc_getEvents_throws [of rpc src] by (simp add: env)
  then show ?thesis
    using assms(2) by (auto simp: start_def run_def is_running_def poll_once_def poll_failed_def env)
qed

definition example_webhook :: webhook_options where
  "example_webhook = \<lparr>wh_url = ''https://h'', wh_signingSecret = None, wh_timeoutMs = None, wh_maxRetries = None,
     wh_batchSize = None, wh_batchMaxWaitMs = None\<rparr>"

definition example_config :: listener_config where
  "example_config = \<lparr>lc_pollIntervalMs = None, lc_maxRetries = None, lc_backoff = None, lc_startLedger = None, lc_mode = None,
     lc_eventRetry = None, lc_concurrency = None, lc_orderingKey = None\<rparr>"

definition example_rpc_env :: "(nat, nat) rpc_env" where
  "example_rpc_env = \<lparr>rv_getEvents = (\<lambda>url http request w. ((Ret \<lparr>rr_events = None, rr_cursor = None, rr_latestLedger = None\<rparr>, 0), Suc w)),
     rv_xdr = example_sdk, rv_string = (\<lambda>v. []), rv_json = (\<lambda>v. JNull)\<rparr>"

definition example_webhook_env :: "nat webhook_env" where
  "example_webhook_env = \<lparr>we_hmac = toy_mac, we_fetch = (\<lambda>req w. (Ret 200, Suc w)), we_readErrorBody = None, we_now = (\<lambda>w. 0),
     we_random = (\<lambda>w. (0, w)), we_wait = (\<lambda>d w. w)\<rparr>"

theorem forwarder_never_forwards_witness:
  "\<exists>env opts st st'. createWebhookForwarder True (\<lambda>u. Ret ''https:'') no_active_url example_rpc_env example_webhook_env
      (\<lambda>s e w. (Ret (), w)) (down_env None) example_rpc example_webhook example_config = Ret (env, opts, st)
    \<and> start 1 env opts False st 0 = Some (Throw instanceof_error, st', 0)"
proof -
  obtain env opts st where c: "createWebhookForwarder True (\<lambda>u. Ret ''https:'') no_active_url example_rpc_env example_webhook_env
      (\<lambda>s e w. (Ret (), w)) (down_env None) example_rpc example_webhook example_config = Ret (env, opts, st)"
    by (simp add: createWebhookForwarder_def new_rpc_source_def example_rpc_def rpc_urls_def check_topics_def check_event_type_def
      new_webhook_sender_def example_webhook_def new_listener_def Let_def)
  have "le_gap (down_env None) = None" by (simp add: down_env_def)
  from forwarder_never_forwards [OF c this, of 0 0] c show ?thesis by auto
qed

end
