(* ===== verification/Sep45.thy ===== *)
theory Sep45
  imports Verify "HOL-Library.Word"
begin

text \<open>
  \<open>sep10-auth/src/sep45.ts\<close>: web authentication of contract accounts. An authorization entry is modelled as the
  value its XDR describes; addresses are their StrKey texts. What the SDK computes (XDR texts, signing, the
  hash of the preimage, ed25519 verification, key decoding) and the random source are the environment
  \<open>sep45_env\<close>, on which nothing is assumed but what a theorem says.
\<close>

section \<open>Values of the SDK\<close>

datatype scval =
    ScString string | ScSymbol string | ScBytes "nat list" | ScVoid | ScVec "scval list option"
  | ScMap "(scval \<times> scval) list option" | ScOther string

record address_credentials =
  ac_address :: string
  ac_nonce :: int
  ac_expirationLedger :: int
  ac_signature :: scval

datatype credentials = AddressCredentials address_credentials | SourceAccount

record contract_call =
  cc_contract :: string
  cc_function :: string
  cc_args :: "scval list"

datatype auth_function = ContractFn contract_call | OtherFn
datatype invocation = Invocation auth_function "invocation list"

record auth_entry =
  ae_credentials :: credentials
  ae_rootInvocation :: invocation

definition WEB_AUTH_FUNCTION_NAME :: string where
  "WEB_AUTH_FUNCTION_NAME = ''web_auth_verify''"

record 'w sep45_env =
  s4_isContract :: "string \<Rightarrow> bool"
  s4_isEd25519 :: "string \<Rightarrow> bool"
  s4_fromXDR :: "string \<Rightarrow> thrown + auth_entry"
  s4_toXDR :: "auth_entry \<Rightarrow> string"
  s4_valXDR :: "scval \<Rightarrow> string"
  s4_authorizeEntry :: "auth_entry \<Rightarrow> keypair \<Rightarrow> int \<Rightarrow> string \<Rightarrow> 'w \<Rightarrow> (thrown + auth_entry) \<times> 'w"
  s4_preimageHash :: "auth_entry \<Rightarrow> int \<Rightarrow> string \<Rightarrow> thrown + nat list"
  s4_decodeKey :: "string \<Rightarrow> nat list"
  s4_verify :: "string \<Rightarrow> nat list \<Rightarrow> nat list \<Rightarrow> thrown + bool"
  s4_testnet :: string
  s4_randomBytes :: "nat \<Rightarrow> 'w \<Rightarrow> nat list \<times> 'w"

section \<open>Generating a challenge\<close>

text \<open>\<open>validUntilLedger\<close> is \<open>None\<close> when it is not an integer.\<close>

record contract_challenge_options =
  co_webAuthContractId :: string
  co_validUntilLedger :: "int option"
  co_homeDomain :: "string option"
  co_webAuthDomain :: "string option"
  co_networkPassphrase :: "string option"

record contract_challenge =
  gc_authorizationEntries :: "string list"
  gc_nonce :: string
  gc_networkPassphrase :: string
  gc_validUntilLedger :: int

text \<open>\<open>Array.sort\<close> of strings, by code units.\<close>

fun str_less :: "string \<Rightarrow> string \<Rightarrow> bool" where
  "str_less s [] \<longleftrightarrow> False"
| "str_less [] (d # t) \<longleftrightarrow> True"
| "str_less (c # s) (d # t) \<longleftrightarrow> (of_char c :: nat) < of_char d \<or> (c = d \<and> str_less s t)"

fun insert_key :: "string \<times> string \<Rightarrow> (string \<times> string) list \<Rightarrow> (string \<times> string) list" where
  "insert_key kv [] = [kv]"
| "insert_key kv (kv' # kvs) = (if str_less (fst kv') (fst kv) then kv' # insert_key kv kvs else kv # kv' # kvs)"

definition buildArgsMap :: "(string \<times> string) list \<Rightarrow> scval" where
  "buildArgsMap args = ScMap (Some (map (\<lambda>(k, v). (ScString k, ScString v)) (foldr insert_key args [])))"

text \<open>\<open>BigInt.asIntN(64, \<dots>)\<close> of eight random bytes, read in big-endian order.\<close>

definition randomInt64 :: "nat list \<Rightarrow> int" where
  "randomInt64 bytes = sint (word_of_int (foldl (\<lambda>n b. n * 256 + int b) 0 bytes) :: 64 word)"

definition buildEntry :: "string \<Rightarrow> string \<Rightarrow> scval \<Rightarrow> int \<Rightarrow> nat list \<Rightarrow> auth_entry" where
  "buildEntry account webAuthContractId argsMap validUntilLedger bytes =
     \<lparr>ae_credentials = AddressCredentials \<lparr>ac_address = account, ac_nonce = randomInt64 bytes,
        ac_expirationLedger = validUntilLedger, ac_signature = ScVec (Some [])\<rparr>,
      ae_rootInvocation = Invocation (ContractFn \<lparr>cc_contract = webAuthContractId, cc_function = WEB_AUTH_FUNCTION_NAME,
        cc_args = [argsMap]\<rparr>) []\<rparr>"

definition check_contract_options ::
  "'w sep45_env \<Rightarrow> string \<Rightarrow> keypair \<Rightarrow> contract_challenge_options \<Rightarrow> thrown + string \<times> string \<times> int" where
  "check_contract_options env clientContractId serverKeypair options =
     (if \<not> kp_canSign serverKeypair then
        Throw (mk_error (''sep10-auth: serverKeypair cannot sign '' @ [CHR 0x97] @ '' provide a keypair with a secret key''))
      else if \<not> s4_isContract env clientContractId then
        Throw (mk_error (''sep10-auth: clientContractId must be a contract address (C...), got '' @ clientContractId))
      else if \<not> s4_isContract env (co_webAuthContractId options) then
        Throw (mk_error (''sep10-auth: webAuthContractId must be a contract address (C...), got '' @ co_webAuthContractId options))
      else case co_validUntilLedger options of
        None \<Rightarrow> Throw (mk_error ''sep10-auth: validUntilLedger must be a positive integer ledger sequence'')
      | Some until \<Rightarrow>
          if until \<le> 0 then Throw (mk_error ''sep10-auth: validUntilLedger must be a positive integer ledger sequence'')
          else
            let homeDomain = (case co_homeDomain options of None \<Rightarrow> ''localhost:3000'' | Some d \<Rightarrow> d);
                webAuthDomain = (case co_webAuthDomain options of None \<Rightarrow> homeDomain | Some d \<Rightarrow> d)
            in js_bind (assertBareDomain ''homeDomain'' homeDomain) (\<lambda>_.
               js_bind (assertBareDomain ''webAuthDomain'' webAuthDomain) (\<lambda>_. Ret (homeDomain, webAuthDomain, until))))"

definition challenge_args :: "string \<Rightarrow> string \<Rightarrow> string \<Rightarrow> string \<Rightarrow> string \<Rightarrow> (string \<times> string) list" where
  "challenge_args account homeDomain nonce webAuthDomain serverAccount =
     [(''account'', account), (''home_domain'', homeDomain), (''nonce'', nonce), (''web_auth_domain'', webAuthDomain),
      (''web_auth_domain_account'', serverAccount)]"

text \<open>The server's signed entry and the client's unsigned one, with the nonce, the network and the last ledger.\<close>

definition challenge_entries ::
  "'w sep45_env \<Rightarrow> string \<Rightarrow> keypair \<Rightarrow> contract_challenge_options \<Rightarrow> 'w
     \<Rightarrow> (thrown + auth_entry \<times> auth_entry \<times> string \<times> string \<times> int) \<times> 'w" where
  "challenge_entries env clientContractId serverKeypair options w =
     (case check_contract_options env clientContractId serverKeypair options of
        Throw e \<Rightarrow> (Throw e, w)
      | Ret (homeDomain, webAuthDomain, until) \<Rightarrow>
          (let networkPassphrase = (case co_networkPassphrase options of None \<Rightarrow> s4_testnet env | Some p \<Rightarrow> p);
               (nonceBytes, w) = s4_randomBytes env 16 w;
               nonce = hex_bytes nonceBytes;
               argsMap = buildArgsMap (challenge_args clientContractId homeDomain nonce webAuthDomain (kp_publicKey serverKeypair));
               (serverBytes, w) = s4_randomBytes env 8 w
           in case s4_authorizeEntry env
                  (buildEntry (kp_publicKey serverKeypair) (co_webAuthContractId options) argsMap until serverBytes)
                  serverKeypair until networkPassphrase w of
                (Throw e, w) \<Rightarrow> (Throw e, w)
              | (Ret serverEntry, w) \<Rightarrow>
                  (let (clientBytes, w) = s4_randomBytes env 8 w;
                       clientEntry = buildEntry clientContractId (co_webAuthContractId options) argsMap until clientBytes
                   in (Ret (serverEntry, clientEntry, nonce, networkPassphrase, until), w))))"

definition generateContractChallenge ::
  "'w sep45_env \<Rightarrow> string \<Rightarrow> keypair \<Rightarrow> contract_challenge_options \<Rightarrow> 'w \<Rightarrow> (thrown + contract_challenge) \<times> 'w" where
  "generateContractChallenge env clientContractId serverKeypair options w =
     (case challenge_entries env clientContractId serverKeypair options w of
        (Throw e, w) \<Rightarrow> (Throw e, w)
      | (Ret (serverEntry, clientEntry, nonce, networkPassphrase, until), w) \<Rightarrow>
          (Ret \<lparr>gc_authorizationEntries = [s4_toXDR env serverEntry, s4_toXDR env clientEntry], gc_nonce = nonce,
             gc_networkPassphrase = networkPassphrase, gc_validUntilLedger = until\<rparr>, w))"

section \<open>Verifying a challenge\<close>

record 'w contract_verify_options =
  cv_webAuthContractId :: string
  cv_serverAccountId :: string
  cv_homeDomains :: one_or_many
  cv_webAuthDomain :: one_or_many
  cv_networkPassphrase :: "string option"
  cv_currentLedger :: "int option"
  cv_verifyClientAuthorization :: "auth_entry \<Rightarrow> auth_entry list \<Rightarrow> 'w \<Rightarrow> (thrown + bool) \<times> 'w"

record contract_verify_result =
  cr_valid :: bool
  cr_address :: string
  cr_nonce :: "string option"
  cr_homeDomain :: "string option"
  cr_error :: "string option"
  cr_errorCode :: "verify_error_code option"

text \<open>What the \<open>try\<close> block throws: the module's own error class, or an error of the SDK.\<close>

datatype challenge_error = Challenge_Error verify_error_code string | Sdk_Error thrown

definition from_sdk :: "thrown + 'a \<Rightarrow> challenge_error + 'a" where
  "from_sdk r = (case r of Throw e \<Rightarrow> Throw (Sdk_Error e) | Ret a \<Rightarrow> Ret a)"

definition reject :: "verify_error_code \<Rightarrow> string \<Rightarrow> challenge_error + 'a" where
  "reject code message = Throw (Challenge_Error code (''sep10-auth: '' @ message))"

definition strip_label :: "string \<Rightarrow> string" where
  "strip_label s = (if take 12 s = ''sep10-auth: '' then drop 12 s else s)"

definition contract_failed :: "verify_error_code \<Rightarrow> string \<Rightarrow> contract_verify_result" where
  "contract_failed code message = \<lparr>cr_valid = False, cr_address = [], cr_nonce = None, cr_homeDomain = None,
     cr_error = Some (''sep10-auth: '' @ message), cr_errorCode = Some code\<rparr>"

definition addressCredentials :: "auth_entry \<Rightarrow> challenge_error + address_credentials" where
  "addressCredentials entry = (case ae_credentials entry of
       AddressCredentials c \<Rightarrow> Ret c
     | SourceAccount \<Rightarrow> reject InvalidChallenge ''entry does not use address credentials'')"

definition entryAddress :: "auth_entry \<Rightarrow> challenge_error + string" where
  "entryAddress entry = js_bind (addressCredentials entry) (\<lambda>c. Ret (ac_address c))"

text \<open>The entries of the map, as assignments to an object: \<open>__proto__\<close> with a string value sets nothing.\<close>

fun read_map :: "(scval \<times> scval) list \<Rightarrow> (string \<times> string) list \<Rightarrow> challenge_error + (string \<times> string) list" where
  "read_map [] args = Ret args"
| "read_map ((ScString k, ScString v) # items) args = read_map items (if k = ''__proto__'' then args else map_set k v args)"
| "read_map (item # items) args = reject InvalidChallenge ''argument map must be Map<String,String>''"

definition readArgs :: "'w sep45_env \<Rightarrow> auth_entry \<Rightarrow> string \<Rightarrow> challenge_error + (string \<times> string) list \<times> string" where
  "readArgs env entry webAuthContractId =
     (case ae_rootInvocation entry of Invocation fn subs \<Rightarrow>
        if subs \<noteq> [] then reject InvalidChallenge ''unexpected sub-invocations''
        else (case fn of
            OtherFn \<Rightarrow> reject InvalidChallenge ''entry is not a contract invocation''
          | ContractFn call \<Rightarrow>
              if cc_contract call \<noteq> webAuthContractId then reject InvalidChallenge ''wrong web auth contract''
              else if cc_function call \<noteq> WEB_AUTH_FUNCTION_NAME then
                reject InvalidChallenge (''function must be '' @ WEB_AUTH_FUNCTION_NAME)
              else (case cc_args call of
                  [ScMap m] \<Rightarrow> js_bind (read_map (case m of None \<Rightarrow> [] | Some items \<Rightarrow> items) [])
                     (\<lambda>args. Ret (args, s4_valXDR env (ScMap m)))
                | _ \<Rightarrow> reject InvalidChallenge ''expected a single map argument'')))"

fun signature_fields :: "(scval \<times> scval) list \<Rightarrow> nat list option \<times> nat list option \<Rightarrow> nat list option \<times> nat list option" where
  "signature_fields [] s = s"
| "signature_fields ((ScSymbol name, ScBytes b) # items) (p, s) =
     signature_fields items (if name = ''public_key'' then (Some b, s) else if name = ''signature'' then (p, Some b) else (p, s))"
| "signature_fields (item # items) s = signature_fields items s"

definition readSignature :: "address_credentials \<Rightarrow> (nat list \<times> nat list) option" where
  "readSignature creds =
     (case ac_signature creds of
        ScVec (Some [ScMap m]) \<Rightarrow>
          (case signature_fields (case m of None \<Rightarrow> [] | Some items \<Rightarrow> items) (None, None) of
             (Some publicKey, Some signature) \<Rightarrow> Some (publicKey, signature)
           | _ \<Rightarrow> None)
      | _ \<Rightarrow> None)"

definition hasSignature :: "address_credentials \<Rightarrow> bool" where
  "hasSignature creds = (case ac_signature creds of
       ScVoid \<Rightarrow> False | ScVec None \<Rightarrow> False | ScVec (Some vs) \<Rightarrow> vs \<noteq> [] | _ \<Rightarrow> True)"

record parsed_entry =
  pe_entry :: auth_entry
  pe_address :: string
  pe_args :: "(string \<times> string) list"
  pe_raw :: string

definition parse_entry :: "'w sep45_env \<Rightarrow> string \<Rightarrow> auth_entry \<Rightarrow> challenge_error + parsed_entry" where
  "parse_entry env webAuthContractId entry =
     js_bind (entryAddress entry) (\<lambda>address. js_bind (readArgs env entry webAuthContractId) (\<lambda>(args, raw).
       Ret \<lparr>pe_entry = entry, pe_address = address, pe_args = args, pe_raw = raw\<rparr>))"

text \<open>Two entries: the server's is the first with the server's address, the client's the other one.\<close>

definition split_entries ::
  "'w sep45_env \<Rightarrow> 'w contract_verify_options \<Rightarrow> string list \<Rightarrow> challenge_error + parsed_entry \<times> parsed_entry \<times> auth_entry list" where
  "split_entries env options authorizationEntries =
     (case authorizationEntries of
        [x0, x1] \<Rightarrow>
          js_bind (from_sdk (s4_fromXDR env x0)) (\<lambda>e0. js_bind (from_sdk (s4_fromXDR env x1)) (\<lambda>e1.
          js_bind (parse_entry env (cv_webAuthContractId options) e0) (\<lambda>p0.
          js_bind (parse_entry env (cv_webAuthContractId options) e1) (\<lambda>p1.
            if pe_raw p0 \<noteq> pe_raw p1 then reject InvalidChallenge ''entries carry different arguments''
            else if pe_address p0 = cv_serverAccountId options then Ret (p0, p1, [e0, e1])
            else if pe_address p1 = cv_serverAccountId options then Ret (p1, p0, [e0, e1])
            else reject InvalidChallenge ''server authorization entry missing''))))
      | _ \<Rightarrow> reject InvalidChallenge ''expected exactly two authorization entries (server and client)'')"

definition shown :: "string option \<Rightarrow> string" where
  "shown v = (case v of None \<Rightarrow> ''undefined'' | Some s \<Rightarrow> s)"

definition in_quotes :: "string \<Rightarrow> string" where
  "in_quotes s = [CHR 0x22] @ s @ [CHR 0x22]"

text \<open>The checks of the arguments; the result is the nonce and the home domain.\<close>

definition check_args ::
  "'w sep45_env \<Rightarrow> 'w contract_verify_options \<Rightarrow> parsed_entry \<Rightarrow> parsed_entry \<Rightarrow> challenge_error + string \<times> string" where
  "check_args env options server client =
     (let args = map_get (pe_args server) in
      if \<not> s4_isContract env (pe_address client) then reject InvalidChallenge ''client entry must be a contract account''
      else if args ''account'' \<noteq> Some (pe_address client) then
        reject InvalidChallenge ''account argument does not match client entry''
      else if args ''web_auth_domain_account'' \<noteq> Some (cv_serverAccountId options) then
        reject WrongSigner ''web_auth_domain_account is not the server account''
      else if \<not> list_ex (\<lambda>d. args ''home_domain'' = Some d) (as_array (cv_homeDomains options)) then
        reject WrongDomain (''unexpected home_domain '' @ in_quotes (shown (args ''home_domain'')))
      else if \<not> list_ex (\<lambda>d. args ''web_auth_domain'' = Some d) (as_array (cv_webAuthDomain options)) then
        reject WrongDomain (''unexpected web_auth_domain '' @ in_quotes (shown (args ''web_auth_domain'')))
      else if args ''nonce'' = None \<or> args ''nonce'' = Some [] then reject InvalidChallenge ''nonce argument missing''
      else Ret (shown (args ''nonce''), shown (args ''home_domain'')))"

definition check_expiry :: "'w contract_verify_options \<Rightarrow> address_credentials \<Rightarrow> address_credentials \<Rightarrow> challenge_error + unit" where
  "check_expiry options serverCreds clientCreds =
     (case cv_currentLedger options of
        None \<Rightarrow> Ret ()
      | Some l \<Rightarrow>
          if ac_expirationLedger serverCreds < l \<or> ac_expirationLedger clientCreds < l then
            reject ChallengeExpired ''challenge expired''
          else Ret ())"

definition check_server_signature ::
  "'w sep45_env \<Rightarrow> 'w contract_verify_options \<Rightarrow> string \<Rightarrow> auth_entry \<Rightarrow> address_credentials \<Rightarrow> challenge_error + unit" where
  "check_server_signature env options networkPassphrase entry creds =
     js_bind (from_sdk (s4_preimageHash env entry (ac_expirationLedger creds) networkPassphrase)) (\<lambda>h.
       case readSignature creds of
         None \<Rightarrow> reject WrongSigner ''invalid server signature''
       | Some (publicKey, signature) \<Rightarrow>
           if publicKey \<noteq> s4_decodeKey env (cv_serverAccountId options) then reject WrongSigner ''invalid server signature''
           else js_bind (from_sdk (s4_verify env (cv_serverAccountId options) h signature)) (\<lambda>ok.
             if ok then Ret () else reject WrongSigner ''invalid server signature''))"

definition verify_entries ::
  "'w sep45_env \<Rightarrow> 'w contract_verify_options \<Rightarrow> string \<Rightarrow> string list \<Rightarrow> 'w \<Rightarrow> (challenge_error + contract_verify_result) \<times> 'w" where
  "verify_entries env options networkPassphrase authorizationEntries w =
     (case js_bind (split_entries env options authorizationEntries) (\<lambda>(server, client, entries).
             js_bind (check_args env options server client) (\<lambda>(nonce, homeDomain).
             js_bind (addressCredentials (pe_entry server)) (\<lambda>serverCreds.
             js_bind (addressCredentials (pe_entry client)) (\<lambda>clientCreds.
             js_bind (check_expiry options serverCreds clientCreds) (\<lambda>_.
             js_bind (check_server_signature env options networkPassphrase (pe_entry server) serverCreds) (\<lambda>_.
               Ret (client, entries, nonce, homeDomain, clientCreds))))))) of
        Throw e \<Rightarrow> (Throw e, w)
      | Ret (client, entries, nonce, homeDomain, clientCreds) \<Rightarrow>
          if \<not> hasSignature clientCreds then (reject WrongSigner ''client authorization not valid'', w)
          else (case cv_verifyClientAuthorization options (pe_entry client) entries w of
              (Throw e, w) \<Rightarrow> (Throw (Sdk_Error e), w)
            | (Ret ok, w) \<Rightarrow>
                (if ok then Ret \<lparr>cr_valid = True, cr_address = pe_address client, cr_nonce = Some nonce,
                     cr_homeDomain = Some homeDomain, cr_error = None, cr_errorCode = None\<rparr>
                 else reject WrongSigner ''client authorization not valid'', w)))"

definition verifyContractChallenge ::
  "'w sep45_env \<Rightarrow> string list \<Rightarrow> 'w contract_verify_options \<Rightarrow> 'w \<Rightarrow> contract_verify_result \<times> 'w" where
  "verifyContractChallenge env authorizationEntries options w =
     (if \<not> s4_isEd25519 env (cv_serverAccountId options) then
        (contract_failed InvalidServerAccountId (''Invalid serverAccountId: '' @ cv_serverAccountId options), w)
      else if \<not> s4_isContract env (cv_webAuthContractId options) then
        (contract_failed InvalidOptions (''Invalid webAuthContractId: '' @ cv_webAuthContractId options), w)
      else (case js_bind (assert_all ''homeDomains'' (as_array (cv_homeDomains options)))
                  (\<lambda>_. assert_all ''webAuthDomain'' (as_array (cv_webAuthDomain options))) of
          Throw e \<Rightarrow> (contract_failed InvalidOptions (strip_label (thrown_message e)), w)
        | Ret _ \<Rightarrow>
            (let networkPassphrase = (case cv_networkPassphrase options of None \<Rightarrow> s4_testnet env | Some p \<Rightarrow> p) in
             case verify_entries env options networkPassphrase authorizationEntries w of
               (Ret result, w) \<Rightarrow> (result, w)
             | (Throw (Challenge_Error code message), w) \<Rightarrow> (contract_failed code (strip_label message), w)
             | (Throw (Sdk_Error e), w) \<Rightarrow> (contract_failed InvalidChallenge (if is_error e then thrown_message e else thrown_string e), w))))"

section \<open>What a valid result rests on\<close>

definition web_auth_entry :: "string \<Rightarrow> scval \<Rightarrow> auth_entry \<Rightarrow> bool" where
  "web_auth_entry contract m entry \<longleftrightarrow> (case ae_rootInvocation entry of
       Invocation (ContractFn call) [] \<Rightarrow> cc_contract call = contract \<and> cc_function call = WEB_AUTH_FUNCTION_NAME \<and> cc_args call = [m]
     | _ \<Rightarrow> False)"

lemma reject_not_Ret [simp]: "reject code message \<noteq> Ret a"
  by (simp add: reject_def)

lemma from_sdk_Ret [simp]: "from_sdk r = Ret a \<longleftrightarrow> r = Ret a"
  by (simp add: from_sdk_def split: sum.split)

lemma readArgs_Ret:
  assumes "readArgs env entry contract = Ret (args, raw)"
  shows "\<exists>m. web_auth_entry contract (ScMap m) entry \<and> read_map (case m of None \<Rightarrow> [] | Some items \<Rightarrow> items) [] = Ret args
      \<and> raw = s4_valXDR env (ScMap m)"
  using assms unfolding readArgs_def web_auth_entry_def
  by (auto split: invocation.splits if_splits auth_function.splits list.splits scval.splits
      simp: js_bind_Ret_iff)

lemma parse_entry_Ret:
  assumes "parse_entry env contract entry = Ret p"
  shows "pe_entry p = entry \<and> (\<exists>c m. ae_credentials entry = AddressCredentials c \<and> pe_address p = ac_address c
      \<and> web_auth_entry contract (ScMap m) entry \<and> read_map (case m of None \<Rightarrow> [] | Some items \<Rightarrow> items) [] = Ret (pe_args p)
      \<and> pe_raw p = s4_valXDR env (ScMap m))"
  using assms readArgs_Ret[of env entry contract]
  by (fastforce simp: parse_entry_def entryAddress_def addressCredentials_def js_bind_Ret_iff split: credentials.splits)

lemma split_entries_Ret:
  assumes "split_entries env options xdrs = Ret (server, client, entries)"
  shows "\<exists>x0 x1 e0 e1. xdrs = [x0, x1] \<and> s4_fromXDR env x0 = Ret e0 \<and> s4_fromXDR env x1 = Ret e1 \<and> entries = [e0, e1]
      \<and> (pe_entry server, pe_entry client) \<in> {(e0, e1), (e1, e0)} \<and> pe_raw server = pe_raw client
      \<and> pe_address server = cv_serverAccountId options
      \<and> parse_entry env (cv_webAuthContractId options) (pe_entry server) = Ret server
      \<and> parse_entry env (cv_webAuthContractId options) (pe_entry client) = Ret client"
  using assms unfolding split_entries_def
  by (auto simp: js_bind_Ret_iff split: list.splits if_splits dest: parse_entry_Ret)

lemma check_args_Ret:
  assumes "check_args env options server client = Ret (nonce, homeDomain)"
  shows "s4_isContract env (pe_address client) \<and> map_get (pe_args server) ''account'' = Some (pe_address client)
      \<and> map_get (pe_args server) ''web_auth_domain_account'' = Some (cv_serverAccountId options)
      \<and> map_get (pe_args server) ''home_domain'' = Some homeDomain \<and> homeDomain \<in> set (as_array (cv_homeDomains options))
      \<and> (\<exists>d \<in> set (as_array (cv_webAuthDomain options)). map_get (pe_args server) ''web_auth_domain'' = Some d)
      \<and> map_get (pe_args server) ''nonce'' = Some nonce \<and> nonce \<noteq> []"
  using assms by (auto simp: check_args_def Let_def list_ex_iff shown_def split: if_splits option.splits)

lemma check_server_signature_Ret:
  "check_server_signature env options passphrase entry creds = Ret u \<longleftrightarrow>
     (\<exists>h signature. s4_preimageHash env entry (ac_expirationLedger creds) passphrase = Ret h
        \<and> readSignature creds = Some (s4_decodeKey env (cv_serverAccountId options), signature)
        \<and> s4_verify env (cv_serverAccountId options) h signature = Ret True)"
proof (cases "readSignature creds")
  case (Some k)
  then show ?thesis by (cases k) (auto simp: check_server_signature_def js_bind_Ret_iff)
qed (auto simp: check_server_signature_def js_bind_Ret_iff)

lemma check_expiry_Ret: "check_expiry options sc cc = Ret u \<longleftrightarrow>
    (case cv_currentLedger options of None \<Rightarrow> True | Some l \<Rightarrow> l \<le> ac_expirationLedger sc \<and> l \<le> ac_expirationLedger cc)"
  by (auto simp: check_expiry_def not_less split: option.split)

lemma verify_entries_Ret:
  assumes "verify_entries env options passphrase xdrs w = (Ret r, w')"
  shows "\<exists>server client entries nonce homeDomain sc cc.
      split_entries env options xdrs = Ret (server, client, entries)
      \<and> check_args env options server client = Ret (nonce, homeDomain)
      \<and> ae_credentials (pe_entry server) = AddressCredentials sc \<and> ae_credentials (pe_entry client) = AddressCredentials cc
      \<and> check_expiry options sc cc = Ret () \<and> check_server_signature env options passphrase (pe_entry server) sc = Ret ()
      \<and> hasSignature cc \<and> cv_verifyClientAuthorization options (pe_entry client) entries w = (Ret True, w')
      \<and> r = \<lparr>cr_valid = True, cr_address = pe_address client, cr_nonce = Some nonce, cr_homeDomain = Some homeDomain,
          cr_error = None, cr_errorCode = None\<rparr>"
  using assms unfolding verify_entries_def
  by (auto simp: js_bind_Ret_iff addressCredentials_def split: sum.splits prod.splits credentials.splits if_splits)

definition contract_options_ok :: "'w sep45_env \<Rightarrow> 'w contract_verify_options \<Rightarrow> bool" where
  "contract_options_ok env options \<longleftrightarrow> s4_isEd25519 env (cv_serverAccountId options) \<and> s4_isContract env (cv_webAuthContractId options)
     \<and> list_all (\<lambda>d. \<not> not_bare d) (as_array (cv_homeDomains options)) \<and> list_all (\<lambda>d. \<not> not_bare d) (as_array (cv_webAuthDomain options))"

definition network_of :: "'w sep45_env \<Rightarrow> string option \<Rightarrow> string" where
  "network_of env p = (case p of None \<Rightarrow> s4_testnet env | Some p \<Rightarrow> p)"

lemma contract_failed_invalid [simp]: "\<not> cr_valid (contract_failed code message)"
  by (simp add: contract_failed_def)

lemma verifyContractChallenge_ok:
  assumes "contract_options_ok env options"
  shows "verifyContractChallenge env xdrs options w =
    (case verify_entries env options (network_of env (cv_networkPassphrase options)) xdrs w of
        (Ret result, w) \<Rightarrow> (result, w)
      | (Throw (Challenge_Error code message), w) \<Rightarrow> (contract_failed code (strip_label message), w)
      | (Throw (Sdk_Error e), w) \<Rightarrow> (contract_failed InvalidChallenge (if is_error e then thrown_message e else thrown_string e), w))"
  using assms by (simp add: verifyContractChallenge_def contract_options_ok_def assert_all_iff [THEN iffD2] network_of_def)

lemma verifyContractChallenge_bad:
  assumes "\<not> contract_options_ok env options"
  shows "\<exists>code message. verifyContractChallenge env xdrs options w = (contract_failed code message, w)"
proof (cases "js_bind (assert_all ''homeDomains'' (as_array (cv_homeDomains options)))
    (\<lambda>_. assert_all ''webAuthDomain'' (as_array (cv_webAuthDomain options)))")
  case (Inr u)
  with assms have "\<not> s4_isEd25519 env (cv_serverAccountId options) \<or> \<not> s4_isContract env (cv_webAuthContractId options)"
    by (auto simp: contract_options_ok_def js_bind_Ret_iff assert_all_iff)
  then show ?thesis by (auto simp: verifyContractChallenge_def)
qed (auto simp: verifyContractChallenge_def)

lemma verify_valid_entries:
  assumes "verifyContractChallenge env xdrs options w = (r, w')" "cr_valid r"
  shows "contract_options_ok env options \<and> verify_entries env options (network_of env (cv_networkPassphrase options)) xdrs w = (Ret r, w')"
proof -
  have ok: "contract_options_ok env options"
    using assms verifyContractChallenge_bad [of env options xdrs w] by fastforce
  from assms show ?thesis unfolding verifyContractChallenge_ok [OF ok]
    by (auto simp: ok split: prod.splits sum.splits challenge_error.splits)
qed

text \<open>
  C16. A valid result of verifyContractChallenge rests on exactly two entries the SDK decodes, in either order: the
  server's, for the configured account, and the client's. Both call web_auth_verify of the configured contract
  without sub-invocations, on a map with the same XDR; its arguments name the authenticated address, which is a
  contract and the address of the client's entry, the server's account, a configured home and web-auth domain and a
  nonce that is not empty, and are what the result reports. Neither entry has expired at the current ledger, if it is given. The
  server's entry carries a signature of its preimage, with its own expiration and the configured network, by the
  server's key; the client's carries a signature, and the caller's check approved it, on these two entries.
\<close>

theorem contract_verify_sound:
  assumes "verifyContractChallenge env xdrs options w = (r, w')" "cr_valid r"
  shows "\<exists>x0 x1 e0 e1 server client sc cc m m' args h signature.
      xdrs = [x0, x1] \<and> s4_fromXDR env x0 = Ret e0 \<and> s4_fromXDR env x1 = Ret e1
      \<and> (server, client) \<in> {(e0, e1), (e1, e0)}
      \<and> ae_credentials server = AddressCredentials sc \<and> ae_credentials client = AddressCredentials cc
      \<and> web_auth_entry (cv_webAuthContractId options) (ScMap m) server \<and> web_auth_entry (cv_webAuthContractId options) (ScMap m') client
      \<and> s4_valXDR env (ScMap m) = s4_valXDR env (ScMap m')
      \<and> read_map (case m of None \<Rightarrow> [] | Some items \<Rightarrow> items) [] = Ret args
      \<and> ac_address sc = cv_serverAccountId options \<and> map_get args ''web_auth_domain_account'' = Some (cv_serverAccountId options)
      \<and> ac_address cc = cr_address r \<and> s4_isContract env (cr_address r) \<and> map_get args ''account'' = Some (cr_address r)
      \<and> map_get args ''home_domain'' = cr_homeDomain r \<and> cr_homeDomain r \<in> Some ` set (as_array (cv_homeDomains options))
      \<and> map_get args ''web_auth_domain'' \<in> Some ` set (as_array (cv_webAuthDomain options))
      \<and> map_get args ''nonce'' = cr_nonce r \<and> cr_nonce r \<notin> {None, Some []}
      \<and> (case cv_currentLedger options of None \<Rightarrow> True | Some l \<Rightarrow> l \<le> ac_expirationLedger sc \<and> l \<le> ac_expirationLedger cc)
      \<and> s4_preimageHash env server (ac_expirationLedger sc) (network_of env (cv_networkPassphrase options)) = Ret h
      \<and> readSignature sc = Some (s4_decodeKey env (cv_serverAccountId options), signature)
      \<and> s4_verify env (cv_serverAccountId options) h signature = Ret True
      \<and> hasSignature cc \<and> cv_verifyClientAuthorization options client [e0, e1] w = (Ret True, w')"
proof -
  from verify_valid_entries [OF assms] verify_entries_Ret [of env options _ xdrs w r w']
  obtain server client entries nonce homeDomain sc cc where split: "split_entries env options xdrs = Ret (server, client, entries)"
    and args: "check_args env options server client = Ret (nonce, homeDomain)"
    and cred: "ae_credentials (pe_entry server) = AddressCredentials sc" "ae_credentials (pe_entry client) = AddressCredentials cc"
    and expiry: "check_expiry options sc cc = Ret ()"
    and signature: "check_server_signature env options (network_of env (cv_networkPassphrase options)) (pe_entry server) sc = Ret ()"
    and rest: "hasSignature cc" "cv_verifyClientAuthorization options (pe_entry client) entries w = (Ret True, w')"
      "r = \<lparr>cr_valid = True, cr_address = pe_address client, cr_nonce = Some nonce, cr_homeDomain = Some homeDomain,
          cr_error = None, cr_errorCode = None\<rparr>" by blast
  from split_entries_Ret [OF split] obtain x0 x1 e0 e1 where entries: "xdrs = [x0, x1]" "s4_fromXDR env x0 = Ret e0"
    "s4_fromXDR env x1 = Ret e1" "entries = [e0, e1]" "(pe_entry server, pe_entry client) \<in> {(e0, e1), (e1, e0)}"
    "pe_raw server = pe_raw client" "pe_address server = cv_serverAccountId options"
    and parse: "parse_entry env (cv_webAuthContractId options) (pe_entry server) = Ret server"
      "parse_entry env (cv_webAuthContractId options) (pe_entry client) = Ret client" by blast
  from parse_entry_Ret [OF parse(1)] parse_entry_Ret [OF parse(2)] cred obtain m m' where
    calls: "web_auth_entry (cv_webAuthContractId options) (ScMap m) (pe_entry server)"
      "web_auth_entry (cv_webAuthContractId options) (ScMap m') (pe_entry client)"
      "read_map (case m of None \<Rightarrow> [] | Some items \<Rightarrow> items) [] = Ret (pe_args server)"
    and raw: "pe_raw server = s4_valXDR env (ScMap m)" "pe_raw client = s4_valXDR env (ScMap m')"
    and address: "pe_address server = ac_address sc" "pe_address client = ac_address cc" by auto
  from signature obtain h s where signed:
    "s4_preimageHash env (pe_entry server) (ac_expirationLedger sc) (network_of env (cv_networkPassphrase options)) = Ret h"
    "readSignature sc = Some (s4_decodeKey env (cv_serverAccountId options), s)"
    "s4_verify env (cv_serverAccountId options) h s = Ret True" by (auto simp: check_server_signature_Ret)
  note found = check_args_Ret [OF args, unfolded address]
  from found have domain: "map_get (pe_args server) ''web_auth_domain'' \<in> Some ` set (as_array (cv_webAuthDomain options))"
    "Some homeDomain \<in> Some ` set (as_array (cv_homeDomains options))" "Some nonce \<notin> {None, Some []}" by auto
  have same: "s4_valXDR env (ScMap m) = s4_valXDR env (ScMap m')" "ac_address sc = cv_serverAccountId options"
    using entries(6, 7) raw address by simp_all
  have r: "cr_address r = ac_address cc" "cr_nonce r = Some nonce" "cr_homeDomain r = Some homeDomain"
    by (simp_all add: rest address)
  show ?thesis unfolding r
    using entries(1-3, 5) cred calls same domain found expiry [unfolded check_expiry_Ret] signed rest(1) rest(2) [unfolded entries(4)]
    by blast
qed

section \<open>A challenge that is signed verifies\<close>

definition with_signature :: "scval \<Rightarrow> auth_entry \<Rightarrow> auth_entry" where
  "with_signature signature entry = entry\<lparr>ae_credentials := (case ae_credentials entry of
       AddressCredentials c \<Rightarrow> AddressCredentials (c\<lparr>ac_signature := signature\<rparr>) | SourceAccount \<Rightarrow> SourceAccount)\<rparr>"

definition account_signature :: "nat list \<Rightarrow> nat list \<Rightarrow> scval" where
  "account_signature publicKey signature =
     ScVec (Some [ScMap (Some [(ScSymbol ''public_key'', ScBytes publicKey), (ScSymbol ''signature'', ScBytes signature)])])"

text \<open>
  What \<open>authorizeEntry\<close> documents for a keypair: the entry with a signature of its preimage, in the account form, that
  the key verifies.
\<close>

definition sdk_signs :: "'w sep45_env \<Rightarrow> keypair \<Rightarrow> bool" where
  "sdk_signs env kp \<longleftrightarrow> (\<forall>e c until passphrase w e' w'.
     ae_credentials e = AddressCredentials c \<longrightarrow> ac_expirationLedger c = until \<longrightarrow>
     s4_authorizeEntry env e kp until passphrase w = (Ret e', w') \<longrightarrow>
     (\<exists>s h. e' = with_signature (account_signature (s4_decodeKey env (kp_publicKey kp)) s) e
        \<and> s4_preimageHash env e' until passphrase = Ret h \<and> s4_verify env (kp_publicKey kp) h s = Ret True))"

lemma buildArgsMap_challenge:
  "buildArgsMap (challenge_args a h n d s) = ScMap (Some [(ScString ''account'', ScString a), (ScString ''home_domain'', ScString h),
     (ScString ''nonce'', ScString n), (ScString ''web_auth_domain'', ScString d), (ScString ''web_auth_domain_account'', ScString s)])"
  by (simp add: buildArgsMap_def challenge_args_def)

lemma challenge_entries_Ret:
  assumes "challenge_entries env clientId kp options w = (Ret (server, client, nonce, passphrase, until), w')"
  shows "\<exists>home d bytes bytes' w1 w2. check_contract_options env clientId kp options = Ret (home, d, until)
     \<and> passphrase = network_of env (co_networkPassphrase options) \<and> nonce = hex_bytes (fst (s4_randomBytes env 16 w))
     \<and> s4_authorizeEntry env (buildEntry (kp_publicKey kp) (co_webAuthContractId options)
          (buildArgsMap (challenge_args clientId home nonce d (kp_publicKey kp))) until bytes) kp until passphrase w1 = (Ret server, w2)
     \<and> client = buildEntry clientId (co_webAuthContractId options)
          (buildArgsMap (challenge_args clientId home nonce d (kp_publicKey kp))) until bytes'"
  using assms unfolding challenge_entries_def network_of_def
  by (auto simp: Let_def split: sum.splits prod.splits)

lemma check_contract_options_Ret:
  assumes "check_contract_options env clientId kp options = Ret (home, d, until)"
  shows "home = (case co_homeDomain options of None \<Rightarrow> ''localhost:3000'' | Some h \<Rightarrow> h)
     \<and> d = (case co_webAuthDomain options of None \<Rightarrow> home | Some d \<Rightarrow> d) \<and> s4_isContract env clientId
     \<and> co_validUntilLedger options = Some until \<and> 0 < until \<and> \<not> not_bare home \<and> \<not> not_bare d"
  using assms unfolding check_contract_options_def
  by (auto simp: Let_def js_bind_Ret_iff assertBareDomain_def split: if_splits option.splits)

lemma parse_buildEntry:
  "parse_entry env contract (with_signature sig (buildEntry a contract (buildArgsMap (challenge_args c h n d s)) until bytes)) =
     Ret \<lparr>pe_entry = with_signature sig (buildEntry a contract (buildArgsMap (challenge_args c h n d s)) until bytes), pe_address = a,
        pe_args = challenge_args c h n d s, pe_raw = s4_valXDR env (buildArgsMap (challenge_args c h n d s))\<rparr>"
  unfolding buildArgsMap_challenge
  by (simp add: parse_entry_def entryAddress_def addressCredentials_def with_signature_def buildEntry_def readArgs_def
      challenge_args_def)

lemma readSignature_account: "ac_signature c = account_signature k s \<Longrightarrow> readSignature c = Some (k, s)"
  by (simp add: readSignature_def account_signature_def)

lemma check_args_challenge:
  assumes "map_get args ''account'' = Some (pe_address client)" "map_get args ''web_auth_domain_account'' = Some (cv_serverAccountId options)"
    "map_get args ''home_domain'' = Some h" "map_get args ''web_auth_domain'' = Some d" "map_get args ''nonce'' = Some n"
    "pe_args server = args" "s4_isContract env (pe_address client)"
    "h \<in> set (as_array (cv_homeDomains options))" "d \<in> set (as_array (cv_webAuthDomain options))" "n \<noteq> []"
  shows "check_args env options server client = Ret (n, h)"
  using assms by (auto simp: check_args_def Let_def list_ex_iff shown_def)

lemma verify_entries_accepts:
  assumes split: "split_entries env options xdrs = Ret (server, client, entries)"
    and args: "check_args env options server client = Ret (nonce, homeDomain)"
    and cred: "ae_credentials (pe_entry server) = AddressCredentials sc" "ae_credentials (pe_entry client) = AddressCredentials cc"
    and expiry: "check_expiry options sc cc = Ret ()"
    and signature: "check_server_signature env options passphrase (pe_entry server) sc = Ret ()"
    and client: "hasSignature cc" "cv_verifyClientAuthorization options (pe_entry client) entries w = (Ret True, w')"
  shows "verify_entries env options passphrase xdrs w = (Ret \<lparr>cr_valid = True, cr_address = pe_address client, cr_nonce = Some nonce,
      cr_homeDomain = Some homeDomain, cr_error = None, cr_errorCode = None\<rparr>, w')"
  using assms by (simp add: verify_entries_def addressCredentials_def)

lemma with_signature_build:
  "ae_credentials (with_signature sig (buildEntry a contract m until bytes)) =
     AddressCredentials \<lparr>ac_address = a, ac_nonce = randomInt64 bytes, ac_expirationLedger = until, ac_signature = sig\<rparr>"
  by (simp add: with_signature_def buildEntry_def)

lemma with_signature_twice: "with_signature s (with_signature s' e) = with_signature s e"
  by (simp add: with_signature_def split: credentials.split)

lemma hex_bytes_not_Nil: "bs \<noteq> [] \<Longrightarrow> hex_bytes bs \<noteq> []"
  by (cases bs) (simp_all add: hex_bytes_def)

lemma challenge_entries_signed:
  assumes "challenge_entries env clientId kp gen w = (Ret (server, client, nonce, passphrase, until), w1)" and "sdk_signs env kp"
    and "check_contract_options env clientId kp gen = Ret (home, d, until)"
  shows "\<exists>bytes bytes' s h. server = with_signature (account_signature (s4_decodeKey env (kp_publicKey kp)) s)
        (buildEntry (kp_publicKey kp) (co_webAuthContractId gen) (buildArgsMap (challenge_args clientId home nonce d (kp_publicKey kp))) until bytes)
     \<and> s4_preimageHash env server until passphrase = Ret h \<and> s4_verify env (kp_publicKey kp) h s = Ret True
     \<and> client = buildEntry clientId (co_webAuthContractId gen) (buildArgsMap (challenge_args clientId home nonce d (kp_publicKey kp))) until bytes'
     \<and> nonce = hex_bytes (fst (s4_randomBytes env 16 w)) \<and> passphrase = network_of env (co_networkPassphrase gen)"
proof -
  let ?entry = "buildEntry (kp_publicKey kp) (co_webAuthContractId gen) (buildArgsMap (challenge_args clientId home nonce d (kp_publicKey kp))) until"
  from challenge_entries_Ret [OF assms(1)] assms(3) obtain bytes bytes' w4 w5 where
    authorized: "s4_authorizeEntry env (?entry bytes) kp until passphrase w4 = (Ret server, w5)"
    and rest: "client = buildEntry clientId (co_webAuthContractId gen) (buildArgsMap (challenge_args clientId home nonce d (kp_publicKey kp))) until bytes'"
      "nonce = hex_bytes (fst (s4_randomBytes env 16 w))" "passphrase = network_of env (co_networkPassphrase gen)"
    by auto
  have "ae_credentials (?entry bytes) = AddressCredentials
      \<lparr>ac_address = kp_publicKey kp, ac_nonce = randomInt64 bytes, ac_expirationLedger = until, ac_signature = ScVec (Some [])\<rparr>"
    by (simp add: buildEntry_def)
  from assms(2) [unfolded sdk_signs_def, rule_format, OF this _ authorized] rest show ?thesis by auto
qed

text \<open>
  C17. A challenge of generateContractChallenge verifies once the client has signed its entry: with the entries returned
  in either order, verifyContractChallenge authenticates the client's contract, with the nonce and the home domain of
  the challenge, when its options name the same server, contract, network and domains, the ledger is at most the
  challenge's last one, and the caller's check approves the client's signature.
\<close>

theorem contract_challenge_roundtrip:
  assumes entries: "challenge_entries env clientId kp gen w = (Ret (server, client, nonce, passphrase, until), w1)"
    and xdr: "s4_fromXDR env (s4_toXDR env server) = Ret server"
      "s4_fromXDR env (s4_toXDR env (with_signature sig client)) = Ret (with_signature sig client)"
    and sdk: "sdk_signs env kp" "fst (s4_randomBytes env 16 w) \<noteq> []"
    and signed: "sig \<notin> {ScVoid, ScVec None, ScVec (Some [])}"
    and order: "es \<in> {[server, with_signature sig client], [with_signature sig client, server]}"
    and approved: "cv_verifyClientAuthorization options (with_signature sig client) es w2 = (Ret True, w3)"
    and options: "contract_options_ok env options" "cv_serverAccountId options = kp_publicKey kp" "clientId \<noteq> kp_publicKey kp"
      "cv_webAuthContractId options = co_webAuthContractId gen"
      "network_of env (cv_networkPassphrase options) = network_of env (co_networkPassphrase gen)"
      "check_contract_options env clientId kp gen = Ret (home, d, until)"
      "home \<in> set (as_array (cv_homeDomains options))" "d \<in> set (as_array (cv_webAuthDomain options))"
      "case cv_currentLedger options of None \<Rightarrow> True | Some l \<Rightarrow> l \<le> until"
  shows "generateContractChallenge env clientId kp gen w = (Ret \<lparr>gc_authorizationEntries = [s4_toXDR env server, s4_toXDR env client],
      gc_nonce = nonce, gc_networkPassphrase = passphrase, gc_validUntilLedger = until\<rparr>, w1)
    \<and> verifyContractChallenge env (map (s4_toXDR env) es) options w2 =
      (\<lparr>cr_valid = True, cr_address = clientId, cr_nonce = Some nonce, cr_homeDomain = Some home, cr_error = None, cr_errorCode = None\<rparr>, w3)"
proof -
  let ?args = "challenge_args clientId home nonce d (kp_publicKey kp)"
  let ?raw = "s4_valXDR env (buildArgsMap ?args)" and ?contract = "co_webAuthContractId gen"
  from challenge_entries_signed [OF entries sdk(1) options(6)] obtain bytes bytes' s h where
    server: "server = with_signature (account_signature (s4_decodeKey env (kp_publicKey kp)) s)
        (buildEntry (kp_publicKey kp) ?contract (buildArgsMap ?args) until bytes)"
    and hash: "s4_preimageHash env server until passphrase = Ret h" "s4_verify env (kp_publicKey kp) h s = Ret True"
    and client: "client = buildEntry clientId ?contract (buildArgsMap ?args) until bytes'"
    and nonce: "nonce = hex_bytes (fst (s4_randomBytes env 16 w))" and passphrase: "passphrase = network_of env (co_networkPassphrase gen)"
    by blast
  let ?server = "\<lparr>pe_entry = server, pe_address = kp_publicKey kp, pe_args = ?args, pe_raw = ?raw\<rparr>"
    and ?client = "\<lparr>pe_entry = with_signature sig client, pe_address = clientId, pe_args = ?args, pe_raw = ?raw\<rparr>"
  have parse: "parse_entry env ?contract server = Ret ?server"
    "parse_entry env ?contract (with_signature sig client) = Ret ?client"
    by (simp_all only: server client parse_buildEntry)
  have split: "split_entries env options (map (s4_toXDR env) es) = Ret (?server, ?client, es)"
    using order options(2-4) by (auto simp: split_entries_def xdr from_sdk_def parse)
  have args: "check_args env options ?server ?client = Ret (nonce, home)"
    using options(2, 7, 8) check_contract_options_Ret [OF options(6)] sdk(2)
    by (intro check_args_challenge [where args = ?args]) (simp_all add: challenge_args_def nonce hex_bytes_not_Nil)
  let ?c = "\<lambda>a bytes sig. \<lparr>ac_address = a, ac_nonce = randomInt64 bytes, ac_expirationLedger = until, ac_signature = sig\<rparr>"
    and ?sig = "account_signature (s4_decodeKey env (kp_publicKey kp)) s"
  have cred: "ae_credentials server = AddressCredentials (?c (kp_publicKey kp) bytes ?sig)"
    "ae_credentials (with_signature sig client) = AddressCredentials (?c clientId bytes' sig)"
    by (simp_all only: server client with_signature_build)
  have "check_server_signature env options passphrase server (?c (kp_publicKey kp) bytes ?sig) = Ret ()"
    using hash options(2) by (auto simp: check_server_signature_Ret readSignature_account)
  moreover have "check_expiry options (?c (kp_publicKey kp) bytes ?sig) (?c clientId bytes' sig) = Ret ()"
    using options(9) by (auto simp: check_expiry_Ret split: option.split)
  moreover have "hasSignature (?c clientId bytes' sig)"
    using signed by (auto simp: hasSignature_def split: scval.split option.split)
  ultimately have "verify_entries env options passphrase (map (s4_toXDR env) es) w2 =
      (Ret \<lparr>cr_valid = True, cr_address = clientId, cr_nonce = Some nonce, cr_homeDomain = Some home, cr_error = None, cr_errorCode = None\<rparr>, w3)"
    using verify_entries_accepts [OF split args, of _ _ passphrase w2 w3] cred approved by simp
  then show ?thesis
    using entries options(5) by (simp add: generateContractChallenge_def verifyContractChallenge_ok [OF options(1)] passphrase)
qed

section \<open>An example\<close>

definition example_sdk :: "nat sep45_env" where
  "example_sdk =
     (let address = (\<lambda>e. case ae_credentials e of AddressCredentials c \<Rightarrow> ac_address c | SourceAccount \<Rightarrow> []);
          args = buildArgsMap (challenge_args ''CA'' ''a.org'' ''07'' ''a.org'' ''GS'')
      in \<lparr>s4_isContract = (\<lambda>a. a \<in> {''CA'', ''CW''}), s4_isEd25519 = (\<lambda>a. a = ''GS''),
      s4_fromXDR = (\<lambda>x. if x = ''GS'' then Ret (with_signature (account_signature [5] [2]) (buildEntry ''GS'' ''CW'' args 90 [2]))
                        else if x = ''CA'' then Ret (with_signature (ScString ''s'') (buildEntry ''CA'' ''CW'' args 90 [2]))
                        else Throw (mk_error ''XDR'')),
      s4_toXDR = address, s4_valXDR = (\<lambda>v. ''m''),
      s4_authorizeEntry = (\<lambda>e kp until p w. (Ret (with_signature (account_signature [5] [2]) e), w)),
      s4_preimageHash = (\<lambda>e l p. Ret [nat l]), s4_decodeKey = (\<lambda>k. [5]), s4_verify = (\<lambda>k h s. Ret (s = [2])),
      s4_testnet = ''Test'', s4_randomBytes = (\<lambda>n w. (if n = 16 then [7] else [2], w + 1))\<rparr>)"

definition example_gen :: contract_challenge_options where
  "example_gen = \<lparr>co_webAuthContractId = ''CW'', co_validUntilLedger = Some 90, co_homeDomain = Some ''a.org'',
     co_webAuthDomain = None, co_networkPassphrase = None\<rparr>"

definition example_contract_options :: "nat contract_verify_options" where
  "example_contract_options = \<lparr>cv_webAuthContractId = ''CW'', cv_serverAccountId = ''GS'', cv_homeDomains = Many [''b.org'', ''a.org''],
     cv_webAuthDomain = One ''a.org'', cv_networkPassphrase = None, cv_currentLedger = Some 90,
     cv_verifyClientAuthorization = (\<lambda>e es w. (Ret (length es = 2), w))\<rparr>"

definition example_key :: keypair where
  "example_key = \<lparr>kp_canSign = True, kp_publicKey = ''GS''\<rparr>"

definition example_entry :: "string \<Rightarrow> scval \<Rightarrow> nat \<Rightarrow> auth_entry" where
  "example_entry a sig b = with_signature sig (buildEntry a ''CW'' (buildArgsMap (challenge_args ''CA'' ''a.org'' ''07'' ''a.org'' ''GS'')) 90 [b])"

lemma example_nonce: "hex_bytes [7] = ''07''"
  by (simp add: hex_bytes_def hex_digit_def to_lower_char_def) (simp add: char_eq_iff del: of_char_eq_iff)

lemma example_checked: "check_contract_options example_sdk ''CA'' example_key example_gen = Ret (''a.org'', ''a.org'', 90)"
  apply (simp add: check_contract_options_def example_key_def example_gen_def assertBareDomain_def bare_examples)
  apply (simp add: example_sdk_def Let_def)
  done

lemma example_entries: "challenge_entries example_sdk ''CA'' example_key example_gen 1 =
    (Ret (example_entry ''GS'' (account_signature [5] [2]) 2, example_entry ''CA'' (ScVec (Some [])) 2, ''07'', ''Test'', 90), 4)"
  apply (simp add: challenge_entries_def example_checked)
  apply (simp add: example_sdk_def example_gen_def example_key_def example_nonce Let_def example_entry_def with_signature_def buildEntry_def)
  done

lemma example_signs: "sdk_signs example_sdk example_key"
  by (auto simp: sdk_signs_def example_sdk_def Let_def)

lemma example_options_ok: "contract_options_ok example_sdk example_contract_options"
  apply (simp add: contract_options_ok_def example_contract_options_def bare_examples)
  apply (simp add: example_sdk_def Let_def)
  done

lemma example_decodes:
  "s4_fromXDR example_sdk (s4_toXDR example_sdk (example_entry ''GS'' (account_signature [5] [2]) 2)) = Ret (example_entry ''GS'' (account_signature [5] [2]) 2)"
  "s4_fromXDR example_sdk (s4_toXDR example_sdk (with_signature (ScString ''s'') (example_entry ''CA'' (ScVec (Some [])) 2)))
     = Ret (with_signature (ScString ''s'') (example_entry ''CA'' (ScVec (Some [])) 2))"
  by (simp_all add: example_sdk_def Let_def example_entry_def with_signature_def buildEntry_def)

theorem contract_challenge_roundtrip_witness:
  "verifyContractChallenge example_sdk [''CA'', ''GS''] example_contract_options 7 =
     (\<lparr>cr_valid = True, cr_address = ''CA'', cr_nonce = Some ''07'', cr_homeDomain = Some ''a.org'', cr_error = None, cr_errorCode = None\<rparr>, 7)"
proof -
  let ?s = "example_entry ''GS'' (account_signature [5] [2]) 2" and ?c = "with_signature (ScString ''s'') (example_entry ''CA'' (ScVec (Some [])) 2)"
  have "map (s4_toXDR example_sdk) [?c, ?s] = [''CA'', ''GS'']"
    by (simp add: example_sdk_def Let_def example_entry_def with_signature_def buildEntry_def)
  moreover have "fst (s4_randomBytes example_sdk 16 1) \<noteq> []" by (simp add: example_sdk_def Let_def)
  ultimately show ?thesis
    using contract_challenge_roundtrip [OF example_entries example_decodes example_signs, of "[?c, ?s]" example_contract_options 7 7 "''a.org''" "''a.org''"]
      example_options_ok example_checked
    by (simp add: example_contract_options_def example_gen_def example_key_def network_of_def)
qed

lemma example_accepts:
  "verifyContractChallenge example_sdk [''CA'', ''GS''] example_contract_options 7 =
     (\<lparr>cr_valid = True, cr_address = ''CA'', cr_nonce = Some ''07'', cr_homeDomain = Some ''a.org'', cr_error = None, cr_errorCode = None\<rparr>, 7)"
proof -
  let ?s = "example_entry ''GS'' (account_signature [5] [2]) 2" and ?c = "with_signature (ScString ''s'') (example_entry ''CA'' (ScVec (Some [])) 2)"
  let ?args = "challenge_args ''CA'' ''a.org'' ''07'' ''a.org'' ''GS''"
  have xdr: "s4_fromXDR example_sdk ''CA'' = Ret ?c" "s4_fromXDR example_sdk ''GS'' = Ret ?s"
    by (simp_all add: example_sdk_def Let_def example_entry_def with_signature_def buildEntry_def)
  have sdk: "s4_valXDR example_sdk v = ''m''" "s4_isContract example_sdk ''CA''" "s4_decodeKey example_sdk k = [5]"
    "s4_preimageHash example_sdk e l p = Ret [nat l]" "s4_verify example_sdk k h s = Ret (s = [2])" for v k e l p h s
    by (simp_all add: example_sdk_def Let_def)
  have parse: "parse_entry example_sdk ''CW'' ?s = Ret \<lparr>pe_entry = ?s, pe_address = ''GS'', pe_args = ?args, pe_raw = ''m''\<rparr>"
    "parse_entry example_sdk ''CW'' ?c = Ret \<lparr>pe_entry = ?c, pe_address = ''CA'', pe_args = ?args, pe_raw = ''m''\<rparr>"
    using parse_buildEntry [where env = example_sdk] by (simp_all add: example_entry_def sdk with_signature_twice)
  show ?thesis
    unfolding verifyContractChallenge_ok [OF example_options_ok]
    by (simp add: verify_entries_def split_entries_def xdr from_sdk_def parse sdk example_contract_options_def check_args_def
        challenge_args_def Let_def shown_def) (simp add: check_expiry_def check_server_signature_def from_sdk_def sdk
        addressCredentials_def example_entry_def with_signature_def buildEntry_def readSignature_def account_signature_def hasSignature_def)
qed

theorem contract_verify_sound_witness:
  "\<exists>x0 x1 e0 e1 client cc. [''CA'', ''GS''] = [x0, x1] \<and> s4_fromXDR example_sdk x0 = Ret e0 \<and> s4_fromXDR example_sdk x1 = Ret e1
     \<and> client \<in> {e0, e1} \<and> ae_credentials client = AddressCredentials cc \<and> ac_address cc = ''CA'' \<and> hasSignature cc"
  using contract_verify_sound [OF example_accepts, simplified contract_verify_result.simps, OF TrueI] by blast

end
