(* ===== verification/RestProvider.thy ===== *)
theory RestProvider
  imports RateLimited WebForm
begin

text \<open>
  The two providers that ask a REST service: \<open>sanctions-oracle/src/restProvider.ts\<close> and the example
  \<open>examples/providers/chainalysis.ts\<close>. Fetch (with the deadline of its abort signal) and the tracer are a
  parameter; attributes and endings of spans are left out. The verdict of a service is the JSON value it
  answers; as every caller does, it is read by its truth value.
\<close>

section \<open>The REST provider\<close>

record 'w rest_env =
  rp_fetch :: "string \<Rightarrow> (string \<times> string) list \<Rightarrow> int \<Rightarrow> 'w \<Rightarrow> (thrown + fetch_response) \<times> 'w"
  rp_startSpan :: "'w \<Rightarrow> (string \<times> string) \<times> 'w"
  rp_injectContext :: "string \<Rightarrow> string \<Rightarrow> string"
  rp_number_text :: "string \<Rightarrow> string"

record rest_options =
  rq_apiBaseUrl :: string
  rq_apiKey :: string
  rq_timeoutMs :: "int option"
  rq_propagateTraceContext :: "bool option"

record rest_provider =
  rv_apiBaseUrl :: string
  rv_apiKey :: string
  rv_timeoutMs :: int
  rv_propagateTraceContext :: bool

text \<open>\<open>replace(/\/$/, '')\<close>\<close>

definition strip_slash :: "string \<Rightarrow> string" where
  "strip_slash s = (if s \<noteq> [] \<and> last s = CHR ''/'' then butlast s else s)"

definition new_rest_provider :: "rest_options \<Rightarrow> rest_provider" where
  "new_rest_provider options = \<lparr>rv_apiBaseUrl = strip_slash (rq_apiBaseUrl options), rv_apiKey = rq_apiKey options,
     rv_timeoutMs = or_default (rq_timeoutMs options) 5000, rv_propagateTraceContext = (rq_propagateTraceContext options \<noteq> Some False)\<rparr>"

definition rest_url :: "rest_provider \<Rightarrow> string \<Rightarrow> string" where
  "rest_url p address = rv_apiBaseUrl p @ ''/check?address='' @ encodeURIComponent address"

definition rest_headers :: "'w rest_env \<Rightarrow> rest_provider \<Rightarrow> string \<times> string \<Rightarrow> (string \<times> string) list" where
  "rest_headers env p sp = (''Authorization'', ''Bearer '' @ rv_apiKey p)
     # (if rv_propagateTraceContext p \<and> fst sp \<noteq> [] then [(''traceparent'', rp_injectContext env (fst sp) (snd sp))] else [])"

definition rest_fetch_error :: "rest_provider \<Rightarrow> string \<Rightarrow> thrown \<Rightarrow> thrown" where
  "rest_fetch_error p address e = mk_error
     (if is_error e \<and> exn_name e \<in> {''AbortError'', ''TimeoutError''} then
        ''Watchlist API request timed out after '' @ dec_of_int (rv_timeoutMs p) @ '' ms (address: '' @ address @ '')''
      else ''Watchlist API request failed for address '' @ address @ '': '' @ thrown_string e)"

definition rest_http_error :: "int \<Rightarrow> string \<Rightarrow> thrown" where
  "rest_http_error status address =
     mk_error (''Watchlist API returned HTTP '' @ dec_of_int status @ '' for address '' @ address)"

definition lists_source :: "(string \<Rightarrow> string) \<Rightarrow> json list \<Rightarrow> string" where
  "lists_source number_text vs =
     (let joined = js_String number_text (JArr vs) in if joined = [] then ''external-watchlist-api'' else joined)"

text \<open>The mapping of the body; \<open>lists\<close> must be an array, which \<open>join\<close> prints as \<open>String\<close> does.\<close>

definition rest_result :: "(string \<Rightarrow> string) \<Rightarrow> json \<Rightarrow> thrown + check_result" where
  "rest_result number_text body =
     js_bind (get_prop body ''is_flagged'') (\<lambda>flagged. js_bind (get_prop body ''lists'') (\<lambda>lists.
       case lists of
         Some (JArr vs) \<Rightarrow>
           Ret (unscored (js_truthy number_text flagged) (lists_source number_text vs))
       | Some JNull \<Rightarrow> Throw (type_error ''Cannot read properties of null (reading 'join')'')
       | None \<Rightarrow> Throw (type_error ''Cannot read properties of undefined (reading 'join')'')
       | Some _ \<Rightarrow> Throw (type_error ''data.lists.join is not a function'')))"

definition rest_checkAddress :: "'w rest_env \<Rightarrow> rest_provider \<Rightarrow> 'w provider" where
  "rest_checkAddress env p rawAddress w =
     (let address = normalizeStellarAddress rawAddress; (sp, w) = rp_startSpan env w in
      case rp_fetch env (rest_url p address) (rest_headers env p sp) (rv_timeoutMs p) w of
        (Throw e, w) \<Rightarrow> (Throw (rest_fetch_error p address e), w)
      | (Ret response, w) \<Rightarrow>
          (if \<not> fr_ok response then Throw (rest_http_error (fr_status response) address)
           else js_bind (fr_json response) (rest_result (rp_number_text env)), w))"

interpretation rest: sanctions_provider "rest_checkAddress env p" for env p
  by unfold_locales (simp add: rest_checkAddress_def)

section \<open>The Chainalysis example\<close>

record chainalysis_options =
  co_apiKey :: "string option"
  co_baseUrl :: "string option"
  co_timeoutMs :: "int option"

record chainalysis_provider =
  cp_apiKey :: string
  cp_baseUrl :: string
  cp_timeoutMs :: int

definition new_chainalysis :: "string option \<Rightarrow> chainalysis_options \<Rightarrow> thrown + chainalysis_provider" where
  "new_chainalysis environment options =
     (let apiKey = (case co_apiKey options of Some k \<Rightarrow> Some k | None \<Rightarrow> environment) in
      if apiKey = None \<or> apiKey = Some [] then
        Throw (mk_error ''ChainalysisSanctionsProvider: set CHAINALYSIS_API_KEY or pass apiKey'')
      else Ret \<lparr>cp_apiKey = the apiKey,
        cp_baseUrl = strip_slash (or_default (co_baseUrl options) ''https://public.chainalysis.com/api/v1/address''),
        cp_timeoutMs = or_default (co_timeoutMs options) 5000\<rparr>)"

definition chainalysis_http_error :: "int \<Rightarrow> thrown" where
  "chainalysis_http_error status =
     Exn ''Error'' (''Chainalysis API responded with HTTP '' @ dec_of_int status) (no_props\<lparr>p_status := Some status\<rparr>)"

text \<open>\<open>id.name ?? id.category\<close>\<close>

definition identification_name :: "json \<Rightarrow> thrown + json option" where
  "identification_name i = js_bind (get_prop i ''name'') (\<lambda>name.
     case name of None \<Rightarrow> get_prop i ''category'' | Some JNull \<Rightarrow> get_prop i ''category'' | Some n \<Rightarrow> Ret (Some n))"

fun identification_names :: "json list \<Rightarrow> thrown + json option list" where
  "identification_names [] = Ret []"
| "identification_names (i # is) = js_bind (identification_name i) (\<lambda>n. js_bind (identification_names is) (\<lambda>ns. Ret (n # ns)))"

definition chainalysis_result :: "(string \<Rightarrow> string) \<Rightarrow> json \<Rightarrow> thrown + check_result" where
  "chainalysis_result number_text body =
     js_bind (get_prop body ''identifications'') (\<lambda>v.
       let identifications = (case v of Some (JArr is) \<Rightarrow> is | _ \<Rightarrow> []) in
       js_bind (identification_names identifications) (\<lambda>names.
         let names = map the (filter (js_truthy number_text) names) in
         Ret (if identifications = [] then unscored False ''chainalysis''
              else unscored True (''chainalysis:'' @ js_String number_text (JArr names)))))"

definition chainalysis_checkAddress :: "'w rest_env \<Rightarrow> chainalysis_provider \<Rightarrow> 'w provider" where
  "chainalysis_checkAddress env p address w =
     (case rp_fetch env (cp_baseUrl p @ ''/'' @ encodeURIComponent address)
             [(''X-API-Key'', cp_apiKey p), (''Accept'', ''application/json'')] (cp_timeoutMs p) w of
        (Throw e, w) \<Rightarrow> (Throw e, w)
      | (Ret response, w) \<Rightarrow>
          (if \<not> fr_ok response then Throw (chainalysis_http_error (fr_status response))
           else js_bind (fr_json response) (chainalysis_result (rp_number_text env)), w))"

text \<open>Wrapped for rate limits; the slot queue around it is that of theory \<open>RateLimited\<close>.\<close>

definition createChainalysisProvider ::
  "'w rest_env \<Rightarrow> 'w retry_env \<Rightarrow> string option \<Rightarrow> chainalysis_options \<Rightarrow> rate_limit_options \<Rightarrow> thrown + 'w provider" where
  "createChainalysisProvider env renv environment options rateLimit =
     js_bind (new_chainalysis environment options) (\<lambda>p. js_bind (new_rate_limited rateLimit) (\<lambda>c.
       Ret (checkWithRetry renv c (chainalysis_checkAddress env p))))"

section \<open>Properties\<close>

lemma rest_result_Ret:
  "rest_result number_text body = Ret res \<longleftrightarrow> (\<exists>flagged vs. get_prop body ''is_flagged'' = Ret flagged
     \<and> get_prop body ''lists'' = Ret (Some (JArr vs))
     \<and> res = unscored (js_truthy number_text flagged) (lists_source number_text vs))"
proof
  assume "rest_result number_text body = Ret res"
  then obtain flagged lists where f: "get_prop body ''is_flagged'' = Ret flagged" "get_prop body ''lists'' = Ret lists"
    by (auto simp: rest_result_def js_bind_Ret_iff)
  show "\<exists>flagged vs. get_prop body ''is_flagged'' = Ret flagged \<and> get_prop body ''lists'' = Ret (Some (JArr vs))
     \<and> res = unscored (js_truthy number_text flagged) (lists_source number_text vs)"
  proof (cases lists)
    case (Some j)
    with f \<open>rest_result number_text body = Ret res\<close> show ?thesis
      by (cases j) (auto simp: rest_result_def Let_def)
  qed (use f \<open>rest_result number_text body = Ret res\<close> in \<open>simp add: rest_result_def\<close>)
qed (auto simp: rest_result_def Let_def)

text \<open>
  The REST provider never guesses. A verdict means that the service was asked for the canonical spelling of the
  address, answered with a success status, and the verdict and the source are the ones of its body; every other
  course of events is an error.
\<close>

theorem rest_verdict_is_answer:
  assumes "rest_checkAddress env p rawAddress w = (Ret res, w')"
  shows "\<exists>url sp w1 response body flagged vs. rp_startSpan env w = (sp, w1)
     \<and> rp_fetch env url (rest_headers env p sp) (rv_timeoutMs p) w1 = (Ret response, w')
     \<and> url = rv_apiBaseUrl p @ ''/check?address='' @ encodeURIComponent (normalizeStellarAddress rawAddress)
     \<and> 200 \<le> fr_status response \<and> fr_status response \<le> 299 \<and> fr_json response = Ret body
     \<and> get_prop body ''is_flagged'' = Ret flagged \<and> get_prop body ''lists'' = Ret (Some (JArr vs))
     \<and> cr_flagged res = js_truthy (rp_number_text env) flagged
     \<and> cr_source res = lists_source (rp_number_text env) vs"
  using assms
  by (auto simp: rest_checkAddress_def Let_def fr_ok_def js_bind_Ret_iff rest_result_Ret unscored_def rest_url_def
      split: prod.splits sum.splits if_splits)

definition example_rest :: "json \<Rightarrow> unit rest_env" where
  "example_rest body = \<lparr>rp_fetch = (\<lambda>url headers t w. (Ret \<lparr>fr_status = 200, fr_statusText = [], fr_json = Ret body\<rparr>, w)),
     rp_startSpan = (\<lambda>w. (([], []), w)), rp_injectContext = (\<lambda>t s. t), rp_number_text = (\<lambda>t. t)\<rparr>"

definition example_answer :: json where
  "example_answer = JObj [(''is_flagged'', JBool True), (''lists'', JArr [JStr ''OFAC'', JStr ''EU''])]"

definition example_rest_provider :: rest_provider where
  "example_rest_provider = new_rest_provider \<lparr>rq_apiBaseUrl = ''https://w/'', rq_apiKey = ''k'', rq_timeoutMs = None, rq_propagateTraceContext = None\<rparr>"

theorem rest_verdict_is_answer_witness:
  "\<exists>vs. get_prop example_answer ''lists'' = Ret (Some (JArr vs)) \<and> lists_source (\<lambda>t. t) vs = ''OFAC,EU''"
proof -
  have "rest_checkAddress (example_rest example_answer) example_rest_provider '' ga '' () = (Ret (unscored True ''OFAC,EU''), ())"
    by (simp add: rest_checkAddress_def) (simp add: example_rest_def example_answer_def fr_ok_def rest_result_def js_truthy_def Let_def get_prop_def lists_source_def)
  from rest_verdict_is_answer [OF this] show ?thesis
    by (auto simp: unscored_def example_rest_def example_answer_def get_prop_def)
qed

text \<open>Both are retried by the rate-limit wrapper when the service answers 429.\<close>

lemma str_includes_infix: "str_includes sub (xs @ sub @ ys)"
proof (induction xs)
  case Nil
  have "prefix sub (sub @ ys)" by simp
  then show ?case by (cases "sub @ ys") simp_all
qed simp

lemma rest_429: "isRateLimitError (rest_http_error 429 address) = Ret True"
proof -
  have "to_lower (''Watchlist API returned HTTP '' @ dec_of_int 429 @ '' for address '' @ address)
      = to_lower ''Watchlist API returned HTTP '' @ ''429'' @ to_lower ('' for address '' @ address)"
    by (simp add: to_lower_def dec_of_int_def dec_of_nat.simps digit_char_def to_lower_char_def)
      (simp add: char_eq_iff del: of_char_eq_iff)
  then show ?thesis
    by (simp only: rest_http_error_def mk_error_def isRateLimitError.simps rate_limit_message_def Let_def str_includes_infix simp_thms)
qed

lemma chainalysis_429: "isRateLimitError (chainalysis_http_error 429) = Ret True"
  by (simp add: chainalysis_http_error_def status_code_def)

text \<open>A service that is over its limit for the first \<open>k\<close> requests; the world counts the requests.\<close>

definition limited_service :: "nat \<Rightarrow> json \<Rightarrow> nat rest_env" where
  "limited_service k body = \<lparr>rp_fetch = (\<lambda>url headers t n. (Ret \<lparr>fr_status = (if n < k then 429 else 200), fr_statusText = [],
       fr_json = Ret body\<rparr>, Suc n)),
     rp_startSpan = (\<lambda>n. (([], []), n)), rp_injectContext = (\<lambda>t s. t), rp_number_text = (\<lambda>t. t)\<rparr>"

definition calm :: "nat retry_env \<Rightarrow> bool" where
  "calm renv \<longleftrightarrow> (\<forall>n. snd (re_random renv n) = n) \<and> (\<forall>d n. re_sleep renv d n = (Ret (), n))"

lemma limited_check: "chainalysis_checkAddress (limited_service k body) p address n =
    (if n < k then Throw (chainalysis_http_error 429) else chainalysis_result (\<lambda>t. t) body, Suc n)"
  by (simp add: chainalysis_checkAddress_def limited_service_def fr_ok_def)

lemma limited_loop:
  assumes "chainalysis_result (\<lambda>t. t) body = Ret verdict" and "calm renv" and "int k < rc_maxRetries c" and "n \<le> k"
  shows "checkWithRetry_loop renv c (chainalysis_checkAddress (limited_service k body) p) address (int n) e n = (Ret verdict, Suc k)"
  using assms(4)
proof (induction "k - n" arbitrary: n e)
  case 0
  with assms(1, 3) show ?case by (simp add: checkWithRetry_loop.simps limited_check)
next
  case (Suc d)
  then have n: "n < k" "d = k - Suc n" "Suc n \<le> k" by simp_all
  obtain delay where delay: "backoffDelay (re_random renv) c (int n) (Suc n) = (delay, Suc n)"
    using assms(2) unfolding backoffDelay_def calm_def Let_def by (metis (no_types, lifting) prod.collapse split_beta)
  have sleep: "re_sleep renv delay (Suc n) = (Ret (), Suc n)" using assms(2) by (simp add: calm_def)
  have check: "chainalysis_checkAddress (limited_service k body) p address n = (Throw (chainalysis_http_error 429), Suc n)"
    using n by (simp add: limited_check)
  have "checkWithRetry_loop renv c (chainalysis_checkAddress (limited_service k body) p) address (int n) e n
      = checkWithRetry_loop renv c (chainalysis_checkAddress (limited_service k body) p) address (int (Suc n)) (chainalysis_http_error 429) (Suc n)"
    using assms(3) n(1) by (subst checkWithRetry_loop.simps) (simp add: check chainalysis_429 delay sleep add.commute)
  then show ?case using Suc.hyps(1) [OF n(2, 3)] by simp
qed

text \<open>
  The wrapped Chainalysis provider waits out a rate limit: however often the service answers 429 first, up to one less
  than the retries, the caller gets the verdict, after exactly one request more.
\<close>

theorem chainalysis_waits_out_limit:
  assumes "createChainalysisProvider (limited_service k body) renv environment options rateLimit = Ret provider"
    and "int k < or_default (rl_maxRetries rateLimit) 4" and "calm renv" and "chainalysis_result (\<lambda>t. t) body = Ret verdict"
  shows "provider address 0 = (Ret verdict, Suc k)"
proof -
  from assms(1) obtain p c where c: "new_rate_limited rateLimit = Ret c"
    and provider: "provider = checkWithRetry renv c (chainalysis_checkAddress (limited_service k body) p)"
    by (auto simp: createChainalysisProvider_def js_bind_Ret_iff)
  from c have "rc_maxRetries c = or_default (rl_maxRetries rateLimit) 4"
    by (auto simp: new_rate_limited_def Let_def split: js_limit.splits if_splits)
  with limited_loop [OF assms(4, 3), of k c 0 p address] assms(2) show ?thesis
    by (simp add: provider checkWithRetry_def)
qed

definition example_identified :: json where
  "example_identified = JObj [(''identifications'', JArr [JObj [(''category'', JStr ''sanctions'')]])]"

theorem chainalysis_waits_out_limit_witness:
  "\<exists>provider. createChainalysisProvider (limited_service 3 example_identified) \<lparr>re_random = (\<lambda>n. (0, n)), re_sleep = (\<lambda>d n. (Ret (), n))\<rparr>
       (Some ''key'') \<lparr>co_apiKey = None, co_baseUrl = None, co_timeoutMs = None\<rparr>
       \<lparr>rl_maxRetries = None, rl_baseDelayMs = None, rl_maxDelayMs = None, rl_concurrency = None\<rparr> = Ret provider
     \<and> provider ''GA'' 0 = (Ret (unscored True ''chainalysis:sanctions''), 4)"
proof -
  let ?renv = "\<lparr>re_random = (\<lambda>n. (0, n)), re_sleep = (\<lambda>d n. (Ret (), n))\<rparr> :: nat retry_env"
  obtain provider where created: "createChainalysisProvider (limited_service 3 example_identified) ?renv (Some ''key'')
      \<lparr>co_apiKey = None, co_baseUrl = None, co_timeoutMs = None\<rparr>
      \<lparr>rl_maxRetries = None, rl_baseDelayMs = None, rl_maxDelayMs = None, rl_concurrency = None\<rparr> = Ret provider"
    by (simp add: createChainalysisProvider_def new_chainalysis_def new_rate_limited_def)
  have "calm ?renv" by (simp add: calm_def)
  moreover have "chainalysis_result (\<lambda>t. t) example_identified = Ret (unscored True ''chainalysis:sanctions'')"
    by (simp add: chainalysis_result_def example_identified_def get_prop_def identification_name_def js_truthy_def Let_def)
  ultimately show ?thesis
    using chainalysis_waits_out_limit [OF created, of "unscored True ''chainalysis:sanctions''" "''GA''"] created by (simp add: numeral_eq_Suc)
qed

end
