(* ===== verification/Logger.thy ===== *)
theory Logger
  imports WebForm
begin

text \<open>
  \<open>logger/src/index.ts\<close>: the loggers of the package as values of a datatype, one constructor per function that
  makes one, and what a call on them emits. A custom logger has no \<open>child\<close> method; its calls, those on the console
  and the lines written to the stream of a JSON logger are the events. Keys of objects keep their order of
  insertion; an argument is a JSON value, an \<open>Error\<close> without further fields, or \<open>undefined\<close>.
\<close>

section \<open>Levels and arguments\<close>

datatype log_level = Debug | Info | Warn | Err

fun LOG_LEVEL_RANK :: "log_level \<Rightarrow> nat" where
  "LOG_LEVEL_RANK Debug = 0" | "LOG_LEVEL_RANK Info = 1" | "LOG_LEVEL_RANK Warn = 2" | "LOG_LEVEL_RANK Err = 3"

fun level_name :: "log_level \<Rightarrow> string" where
  "level_name Debug = ''debug''" | "level_name Info = ''info''" | "level_name Warn = ''warn''" | "level_name Err = ''error''"

text \<open>An error has its message, stack and name.\<close>

datatype log_arg = Json json | Error_Arg string string string | Undefined

type_synonym bindings = "(string \<times> json) list"

text \<open>\<open>{ ...parent, ...next }\<close> and \<open>Object.assign\<close>.\<close>

fun mergeBindings :: "bindings \<Rightarrow> bindings \<Rightarrow> bindings" where
  "mergeBindings parent [] = parent"
| "mergeBindings parent ((k, v) # kvs) = mergeBindings (map_set k v parent) kvs"

section \<open>The record of a JSON line\<close>

definition errorToContext :: "string \<Rightarrow> string \<Rightarrow> string \<Rightarrow> bindings" where
  "errorToContext message stack name = [(''msg'', JStr message), (''stack'', JStr stack), (''type'', JStr name)]"

text \<open>\<open>context.data = context.data ?? []; context.data.push(extra)\<close>\<close>

definition push_data :: "json \<Rightarrow> bindings \<Rightarrow> thrown + bindings" where
  "push_data extra context = (case map_get context ''data'' of
       None \<Rightarrow> Ret (map_set ''data'' (JArr [extra]) context)
     | Some JNull \<Rightarrow> Ret (map_set ''data'' (JArr [extra]) context)
     | Some (JArr vs) \<Rightarrow> Ret (map_set ''data'' (JArr (vs @ [extra])) context)
     | Some _ \<Rightarrow> Throw (type_error ''context.data.push is not a function''))"

text \<open>The loops over the further arguments, after an error, after a string, and after an object.\<close>

fun extras_of_error :: "log_arg list \<Rightarrow> bindings \<Rightarrow> thrown + bindings" where
  "extras_of_error [] context = Ret context"
| "extras_of_error (Json (JObj kvs) # rest) context = extras_of_error rest (mergeBindings context kvs)"
| "extras_of_error (Error_Arg m s t # rest) context = extras_of_error rest context"
| "extras_of_error (Undefined # rest) context = extras_of_error rest context"
| "extras_of_error (Json v # rest) context = js_bind (push_data v context) (extras_of_error rest)"

fun extras_of_text :: "log_arg list \<Rightarrow> bindings \<Rightarrow> thrown + bindings" where
  "extras_of_text [] context = Ret context"
| "extras_of_text (Error_Arg m s t # rest) context = extras_of_text rest (map_set ''error'' (JObj (errorToContext m s t)) context)"
| "extras_of_text (Json (JObj kvs) # rest) context = extras_of_text rest (mergeBindings context kvs)"
| "extras_of_text (Undefined # rest) context = extras_of_text rest context"
| "extras_of_text (Json v # rest) context = js_bind (push_data v context) (extras_of_text rest)"

fun extras_of_object :: "log_arg list \<Rightarrow> bindings \<Rightarrow> bindings" where
  "extras_of_object [] context = context"
| "extras_of_object (Json (JObj kvs) # rest) context = extras_of_object rest (mergeBindings context kvs)"
| "extras_of_object (a # rest) context = extras_of_object rest context"

text \<open>How \<open>JSON.stringify\<close> prints an argument inside an array.\<close>

fun data_json :: "log_arg \<Rightarrow> json" where
  "data_json (Json v) = v"
| "data_json (Error_Arg m s t) = JObj []"
| "data_json Undefined = JNull"

definition object_message :: "bindings \<Rightarrow> string" where
  "object_message kvs = (case map_get kvs ''msg'' of Some (JStr m) \<Rightarrow> m
     | _ \<Rightarrow> (case map_get kvs ''message'' of Some (JStr m) \<Rightarrow> m | _ \<Rightarrow> stringify (JObj kvs)))"

fun argsToRecord :: "(string \<Rightarrow> string) \<Rightarrow> log_arg list \<Rightarrow> thrown + string \<times> bindings" where
  "argsToRecord number_text [] = Ret ([], [])"
| "argsToRecord number_text (Error_Arg m s t # rest) =
     js_bind (extras_of_error rest (errorToContext m s t)) (\<lambda>context. Ret (m, context))"
| "argsToRecord number_text (Json (JStr m) # rest) = js_bind (extras_of_text rest []) (\<lambda>context. Ret (m, context))"
| "argsToRecord number_text (Json (JObj kvs) # rest) = Ret (object_message kvs, extras_of_object rest kvs)"
| "argsToRecord number_text (first # rest) =
     Ret (case first of Json v \<Rightarrow> js_String number_text v | _ \<Rightarrow> ''undefined'',
       if rest = [] then [] else [(''data'', JArr (map data_json rest))])"

definition json_record :: "int \<Rightarrow> log_level \<Rightarrow> string \<Rightarrow> bindings \<Rightarrow> json" where
  "json_record time level msg context =
     JObj (mergeBindings [(''time'', JNum (dec_of_int time)), (''level'', JStr (level_name level)), (''msg'', JStr msg)] context)"

section \<open>Loggers\<close>

text \<open>
  \<open>LeveledLogger\<close> is what \<open>createLeveledLogger\<close> returns, \<open>ConsoleChild\<close> and \<open>LeveledChild\<close> are what
  \<open>makeBoundChild\<close> returns for the two loggers that call it, and \<open>WrapChild\<close> is the wrapper of \<open>getChildLogger\<close>.
\<close>

datatype logger =
    ConsoleLogger | NoopLogger | CustomLogger nat | JsonLogger log_level nat | LeveledLogger logger log_level
  | ConsoleChild bindings | LeveledChild logger log_level bindings | WrapChild logger bindings

datatype log_event = Console_Call log_level "log_arg list" | Custom_Call nat log_level "log_arg list" | Json_Line nat string

definition getChildLogger :: "logger \<Rightarrow> bindings \<Rightarrow> logger" where
  "getChildLogger logger bindings = (case logger of
       ConsoleLogger \<Rightarrow> ConsoleChild bindings
     | NoopLogger \<Rightarrow> NoopLogger
     | LeveledLogger base minLevel \<Rightarrow> LeveledChild base minLevel bindings
     | ConsoleChild b \<Rightarrow> ConsoleChild (mergeBindings b bindings)
     | LeveledChild base minLevel b \<Rightarrow> LeveledChild base minLevel (mergeBindings b bindings)
     | WrapChild base b \<Rightarrow> WrapChild base (mergeBindings b bindings)
     | CustomLogger i \<Rightarrow> WrapChild logger bindings
     | JsonLogger minLevel i \<Rightarrow> WrapChild logger bindings)"

fun weight :: "logger \<Rightarrow> nat" where
  "weight (LeveledLogger base m) = weight base + 3"
| "weight (LeveledChild base m b) = weight base + 2"
| "weight (WrapChild base b) = weight base + 1"
| "weight _ = 0"

lemma weight_child: "weight (getChildLogger lg b) \<le> weight lg + 1"
  by (cases lg) (simp_all add: getChildLogger_def)

text \<open>A call of the method of a level.\<close>

function log_call :: "(string \<Rightarrow> string) \<Rightarrow> int \<Rightarrow> logger \<Rightarrow> log_level \<Rightarrow> log_arg list \<Rightarrow> thrown + log_event list" where
  "log_call nt time ConsoleLogger level args = Ret [Console_Call level args]"
| "log_call nt time NoopLogger level args = Ret []"
| "log_call nt time (CustomLogger i) level args = Ret [Custom_Call i level args]"
| "log_call nt time (JsonLogger minLevel i) level args =
     (if LOG_LEVEL_RANK level < LOG_LEVEL_RANK minLevel then Ret []
      else js_bind (argsToRecord nt args) (\<lambda>(msg, context).
        Ret [Json_Line i (stringify (json_record time level msg context) @ [CHR 0x0A])]))"
| "log_call nt time (LeveledLogger base minLevel) level args =
     (if LOG_LEVEL_RANK minLevel \<le> LOG_LEVEL_RANK level then log_call nt time base level args else Ret [])"
| "log_call nt time (ConsoleChild b) level args = Ret [Console_Call level (Json (JObj b) # args)]"
| "log_call nt time (LeveledChild base minLevel b) level args =
     (if LOG_LEVEL_RANK minLevel \<le> LOG_LEVEL_RANK level then log_call nt time (getChildLogger base b) level args else Ret [])"
| "log_call nt time (WrapChild base b) level args = log_call nt time base level (Json (JObj b) # args)"
  by pat_completeness auto
termination
  by (relation "measure (\<lambda>(_, _, lg, _, _). weight lg)") (auto intro: le_less_trans [OF weight_child])

section \<open>Children\<close>

lemma set_twice: "map_set k v (map_set k v' m) = map_set k v m"
  by (induction m) auto

lemma set_commute: "k \<noteq> k' \<Longrightarrow> map_has m k \<Longrightarrow> map_set k v (map_set k' v' m) = map_set k' v' (map_set k v m)"
  by (induction m) (auto simp: map_has_def)

lemma merge_set_after: "map_has c k \<Longrightarrow> \<not> map_has a k \<Longrightarrow> map_set k v (mergeBindings c a) = mergeBindings (map_set k v c) a"
proof (induction a arbitrary: c)
  case (Cons x a)
  obtain k' v' where x: "x = (k', v')" by fastforce
  with Cons.prems have "k \<noteq> k'" "\<not> map_has a k" by (auto simp: map_has_def)
  with Cons.IH [of "map_set k' v' c"] Cons.prems(1) set_commute [of k k' c v v'] show ?case
    by (simp add: x map_simps)
qed simp

lemma merge_set: "map_wf a \<Longrightarrow> mergeBindings c (map_set k v a) = map_set k v (mergeBindings c a)"
proof (induction a arbitrary: c)
  case (Cons x a)
  obtain k' v' where x: "x = (k', v')" by fastforce
  from Cons.prems x have wf: "map_wf a" "\<not> map_has a k'" by (auto simp: map_wf_def map_has_def)
  show ?case
  proof (cases "k = k'")
    case True
    have "map_set k v (mergeBindings (map_set k' v' c) a) = mergeBindings (map_set k v (map_set k' v' c)) a"
      using wf(2) by (intro merge_set_after) (auto simp: True map_simps)
    then show ?thesis by (simp add: x True set_twice)
  qed (simp add: x Cons.IH [OF wf(1)])
qed simp

lemma merge_assoc: "map_wf a \<Longrightarrow> mergeBindings (mergeBindings c a) b = mergeBindings c (mergeBindings a b)"
proof (induction b arbitrary: a)
  case (Cons x b)
  obtain k v where x: "x = (k, v)" by fastforce
  from Cons.IH [of "map_set k v a"] Cons.prems show ?case by (simp add: x merge_set [symmetric] map_wf_set)
qed simp

text \<open>
  Nested children merge their bindings, the inner ones winning: a child of a child is the child with the merged
  bindings, for every logger.
\<close>

theorem nested_children_merge:
  assumes "map_wf a"
  shows "getChildLogger (getChildLogger lg a) b = getChildLogger lg (mergeBindings a b)"
  using assms by (cases lg) (simp_all add: getChildLogger_def merge_assoc)

theorem nested_children_merge_witness:
  "getChildLogger (getChildLogger ConsoleLogger [(''a'', JNull), (''b'', JNull)]) [(''a'', JBool True)]
     = ConsoleChild [(''a'', JBool True), (''b'', JNull)]"
  using nested_children_merge [of "[(''a'', JNull), (''b'', JNull)]" ConsoleLogger "[(''a'', JBool True)]"]
  by (simp add: map_wf_def getChildLogger_def)

section \<open>Levels\<close>

text \<open>The level below which a chain of loggers is silent, and whether it ends in one that emits at all.\<close>

fun threshold :: "logger \<Rightarrow> nat" where
  "threshold (LeveledLogger base m) = max (LOG_LEVEL_RANK m) (threshold base)"
| "threshold (LeveledChild base m b) = max (LOG_LEVEL_RANK m) (threshold base)"
| "threshold (WrapChild base b) = threshold base"
| "threshold (JsonLogger m i) = LOG_LEVEL_RANK m"
| "threshold _ = 0"

fun silent :: "logger \<Rightarrow> bool" where
  "silent NoopLogger = True"
| "silent (LeveledLogger base m) = silent base"
| "silent (LeveledChild base m b) = silent base"
| "silent (WrapChild base b) = silent base"
| "silent _ = False"

lemma threshold_child [simp]: "threshold (getChildLogger lg b) = threshold lg"
  by (cases lg) (simp_all add: getChildLogger_def)

lemma silent_child [simp]: "silent (getChildLogger lg b) = silent lg"
  by (cases lg) (simp_all add: getChildLogger_def)

text \<open>
  A call emits nothing exactly when its level is below the highest minimum on the way to the sink, or the chain ends in
  the no-op logger: neither a child nor a wrapper of a levelled logger escapes its level.
\<close>

theorem threshold_exact: "log_call nt time lg level args = Ret [] \<longleftrightarrow> LOG_LEVEL_RANK level < threshold lg \<or> silent lg"
proof (induction nt time lg level args rule: log_call.induct)
  case (4 nt time minLevel i level args)
  show ?case by (cases "argsToRecord nt args") auto
qed auto

section \<open>JSON lines\<close>

lemma bindings_ok: "list_all (\<lambda>(k, v). json_ok v) c \<Longrightarrow> list_all (\<lambda>(k, v). json_ok v) kvs \<Longrightarrow> list_all (\<lambda>(k, v). json_ok v) (mergeBindings c kvs)"
proof (induction kvs arbitrary: c)
  case (Cons x kvs)
  obtain k v where x: "x = (k, v)" by fastforce
  have "list_all (\<lambda>(k, v). json_ok v) (map_set k v c)" if "json_ok v" "list_all (\<lambda>(k, v). json_ok v) c" for c
    using that by (induction c) auto
  with Cons show ?case by (simp add: x)
qed simp

lemma map_get_merge: "map_get (mergeBindings c kvs) k = (case map_get (rev kvs) k of Some v \<Rightarrow> Some v | None \<Rightarrow> map_get c k)"
  by (induction kvs arbitrary: c) (auto simp: map_simps map_add_def split: option.split)

fun arg_ok :: "log_arg \<Rightarrow> bool" where
  "arg_ok (Json v) = json_ok v"
| "arg_ok _ = True"

abbreviation context_ok :: "bindings \<Rightarrow> bool" where
  "context_ok \<equiv> list_all (\<lambda>(k, v). json_ok v)"

lemma set_ok: "json_ok v \<Longrightarrow> context_ok c \<Longrightarrow> context_ok (map_set k v c)"
  by (induction c) auto

lemma get_ok: "context_ok c \<Longrightarrow> map_get c k = Some v \<Longrightarrow> json_ok v"
  by (induction c) (auto split: if_splits)

lemma push_ok: "push_data v c = Ret c' \<Longrightarrow> json_ok v \<Longrightarrow> context_ok c \<Longrightarrow> context_ok c'"
  using get_ok [of c "''data''"] by (auto simp: push_data_def set_ok split: option.splits json.splits)

lemma extras_of_error_ok: "extras_of_error args c = Ret c' \<Longrightarrow> list_all arg_ok args \<Longrightarrow> context_ok c \<Longrightarrow> context_ok c'"
  by (induction args c rule: extras_of_error.induct) (auto simp: js_bind_Ret_iff bindings_ok dest: push_ok)

lemma extras_of_text_ok: "extras_of_text args c = Ret c' \<Longrightarrow> list_all arg_ok args \<Longrightarrow> context_ok c \<Longrightarrow> context_ok c'"
  by (induction args c rule: extras_of_text.induct) (auto simp: js_bind_Ret_iff bindings_ok set_ok errorToContext_def dest: push_ok)

lemma extras_of_object_ok: "list_all arg_ok args \<Longrightarrow> context_ok c \<Longrightarrow> context_ok (extras_of_object args c)"
  by (induction args c rule: extras_of_object.induct) (auto simp: bindings_ok)

lemma data_ok: "arg_ok a \<Longrightarrow> json_ok (data_json a)"
  by (cases a) simp_all

lemma argsToRecord_ok: "argsToRecord nt args = Ret (m, c) \<Longrightarrow> list_all arg_ok args \<Longrightarrow> context_ok c"
  by (induction nt args rule: argsToRecord.induct)
    (auto simp: js_bind_Ret_iff errorToContext_def list_all_iff data_ok
      dest!: extras_of_error_ok [unfolded list_all_iff] extras_of_text_ok [unfolded list_all_iff]
      split: if_splits, use extras_of_object_ok [unfolded list_all_iff] in fastforce)

text \<open>
  A JSON logger writes one line per call: the text of an object, without a newline in it, that parses back to the
  record of the call.
\<close>

theorem json_logger_line:
  assumes "log_call nt time (JsonLogger minLevel i) level args = Ret events" and "events \<noteq> []" and "list_all arg_ok args"
  shows "\<exists>line msg context. events = [Json_Line i (line @ [CHR 0x0A])] \<and> CHR 0x0A \<notin> set line
    \<and> argsToRecord nt args = Ret (msg, context) \<and> json_parse line = Ret (json_record time level msg context)"
proof -
  from assms(1, 2) obtain msg ctx where parts: "argsToRecord nt args = Ret (msg, ctx)"
    and events: "events = [Json_Line i (stringify (json_record time level msg ctx) @ [CHR 0x0A])]"
    by (auto simp: js_bind_Ret_iff split: if_splits)
  have "context_ok [(''time'', JNum (dec_of_int time)), (''level'', JStr (level_name level)), (''msg'', JStr msg)]"
    by (simp add: number_ok_dec)
  from bindings_ok [OF this argsToRecord_ok [OF parts assms(3)]] have "json_ok (json_record time level msg ctx)"
    by (simp add: json_record_def)
  from stringify_no_newline [OF this] json_parse_stringify [OF this] parts events show ?thesis by blast
qed

theorem json_logger_line_witness:
  "\<exists>line. log_call (\<lambda>t. t) 7 (JsonLogger Info 0) Warn [Json (JStr ''m''), Json (JBool True), Error_Arg ''e'' ''s'' ''Error'']
       = Ret [Json_Line 0 (line @ [CHR 0x0A])] \<and> CHR 0x0A \<notin> set line"
proof -
  let ?args = "[Json (JStr ''m''), Json (JBool True), Error_Arg ''e'' ''s'' ''Error'']"
  have "list_all arg_ok ?args" by simp
  moreover obtain events where "log_call (\<lambda>t. t) 7 (JsonLogger Info 0) Warn ?args = Ret events" "events \<noteq> []"
    by (simp add: push_data_def)
  ultimately show ?thesis using json_logger_line by blast
qed

text \<open>
  A child of a JSON logger loses the message. The bindings come first, so that they are taken for the record and a
  text after them is ignored: two calls with different messages write the same line.
\<close>

theorem json_child_loses_message:
  "log_call nt time (getChildLogger (JsonLogger minLevel i) bs) level (Json (JStr text1) # args)
     = log_call nt time (getChildLogger (JsonLogger minLevel i) bs) level (Json (JStr text2) # args)"
  by (simp add: getChildLogger_def)

text \<open>A call throws when a context sets \<open>data\<close> to something that is not an array and a plain value follows.\<close>

theorem json_logger_throws:
  "log_call nt time (JsonLogger Debug i) level [Json (JStr m), Json (JObj [(''data'', JStr d)]), Json (JBool b)]
     = Throw (type_error ''context.data.push is not a function'')"
  by (simp add: push_data_def)

end
