(* ===== verification/Gated.thy ===== *)
theory Gated
  imports Middleware Providers
begin

text \<open>
  \<open>examples/sep10-sanctions-gate/src/app.ts\<close>: the route that lets an authenticated and unflagged account in. Express
  (4, which runs the handlers of a route in order and does not look at the promise an async handler returns) is
  part of the definition of \<open>gated_route\<close>; the health route has nothing to model.
\<close>

text \<open>A request is answered or handed on, or the promise of a handler rejects and nobody handles it.\<close>

datatype gate_outcome = Answered handled | Unhandled_Rejection thrown

definition forbidden_body :: json where
  "forbidden_body = JObj [(''error'', JStr ''forbidden''), (''reason'', JStr ''address is on a sanctions watchlist'')]"

definition granted_body :: "string \<Rightarrow> json" where
  "granted_body address = JObj [(''message'', JStr ''Access granted''), (''address'', JStr address)]"

definition sanctionsMiddleware :: "'w provider \<Rightarrow> string \<Rightarrow> 'w \<Rightarrow> gate_outcome \<times> 'w" where
  "sanctionsMiddleware provider address w =
     (case provider address w of
        (Throw e, w) \<Rightarrow> (Unhandled_Rejection e, w)
      | (Ret result, w) \<Rightarrow> (Answered (if cr_flagged result then json_answer 403 forbidden_body else Next), w))"

text \<open>The route: what authentication lets pass, with an address, is screened, and then greeted.\<close>

definition gated_route ::
  "(auth_request \<Rightarrow> 'w \<Rightarrow> (handled \<times> (string \<times> string option) option) \<times> 'w) \<Rightarrow> 'w provider \<Rightarrow> auth_request \<Rightarrow> 'w
     \<Rightarrow> gate_outcome \<times> 'w" where
  "gated_route sep10Middleware provider req w =
     (case sep10Middleware req w of
        ((Next, Some (address, jti)), w) \<Rightarrow>
          (case sanctionsMiddleware provider address w of
             (Answered Next, w) \<Rightarrow> (Answered (json_answer 200 (granted_body address)), w)
           | out \<Rightarrow> out)
      | ((h, _), w) \<Rightarrow> (Answered h, w))"

definition createApp ::
  "'w verify_env \<Rightarrow> 'w auth_options \<Rightarrow> 'w provider option \<Rightarrow> thrown + (auth_request \<Rightarrow> 'w \<Rightarrow> gate_outcome \<times> 'w)" where
  "createApp env options sanctionsProvider =
     js_bind (assertSep10MiddlewareOptions (ve_isEd25519 env) options) (\<lambda>_.
       Ret (gated_route (express_authenticate env options)
         (case sanctionsProvider of Some p \<Rightarrow> p | None \<Rightarrow> mock_checkAddress MOCK_FLAGGED_ADDRESSES)))"

text \<open>
  Behind any middleware that authenticates, the gate opens exactly for accounts the provider does not flag, a flagged account
  is answered 403, and a provider that fails lets nobody in: the request is left without an answer.
\<close>

theorem gate_opens_iff:
  assumes "sep10Middleware req w = ((Next, Some (address, jti)), w1)" and "provider address w1 = (r, w2)"
  shows "gated_route sep10Middleware provider req w =
    (case r of Ret result \<Rightarrow> Answered (if cr_flagged result then json_answer 403 forbidden_body
        else json_answer 200 (granted_body address))
      | Throw e \<Rightarrow> Unhandled_Rejection e, w2)"
  using assms by (auto simp: gated_route_def sanctionsMiddleware_def json_answer_def split: sum.split)

theorem gate_opens_iff_witness:
  "gated_route (\<lambda>req w. ((Next, Some (''GA'', None)), w)) (\<lambda>a w. (Ret (unscored False ''s''), w)) \<lparr>ar_headers = []\<rparr> ()
     = (Answered (json_answer 200 (granted_body ''GA'')), ())"
  using gate_opens_iff [of "\<lambda>req w. ((Next, Some (''GA'', None)), w)" "\<lparr>ar_headers = []\<rparr>" "()" "''GA''" None "()"
      "\<lambda>a w. (Ret (unscored False ''s''), w)" "Ret (unscored False ''s'')" "()"]
  by (simp add: unscored_def)

text \<open>
  As shipped the gate never opens. Every request to it is answered 401 and the provider is never asked, since the
  SEP-10 middleware of Express rejects every request.
\<close>

theorem gate_never_opens:
  assumes "createApp env options sanctionsProvider = Ret app"
  shows "\<exists>resp w'. app req w = (Answered (Respond resp), w') \<and> hr_status resp = 401"
proof -
  obtain resp w' where "express_authenticate env options req w = ((Respond resp, None), w')" "hr_status resp = 401"
    using express_rejects [of env options req w] by (metis prod.collapse)
  then have "gated_route (express_authenticate env options) q req w = (Answered (Respond resp), w')" for q
    by (simp add: gated_route_def)
  with assms \<open>hr_status resp = 401\<close> show ?thesis by (auto simp: createApp_def js_bind_Ret_iff)
qed

end
