(* ===== verification/Commands.thy ===== *)
theory Commands
  imports Cli Forwarder
begin

text \<open>
  \<open>bin/compliance-adapters.js\<close>: the flags, the choice of a command, and the commands \<open>sync-sanctions\<close> and \<open>listen\<close>.
  The packages are the models of their sources; \<open>require\<close> of their builds may fail. Of the output only the
  result and the message of a flag error are kept.
\<close>

section \<open>Flags\<close>

text \<open>A flag without a value is the boolean \<open>true\<close>.\<close>

datatype flag_value = FlagTrue | FlagText string

type_synonym flags = "(string, flag_value) jsmap"

definition dashed :: "string \<Rightarrow> bool" where
  "dashed s \<longleftrightarrow> take 2 s = ''--''"

fun parseFlags_loop :: "string list \<Rightarrow> flags \<Rightarrow> flags" where
  "parseFlags_loop [] out = out"
| "parseFlags_loop (arg # rest) out =
     (if \<not> dashed arg then parseFlags_loop rest out
      else (case rest of
          next_arg # rest' \<Rightarrow>
            if \<not> dashed next_arg then parseFlags_loop rest' (map_set (drop 2 arg) (FlagText next_arg) out)
            else parseFlags_loop rest (map_set (drop 2 arg) FlagTrue out)
        | [] \<Rightarrow> map_set (drop 2 arg) FlagTrue out))"

definition parseFlags :: "string list \<Rightarrow> flags" where
  "parseFlags argv = parseFlags_loop argv []"

fun collectRepeatedFlag :: "string list \<Rightarrow> string \<Rightarrow> string list" where
  "collectRepeatedFlag [] flag = []"
| "collectRepeatedFlag (arg # rest) flag =
     (case rest of
        v # rest' \<Rightarrow> if arg = flag \<and> v \<noteq> [] \<and> \<not> dashed v then v # collectRepeatedFlag rest' flag
          else collectRepeatedFlag rest flag
      | [] \<Rightarrow> [])"

definition flag_text :: "flags \<Rightarrow> string \<Rightarrow> string option" where
  "flag_text args name = (case map_get args name of Some (FlagText s) \<Rightarrow> Some s | _ \<Rightarrow> None)"

definition flag_truthy :: "flags \<Rightarrow> string \<Rightarrow> bool" where
  "flag_truthy args name = (case map_get args name of None \<Rightarrow> False | Some v \<Rightarrow> v \<noteq> FlagText [])"

definition flag_is_true :: "flags \<Rightarrow> string \<Rightarrow> bool" where
  "flag_is_true args name \<longleftrightarrow> map_get args name = Some FlagTrue"

text \<open>The value of a flag where a package expects a string: \<open>true\<close> goes to the SDK, which is a parameter, as its text.\<close>

definition flag_or :: "flags \<Rightarrow> string \<Rightarrow> string \<Rightarrow> string" where
  "flag_or args name dflt =
     (case map_get args name of None \<Rightarrow> dflt | Some FlagTrue \<Rightarrow> ''true'' | Some (FlagText s) \<Rightarrow> s)"

definition flag_number :: "flags \<Rightarrow> string \<Rightarrow> int option" where
  "flag_number args name = (case map_get args name of Some (FlagText s) \<Rightarrow> parse_int s | _ \<Rightarrow> None)"

section \<open>The choice of a command\<close>

datatype command = Sync_Sanctions | Listen | Dlq

definition COMMANDS :: "(string \<times> command) list" where
  "COMMANDS = [(''sync-sanctions'', Sync_Sanctions), (''listen'', Listen), (''dlq'', Dlq)]"

text \<open>The properties every object inherits. Called as a command, each leads to an uncaught TypeError.\<close>

definition inherited_names :: "string list" where
  "inherited_names = [''constructor'', ''__defineGetter__'', ''__defineSetter__'', ''hasOwnProperty'', ''__lookupGetter__'',
     ''__lookupSetter__'', ''isPrototypeOf'', ''propertyIsEnumerable'', ''toString'', ''valueOf'', ''__proto__'', ''toLocaleString'']"

datatype dispatched = Print_Usage | Unknown_Command string | Uncaught_TypeError | Run_Command command "string list"

definition is_help :: "string \<Rightarrow> bool" where
  "is_help s \<longleftrightarrow> s = ''--help'' \<or> s = ''-h''"

fun dispatch :: "string list \<Rightarrow> dispatched" where
  "dispatch [] = Print_Usage"
| "dispatch (name # rest) =
     (if name = [] \<or> is_help name then Print_Usage
      else (case map_get COMMANDS name of
          Some c \<Rightarrow> Run_Command c rest
        | None \<Rightarrow> if name \<in> set inherited_names then Uncaught_TypeError else Unknown_Command name))"

text \<open>How a command ends. What it throws is printed by the entry point, which sets exit code 1.\<close>

datatype 'r command_end = Help_Shown | Flag_Error string | Rejected thrown | Finished 'r

fun exit_code :: "'r command_end \<Rightarrow> int" where
  "exit_code Help_Shown = 0"
| "exit_code (Flag_Error m) = 1"
| "exit_code (Rejected e) = 1"
| "exit_code (Finished r) = 0"

section \<open>\<open>sync-sanctions\<close>\<close>

text \<open>A flag error, help or an exception before the sync, or the call of \<open>syncSanctionsToDenylist\<close>.\<close>

datatype 'w sync_plan = Sync_Ends "sync_result command_end" | Sync_Calls json "'w denylist_writer" bool

definition invalid_path_error :: thrown where
  "invalid_path_error = type_error (''The '' @ [CHR 0x22] @ ''path'' @ [CHR 0x22]
     @ '' argument must be of type string or an instance of Buffer or URL. Received type boolean (true)'')"

definition read_addresses :: "file_system \<Rightarrow> flags \<Rightarrow> thrown + json" where
  "read_addresses fs args =
     (case flag_text args ''addresses'' of
        None \<Rightarrow> Throw invalid_path_error
      | Some path \<Rightarrow> js_bind (fs_readFileSync fs path) json_parse)"

definition TESTNET :: string where
  "TESTNET = ''Test SDF Network ; September 2015''"

definition command_dry_writer :: "'w denylist_writer" where
  "command_dry_writer = \<lparr>dw_add = (\<lambda>_ w. (Throw (mk_error ''addToDenylist must not be called in dry-run mode''), w)),
     dw_addWithSource = None, dw_remove = None, dw_removeWithSource = None\<rparr>"

definition missing_live_flags :: "flags \<Rightarrow> string list" where
  "missing_live_flags args = filter (\<lambda>f. \<not> flag_truthy args f) [''contract-id'', ''rpc-url'', ''secret-key'']"

text \<open>The options of \<open>createRpcDenylistWriter\<close>; those not given take their defaults. \<open>logError\<close> writes to the console.\<close>

definition command_writer_options :: "flags \<Rightarrow> keypair \<Rightarrow> 'w writer_options" where
  "command_writer_options args kp =
     \<lparr>wo_networkPassphrase = flag_or args ''network-passphrase'' TESTNET, wo_contractId = flag_or args ''contract-id'' [],
      wo_sourceKeypair = Some (KeypairKey kp), wo_signer = None, wo_feeSource = None, wo_auditLogger = None,
      wo_maxRetries = None, wo_backoff = default_backoff, wo_logError = (\<lambda>_ _ _ w. w)\<rparr>"

definition live_writer :: "('acct, 'tx, 'w) cli_env \<Rightarrow> flags \<Rightarrow> thrown + 'w denylist_writer" where
  "live_writer env args =
     js_bind (ce_fromSecret env (flag_or args ''secret-key'' [])) (\<lambda>kp.
       createRpcDenylistWriter (ce_sdk env (flag_or args ''rpc-url'' []))
         \<lparr>we_retry = se_retry (ce_sync env), we_nowIso = ce_nowIso env\<rparr> (command_writer_options args kp))"

definition sync_plan :: "thrown option \<Rightarrow> ('acct, 'tx, 'w) cli_env \<Rightarrow> string list \<Rightarrow> 'w sync_plan" where
  "sync_plan unbuilt env argv =
     (if list_ex is_help argv then Sync_Ends Help_Shown
      else
        (let args = parseFlags argv in
         if \<not> flag_truthy args ''addresses'' then Sync_Ends (Flag_Error ''Missing required flag: --addresses <path-to-json-array>'')
         else
           (case unbuilt of
              Some e \<Rightarrow> Sync_Ends (Rejected e)
            | None \<Rightarrow>
                (case read_addresses (ce_fs env) args of
                   Throw e \<Rightarrow> Sync_Ends (Rejected e)
                 | Ret addresses \<Rightarrow>
                     if map_has args ''dry-run'' then Sync_Calls addresses command_dry_writer True
                     else if missing_live_flags args \<noteq> [] then
                       Sync_Ends (Flag_Error (''Missing required flags for live sync: ''
                         @ join '', '' (map (\<lambda>f. ''--'' @ f) (missing_live_flags args))))
                     else (case live_writer env args of
                         Throw e \<Rightarrow> Sync_Ends (Rejected e)
                       | Ret writer \<Rightarrow> Sync_Calls addresses writer False)))))"

text \<open>
  The addresses are passed on unchecked. The sync of another value than an array of strings is described as far as the
  function gets in a program without a global \<open>maxDurationMs\<close>.
\<close>

inductive runSyncSanctions ::
  "(string \<Rightarrow> int option option) \<Rightarrow> thrown option \<Rightarrow> ('acct, 'tx, 'w) cli_env \<Rightarrow> string list \<Rightarrow> 'w
     \<Rightarrow> sync_result command_end \<times> 'w \<Rightarrow> bool"
  for globals unbuilt env argv w where
  ends: "sync_plan unbuilt env argv = Sync_Ends out \<Longrightarrow> runSyncSanctions globals unbuilt env argv w (out, w)"
| untyped: "sync_plan unbuilt env argv = Sync_Calls j writer dryRun \<Longrightarrow> string_array j = None \<Longrightarrow>
     globals ''maxDurationMs'' = None \<Longrightarrow>
     runSyncSanctions globals unbuilt env argv w (Rejected (reference_error ''maxDurationMs''), w)"
| throws: "sync_plan unbuilt env argv = Sync_Calls j writer dryRun \<Longrightarrow> string_array j = Some addresses \<Longrightarrow>
     syncSanctionsToDenylist globals (ce_sync env)
       (cli_options (mock_checkAddress MOCK_FLAGGED_ADDRESSES) addresses writer dryRun None False None) [] w (Throw e, w') \<Longrightarrow>
     runSyncSanctions globals unbuilt env argv w (Rejected e, w')"
| returns: "sync_plan unbuilt env argv = Sync_Calls j writer dryRun \<Longrightarrow> string_array j = Some addresses \<Longrightarrow>
     syncSanctionsToDenylist globals (ce_sync env)
       (cli_options (mock_checkAddress MOCK_FLAGGED_ADDRESSES) addresses writer dryRun None False None) [] w (Ret r, w') \<Longrightarrow>
     runSyncSanctions globals unbuilt env argv w (Finished r, w')"

section \<open>\<open>listen\<close>\<close>

record ('sv, 'w) listen_env =
  ln_unbuilt :: "thrown option"
  ln_noop_global :: bool
  ln_protocol_of :: "string \<Rightarrow> thrown + string"
  ln_activeRpcUrl :: "rpc_source \<Rightarrow> string option"
  ln_rpc :: "('sv, 'w) rpc_env"
  ln_webhook :: "'w webhook_env"
  ln_listener :: "'w listener_env"
  ln_nan :: int

text \<open>
  NaN is \<open>None\<close> here. Where it is used: as \<open>maxRetries\<close> it is never reached, like \<open>Infinity\<close>; as a delay
  a timer takes it for 1; as the start ledger it is handed to the RPC node, for which \<open>ln_nan\<close> stands.
\<close>

record listen_settings =
  ls_contractIds :: "string list"
  ls_rpcUrl :: string
  ls_dryRun :: bool
  ls_webhookUrl :: "string option"
  ls_startLedger :: "int option option"
  ls_pollIntervalMs :: "int option"
  ls_maxRetries :: "int option"

definition listen_settings_of :: "string list \<Rightarrow> listen_settings" where
  "listen_settings_of argv =
     (let args = parseFlags argv in
      \<lparr>ls_contractIds = collectRepeatedFlag argv ''--contract-id'',
       ls_rpcUrl = flag_or args ''rpc-url'' ''https://soroban-testnet.stellar.org'',
       ls_dryRun = flag_is_true args ''dry-run'',
       ls_webhookUrl = nonempty (flag_text args ''webhook-url''),
       ls_startLedger = (if flag_truthy args ''start-ledger'' then Some (flag_number args ''start-ledger'') else None),
       ls_pollIntervalMs = (if flag_truthy args ''poll-interval-ms'' then flag_number args ''poll-interval-ms'' else Some 5000),
       ls_maxRetries = (if flag_truthy args ''max-retries'' then flag_number args ''max-retries'' else Some 10)\<rparr>)"

definition listen_source :: "('sv, 'w) listen_env \<Rightarrow> listen_settings \<Rightarrow> rpc_source_options" where
  "listen_source env s = \<lparr>rs_rpcUrl = Some (ls_rpcUrl s), rs_rpcUrls = None, rs_has_metrics = False,
     rs_contractIds = ls_contractIds s, rs_topics = None, rs_eventType = None,
     rs_startLedger = map_option (\<lambda>n. or_default n (ln_nan env)) (ls_startLedger s), rs_timeoutMs = None, rs_native = False\<rparr>"

definition listen_webhook :: "string \<Rightarrow> webhook_options" where
  "listen_webhook url = \<lparr>wh_url = url, wh_signingSecret = None, wh_timeoutMs = None, wh_maxRetries = None,
     wh_batchSize = None, wh_batchMaxWaitMs = None\<rparr>"

definition listen_config :: "listen_settings \<Rightarrow> listener_config" where
  "listen_config s = \<lparr>lc_pollIntervalMs = Some (of_int (or_default (ls_pollIntervalMs s) 1)),
     lc_maxRetries = Some (map_option of_int (ls_maxRetries s)), lc_backoff = None, lc_startLedger = None, lc_mode = None,
     lc_eventRetry = None, lc_concurrency = None, lc_orderingKey = None\<rparr>"

text \<open>The sender of \<open>listen\<close> has no batch size, so every \<open>send\<close> delivers at once.\<close>

definition listen_handler :: "'w webhook_env \<Rightarrow> webhook_sender option \<Rightarrow> raw_event \<Rightarrow> 'w \<Rightarrow> (thrown + unit) \<times> 'w" where
  "listen_handler wenv sender event w =
     (case sender of None \<Rightarrow> (Ret (), w) | Some s \<Rightarrow> webhook_send (\<lambda>_ _ w. (Ret (), w)) wenv s event w)"

definition listen_parts :: "('sv, 'w) listen_env \<Rightarrow> listen_settings \<Rightarrow> thrown + rpc_source \<times> webhook_sender option" where
  "listen_parts env s =
     js_bind (new_rpc_source (ln_noop_global env) (listen_source env s)) (\<lambda>eventSource.
       if ls_dryRun s then Ret (eventSource, None)
       else js_bind (new_webhook_sender (ln_protocol_of env) (listen_webhook (or_default (ls_webhookUrl s) []))) (\<lambda>sender.
         Ret (eventSource, Some sender)))"

definition listen_start ::
  "nat \<Rightarrow> ('sv, 'w) listen_env \<Rightarrow> listen_settings \<Rightarrow> rpc_source \<Rightarrow> webhook_sender option \<Rightarrow> 'w
    \<Rightarrow> ((thrown + unit) \<times> listener \<times> 'w) option" where
  "listen_start fuel env s eventSource sender w =
     (case new_listener (listen_config s) of (opts, st) \<Rightarrow>
        start fuel ((ln_listener env)\<lparr>le_getEvents := rpc_getEvents (ln_rpc env) (ln_activeRpcUrl env) eventSource,
          le_resetToLedger := None, le_onEvent := listen_handler (ln_webhook env) sender, le_onEventFailure := None\<rparr>)
          opts False st w)"

definition runListen :: "nat \<Rightarrow> ('sv, 'w) listen_env \<Rightarrow> string list \<Rightarrow> 'w \<Rightarrow> (unit command_end \<times> 'w) option" where
  "runListen fuel env argv w =
     (if list_ex is_help argv then Some (Help_Shown, w)
      else
        (case ln_unbuilt env of
           Some e \<Rightarrow> Some (Rejected e, w)
         | None \<Rightarrow>
             (let s = listen_settings_of argv in
              if ls_contractIds s = [] then Some (Flag_Error ''Missing required flag: --contract-id <id>'', w)
              else if ls_webhookUrl s = None \<and> \<not> ls_dryRun s then Some (Flag_Error ''Missing required flag: --webhook-url <url>'', w)
              else
                (case listen_parts env s of
                   Throw e \<Rightarrow> Some (Rejected e, w)
                 | Ret (eventSource, sender) \<Rightarrow>
                     (case listen_start fuel env s eventSource sender w of
                        None \<Rightarrow> None
                      | Some (Throw e, st, w) \<Rightarrow> Some (Rejected e, w)
                      | Some (Ret _, st, w) \<Rightarrow> Some (Finished (), w))))))"

section \<open>Properties\<close>

subsection \<open>Flags\<close>

text \<open>Flags and their spelling.\<close>

datatype flag = Valued string string | Switch string

fun flag_ok :: "flag \<Rightarrow> bool" where
  "flag_ok (Valued k v) \<longleftrightarrow> \<not> dashed v"
| "flag_ok (Switch k) \<longleftrightarrow> True"

fun render_flag :: "flag \<Rightarrow> string list" where
  "render_flag (Valued k v) = [''--'' @ k, v]"
| "render_flag (Switch k) = [''--'' @ k]"

fun set_flag :: "flags \<Rightarrow> flag \<Rightarrow> flags" where
  "set_flag out (Valued k v) = map_set k (FlagText v) out"
| "set_flag out (Switch k) = map_set k FlagTrue out"

lemma dashed_append [simp]: "dashed (''--'' @ k)" "dashed (CHR ''-'' # CHR ''-'' # k)"
  by (simp_all add: dashed_def)

lemma parseFlags_switch:
  "rest = [] \<or> dashed (hd rest) \<Longrightarrow> parseFlags_loop ((''--'' @ k) # rest) out = parseFlags_loop rest (map_set k FlagTrue out)"
  by (cases rest) auto

lemma rendered_head: "concat (map render_flag fs) = [] \<or> dashed (hd (concat (map render_flag fs)))"
proof (cases fs)
  case (Cons f fs')
  then show ?thesis by (cases f) auto
qed simp

lemma parseFlags_loop_render:
  "list_all flag_ok fs \<Longrightarrow> parseFlags_loop (concat (map render_flag fs)) out = foldl set_flag out fs"
proof (induction fs arbitrary: out)
  case (Cons f fs)
  show ?case
  proof (cases f)
    case (Valued k v)
    with Cons show ?thesis by simp
  next
    case (Switch k)
    with Cons parseFlags_switch [OF rendered_head, of k fs out] show ?thesis by simp
  qed
qed simp

text \<open>
  Flags printed and parsed come back: each value belongs to the flag before it, a flag followed by another is
  \<open>true\<close>, and the last of several values wins. Only a value that starts with two dashes is lost.
\<close>

theorem parseFlags_render:
  assumes "list_all flag_ok fs"
  shows "parseFlags (concat (map render_flag fs)) = foldl set_flag [] fs"
  using parseFlags_loop_render [OF assms] by (simp add: parseFlags_def)

theorem parseFlags_render_witness:
  "parseFlags [''--limit'', ''3'', ''--dry-run'', ''--limit'', ''-1''] = [(''limit'', FlagText ''-1''), (''dry-run'', FlagTrue)]"
  using parseFlags_render [of "[Valued ''limit'' ''3'', Switch ''dry-run'', Valued ''limit'' ''-1'']"] by (simp add: dashed_def)

text \<open>The values of a repeated flag are collected in order, whatever other flags stand between them.\<close>

fun values_of :: "string \<Rightarrow> flag list \<Rightarrow> string list" where
  "values_of k [] = []"
| "values_of k (Valued k' v # fs) = (if k' = k then [v] else []) @ values_of k fs"
| "values_of k (Switch k' # fs) = values_of k fs"

lemma collect_skips_value: "\<not> dashed v \<Longrightarrow> dashed flag \<Longrightarrow> collectRepeatedFlag (v # rest) flag = collectRepeatedFlag rest flag"
  by (cases rest) auto

lemma collect_skips_switch:
  "rest = [] \<or> dashed (hd rest) \<Longrightarrow> collectRepeatedFlag (arg # rest) flag = collectRepeatedFlag rest flag"
  by (cases rest) auto

theorem collectRepeatedFlag_render:
  assumes "list_all flag_ok fs" and "[] \<notin> set (values_of k fs)"
  shows "collectRepeatedFlag (concat (map render_flag fs)) (''--'' @ k) = values_of k fs"
  using assms
proof (induction fs)
  case (Cons f fs)
  show ?case
  proof (cases f)
    case (Valued k' v)
    with Cons show ?thesis using collect_skips_value [of v "''--'' @ k"] by (auto split: if_splits)
  next
    case (Switch k')
    with Cons collect_skips_switch [OF rendered_head, of "''--'' @ k'" fs "''--'' @ k"] show ?thesis by simp
  qed
qed simp

theorem collectRepeatedFlag_render_witness:
  "collectRepeatedFlag [''--contract-id'', ''A'', ''--dry-run'', ''--contract-id'', ''B''] ''--contract-id'' = [''A'', ''B'']"
  using collectRepeatedFlag_render [of "[Valued ''contract-id'' ''A'', Switch ''dry-run'', Valued ''contract-id'' ''B'']" "''contract-id''"]
  by (simp add: dashed_def)

subsection \<open>The commands as shipped\<close>

lemma run_sync_cases:
  assumes "runSyncSanctions (\<lambda>_. None) unbuilt env argv w (out, w')"
  shows "w' = w \<and> (sync_plan unbuilt env argv = Sync_Ends out
    \<or> (\<exists>j writer dryRun. sync_plan unbuilt env argv = Sync_Calls j writer dryRun) \<and> out = Rejected (reference_error ''maxDurationMs''))"
  using assms by cases (auto simp: sync_unbound)

lemma sync_plan_ends: "sync_plan unbuilt env argv = Sync_Ends out \<Longrightarrow> if list_ex is_help argv then out = Help_Shown else exit_code out = 1"
  by (auto simp: sync_plan_def Let_def split: option.splits sum.splits if_splits)

text \<open>
  \<open>sync-sanctions\<close> never syncs: whatever its flags, a run shows the help it was asked for, or exits with 1 and has changed
  nothing, a dry run included.
\<close>

theorem sync_command_never_syncs:
  assumes "runSyncSanctions (\<lambda>_. None) unbuilt env argv w (out, w')"
  shows "w' = w \<and> (if list_ex is_help argv then out = Help_Shown else exit_code out = 1)"
proof -
  have "list_ex is_help argv \<Longrightarrow> sync_plan unbuilt env argv = Sync_Ends Help_Shown" by (simp add: sync_plan_def)
  then show ?thesis
    using run_sync_cases [OF assms] sync_plan_ends [of unbuilt env argv out] by (auto simp: reference_error_def)
qed

theorem sync_command_never_syncs_witness:
  "runSyncSanctions (\<lambda>_. None) None cli_example [''--addresses'', ''a.json'', ''--dry-run''] 0
      (Rejected (reference_error ''maxDurationMs''), 0)
    \<and> exit_code (Rejected (reference_error ''maxDurationMs'') :: sync_result command_end) = 1"
proof
  have plan: "sync_plan None cli_example [''--addresses'', ''a.json'', ''--dry-run''] =
      Sync_Calls (JArr [JStr '' ga '']) command_dry_writer True"
    by (simp add: sync_plan_def is_help_def parseFlags_def dashed_def flag_truthy_def flag_text_def read_addresses_def
      cli_example_def json_parse_strings map_has_def)
  have "all_strings [JStr '' ga ''] = Some ['' ga '']" by simp
  then show run: "runSyncSanctions (\<lambda>_. None) None cli_example [''--addresses'', ''a.json'', ''--dry-run''] 0
      (Rejected (reference_error ''maxDurationMs''), 0)"
    by (intro runSyncSanctions.throws [OF plan]) (auto simp: sync_unbound)
  show "exit_code (Rejected (reference_error ''maxDurationMs'') :: sync_result command_end) = 1"
    using sync_command_never_syncs [OF run] by (simp add: is_help_def)
qed

text \<open>
  \<open>listen\<close> never listens: whatever its flags, a run shows help, or exits with 1 before it has asked the RPC node or the
  webhook for anything. This holds also in a program that has \<open>NoopMetricsRegistry\<close> as a global, where the
  construction of the source would succeed.
\<close>

theorem listen_never_listens:
  assumes "ln_activeRpcUrl env = no_active_url" and "le_gap (ln_listener env) = None"
  shows "\<exists>out. runListen (Suc fuel) env argv w = Some (out, w) \<and> (if list_ex is_help argv then out = Help_Shown else exit_code out = 1)"
proof -
  have started: "\<exists>st e. listen_start (Suc fuel) env s eventSource sender w = Some (Throw e, st, w)" for s eventSource sender
  proof -
    obtain e where e: "rpc_getEvents (ln_rpc env) no_active_url eventSource None w = (Throw e, w)"
      using rpc_getEvents_throws [of "ln_rpc env" eventSource None w] by blast
    show ?thesis
      using assms e by (simp add: listen_start_def new_listener_def start_def run_def is_running_def poll_once_def poll_failed_def)
  qed
  show ?thesis
  proof (cases "listen_parts env (listen_settings_of argv)")
    case (Inr parts)
    obtain st e where "listen_start (Suc fuel) env (listen_settings_of argv) (fst parts) (snd parts) w = Some (Throw e, st, w)"
      using started by blast
    with Inr show ?thesis by (auto simp: runListen_def Let_def split: option.split prod.split)
  qed (auto simp: runListen_def Let_def split: option.split)
qed

definition example_listen :: "(nat, nat) listen_env" where
  "example_listen = \<lparr>ln_unbuilt = None, ln_noop_global = True, ln_protocol_of = (\<lambda>u. Ret ''https:''), ln_activeRpcUrl = no_active_url,
     ln_rpc = example_rpc_env, ln_webhook = example_webhook_env, ln_listener = down_env None, ln_nan = 0\<rparr>"

theorem listen_never_listens_witness:
  "\<exists>out. runListen 1 example_listen [''--contract-id'', ''C'', ''--webhook-url'', ''https://h''] 0 = Some (out, 0) \<and> exit_code out = 1"
  using listen_never_listens [of example_listen 0 "[''--contract-id'', ''C'', ''--webhook-url'', ''https://h'']" 0]
  by (simp add: example_listen_def down_env_def is_help_def)

end
