(* ===== verification/DlqCommand.thy ===== *)
theory DlqCommand
  imports Commands DeadLetter
begin

text \<open>
  \<open>bin/compliance-adapters.js\<close>, the command \<open>dlq\<close>: the settings, the queue and the replay of the built package or, when it is
  not built, their fallback inside the command. Files and fetch are parameters.
\<close>

section \<open>Settings\<close>

record dlq_settings =
  ds_path :: string
  ds_webhook :: "string option"
  ds_dryRun :: bool
  ds_limit :: "int option"

text \<open>\<open>Number.isInteger\<close> of a parsed number: a number too large for a double is infinite.\<close>

definition limit_ok :: "int option \<Rightarrow> bool" where
  "limit_ok n = (case n of None \<Rightarrow> False | Some n \<Rightarrow> 0 < n \<and> n < 2 ^ 1024 - 2 ^ 970)"

definition dlq_settings_of :: "string list \<Rightarrow> string + dlq_settings" where
  "dlq_settings_of argv =
     (let args = parseFlags argv;
          webhookUrl = nonempty (flag_text args ''webhook'');
          dryRun = flag_is_true args ''dry-run'';
          limit = (if map_has args ''limit'' then Some (flag_number args ''limit'') else None)
      in case nonempty (flag_text args ''dlq'') of
           None \<Rightarrow> Inl ''Missing required flag: --dlq <path-to-dlq-file>''
         | Some path \<Rightarrow>
             if webhookUrl = None \<and> \<not> dryRun then Inl ''Missing required flag: --webhook <url> (or pass --dry-run)''
             else if limit \<noteq> None \<and> \<not> limit_ok (the limit) then Inl ''Invalid flag: --limit must be a positive integer''
             else Inr \<lparr>ds_path = path, ds_webhook = webhookUrl, ds_dryRun = dryRun, ds_limit = map_option the limit\<rparr>)"

section \<open>The queue and the replay of the command\<close>

definition fallback_queue :: "'f sync_fs \<Rightarrow> string \<Rightarrow> 'f \<Rightarrow> thrown + file_dlq" where
  "fallback_queue fs p f =
     (if sf_exists fs p f then
        js_bind (sf_read fs p f) (\<lambda>content.
        js_bind (parse_lines (filter (\<lambda>l. trim l \<noteq> []) (split_on (CHR 0x0A) content))) (\<lambda>entries.
          Ret \<lparr>fq_path = p, fq_entries = entries\<rparr>))
      else Ret \<lparr>fq_path = p, fq_entries = []\<rparr>)"

definition fallback_remove :: "'f sync_fs \<Rightarrow> json option \<Rightarrow> file_dlq \<times> 'f \<Rightarrow> (thrown + bool) \<times> file_dlq \<times> 'f" where
  "fallback_remove fs eventId qf =
     (case qf of (que, f) \<Rightarrow>
        (case find_entry eventId (fq_entries que) of
           Throw e \<Rightarrow> (Throw e, que, f)
         | Ret None \<Rightarrow> (Ret False, que, f)
         | Ret (Some i) \<Rightarrow>
             (let que = que\<lparr>fq_entries := take i (fq_entries que) @ drop (Suc i) (fq_entries que)\<rparr> in
              case sf_write fs (fq_path que) (concat (map entry_line (fq_entries que))) f of
                (Throw e, f) \<Rightarrow> (Throw e, que, f)
              | (Ret _, f) \<Rightarrow> (Ret True, que, f))))"

text \<open>What one round of the loop adds to \<open>delivered\<close> and whether it ends in the \<open>catch\<close>.\<close>

definition fallback_round ::
  "(json option \<Rightarrow> 'w \<Rightarrow> (thrown + unit) \<times> 'w) \<Rightarrow> (json option \<Rightarrow> 'q \<Rightarrow> (thrown + bool) \<times> 'q) \<Rightarrow> bool
    \<Rightarrow> json \<Rightarrow> 'q \<times> 'w \<Rightarrow> (nat \<times> (thrown + unit)) \<times> 'q \<times> 'w" where
  "fallback_round send remove dr entry qw =
     (case qw of (que, w) \<Rightarrow>
        (case entry_event entry of
           Throw e \<Rightarrow> ((0, Throw e), que, w)
         | Ret event \<Rightarrow>
             (case send event w of
                (Throw e, w) \<Rightarrow> ((0, Throw e), que, w)
              | (Ret _, w) \<Rightarrow>
                  if dr then ((1, Ret ()), que, w)
                  else (case entry_id entry of
                      Throw e \<Rightarrow> ((1, Throw e), que, w)
                    | Ret i \<Rightarrow> (case remove i que of (r, que) \<Rightarrow> ((1, js_bind r (\<lambda>_. Ret ())), que, w))))))"

fun fallback_loop ::
  "(json option \<Rightarrow> 'w \<Rightarrow> (thrown + unit) \<times> 'w) \<Rightarrow> (json option \<Rightarrow> 'q \<Rightarrow> (thrown + bool) \<times> 'q) \<Rightarrow> bool
    \<Rightarrow> json list \<Rightarrow> nat \<Rightarrow> nat \<Rightarrow> 'q \<times> 'w \<Rightarrow> (nat \<times> nat) \<times> 'q \<times> 'w" where
  "fallback_loop send remove dr [] delivered failed qw = ((delivered, failed), qw)"
| "fallback_loop send remove dr (entry # entries) delivered failed qw =
     (case fallback_round send remove dr entry qw of
        ((n, r), qw) \<Rightarrow> fallback_loop send remove dr entries (delivered + n)
          (case r of Ret _ \<Rightarrow> failed | Throw _ \<Rightarrow> Suc failed) qw)"

text \<open>The default of \<open>lim\<close> is \<open>Number.MAX_SAFE_INTEGER\<close>, more than an array holds.\<close>

definition fallback_replay ::
  "('q \<Rightarrow> json list) \<Rightarrow> (json option \<Rightarrow> 'q \<Rightarrow> (thrown + bool) \<times> 'q) \<Rightarrow> (json option \<Rightarrow> 'w \<Rightarrow> (thrown + unit) \<times> 'w)
    \<Rightarrow> bool \<Rightarrow> int option \<Rightarrow> 'q \<times> 'w \<Rightarrow> replay_result \<times> 'q \<times> 'w" where
  "fallback_replay getAll remove send dr lmt qw =
     (let entries = (case lmt of None \<Rightarrow> getAll (fst qw) | Some n \<Rightarrow> slice0 n (getAll (fst qw))) in
      case fallback_loop send remove dr entries 0 0 qw of
        ((delivered, failed), qw) \<Rightarrow>
          (\<lparr>re_delivered = delivered, re_failed = failed, re_attempted = length entries\<rparr>, qw))"

section \<open>The command\<close>

text \<open>\<open>dq_built\<close>: \<open>require\<close> finds the built package.\<close>

record ('f, 'w) dlq_env =
  dq_built :: bool
  dq_fs :: "'f sync_fs"
  dq_dirname :: "string \<Rightarrow> string"
  dq_fetch :: "webhook_request \<Rightarrow> 'w \<Rightarrow> (thrown + int) \<times> 'w"

definition replay_request :: "string \<Rightarrow> json option \<Rightarrow> webhook_request" where
  "replay_request url event = \<lparr>rq_url = url, rq_headers = [(''Content-Type'', ''application/json'')],
     rq_body = stringify (JObj (case event of None \<Rightarrow> [] | Some ev \<Rightarrow> [(''event'', ev)])), rq_timeoutMs = None\<rparr>"

definition dlq_send ::
  "(webhook_request \<Rightarrow> 'w \<Rightarrow> (thrown + int) \<times> 'w) \<Rightarrow> string \<Rightarrow> json option \<Rightarrow> 'w \<Rightarrow> (thrown + unit) \<times> 'w" where
  "dlq_send fetch url event w =
     (case fetch (replay_request url event) w of
        (Throw e, w) \<Rightarrow> (Throw e, w)
      | (Ret status, w) \<Rightarrow>
          (if response_ok status then Ret ()
           else Throw (mk_error (''webhook POST failed with status '' @ dec_of_int status)), w))"

definition settings_send :: "('f, 'w) dlq_env \<Rightarrow> dlq_settings \<Rightarrow> json option \<Rightarrow> 'w \<Rightarrow> (thrown + unit) \<times> 'w" where
  "settings_send env s = (if ds_dryRun s then \<lambda>event w. (Ret (), w) else dlq_send (dq_fetch env) (or_default (ds_webhook s) []))"

record dlq_report =
  dr_dlq :: string
  dr_dryRun :: bool
  dr_result :: replay_result

text \<open>The queue as the replay sees it: the object with its file system.\<close>

definition queue_entries :: "file_dlq \<times> 'f \<Rightarrow> json list" where
  "queue_entries qf = fq_entries (fst qf)"

lemma queue_entries_pair [simp]: "queue_entries (que, f) = fq_entries que"
  by (simp add: queue_entries_def)

definition dlq_replay :: "('f, 'w) dlq_env \<Rightarrow> dlq_settings \<Rightarrow> 'f \<times> 'w \<Rightarrow> (thrown + dlq_report) \<times> 'f \<times> 'w" where
  "dlq_replay env s fw =
     (case fw of (f, w) \<Rightarrow>
        (case (if dq_built env then new_file_dlq (dq_fs env) (dq_dirname env) (ds_path s) f
               else (fallback_queue (dq_fs env) (ds_path s) f, f)) of
           (Throw e, f) \<Rightarrow> (Throw e, f, w)
         | (Ret que, f) \<Rightarrow>
             (case (if dq_built env
                    then replayDeadLetterQueue queue_entries (file_remove (dq_fs env)) (settings_send env s) (ds_dryRun s) (ds_limit s) ((que, f), w)
                    else fallback_replay queue_entries (fallback_remove (dq_fs env)) (settings_send env s) (ds_dryRun s) (ds_limit s) ((que, f), w)) of
                (result, (que, f), w) \<Rightarrow> (Ret \<lparr>dr_dlq = ds_path s, dr_dryRun = ds_dryRun s, dr_result = result\<rparr>, f, w))))"

definition unknown_subcommand :: string where
  "unknown_subcommand = ''Unknown dlq subcommand: expected '' @ [CHR 0x22] @ ''replay'' @ [CHR 0x22]"

definition runDlq :: "('f, 'w) dlq_env \<Rightarrow> string list \<Rightarrow> 'f \<times> 'w \<Rightarrow> dlq_report command_end \<times> 'f \<times> 'w" where
  "runDlq env argv fw =
     (case argv of
        [] \<Rightarrow> (Flag_Error unknown_subcommand, fw)
      | subcommand # subRest \<Rightarrow>
          if subcommand \<noteq> ''replay'' then (Flag_Error unknown_subcommand, fw)
          else if list_ex is_help subRest then (Help_Shown, fw)
          else (case dlq_settings_of subRest of
              Inl m \<Rightarrow> (Flag_Error m, fw)
            | Inr s \<Rightarrow>
                (case dlq_replay env s fw of
                   (Throw e, fw) \<Rightarrow> (Rejected e, fw)
                 | (Ret report, fw) \<Rightarrow> (Finished report, fw))))"

section \<open>The fallback\<close>

lemma fallback_remove_eq: "fallback_remove fs i qf = file_remove fs i qf"
  by (cases qf) (auto simp: fallback_remove_def file_remove_def mem_remove_def persist_def Let_def
    split: sum.splits option.splits prod.splits)

lemma replay_loop_round:
  "replay_loop send remove dr (j # js) res qw =
     (case fallback_round send remove dr j qw of
        ((n, r), qw) \<Rightarrow> replay_loop send remove dr js
          (res\<lparr>re_delivered := re_delivered res + n, re_failed := (case r of Ret _ \<Rightarrow> re_failed res | Throw _ \<Rightarrow> Suc (re_failed res))\<rparr>) qw)"
proof -
  obtain que w where qw: "qw = (que, w)" by fastforce
  show ?thesis
  proof (cases "entry_event j")
    case (Inr event)
    obtain sent w1 where w1: "send event w = (sent, w1)" by fastforce
    show ?thesis
    proof (cases "sent = Ret () \<and> \<not> dr")
      case True
      obtain r que1 where que1: "remove (case entry_id j of Ret i \<Rightarrow> i | Throw _ \<Rightarrow> None) que = (r, que1)" by fastforce
      with True show ?thesis
        by (cases "entry_id j"; cases r) (simp_all add: qw fallback_round_def Inr w1)
    next
      case False
      then show ?thesis by (cases sent) (simp_all add: qw fallback_round_def Inr w1)
    qed
  qed (simp add: qw fallback_round_def)
qed

lemma fallback_loop_eq:
  "replay_loop send remove dr entries res qw =
     (case fallback_loop send remove dr entries (re_delivered res) (re_failed res) qw of
        ((delivered, failed), qw) \<Rightarrow> (res\<lparr>re_delivered := delivered, re_failed := failed\<rparr>, qw))"
  by (induction entries arbitrary: res qw) (auto simp: replay_loop_round simp del: replay_loop.simps(2) split: prod.splits sum.splits)

lemma fallback_replay_eq:
  "fallback_replay getAll remove send dr lmt qw = replayDeadLetterQueue getAll remove send dr lmt qw"
  by (simp add: fallback_replay_def replayDeadLetterQueue_def fallback_loop_eq split: prod.split)

lemma fallback_remove_fun: "fallback_remove fs = file_remove fs"
  by (intro ext fallback_remove_eq)

text \<open>Opening the queue, by the package or by the fallback.\<close>

definition open_queue :: "('f, 'w) dlq_env \<Rightarrow> string \<Rightarrow> 'f \<Rightarrow> (thrown + file_dlq) \<times> 'f" where
  "open_queue env path f = (if dq_built env then new_file_dlq (dq_fs env) (dq_dirname env) path f
     else (fallback_queue (dq_fs env) path f, f))"

lemma dlq_replay_open:
  "dlq_replay env s (f, w) =
     (case open_queue env (ds_path s) f of
        (Throw e, f) \<Rightarrow> (Throw e, f, w)
      | (Ret que, f) \<Rightarrow>
          (case replayDeadLetterQueue queue_entries (file_remove (dq_fs env)) (settings_send env s) (ds_dryRun s) (ds_limit s) ((que, f), w) of
             (result, (que, f), w) \<Rightarrow> (Ret \<lparr>dr_dlq = ds_path s, dr_dryRun = ds_dryRun s, dr_result = result\<rparr>, f, w)))"
  unfolding dlq_replay_def open_queue_def fallback_replay_eq fallback_remove_fun if_cancel by (rule prod.case)

lemma open_existing:
  assumes "sf_mkdir (dq_fs env) (dq_dirname env path) f = (Ret (), f)" and "sf_exists (dq_fs env) path f"
  shows "open_queue env path f = (fallback_queue (dq_fs env) path f, f)"
  using assms by (simp add: open_queue_def new_file_dlq_def fallback_queue_def load_entries_def)

text \<open>
  C31. The fallback is the package: on an existing file, whose directory needs no creating, a replay before the build does
  exactly what it does after it, with the same report, files and deliveries, whatever the files and the network answer.
\<close>

theorem dlq_fallback_agrees:
  assumes "sf_mkdir (dq_fs env) (dq_dirname env (ds_path s)) f = (Ret (), f)" and "sf_exists (dq_fs env) (ds_path s) f"
  shows "dlq_replay (env\<lparr>dq_built := True\<rparr>) s (f, w) = dlq_replay (env\<lparr>dq_built := False\<rparr>) s (f, w)"
proof -
  have "open_queue (env\<lparr>dq_built := True\<rparr>) (ds_path s) f = open_queue (env\<lparr>dq_built := False\<rparr>) (ds_path s) f"
    using assms by (simp add: open_existing)
  moreover have "settings_send (env\<lparr>dq_built := b\<rparr>) s = settings_send env s" for b
    by (simp add: settings_send_def)
  ultimately show ?thesis by (simp add: dlq_replay_open split: sum.split prod.split)
qed

definition example_dlq_env :: "(disk, nat) dlq_env" where
  "example_dlq_env = \<lparr>dq_built = True, dq_fs = disk_fs, dq_dirname = (\<lambda>_. []),
     dq_fetch = (\<lambda>req w. (Ret (if rq_body req = stringify (JObj [(''event'', event_json example_event)]) then 503 else 204), Suc w))\<rparr>"

definition example_settings :: dlq_settings where
  "example_settings = \<lparr>ds_path = ''q'', ds_webhook = Some ''https://h'', ds_dryRun = False, ds_limit = None\<rparr>"

definition example_disk :: disk where
  "example_disk = [''q'' \<mapsto> concat (map entry_line example_queue)]"

theorem dlq_fallback_agrees_witness:
  "dlq_replay (example_dlq_env\<lparr>dq_built := True\<rparr>) example_settings (example_disk, 0)
    = dlq_replay (example_dlq_env\<lparr>dq_built := False\<rparr>) example_settings (example_disk, 0)"
  by (rule dlq_fallback_agrees) (simp_all add: example_dlq_env_def example_settings_def example_disk_def disk_fs_def)

section \<open>Replaying from disk\<close>

context reliable_files
begin

lemma open_stored:
  assumes "dq_fs env = fs" and "good f" and "in_step fs (que, f)" and "fq_path que = path"
  shows "\<exists>f'. open_queue env path f = (Ret que, f') \<and> good f' \<and> in_step fs (que, f')"
proof (cases "dq_built env")
  case True
  then show ?thesis using reopen [OF assms(2,3), of "dq_dirname env"] assms(1,4) by (simp add: open_queue_def)
next
  case False
  have "load_entries (concat (map entry_line (fq_entries que))) = Ret (fq_entries que)"
    using assms(3) by (simp add: in_step_def load_entries_stored)
  then have "fallback_queue fs path f = Ret que"
    using assms(3,4) by (auto simp: fallback_queue_def in_step_def js_bind_def load_entries_def split: sum.splits)
  with False assms show ?thesis by (simp add: open_queue_def)
qed

lemma path_queue:
  "dead_letter_queue queue_entries (file_remove fs) (\<lambda>(que, f). good f \<and> in_step fs (que, f) \<and> fq_path que = path)"
proof (unfold_locales, goal_cases)
  case (1 qf)
  then show ?case using entry_ok_readable by (auto simp: in_step_def queue_entries_def)
next
  case (2 qf i)
  then show ?case using remove_in_step [of "snd qf" "fst qf" i] by (fastforce simp: queue_entries_def split: prod.splits)
qed

lemma replay_stored:
  assumes "dq_fs env = fs" and "good f" and "in_step fs (que, f)" and "fq_path que = ds_path s" and "fq_entries que = js"
    and "\<not> ds_dryRun s" and "deliveries (settings_send env s) (case ds_limit s of None \<Rightarrow> js | Some n \<Rightarrow> slice0 n js) w = (ds, w')"
  shows "\<exists>f' que'. dlq_replay env s (f, w) = (Ret \<lparr>dr_dlq = ds_path s, dr_dryRun = False,
        dr_result = \<lparr>re_delivered = length (filter snd ds), re_failed = length (undelivered ds), re_attempted = length ds\<rparr>\<rparr>, f', w')
    \<and> in_step fs (que', f') \<and> fq_path que' = ds_path s \<and> subseq (fq_entries que') js
    \<and> mset (map the_id (fq_entries que')) = mset (map the_id js) - mset (delivered_ids ds)"
proof -
  obtain f1 where f1: "open_queue env (ds_path s) f = (Ret que, f1)" "good f1" "in_step fs (que, f1)"
    using open_stored [OF assms(1-4)] by blast
  have "deliveries (settings_send env s) (case ds_limit s of None \<Rightarrow> queue_entries (que, f1) | Some n \<Rightarrow> slice0 n (queue_entries (que, f1))) w = (ds, w')"
    using assms(5,7) by (simp only: queue_entries_pair)
  from dead_letter_queue.replay_spec [OF path_queue [of "ds_path s"] _ this] f1(2,3) assms(4)
  obtain que' f' where "replayDeadLetterQueue queue_entries (file_remove fs) (settings_send env s) False (ds_limit s) ((que, f1), w) =
      (\<lparr>re_delivered = length (filter snd ds), re_failed = length (undelivered ds), re_attempted = length ds\<rparr>, (que', f'), w')"
    "in_step fs (que', f')" "fq_path que' = ds_path s" "subseq (fq_entries que') js"
    "mset (map the_id (fq_entries que')) = mset (map the_id js) - mset (delivered_ids ds)"
    by (auto simp: assms(5))
  with f1(1) assms(1,6) show ?thesis by (auto simp: dlq_replay_open)
qed

end

text \<open>
  C30. A replay from a file whose lines are entries posts them, oldest first and up to the limit, and leaves in the file exactly
  what was not delivered: the file holds again one entry per line, in their order, and the ids left are the ids before less the
  ids delivered. This holds with the built package and with the fallback, on files that behave as documented.
\<close>

theorem dlq_replay_on_disk:
  assumes "reliable_files (dq_fs env) good" and "good f" and "sf_exists (dq_fs env) (ds_path s) f"
    and "sf_read (dq_fs env) (ds_path s) f = Ret (concat (map entry_line js))" and "list_all entry_ok js" and "\<not> ds_dryRun s"
    and "deliveries (settings_send env s) (case ds_limit s of None \<Rightarrow> js | Some n \<Rightarrow> slice0 n js) w = (ds, w')"
  shows "\<exists>f' js'. dlq_replay env s (f, w) = (Ret \<lparr>dr_dlq = ds_path s, dr_dryRun = False,
        dr_result = \<lparr>re_delivered = length (filter snd ds), re_failed = length (undelivered ds), re_attempted = length ds\<rparr>\<rparr>, f', w')
    \<and> sf_read (dq_fs env) (ds_path s) f' = Ret (concat (map entry_line js'))
    \<and> subseq js' js \<and> mset (map the_id js') = mset (map the_id js) - mset (delivered_ids ds)"
proof -
  let ?que = "\<lparr>fq_path = ds_path s, fq_entries = js\<rparr>"
  have "in_step (dq_fs env) (?que, f)" using assms(3-5) by (simp add: in_step_def)
  then show ?thesis
    using reliable_files.replay_stored [OF assms(1) refl assms(2), of ?que s js w ds w'] assms(6,7) by (auto simp: in_step_def)
qed

lemma example_queue_stored: "list_all entry_ok example_queue"
  by (simp add: example_queue_def toEntry_ok example_event_def)

lemma example_queue_ids:
  "map the_id example_queue = [Some (JStr ''1-1''), Some (JStr ''1-2'')]"
  "map entry_event example_queue = [Ret (Some (event_json example_event)), Ret (Some (event_json (example_event\<lparr>ev_id := ''1-2''\<rparr>)))]"
  by (simp_all add: example_queue_def the_id_def example_event_def)

theorem dlq_replay_on_disk_witness:
  "\<exists>f' js'. dlq_replay example_dlq_env example_settings (example_disk, 0) = (Ret \<lparr>dr_dlq = ''q'', dr_dryRun = False,
        dr_result = \<lparr>re_delivered = 1, re_failed = 1, re_attempted = 2\<rparr>\<rparr>, f', 2)
    \<and> map the_id js' = [Some (JStr ''1-1'')] \<and> sf_read disk_fs ''q'' f' = Ret (concat (map entry_line js'))"
proof -
  have files: "reliable_files (dq_fs example_dlq_env) (\<lambda>_. True)"
    using disk.reliable_files_axioms by (simp add: example_dlq_env_def)
  have ok: "json_ok (JObj [(''event'', event_json (example_event\<lparr>ev_id := i\<rparr>))])" for i
    by simp (simp add: example_event_def)
  have "stringify (JObj [(''event'', event_json (example_event\<lparr>ev_id := ''1-2''\<rparr>))])
      \<noteq> stringify (JObj [(''event'', event_json (example_event\<lparr>ev_id := ''1-1''\<rparr>))])"
    using json_parse_stringify [OF ok [of "''1-1''"]] json_parse_stringify [OF ok [of "''1-2''"]]
    by (auto simp: event_json_def simp del: stringify.simps json_ok.simps)
  moreover have "example_event\<lparr>ev_id := ''1-1''\<rparr> = example_event" by (simp add: example_event_def)
  ultimately have "stringify (JObj [(''event'', event_json (example_event\<lparr>ev_id := ''1-2''\<rparr>))]) \<noteq> stringify (JObj [(''event'', event_json example_event)])"
    by (simp only:) simp
  then have "deliveries (settings_send example_dlq_env example_settings) example_queue 0
      = ([(hd example_queue, False), (example_queue ! 1, True)], 2)"
    using example_queue_ids(2) by (simp add: example_queue_def settings_send_def example_settings_def dlq_send_def
      replay_request_def example_dlq_env_def response_ok_def)
  then have sent: "deliveries (settings_send example_dlq_env example_settings)
      (case ds_limit example_settings of None \<Rightarrow> example_queue | Some n \<Rightarrow> slice0 n example_queue) 0
      = ([(hd example_queue, False), (example_queue ! 1, True)], 2)"
    by (simp add: example_settings_def)
  have at: "the_id (example_queue ! 1) = Some (JStr ''1-2'')" by (simp add: example_queue_def the_id_def)
  obtain f' js' where run: "dlq_replay example_dlq_env example_settings (example_disk, 0) = (Ret \<lparr>dr_dlq = ''q'', dr_dryRun = False,
        dr_result = \<lparr>re_delivered = 1, re_failed = 1, re_attempted = 2\<rparr>\<rparr>, f', 2)"
      "sf_read disk_fs ''q'' f' = Ret (concat (map entry_line js'))"
      "mset (map the_id js') = mset (map the_id example_queue) - mset [the_id (example_queue ! 1)]"
    using dlq_replay_on_disk [OF files TrueI _ _ example_queue_stored _ sent, of example_disk]
    by (auto simp: example_settings_def example_dlq_env_def example_disk_def disk_fs_def undelivered_def delivered_ids_def)
  have "mset (map the_id js') = {#Some (JStr ''1-1'')#}"
    unfolding run(3) example_queue_ids at by simp
  then have "map the_id js' = [Some (JStr ''1-1'')]" by (simp only: mset_single_iff)
  with run show ?thesis by (intro exI conjI)
qed

section \<open>Dry runs\<close>

lemma replay_dry: "snd (replay_loop (\<lambda>event w. (Ret (), w)) remove True js res qw) = qw"
  by (induction js arbitrary: res) (cases qw; auto simp: Let_def split: sum.split)+

text \<open>A dry run on an existing file, whose directory needs no creating, posts nothing and leaves the files as they are.\<close>

theorem dlq_dry_run_inert:
  assumes "ds_dryRun s" and "sf_mkdir (dq_fs env) (dq_dirname env (ds_path s)) f = (Ret (), f)" and "sf_exists (dq_fs env) (ds_path s) f"
  shows "snd (dlq_replay env s (f, w)) = (f, w)"
proof -
  have "snd (replayDeadLetterQueue queue_entries remove (settings_send env s) True limit qw) = qw" for remove limit and qw :: "(file_dlq \<times> 'a) \<times> 'b"
    using assms(1) by (simp add: replayDeadLetterQueue_def settings_send_def replay_dry Let_def)
  then show ?thesis
    using assms by (simp add: dlq_replay_open open_existing split: sum.split prod.split) (metis snd_conv prod.inject)
qed

theorem dlq_dry_run_inert_witness:
  "snd (dlq_replay example_dlq_env (example_settings\<lparr>ds_dryRun := True\<rparr>) (example_disk, 0)) = (example_disk, 0)"
  by (rule dlq_dry_run_inert) (simp_all add: example_dlq_env_def example_settings_def example_disk_def disk_fs_def)

text \<open>On a file that does not exist, for instance a mistyped path, the package's dry run creates the file; the fallback does not.\<close>

theorem dlq_dry_run_creates_file:
  "dlq_replay (example_dlq_env\<lparr>dq_built := b\<rparr>) (example_settings\<lparr>ds_dryRun := True\<rparr>) (Map.empty, 0) =
     (Ret \<lparr>dr_dlq = ''q'', dr_dryRun = True, dr_result = \<lparr>re_delivered = 0, re_failed = 0, re_attempted = 0\<rparr>\<rparr>,
      if b then [''q'' \<mapsto> []] else Map.empty, 0)"
  by (simp add: dlq_replay_open open_queue_def new_file_dlq_def fallback_queue_def example_dlq_env_def example_settings_def disk_fs_def
    replayDeadLetterQueue_def)

text \<open>
  The commands disagree on what a dry run is. When the argument after \<open>--dry-run\<close> does not start with two dashes it is
  taken for the flag's value: \<open>dlq\<close> and \<open>listen\<close> then send, \<open>sync-sanctions\<close> does not.
\<close>

theorem dry_run_with_value:
  assumes "\<not> dashed path" and "path \<noteq> []" and "\<not> dashed url" and "url \<noteq> []" and "\<not> dashed x"
  shows "dlq_settings_of [''--dlq'', path, ''--webhook'', url, ''--dry-run'', x] =
      Inr \<lparr>ds_path = path, ds_webhook = Some url, ds_dryRun = False, ds_limit = None\<rparr>
    \<and> \<not> ls_dryRun (listen_settings_of [''--contract-id'', path, ''--webhook-url'', url, ''--dry-run'', x])
    \<and> map_has (parseFlags [''--addresses'', path, ''--dry-run'', x]) ''dry-run''"
proof -
  have "list_all flag_ok [Valued ''dlq'' path, Valued ''webhook'' url, Valued ''dry-run'' x]"
    "list_all flag_ok [Valued ''contract-id'' path, Valued ''webhook-url'' url, Valued ''dry-run'' x]"
    "list_all flag_ok [Valued ''addresses'' path, Valued ''dry-run'' x]"
    using assms by simp_all
  note flags = this [THEN parseFlags_loop_render, of "[]", simplified]
  show ?thesis
    using assms flags by (simp add: dlq_settings_of_def listen_settings_of_def parseFlags_def Let_def flag_text_def nonempty_def
      flag_is_true_def map_has_def)
qed

theorem dry_run_with_value_witness:
  "dlq_settings_of [''--dlq'', ''q'', ''--webhook'', ''https://h'', ''--dry-run'', ''yes''] =
     Inr \<lparr>ds_path = ''q'', ds_webhook = Some ''https://h'', ds_dryRun = False, ds_limit = None\<rparr>"
  using dry_run_with_value [of "''q''" "''https://h''" "''yes''"] by (simp add: dashed_def)

text \<open>Help is shown for \<open>dlq replay --help\<close>, while \<open>dlq --help\<close>, which the usage text offers, is an error.\<close>

theorem dlq_help_is_error:
  "runDlq env [''--help''] fw = (Flag_Error unknown_subcommand, fw) \<and> runDlq env [''replay'', ''--help''] fw = (Help_Shown, fw)"
  by (simp add: runDlq_def is_help_def)

end
