(* ===== verification/DemoAuth.thy ===== *)
theory DemoAuth
  imports Router WebForm
begin

text \<open>
  \<open>examples/full-stack-demo/server.js\<close>, the part about accounts: the fixed-window rate limiter, the in-memory
  revocation store, the \<open>/auth\<close> routes and the gate of the \<open>/admin\<close> routes. Express and its body parser deliver the
  parsed parts of a request; Prometheus metrics and log lines are left out.
\<close>

section \<open>The rate limiter\<close>

record rate_window =
  wn_count :: nat
  wn_resetAt :: int

type_synonym windows = "(string, rate_window) jsmap"

definition isAllowed :: "int \<Rightarrow> nat \<Rightarrow> int \<Rightarrow> string \<Rightarrow> windows \<Rightarrow> bool \<times> windows" where
  "isAllowed windowMs maxRequests now key ws =
     (case map_get ws key of
        None \<Rightarrow> (True, map_set key \<lparr>wn_count = 1, wn_resetAt = now + windowMs\<rparr> ws)
      | Some entry \<Rightarrow>
          if now \<ge> wn_resetAt entry then (True, map_set key \<lparr>wn_count = 1, wn_resetAt = now + windowMs\<rparr> ws)
          else if wn_count entry \<ge> maxRequests then (False, ws)
          else (True, map_set key (entry\<lparr>wn_count := wn_count entry + 1\<rparr>) ws))"

section \<open>The server\<close>

text \<open>Values from a body are JSON; two numbers are the same when they print the same, two objects never are.\<close>

record demo_state =
  dm_windows :: windows
  dm_revoked :: "json list"

definition demo_initial :: demo_state where
  "demo_initial = \<lparr>dm_windows = [], dm_revoked = []\<rparr>"

definition same_value :: "(string \<Rightarrow> string) \<Rightarrow> json \<Rightarrow> json \<Rightarrow> bool" where
  "same_value num a b = (case (a, b) of
     (JNum s, JNum t) \<Rightarrow> num s = num t
   | (JArr _, _) \<Rightarrow> False
   | (JObj _, _) \<Rightarrow> False
   | _ \<Rightarrow> a = b)"

definition demo_isRevoked :: "(string \<Rightarrow> string) \<Rightarrow> json \<Rightarrow> json list \<Rightarrow> bool" where
  "demo_isRevoked num tokenFingerprint revoked = list_ex (same_value num tokenFingerprint) revoked"

definition demo_revoke :: "(string \<Rightarrow> string) \<Rightarrow> json \<Rightarrow> json list \<Rightarrow> json list" where
  "demo_revoke num tokenFingerprint revoked =
     (if demo_isRevoked num tokenFingerprint revoked then revoked else revoked @ [tokenFingerprint])"

record demo_config =
  dc_homeDomain :: string
  dc_network :: string
  dc_keypair :: keypair
  dc_adminToken :: "string option"

text \<open>\<open>random\<close> is the ephemeral key pair. A port that is not a number prints as \<open>NaN\<close>.\<close>

definition demo_config_of ::
  "(string \<Rightarrow> string option) \<Rightarrow> (string \<Rightarrow> thrown + keypair) \<Rightarrow> keypair \<Rightarrow> string \<Rightarrow> thrown + demo_config" where
  "demo_config_of getenv fromSecret random testnet =
     (let port = parse_int (or_default (getenv ''PORT'') ''3001'');
          secret = or_default (getenv ''SERVER_SECRET'') []
      in js_bind (if secret \<noteq> [] then fromSecret secret else Ret random) (\<lambda>kp.
        Ret \<lparr>dc_homeDomain = or_default (getenv ''HOME_DOMAIN'') (''localhost:'' @ (case port of None \<Rightarrow> ''NaN'' | Some n \<Rightarrow> dec_of_int n)),
             dc_network = or_default (getenv ''NETWORK_PASSPHRASE'') testnet, dc_keypair = kp,
             dc_adminToken = getenv ''ADMIN_TOKEN''\<rparr>))"

record 'w demo_env =
  de_challenge :: "'w challenge_env"
  de_verify :: "'w verify_env"
  de_iso :: "int \<Rightarrow> string"
  de_number_text :: "string \<Rightarrow> string"
  de_sha256 :: "nat list \<Rightarrow> nat list"

section \<open>The handlers\<close>

definition demo_rateLimiter :: "'w demo_env \<Rightarrow> string option \<Rightarrow> demo_state \<times> 'w \<Rightarrow> bool \<times> demo_state" where
  "demo_rateLimiter env ip sw =
     (case sw of (st, w) \<Rightarrow>
        (case isAllowed 60000 20 (ve_now (de_verify env) w) (or_default ip ''unknown'') (dm_windows st) of
           (ok, ws) \<Rightarrow> (ok, st\<lparr>dm_windows := ws\<rparr>)))"

definition too_many :: handled where
  "too_many = json_answer 429 (JObj [(''error'', JStr ''too_many_requests''), (''retryAfter'', JNum ''60'')])"

definition health_route :: "demo_config \<Rightarrow> handled" where
  "health_route cfg = json_answer 200 (JObj [(''status'', JStr ''ok''), (''serverPublicKey'', JStr (kp_publicKey (dc_keypair cfg)))])"

text \<open>\<open>err.message\<close> of what the generation or a provider throws, as a property of the answer.\<close>

definition detail_of :: "thrown \<Rightarrow> (string \<times> json) list" where
  "detail_of err = (if is_error err then [(''detail'', JStr (thrown_message err))] else [])"

definition demo_challenge_options :: "demo_config \<Rightarrow> generate_options" where
  "demo_challenge_options cfg = \<lparr>go_homeDomain = Some (dc_homeDomain cfg), go_webAuthDomain = None,
     go_networkPassphrase = Some (dc_network cfg), go_timeoutSec = None, go_timeoutSeconds = None, go_memo = None,
     go_clientDomain = None, go_clientSigningKey = None\<rparr>"

definition demo_get_auth ::
  "'w demo_env \<Rightarrow> demo_config \<Rightarrow> query_value \<Rightarrow> string option \<Rightarrow> demo_state \<times> 'w \<Rightarrow> handled \<times> demo_state \<times> 'w" where
  "demo_get_auth env cfg account ip sw =
     (case sw of (st, w) \<Rightarrow>
        (case account of
           QString clientAddress \<Rightarrow>
             if clientAddress = [] then (json_answer 400 (JObj [(''error'', JStr ''missing ?account= query param'')]), st, w)
             else
               (case demo_rateLimiter env ip (st, w) of
                  (False, st) \<Rightarrow> (too_many, st, w)
                | (True, st) \<Rightarrow>
                    (case generateChallenge (de_challenge env) clientAddress (dc_keypair cfg) (demo_challenge_options cfg) w of
                       (Throw err, w) \<Rightarrow> (json_answer 400 (JObj ((''error'', JStr ''challenge_error'') # detail_of err)), st, w)
                     | (Ret challenge, w) \<Rightarrow>
                         (json_answer 200 (JObj [(''transaction'', JStr (gc_transactionXDR challenge)),
                            (''network_passphrase'', JStr (gc_networkPassphrase challenge)),
                            (''expires_at'', JStr (de_iso env (gc_expiresAt challenge)))]), st, w)))
         | _ \<Rightarrow> (json_answer 400 (JObj [(''error'', JStr ''missing ?account= query param'')]), st, w)))"

text \<open>The property \<open>transaction\<close> of a body; no body or \<open>null\<close> counts as an empty object.\<close>

definition body_transaction :: "json option \<Rightarrow> thrown + json option" where
  "body_transaction body = (case body of None \<Rightarrow> Ret None | Some JNull \<Rightarrow> Ret None | Some b \<Rightarrow> get_prop b ''transaction'')"

definition demo_verify_options :: "demo_config \<Rightarrow> 'w verify_options" where
  "demo_verify_options cfg =
     \<lparr>vo_serverAccountId = kp_publicKey (dc_keypair cfg), vo_networkPassphrase = Some (dc_network cfg),
      vo_homeDomains = One (dc_homeDomain cfg), vo_webAuthDomain = One (dc_homeDomain cfg), vo_expectedMemo = None,
      vo_clockSkewToleranceSec = None, vo_accountLoader = None\<rparr>"

text \<open>
  \<open>verifyChallenge\<close> is asynchronous and \<open>post('/auth')\<close> does not await it: \<open>result\<close> is a promise, whose \<open>valid\<close> and
  \<open>error\<close> are undefined. The verification itself goes on and its result is dropped; that of a value which is not a string
  acts on nothing.
\<close>

datatype verify_promise = Verify_Promise "verify_result option"

definition promise_valid :: "verify_promise \<Rightarrow> bool" where
  "promise_valid p = False"

definition promise_error :: "verify_promise \<Rightarrow> (string \<times> json) list" where
  "promise_error p = []"

definition demo_verify :: "'w demo_env \<Rightarrow> demo_config \<Rightarrow> json \<Rightarrow> 'w \<Rightarrow> verify_promise \<times> 'w" where
  "demo_verify env cfg transaction w =
     (case transaction of
        JStr xdr \<Rightarrow> (case verifyChallenge (de_verify env) xdr (demo_verify_options cfg) w of (r, w) \<Rightarrow> (Verify_Promise (Some r), w))
      | _ \<Rightarrow> (Verify_Promise None, w))"

definition demo_post_auth ::
  "'w demo_env \<Rightarrow> demo_config \<Rightarrow> json option \<Rightarrow> string option \<Rightarrow> demo_state \<times> 'w \<Rightarrow> handled \<times> demo_state \<times> 'w" where
  "demo_post_auth env cfg body ip sw =
     (case sw of (st, w) \<Rightarrow>
        (case body_transaction body of
           Throw e \<Rightarrow> (NextError e, st, w)
         | Ret transaction \<Rightarrow>
             if \<not> js_truthy (de_number_text env) transaction then
               (json_answer 400 (JObj [(''error'', JStr ''missing transaction in request body'')]), st, w)
             else
               (case demo_rateLimiter env ip (st, w) of
                  (False, st) \<Rightarrow> (too_many, st, w)
                | (True, st) \<Rightarrow>
                    if demo_isRevoked (de_number_text env) (the transaction) (dm_revoked st) then
                      (json_answer 401 (JObj [(''error'', JStr ''token_revoked'')]), st, w)
                    else
                      (case demo_verify env cfg (the transaction) w of
                         (result, w) \<Rightarrow>
                           if \<not> promise_valid result then
                             (json_answer 401 (JObj ((''error'', JStr ''unauthorized'') # promise_error result)), st, w)
                           else (json_answer 200 (JObj []), st, w)))))"

definition demo_post_revoke ::
  "'w demo_env \<Rightarrow> json option \<Rightarrow> demo_state \<Rightarrow> handled \<times> demo_state" where
  "demo_post_revoke env body st =
     (case body_transaction body of
        Throw e \<Rightarrow> (NextError e, st)
      | Ret transaction \<Rightarrow>
          if \<not> js_truthy (de_number_text env) transaction then
            (json_answer 400 (JObj [(''error'', JStr ''missing transaction in request body'')]), st)
          else (json_answer 200 (JObj [(''revoked'', JBool True)]),
                st\<lparr>dm_revoked := demo_revoke (de_number_text env) (the transaction) (dm_revoked st)\<rparr>))"

text \<open>The gate of \<open>/admin\<close>: the hashes have the same length, so that \<open>timingSafeEqual\<close> compares them.\<close>

definition requireAdminToken ::
  "'w demo_env \<Rightarrow> demo_config \<Rightarrow> string option \<Rightarrow> string option \<Rightarrow> demo_state \<times> 'w \<Rightarrow> handled \<times> demo_state" where
  "requireAdminToken env cfg provided ip sw =
     (case demo_rateLimiter env ip sw of
        (False, st) \<Rightarrow> (too_many, st)
      | (True, st) \<Rightarrow>
          (let expected = or_default (dc_adminToken cfg) [] in
           if expected = [] then
             (json_answer 503 (JObj [(''error'', JStr ''admin_disabled''), (''detail'', JStr ''ADMIN_TOKEN is not configured'')]), st)
           else
             (let expectedHash = de_sha256 env (utf8 expected); providedHash = de_sha256 env (utf8 (or_default provided [])) in
              if or_default provided [] = [] \<or> expectedHash \<noteq> providedHash then
                (json_answer 401 (JObj [(''error'', JStr ''unauthorized'')]), st)
              else (Next, st))))"

section \<open>Requests\<close>

text \<open>The requests that touch this state; \<open>Admin\<close> is what its gate answers.\<close>

datatype demo_call =
    Get_Auth query_value "string option"
  | Post_Auth "json option" "string option"
  | Post_Revoke "json option"
  | Admin "string option" "string option"

fun demo_handle :: "'w demo_env \<Rightarrow> demo_config \<Rightarrow> demo_call \<Rightarrow> demo_state \<times> 'w \<Rightarrow> handled \<times> demo_state \<times> 'w" where
  "demo_handle env cfg (Get_Auth account ip) sw = demo_get_auth env cfg account ip sw"
| "demo_handle env cfg (Post_Auth body ip) sw = demo_post_auth env cfg body ip sw"
| "demo_handle env cfg (Post_Revoke body) (st, w) = (case demo_post_revoke env body st of (h, st) \<Rightarrow> (h, st, w))"
| "demo_handle env cfg (Admin provided ip) (st, w) = (case requireAdminToken env cfg provided ip (st, w) of (h, st) \<Rightarrow> (h, st, w))"

definition demo_run :: "'w demo_env \<Rightarrow> demo_config \<Rightarrow> demo_call list \<Rightarrow> demo_state \<times> 'w \<Rightarrow> demo_state \<times> 'w" where
  "demo_run env cfg calls sw = fold (\<lambda>call sw. snd (demo_handle env cfg call sw)) calls sw"

section \<open>The limiter keeps its bound\<close>

text \<open>The requests of one key that were let in, over a sequence of requests in time.\<close>

fun admitted :: "int \<Rightarrow> nat \<Rightarrow> string \<Rightarrow> (int \<times> string) list \<Rightarrow> windows \<Rightarrow> int list" where
  "admitted W M key [] ws = []"
| "admitted W M key ((now, k) # rs) ws =
     (case isAllowed W M now k ws of
        (ok, ws) \<Rightarrow> (if ok \<and> k = key then [now] else []) @ admitted W M key rs ws)"

definition count_within :: "int \<Rightarrow> int \<Rightarrow> int list \<Rightarrow> nat" where
  "count_within a b ts = length (filter (\<lambda>x. a \<le> x \<and> x < b) ts)"

lemma count_within_simps [simp]:
  "count_within a b [] = 0"
  "count_within a b (x # ts) = (if a \<le> x \<and> x < b then 1 else 0) + count_within a b ts"
  "count_within a b (ts @ us) = count_within a b ts + count_within a b us"
  by (simp_all add: count_within_def)

lemma count_within_split: "count_within a b ts \<le> count_within a s ts + count_within s b ts"
  by (induction ts) auto

lemma count_within_mono: "a' \<le> a \<Longrightarrow> b \<le> b' \<Longrightarrow> count_within a b ts \<le> count_within a' b' ts"
  by (induction ts) auto

lemma count_within_none: "(\<And>x. x \<in> set ts \<Longrightarrow> x < a \<or> b \<le> x) \<Longrightarrow> count_within a b ts = 0"
  by (induction ts) (auto, force)

text \<open>
  What the entry of a key says of the requests \<open>A\<close> let in so far: those since the start of its window, the first at
  the start itself, and how many of the earlier ones a span of one window may still see.
\<close>

definition window_inv :: "int \<Rightarrow> nat \<Rightarrow> int \<Rightarrow> int list \<Rightarrow> rate_window option \<Rightarrow> bool" where
  "window_inv W M now A entry =
     (case entry of
        None \<Rightarrow> A = []
      | Some e \<Rightarrow>
          (let s = wn_resetAt e - W in
           s \<le> now \<and> 1 \<le> wn_count e \<and> wn_count e \<le> M \<and> list_all (\<lambda>x. x < wn_resetAt e) A
           \<and> count_within s (wn_resetAt e) A = wn_count e \<and> count_within (s + 1) (wn_resetAt e) A \<le> wn_count e - 1
           \<and> (\<forall>t > s - W. count_within t s A \<le> M - 1)))"

definition within_bound :: "int \<Rightarrow> nat \<Rightarrow> int list \<Rightarrow> bool" where
  "within_bound W M A \<longleftrightarrow> (\<forall>t. count_within t (t + W) A \<le> 2 * M - 1)"

lemma opened_inv:
  assumes "0 < W" and "1 \<le> M" and "window_inv W M now A entry" and "within_bound W M A"
    and "case entry of None \<Rightarrow> True | Some e \<Rightarrow> wn_resetAt e \<le> now"
  shows "window_inv W M now (A @ [now]) (Some \<lparr>wn_count = 1, wn_resetAt = now + W\<rparr>) \<and> within_bound W M (A @ [now])"
proof -
  have before: "\<forall>x \<in> set A. x < now"
    using assms(3,5) by (auto simp: window_inv_def Let_def list_all_iff split: option.splits)
  have few: "count_within t now A \<le> M - 1" if "now - W < t" for t
  proof (cases entry)
    case (Some e)
    then have "wn_resetAt e - W + 1 \<le> t" "wn_resetAt e \<le> now" using assms(5) that by simp_all
    moreover have "count_within (wn_resetAt e) now A = 0"
      using assms(3) Some by (intro count_within_none) (auto simp: window_inv_def Let_def list_all_iff)
    ultimately have "count_within t now A \<le> count_within (wn_resetAt e - W + 1) (wn_resetAt e) A"
      using count_within_split [of t now A "wn_resetAt e"] count_within_mono [of "wn_resetAt e - W + 1" t "wn_resetAt e" "wn_resetAt e" A] by simp
    then show ?thesis using assms(3) Some by (auto simp: window_inv_def Let_def)
  qed (use assms(3) in \<open>simp add: window_inv_def\<close>)
  have none: "count_within now b A = 0" for b
    using before by (intro count_within_none) auto
  have "count_within t (t + W) (A @ [now]) \<le> 2 * M - 1" for t
  proof (cases "t \<le> now \<and> now < t + W")
    case True
    then have "count_within t (t + W) A \<le> M - 1"
      using few [of t] count_within_split [of t "t + W" A now] none [of "t + W"] by simp
    with True assms(2) show ?thesis by simp
  next
    case False
    with assms(4) show ?thesis by (auto simp: within_bound_def)
  qed
  moreover have "count_within (now + 1) (now + W) A = 0"
    using before by (intro count_within_none) auto
  ultimately show ?thesis
    using assms(1,2) before few none [of "now + W"] by (auto simp: within_bound_def window_inv_def Let_def list_all_iff)
qed

lemma counted_inv:
  assumes "0 < W" and "window_inv W M now A (Some e)" and "within_bound W M A"
    and "now < wn_resetAt e" and "wn_count e < M"
  shows "window_inv W M now (A @ [now]) (Some (e\<lparr>wn_count := wn_count e + 1\<rparr>)) \<and> within_bound W M (A @ [now])"
proof -
  let ?s = "wn_resetAt e - W"
  have inv: "?s \<le> now" "1 \<le> wn_count e" "list_all (\<lambda>x. x < wn_resetAt e) A"
    "count_within ?s (wn_resetAt e) A = wn_count e" "count_within (?s + 1) (wn_resetAt e) A \<le> wn_count e - 1"
    "\<forall>t > ?s - W. count_within t ?s A \<le> M - 1"
    using assms(2) by (simp_all add: window_inv_def Let_def)
  have rest: "count_within ?s b A \<le> wn_count e" for b
  proof -
    have "count_within (wn_resetAt e) b A = 0" using inv(3) by (intro count_within_none) (auto simp: list_all_iff)
    moreover have "count_within ?s b A \<le> count_within ?s (wn_resetAt e) A + count_within (wn_resetAt e) b A"
      by (rule count_within_split)
    ultimately show ?thesis using inv(4) by simp
  qed
  have "count_within t (t + W) (A @ [now]) \<le> 2 * M - 1" for t
  proof (cases "t \<le> now \<and> now < t + W")
    case True
    then have "count_within t ?s A \<le> M - 1" using inv(1,6) by simp
    then show ?thesis
      using True count_within_split [of t "t + W" A ?s] rest [of "t + W"] assms(5) by simp
  next
    case False
    with assms(3) show ?thesis by (auto simp: within_bound_def)
  qed
  then show ?thesis
    using inv assms(4,5) by (auto simp: within_bound_def window_inv_def Let_def)
qed

lemma window_inv_later: "window_inv W M now A entry \<Longrightarrow> now \<le> now' \<Longrightarrow> window_inv W M now' A entry"
  by (auto simp: window_inv_def Let_def split: option.splits)

lemma isAllowed_other: "k \<noteq> key \<Longrightarrow> map_get (snd (isAllowed W M now k ws)) key = map_get ws key"
  by (auto simp: isAllowed_def map_get_set split: option.split)

lemma isAllowed_inv:
  assumes "0 < W" and "1 \<le> M" and "window_inv W M now A (map_get ws key)" and "within_bound W M A"
    and "isAllowed W M now key ws = (ok, ws')"
  shows "window_inv W M now (A @ (if ok then [now] else [])) (map_get ws' key)
    \<and> within_bound W M (A @ (if ok then [now] else []))"
proof (cases "map_get ws key")
  case None
  then show ?thesis using opened_inv [OF assms(1-4)] assms(5) by (auto simp: isAllowed_def map_get_set)
next
  case (Some e)
  show ?thesis
  proof (cases "wn_resetAt e \<le> now")
    case True
    then show ?thesis using Some opened_inv [OF assms(1-4)] assms(5) by (auto simp: isAllowed_def map_get_set)
  next
    case False
    then show ?thesis
      using Some counted_inv [of W M now A e] assms by (auto simp: isAllowed_def map_get_set split: if_splits)
  qed
qed

lemma admitted_bound:
  assumes "0 < W" and "1 \<le> M" and "sorted (now # map fst rs)" and "window_inv W M now A (map_get ws key)" and "within_bound W M A"
  shows "within_bound W M (A @ admitted W M key rs ws)"
  using assms(3-)
proof (induction rs arbitrary: now A ws)
  case (Cons r rs)
  obtain t k where r: "r = (t, k)" by fastforce
  obtain ok ws' where step: "isAllowed W M t k ws = (ok, ws')" by fastforce
  have inv: "window_inv W M t A (map_get ws key)" using window_inv_later [OF Cons.prems(2)] Cons.prems(1) by (simp add: r)
  have next_times: "sorted (t # map fst rs)" using Cons.prems(1) by (simp add: r)
  show ?case
  proof (cases "k = key")
    case True
    have "window_inv W M t (A @ (if ok then [t] else [])) (map_get ws' key)" "within_bound W M (A @ (if ok then [t] else []))"
      using isAllowed_inv [OF assms(1,2) inv Cons.prems(3), of ok ws'] step True by simp_all
    from Cons.IH [OF next_times this] show ?thesis by (simp add: r step [unfolded True] True)
  next
    case False
    have "map_get ws' key = map_get ws key" using isAllowed_other [OF False, of W M t ws] step by simp
    with Cons.IH [OF next_times, of A ws'] inv Cons.prems(3) False show ?thesis by (simp add: r step)
  qed
qed simp

text \<open>
  C21. The demo's limiter lets in at most one request less than twice its maximum in any span of one window, whatever other
  clients do, as long as its clock does not run backwards: not the maximum, since a window starts with the first
  request after the last one ended.
\<close>

theorem fixed_window_bound:
  assumes "0 < W" and "1 \<le> M" and "sorted (map fst rs)"
  shows "count_within t (t + W) (admitted W M key rs []) \<le> 2 * M - 1"
proof (cases rs)
  case (Cons r rs')
  have "within_bound W M ([] @ admitted W M key rs [])"
    by (rule admitted_bound [OF assms(1,2), of "fst r"]) (use assms(3) Cons in \<open>auto simp: window_inv_def within_bound_def\<close>)
  then show ?thesis by (simp add: within_bound_def)
qed simp

theorem fixed_window_bound_witness:
  "admitted 2 2 ''k'' [(0, ''k''), (0, ''x''), (1, ''k''), (1, ''k''), (2, ''k''), (2, ''k'')] [] = [0, 1, 2, 2]
    \<and> count_within 1 3 (admitted 2 2 ''k'' [(0, ''k''), (0, ''x''), (1, ''k''), (1, ''k''), (2, ''k''), (2, ''k'')] []) = 2 * 2 - 1"
proof
  show a: "admitted 2 2 ''k'' [(0, ''k''), (0, ''x''), (1, ''k''), (1, ''k''), (2, ''k''), (2, ''k'')] [] = [0, 1, 2, 2]"
    by code_simp
  have "count_within 1 (1 + 2) (admitted 2 2 ''k'' [(0, ''k''), (0, ''x''), (1, ''k''), (1, ''k''), (2, ''k''), (2, ''k'')] []) \<le> 2 * 2 - 1"
    by (rule fixed_window_bound) simp_all
  then show "count_within 1 3 (admitted 2 2 ''k'' [(0, ''k''), (0, ''x''), (1, ''k''), (1, ''k''), (2, ''k''), (2, ''k'')] []) = 2 * 2 - 1"
    unfolding a by simp
qed

section \<open>What the routes answer\<close>

lemma post_auth_refuses:
  "(\<exists>e. fst (demo_post_auth env cfg body ip sw) = NextError e)
    \<or> (\<exists>resp. fst (demo_post_auth env cfg body ip sw) = Respond resp \<and> hr_status resp \<in> {400, 401, 429})"
  by (auto simp: demo_post_auth_def json_answer_def too_many_def promise_valid_def split: prod.splits sum.splits bool.splits)

text \<open>
  Nobody can log in at the demo: \<open>post('/auth')\<close> never answers 200, however valid the signed challenge, since it looks for
  \<open>valid\<close> on the promise of the verification. A challenge that verifies is answered like a forged one.
\<close>

theorem demo_never_authenticates:
  "(\<exists>e. fst (demo_post_auth env cfg body ip sw) = NextError e)
    \<or> (\<exists>resp. fst (demo_post_auth env cfg body ip sw) = Respond resp \<and> hr_status resp \<in> {400, 401, 429})"
  by (rule post_auth_refuses)

lemma revoked_grows: "\<exists>more. dm_revoked (fst (snd (demo_handle env cfg call sw))) = dm_revoked (fst sw) @ more"
proof -
  obtain st w where sw: "sw = (st, w)" by fastforce
  show ?thesis
  proof (cases call)
    case (Get_Auth account ip)
    then show ?thesis
      by (auto simp: sw demo_get_auth_def demo_rateLimiter_def split: query_value.split prod.split bool.split sum.split)
  next
    case (Post_Auth body ip)
    then show ?thesis
      by (auto simp: sw demo_post_auth_def demo_rateLimiter_def split: prod.split bool.split sum.split)
  next
    case (Post_Revoke body)
    then show ?thesis
      by (auto simp: sw demo_post_revoke_def demo_revoke_def split: prod.split sum.split)
  next
    case (Admin provided ip)
    then show ?thesis
      by (auto simp: sw requireAdminToken_def demo_rateLimiter_def Let_def split: prod.split bool.split)
  qed
qed

lemma run_revoked_grows: "\<exists>more. dm_revoked (fst (demo_run env cfg calls sw)) = dm_revoked (fst sw) @ more"
proof (induction calls arbitrary: sw)
  case (Cons c cs)
  then show ?case using revoked_grows [of env cfg c sw] Cons [of "snd (demo_handle env cfg c sw)"]
    by (fastforce simp: demo_run_def)
qed (simp add: demo_run_def)

text \<open>
  A revoked transaction stays revoked: after it was posted to \<open>/auth/revoke\<close> and whatever requests came since, posting the
  same text to \<open>/auth\<close> is answered \<open>token_revoked\<close>, or refused by the limiter, and is not verified again.
\<close>

theorem demo_revocation_holds:
  assumes "demo_run env cfg (Post_Revoke (Some (JObj [(''transaction'', JStr xdr)])) # calls) sw = (st, w)" and "xdr \<noteq> []"
  shows "\<exists>h st'. demo_post_auth env cfg (Some (JObj [(''transaction'', JStr xdr)])) ip (st, w) = (h, st', w)
    \<and> h \<in> {too_many, json_answer 401 (JObj [(''error'', JStr ''token_revoked'')])}"
proof -
  obtain st0 w0 where sw: "sw = (st0, w0)" by fastforce
  let ?st1 = "st0\<lparr>dm_revoked := demo_revoke (de_number_text env) (JStr xdr) (dm_revoked st0)\<rparr>"
  have "demo_run env cfg calls (?st1, w0) = (st, w)"
    using assms by (simp add: sw demo_run_def demo_post_revoke_def body_transaction_def get_prop_def js_truthy_def)
  then obtain more where more: "dm_revoked st = demo_revoke (de_number_text env) (JStr xdr) (dm_revoked st0) @ more"
    using run_revoked_grows [of env cfg calls "(?st1, w0)"] by auto
  have "demo_isRevoked (de_number_text env) (JStr xdr) (dm_revoked st)"
    unfolding more by (auto simp: demo_isRevoked_def demo_revoke_def same_value_def list_ex_iff)
  then show ?thesis
    using assms(2) by (auto simp: demo_post_auth_def body_transaction_def get_prop_def js_truthy_def demo_rateLimiter_def
      split: prod.split bool.split)
qed

text \<open>
  The gate of \<open>/admin\<close> opens exactly for a request the limiter lets in that carries the configured, non-empty token,
  provided SHA-256 does not collide on the two; without a configured token it never opens.
\<close>

theorem admin_gate_iff:
  assumes "\<And>s t. provided = Some s \<Longrightarrow> dc_adminToken cfg = Some t \<Longrightarrow> de_sha256 env (utf8 s) = de_sha256 env (utf8 t) \<Longrightarrow> s = t"
  shows "fst (requireAdminToken env cfg provided ip sw) = Next \<longleftrightarrow>
    fst (demo_rateLimiter env ip sw) \<and> provided \<noteq> None \<and> provided \<noteq> Some [] \<and> provided = dc_adminToken cfg"
  using assms [of "or_default provided []" "or_default (dc_adminToken cfg) []"]
  by (cases provided; cases "dc_adminToken cfg")
    (auto simp: requireAdminToken_def too_many_def json_answer_def Let_def split: prod.splits bool.splits)

definition example_demo :: "int demo_env" where
  "example_demo = \<lparr>de_challenge = example_challenge_env, de_verify = example_verify_env, de_iso = dec_of_int,
     de_number_text = (\<lambda>t. t), de_sha256 = (\<lambda>bs. bs)\<rparr>"

definition example_demo_config :: demo_config where
  "example_demo_config = \<lparr>dc_homeDomain = ''localhost:3001'', dc_network = ''net'',
     dc_keypair = \<lparr>kp_canSign = True, kp_publicKey = ''GS''\<rparr>, dc_adminToken = Some ''s3cret''\<rparr>"

lemma example_demo_clock: "ve_now (de_verify example_demo) w = w"
  by (simp add: example_demo_def example_verify_env_def)

theorem admin_gate_iff_witness:
  "fst (requireAdminToken example_demo example_demo_config (Some ''s3cret'') None (demo_initial, 0)) = Next"
proof -
  have "fst (demo_rateLimiter example_demo None (demo_initial, 0))"
    by (simp add: demo_rateLimiter_def isAllowed_def demo_initial_def)
  then show ?thesis
    using admin_gate_iff [of "Some ''s3cret''" example_demo_config example_demo None "(demo_initial, 0)"]
    by (simp add: example_demo_config_def)
qed

lemma quiet_calls:
  "snd (snd (demo_handle env cfg (Post_Revoke body) (st, w))) = w" "snd (snd (demo_handle env cfg (Admin provided ip) (st, w))) = w"
  by (auto split: prod.split)

theorem demo_revocation_holds_witness:
  "\<exists>st h st'. demo_run example_demo example_demo_config
      [Post_Revoke (Some (JObj [(''transaction'', JStr ''AAAA'')])), Admin None None] (demo_initial, 0) = (st, 0)
    \<and> demo_post_auth example_demo example_demo_config (Some (JObj [(''transaction'', JStr ''AAAA'')])) None (st, 0) = (h, st', 0)
    \<and> h \<in> {too_many, json_answer 401 (JObj [(''error'', JStr ''token_revoked'')])}"
proof -
  obtain st where run: "demo_run example_demo example_demo_config
      [Post_Revoke (Some (JObj [(''transaction'', JStr ''AAAA'')])), Admin None None] (demo_initial, 0) = (st, 0)"
    using quiet_calls [of example_demo example_demo_config] by (auto simp: demo_run_def simp del: demo_handle.simps) (metis prod.collapse)
  from demo_revocation_holds [OF run, of None] run show ?thesis by fastforce
qed

end
