(* ===== verification/BrowserLogin.thy ===== *)
theory BrowserLogin
  imports DemoAuth Client
begin

text \<open>
  \<open>examples/sep10-browser-login/src\<close>: the login in the browser with the Freighter wallet (\<open>sep10.ts\<close>) and the page around it
  (\<open>main.ts\<close>, \<open>ui.ts\<close>). The wallet and fetch are parameters that act on a world; the session storage is a map. What the
  wallet answers is JSON or, as \<open>None\<close>, undefined. The debug log and the texts of the page other than errors are left out.
\<close>

section \<open>The wallet\<close>

record 'w browser_env =
  bw_isConnected :: "'w \<Rightarrow> (thrown + json option) \<times> 'w"
  bw_isAllowed :: "'w \<Rightarrow> (thrown + json option) \<times> 'w"
  bw_requestAccess :: "'w \<Rightarrow> (thrown + json option) \<times> 'w"
  bw_getAddress :: "'w \<Rightarrow> (thrown + json option) \<times> 'w"
  bw_signTransaction :: "json \<Rightarrow> string \<Rightarrow> json \<Rightarrow> 'w \<Rightarrow> (thrown + json option) \<times> 'w"
  bw_fetch :: "http_call \<Rightarrow> 'w \<Rightarrow> (thrown + fetch_response) \<times> 'w"
  bw_network :: string
  bw_number_text :: "string \<Rightarrow> string"

text \<open>\<open>typeof v === 'object' && v !== null && key in v\<close>, with the own properties of the value, and the property.\<close>

definition own_property :: "string \<Rightarrow> json option \<Rightarrow> json option" where
  "own_property key v = (case v of Some (JObj kvs) \<Rightarrow> map_get (rev kvs) key | _ \<Rightarrow> None)"

definition flag_answer :: "'w browser_env \<Rightarrow> string \<Rightarrow> json option \<Rightarrow> bool" where
  "flag_answer env key v =
     js_truthy (bw_number_text env) (case own_property key v of Some b \<Rightarrow> Some b | None \<Rightarrow> v)"

text \<open>Availability is used only as a condition, so its truth value is kept.\<close>

definition isFreighterAvailable :: "'w browser_env \<Rightarrow> 'w \<Rightarrow> bool \<times> 'w" where
  "isFreighterAvailable env w =
     (case bw_isConnected env w of
        (Throw e, w) \<Rightarrow> (False, w)
      | (Ret result, w) \<Rightarrow> (flag_answer env ''isConnected'' result, w))"

definition freighter_allowed :: "'w browser_env \<Rightarrow> 'w \<Rightarrow> bool \<times> 'w" where
  "freighter_allowed env w =
     (case bw_isAllowed env w of
        (Throw e, w) \<Rightarrow> (False, w)
      | (Ret result, w) \<Rightarrow> (flag_answer env ''isAllowed'' result, w))"

definition no_address :: thrown where
  "no_address = mk_error ''Could not retrieve Stellar address from Freighter.''"

text \<open>The address in the answer of \<open>getAddress\<close>.\<close>

definition address_of :: "'w browser_env \<Rightarrow> json option \<Rightarrow> thrown + json" where
  "address_of env v =
     (let error = own_property ''error'' v; address = own_property ''address'' v in
      if js_truthy (bw_number_text env) error then
        Throw (mk_error (''Freighter getAddress error: '' @ js_String (bw_number_text env) (the error)))
      else if js_truthy (bw_number_text env) address then Ret (the address)
      else (case v of
          Some (JStr s) \<Rightarrow> if take 1 s = ''G'' then Ret (JStr s) else Throw no_address
        | _ \<Rightarrow> Throw no_address))"

definition connectFreighter :: "'w browser_env \<Rightarrow> 'w \<Rightarrow> (thrown + json) \<times> 'w" where
  "connectFreighter env w =
     (case isFreighterAvailable env w of
        (False, w) \<Rightarrow> (Throw (mk_error ''Freighter extension not found. Install it from https://www.freighter.app/ and reload.''), w)
      | (True, w) \<Rightarrow>
          (case (case freighter_allowed env w of
                   (True, w) \<Rightarrow> (Ret (), w)
                 | (False, w) \<Rightarrow>
                     (case bw_requestAccess env w of
                        (Throw e, w) \<Rightarrow> (Throw e, w)
                      | (Ret accessResult, w) \<Rightarrow>
                          (case own_property ''error'' accessResult of
                             Some err \<Rightarrow> (Throw (mk_error (''Freighter access denied: '' @ js_String (bw_number_text env) err)), w)
                           | None \<Rightarrow> (Ret (), w)))) of
             (Throw e, w) \<Rightarrow> (Throw e, w)
           | (Ret _, w) \<Rightarrow>
               (case bw_getAddress env w of
                  (Throw e, w) \<Rightarrow> (Throw e, w)
                | (Ret addressResult, w) \<Rightarrow> (address_of env addressResult, w))))"

section \<open>The login\<close>

text \<open>The error of an answer that is not ok; whatever goes wrong while its body is read leaves the detail empty.\<close>

definition auth_failure :: "'w browser_env \<Rightarrow> string \<Rightarrow> fetch_response \<Rightarrow> thrown" where
  "auth_failure env what res =
     mk_error (what @ '' ('' @ dec_of_int (fr_status res) @ '')'' @
       (case js_bind (fr_json res) (\<lambda>body. get_prop body ''error'') of
          Ret (Some v) \<Rightarrow> if js_truthy (bw_number_text env) (Some v) then '': '' @ js_String (bw_number_text env) v else []
        | _ \<Rightarrow> []))"

definition fetchChallenge :: "'w browser_env \<Rightarrow> json \<Rightarrow> 'w \<Rightarrow> (thrown + json \<times> json) \<times> 'w" where
  "fetchChallenge env account w =
     (case bw_fetch env (Get_Request (''/auth?account='' @ encodeURIComponent (js_String (bw_number_text env) account))) w of
        (Throw e, w) \<Rightarrow> (Throw e, w)
      | (Ret res, w) \<Rightarrow>
          (if \<not> fr_ok res then Throw (auth_failure env ''Challenge fetch failed'' res)
           else js_bind (fr_json res) (\<lambda>data.
                js_bind (get_prop data ''transaction'') (\<lambda>transaction.
                js_bind (if js_truthy (bw_number_text env) transaction then get_prop data ''network_passphrase'' else Ret None) (\<lambda>network.
                  if js_truthy (bw_number_text env) network then Ret (the transaction, the network)
                  else Throw (mk_error ''Server returned an invalid challenge response (missing fields).'')))), w))"

definition signing_answer :: "'w browser_env \<Rightarrow> json option \<Rightarrow> thrown + json" where
  "signing_answer env v =
     (case v of
        Some (JStr s) \<Rightarrow> Ret (JStr s)
      | _ \<Rightarrow>
          (let error = own_property ''error'' v; signed = own_property ''signedTransaction'' v in
           if js_truthy (bw_number_text env) error then
             Throw (mk_error (''Freighter signing error: '' @ js_String (bw_number_text env) (the error)))
           else if js_truthy (bw_number_text env) signed then Ret (the signed)
           else Throw (mk_error ''Unexpected response from Freighter signTransaction.'')))"

definition signChallenge :: "'w browser_env \<Rightarrow> json \<Rightarrow> json \<Rightarrow> 'w \<Rightarrow> (thrown + json) \<times> 'w" where
  "signChallenge env transactionXdr accountAddress w =
     (case bw_signTransaction env transactionXdr (bw_network env) accountAddress w of
        (Throw e, w) \<Rightarrow> (Throw e, w)
      | (Ret result, w) \<Rightarrow> (signing_answer env result, w))"

definition submit_call :: "json \<Rightarrow> http_call" where
  "submit_call signedTransaction = Post_Request ''/auth'' [(''Content-Type'', ''application/json'')]
     (stringify (JObj [(''transaction'', signedTransaction)]))"

definition submitChallenge :: "'w browser_env \<Rightarrow> json \<Rightarrow> 'w \<Rightarrow> (thrown + json) \<times> 'w" where
  "submitChallenge env signedTransaction w =
     (case bw_fetch env (submit_call signedTransaction) w of
        (Throw e, w) \<Rightarrow> (Throw e, w)
      | (Ret res, w) \<Rightarrow>
          (if \<not> fr_ok res then Throw (auth_failure env ''Challenge submission failed'' res)
           else js_bind (fr_json res) (\<lambda>data. js_bind (get_prop data ''token'') (\<lambda>token.
                if js_truthy (bw_number_text env) token then Ret (the token)
                else Throw (mk_error ''Server returned a successful response but no token.''))), w))"

type_synonym storage = "(string, string) jsmap"

definition TOKEN_STORAGE_KEY :: string where
  "TOKEN_STORAGE_KEY = ''sep10_token''"

definition getStoredToken :: "storage \<Rightarrow> string option" where
  "getStoredToken st = map_get st TOKEN_STORAGE_KEY"

definition clearSession :: "storage \<Rightarrow> storage" where
  "clearSession st = map_delete TOKEN_STORAGE_KEY st"

record session =
  ss_address :: json
  ss_token :: json
  ss_network :: json

datatype login_step = Step_Connect | Step_Challenge | Step_Sign | Step_Submit

text \<open>The steps reported, the outcome, and the storage and world after it.\<close>

definition runSep10Login :: "'w browser_env \<Rightarrow> storage \<times> 'w \<Rightarrow> login_step list \<times> (thrown + session) \<times> storage \<times> 'w" where
  "runSep10Login env sw =
     (case sw of (st, w) \<Rightarrow>
        (case connectFreighter env w of
           (Throw e, w) \<Rightarrow> ([Step_Connect], Throw e, st, w)
         | (Ret address, w) \<Rightarrow>
             (case fetchChallenge env address w of
                (Throw e, w) \<Rightarrow> ([Step_Connect, Step_Challenge], Throw e, st, w)
              | (Ret (transaction, network), w) \<Rightarrow>
                  (case signChallenge env transaction address w of
                     (Throw e, w) \<Rightarrow> ([Step_Connect, Step_Challenge, Step_Sign], Throw e, st, w)
                   | (Ret signedTransaction, w) \<Rightarrow>
                       (case submitChallenge env signedTransaction w of
                          (Throw e, w) \<Rightarrow> ([Step_Connect, Step_Challenge, Step_Sign, Step_Submit], Throw e, st, w)
                        | (Ret token, w) \<Rightarrow>
                            ([Step_Connect, Step_Challenge, Step_Sign, Step_Submit],
                             Ret \<lparr>ss_address = address, ss_token = token, ss_network = network\<rparr>,
                             map_set TOKEN_STORAGE_KEY (js_String (bw_number_text env) token) st, w))))))"

section \<open>The page\<close>

datatype shown_button = Connect_Button | Login_Button | Logout_Button

datatype variant = Idle | Loading | Success | Failure

datatype step_mark = Plain_Step | Active_Step | Done_Step

text \<open>The address the page keeps is the empty string before a connection.\<close>

record page =
  pg_address :: json
  pg_button :: shown_button
  pg_disabled :: bool
  pg_marks :: "step_mark list"
  pg_panel :: "(json \<times> json \<times> json) option"
  pg_variant :: variant
  pg_error :: "string option"

definition reset_marks :: "step_mark list" where
  "reset_marks = [Plain_Step, Plain_Step, Plain_Step, Plain_Step]"

definition done_marks :: "step_mark list" where
  "done_marks = [Done_Step, Done_Step, Done_Step, Done_Step]"

fun step_index :: "login_step \<Rightarrow> nat" where
  "step_index Step_Connect = 0"
| "step_index Step_Challenge = 1"
| "step_index Step_Sign = 2"
| "step_index Step_Submit = 3"

definition activateStep :: "login_step \<Rightarrow> step_mark list" where
  "activateStep step = map (\<lambda>i. if i < step_index step then Done_Step else if i = step_index step then Active_Step else Plain_Step) [0..<4]"

definition initial_page :: page where
  "initial_page = \<lparr>pg_address = JStr [], pg_button = Connect_Button, pg_disabled = False, pg_marks = reset_marks,
     pg_panel = None, pg_variant = Idle, pg_error = None\<rparr>"

definition failed_status :: "string \<Rightarrow> page \<Rightarrow> page" where
  "failed_status message p = p\<lparr>pg_variant := Failure, pg_error := Some message\<rparr>"

definition status :: "variant \<Rightarrow> page \<Rightarrow> page" where
  "status v p = p\<lparr>pg_variant := v, pg_error := None\<rparr>"

definition shown_message :: "thrown \<Rightarrow> string" where
  "shown_message err = (if is_error err then thrown_message err else thrown_string err)"

definition page_init :: "'w browser_env \<Rightarrow> page \<times> storage \<times> 'w \<Rightarrow> page \<times> storage \<times> 'w" where
  "page_init env psw =
     (case psw of (p, st, w) \<Rightarrow>
        (case isFreighterAvailable env w of
           (False, w) \<Rightarrow> ((failed_status ''Freighter is not installed.'' p)\<lparr>pg_disabled := True\<rparr>, st, w)
         | (True, w) \<Rightarrow>
             (case getStoredToken st of
                None \<Rightarrow> ((status Idle p)\<lparr>pg_button := Connect_Button\<rparr>, st, w)
              | Some existingToken \<Rightarrow>
                  if existingToken = [] then ((status Idle p)\<lparr>pg_button := Connect_Button\<rparr>, st, w)
                  else
                    (case connectFreighter env w of
                       (Ret address, w) \<Rightarrow>
                         ((status Success p)\<lparr>pg_address := address, pg_marks := done_marks,
                            pg_panel := Some (address, JStr existingToken, JStr (bw_network env)), pg_button := Logout_Button\<rparr>, st, w)
                     | (Throw e, w) \<Rightarrow> ((status Idle p)\<lparr>pg_button := Connect_Button\<rparr>, clearSession st, w)))))"

text \<open>\<open>showLoginButton\<close> slices the address, which throws on a value other than a string or an array.\<close>

definition sliceable :: "json \<Rightarrow> bool" where
  "sliceable a = (case a of JStr _ \<Rightarrow> True | JArr _ \<Rightarrow> True | _ \<Rightarrow> False)"

definition slice_error :: thrown where
  "slice_error = type_error ''address.slice is not a function''"

definition connect_failed :: "thrown \<Rightarrow> page \<Rightarrow> page" where
  "connect_failed err p = (failed_status (shown_message err) p)\<lparr>pg_marks := reset_marks, pg_button := Connect_Button, pg_disabled := False\<rparr>"

definition handleConnect :: "'w browser_env \<Rightarrow> page \<times> storage \<times> 'w \<Rightarrow> page \<times> storage \<times> 'w" where
  "handleConnect env psw =
     (case psw of (p, st, w) \<Rightarrow>
        (let p = (status Loading p)\<lparr>pg_disabled := True, pg_marks := activateStep Step_Connect\<rparr> in
         case connectFreighter env w of
           (Ret address, w) \<Rightarrow>
             (let p = (status Success p)\<lparr>pg_address := address\<rparr> in
              (if sliceable address then p\<lparr>pg_button := Login_Button, pg_disabled := False\<rparr> else connect_failed slice_error p, st, w))
         | (Throw err, w) \<Rightarrow> (connect_failed err p, st, w)))"

text \<open>The button is shown again after a failure; the address is one that was shown there before.\<close>

definition handleLogin :: "'w browser_env \<Rightarrow> page \<times> storage \<times> 'w \<Rightarrow> page \<times> storage \<times> 'w" where
  "handleLogin env psw =
     (case psw of (p, st, w) \<Rightarrow>
        if \<not> js_truthy (bw_number_text env) (Some (pg_address p)) then (p, st, w)
        else
          (case runSep10Login env (st, w) of
             (steps, r, st, w) \<Rightarrow>
               (let p = (status Loading p)\<lparr>pg_marks := activateStep (last steps)\<rparr> in
                case r of
                  Ret s \<Rightarrow> ((status Success p)\<lparr>pg_marks := done_marks, pg_panel := Some (ss_address s, ss_token s, ss_network s),
                     pg_button := Logout_Button, pg_disabled := False\<rparr>, st, w)
                | Throw err \<Rightarrow> ((failed_status (shown_message err) p)\<lparr>pg_button := Login_Button, pg_disabled := False\<rparr>, st, w))))"

definition handleLogout :: "page \<times> storage \<times> 'w \<Rightarrow> page \<times> storage \<times> 'w" where
  "handleLogout psw =
     (case psw of (p, st, w) \<Rightarrow>
        ((status Idle p)\<lparr>pg_address := JStr [], pg_panel := None, pg_marks := reset_marks, pg_button := Connect_Button\<rparr>, clearSession st, w))"

text \<open>A click reaches the handler of the button that is shown, unless the buttons are disabled.\<close>

definition click :: "'w browser_env \<Rightarrow> page \<times> storage \<times> 'w \<Rightarrow> page \<times> storage \<times> 'w" where
  "click env psw =
     (if pg_disabled (fst psw) then psw
      else (case pg_button (fst psw) of
          Connect_Button \<Rightarrow> handleConnect env psw
        | Login_Button \<Rightarrow> handleLogin env psw
        | Logout_Button \<Rightarrow> handleLogout psw))"

section \<open>The session\<close>

text \<open>
  A login that succeeds has gone through all four steps and stored the token the server answered; one that fails has
  stored nothing and has stopped after the last step it reported.
\<close>

theorem login_stores_token:
  assumes "runSep10Login env (st, w) = (steps, r, st', w')"
  shows "case r of
      Ret s \<Rightarrow> steps = [Step_Connect, Step_Challenge, Step_Sign, Step_Submit]
        \<and> st' = map_set TOKEN_STORAGE_KEY (js_String (bw_number_text env) (ss_token s)) st \<and> js_truthy (bw_number_text env) (Some (ss_token s))
    | Throw e \<Rightarrow> st' = st \<and> steps \<noteq> [] \<and> prefix steps [Step_Connect, Step_Challenge, Step_Sign, Step_Submit]"
proof -
  have token: "js_truthy (bw_number_text env) (Some t)" if "submitChallenge env x w1 = (Ret t, w2)" for x w1 t w2
    using that by (auto simp: submitChallenge_def js_bind_Ret_iff js_truthy_def split: prod.splits sum.splits if_splits option.splits)
  show ?thesis
    using assms token by (auto simp: runSep10Login_def split: prod.splits sum.splits)
qed

definition example_wallet :: "unit browser_env" where
  "example_wallet = \<lparr>bw_isConnected = (\<lambda>w. (Ret (Some (JObj [(''isConnected'', JBool True)])), w)),
     bw_isAllowed = (\<lambda>w. (Ret (Some (JBool True)), w)), bw_requestAccess = (\<lambda>w. (Ret None, w)),
     bw_getAddress = (\<lambda>w. (Ret (Some (JObj [(''address'', JStr ''GA'')])), w)),
     bw_signTransaction = (\<lambda>tx net a w. (Ret (Some (JStr ''signed'')), w)),
     bw_fetch = (\<lambda>call w. (Ret \<lparr>fr_status = 200, fr_statusText = ''OK'', fr_json = Ret (case call of
         Get_Request u \<Rightarrow> JObj [(''transaction'', JStr ''AAAA''), (''network_passphrase'', JStr ''net'')]
       | Post_Request u hs b \<Rightarrow> JObj [(''token'', JStr ''jwt'')])\<rparr>, w)), bw_network = ''net'', bw_number_text = (\<lambda>t. t)\<rparr>"

lemma example_login: "runSep10Login example_wallet ([], ()) = ([Step_Connect, Step_Challenge, Step_Sign, Step_Submit],
    Ret \<lparr>ss_address = JStr ''GA'', ss_token = JStr ''jwt'', ss_network = JStr ''net''\<rparr>, [(TOKEN_STORAGE_KEY, ''jwt'')], ())"
  by (simp add: runSep10Login_def example_wallet_def connectFreighter_def isFreighterAvailable_def freighter_allowed_def flag_answer_def
    own_property_def js_truthy_def address_of_def fetchChallenge_def fr_ok_def get_prop_def js_bind_def signChallenge_def signing_answer_def
    submitChallenge_def submit_call_def)

theorem login_stores_token_witness:
  "getStoredToken (fst (snd (snd (runSep10Login example_wallet ([], ()))))) = Some ''jwt''"
proof -
  have "[(TOKEN_STORAGE_KEY, ''jwt'')] = map_set TOKEN_STORAGE_KEY (js_String (bw_number_text example_wallet) (JStr ''jwt'')) []"
    using login_stores_token [OF example_login] by simp
  then show ?thesis by (simp add: example_login getStoredToken_def)
qed

section \<open>The page\<close>

text \<open>
  The result panel is shown exactly with the logout button, and then there is a session in the storage; while the buttons
  work and another one is shown, there is none.
\<close>

definition page_inv :: "page \<times> storage \<times> 'w \<Rightarrow> bool" where
  "page_inv psw \<longleftrightarrow> (case psw of (p, st, w) \<Rightarrow>
     (pg_panel p \<noteq> None \<longleftrightarrow> pg_button p = Logout_Button)
     \<and> (pg_button p = Logout_Button \<longrightarrow> getStoredToken st \<noteq> None)
     \<and> (\<not> pg_disabled p \<and> pg_button p \<noteq> Logout_Button \<longrightarrow> getStoredToken st \<in> {None, Some []}))"

lemma stored_simps [simp]:
  "getStoredToken (clearSession st) = None" "getStoredToken (map_set TOKEN_STORAGE_KEY t st) = Some t"
  by (simp_all add: getStoredToken_def clearSession_def map_get_set map_get_delete)

lemma init_inv: "page_inv (page_init env (initial_page, st, w))"
  by (auto simp: page_inv_def page_init_def initial_page_def failed_status_def status_def split: prod.split sum.split option.split bool.split)

lemma connect_inv: "page_inv psw \<Longrightarrow> pg_button (fst psw) = Connect_Button \<Longrightarrow> \<not> pg_disabled (fst psw) \<Longrightarrow> page_inv (handleConnect env psw)"
  by (auto simp: page_inv_def handleConnect_def connect_failed_def failed_status_def status_def Let_def split: prod.splits sum.split)

lemma login_inv:
  assumes "page_inv psw" and "pg_button (fst psw) = Login_Button" and "\<not> pg_disabled (fst psw)"
  shows "page_inv (handleLogin env psw)"
proof -
  obtain p st w where psw: "psw = (p, st, w)" by (metis prod.collapse)
  obtain steps r st' w' where run: "runSep10Login env (st, w) = (steps, r, st', w')" by (metis prod.collapse)
  show ?thesis
    using assms login_stores_token [OF run]
    by (cases r) (auto simp: psw page_inv_def handleLogin_def run failed_status_def status_def Let_def)
qed

lemma logout_inv: "page_inv psw \<Longrightarrow> page_inv (handleLogout psw)"
  by (auto simp: page_inv_def handleLogout_def status_def split: prod.splits)

lemma click_inv: "page_inv psw \<Longrightarrow> page_inv (click env psw)"
  by (simp add: click_def connect_inv login_inv logout_inv split: shown_button.split)


section \<open>Against the demo server\<close>

text \<open>
  What carries the browser's requests to the demo server and its answers back: the form of a request, and the answer with its
  status; an error handed on by a handler is answered by Express with a status that is not ok.
\<close>

record demo_transport =
  dt_request :: "http_call \<Rightarrow> demo_call"
  dt_response :: "handled \<Rightarrow> fetch_response"

definition demo_served ::
  "'w demo_env \<Rightarrow> demo_config \<Rightarrow> demo_transport \<Rightarrow> http_call \<Rightarrow> demo_state \<times> 'w \<Rightarrow> (thrown + fetch_response) \<times> demo_state \<times> 'w" where
  "demo_served env cfg t call sw = (case demo_handle env cfg (dt_request t call) sw of (h, sw) \<Rightarrow> (Ret (dt_response t h), sw))"

definition demo_carries :: "demo_transport \<Rightarrow> bool" where
  "demo_carries t \<longleftrightarrow> (\<forall>tx. \<exists>body ip. dt_request t (submit_call tx) = Post_Auth body ip)
     \<and> (\<forall>resp. fr_status (dt_response t (Respond resp)) = hr_status resp) \<and> (\<forall>e. \<not> fr_ok (dt_response t (NextError e)))"

text \<open>
  The browser example cannot log in at the server it is configured for: whatever the wallet does, a login against the demo
  server fails and stores no token.
\<close>

theorem browser_login_fails_at_demo:
  assumes "bw_fetch benv = demo_served env cfg t" and "demo_carries t"
  shows "\<exists>steps e sw'. runSep10Login benv (st, sw) = (steps, Throw e, st, sw')"
proof -
  have not_ok: "\<not> fr_ok (dt_response t (fst (demo_post_auth env cfg body ip sw1)))" for body ip sw1
    using post_auth_refuses [of env cfg body ip sw1] assms(2) by (auto simp: demo_carries_def fr_ok_def)
  have submit: "\<exists>e sw2. submitChallenge benv tx sw1 = (Throw e, sw2)" for tx sw1
  proof -
    obtain body ip where "dt_request t (submit_call tx) = Post_Auth body ip"
      using assms(2) unfolding demo_carries_def by blast
    then show ?thesis
      using not_ok [of body ip sw1] by (auto simp: submitChallenge_def assms(1) demo_served_def split: prod.split)
  qed
  obtain steps r st' sw' where run: "runSep10Login benv (st, sw) = (steps, r, st', sw')" by (metis prod.collapse)
  have "\<exists>e. r = Throw e"
    using run submit by (auto simp: runSep10Login_def split: prod.splits sum.splits) (metis old.prod.inject sum.distinct(1))+
  then show ?thesis using run login_stores_token [OF run] by auto
qed

definition example_demo_transport :: demo_transport where
  "example_demo_transport = \<lparr>
     dt_request = (\<lambda>call. case call of
         Get_Request u \<Rightarrow> Get_Auth (QString (decodeURIComponent (drop 14 u))) None
       | Post_Request u hs b \<Rightarrow> Post_Auth (case json_parse b of Ret j \<Rightarrow> Some j | Throw e \<Rightarrow> None) None),
     dt_response = (\<lambda>h. case h of
         Respond resp \<Rightarrow> \<lparr>fr_status = hr_status resp, fr_statusText = [], fr_json = json_parse (stringify (hr_body resp))\<rparr>
       | _ \<Rightarrow> \<lparr>fr_status = 500, fr_statusText = [], fr_json = Throw syntax_error\<rparr>)\<rparr>"

definition demo_wallet :: "(demo_state \<times> int) browser_env" where
  "demo_wallet = \<lparr>bw_isConnected = (\<lambda>w. (Ret (Some (JBool True)), w)), bw_isAllowed = (\<lambda>w. (Ret (Some (JBool True)), w)),
     bw_requestAccess = (\<lambda>w. (Ret None, w)), bw_getAddress = (\<lambda>w. (Ret (Some (JStr ''GA'')), w)),
     bw_signTransaction = (\<lambda>tx net a w. (Ret (Some tx), w)),
     bw_fetch = demo_served example_demo example_demo_config example_demo_transport, bw_network = ''net'', bw_number_text = (\<lambda>t. t)\<rparr>"

theorem browser_login_fails_at_demo_witness:
  "\<exists>steps e sw'. runSep10Login demo_wallet ([], (demo_initial, 0)) = (steps, Throw e, [], sw')"
  by (rule browser_login_fails_at_demo) (auto simp: demo_wallet_def demo_carries_def example_demo_transport_def submit_call_def fr_ok_def)

end
