(* ===== verification/DemoSanctions.thy ===== *)
theory DemoSanctions
  imports Commands Registry
begin

text \<open>
  \<open>examples/full-stack-demo/server.js\<close>, the part about sanctions: its own provider registry, the construction of providers,
  writer and listener when the module is loaded, the \<open>/sanctions\<close> routes and the listener's admin routes. Metrics and log lines
  are left out.
\<close>

section \<open>The demo's registry\<close>

definition new_demo_registry :: "'w provider list \<Rightarrow> thrown + 'w provider list" where
  "new_demo_registry providers =
     (if providers = [] then Throw (mk_error ''ProviderRegistry requires at least one provider'') else Ret providers)"

fun demo_checkAddress :: "'w provider list \<Rightarrow> 'w provider" where
  "demo_checkAddress [] address w = (Ret (unscored False ''provider-registry''), w)"
| "demo_checkAddress (p # ps) address w =
     (case p address w of
        (Throw e, w) \<Rightarrow> (Throw e, w)
      | (Ret result, w) \<Rightarrow> if cr_flagged result then (Ret result, w) else demo_checkAddress ps address w)"

lemma demo_registry_provider:
  "(\<And>p. p \<in> set ps \<Longrightarrow> sanctions_provider p) \<Longrightarrow> sanctions_provider (demo_checkAddress ps)"
proof (unfold_locales, goal_cases)
  case (1 a b w)
  then show ?case
  proof (induction ps arbitrary: w)
    case (Cons p ps)
    have p: "p a w = p b w" using Cons.prems sanctions_provider.spelling [of p a b w] by simp
    have "demo_checkAddress ps a = demo_checkAddress ps b" by (rule ext, rule Cons.IH) (use Cons.prems in simp_all)
    with p show ?case by (simp split: prod.split sum.split)
  qed simp
qed

interpretation demo_registry: sanctions_provider "demo_checkAddress [csv_checkAddress m, mock_checkAddress MOCK_FLAGGED_ADDRESSES]" for m
  by (rule demo_registry_provider) (auto intro: csv.sanctions_provider_axioms mock.sanctions_provider_axioms)

section \<open>Loading the module\<close>

record 'w demo_parts =
  dp_providers :: "'w provider list"
  dp_writer :: "'w denylist_writer"
  dp_source :: "(rpc_source \<times> webhook_sender option) option"

text \<open>
  The catch around the CSV provider is not modelled: its constructor handles what goes wrong itself.
\<close>

definition demo_providers :: "('acct, 'tx, 'w) cli_env \<Rightarrow> 'w provider list" where
  "demo_providers env =
     (case nonempty (ce_getenv env ''CSV_SANCTIONS_PATH'') of
        Some path \<Rightarrow> [csv_checkAddress (fst (loadCsv (ce_fs env) (se_strkey (ce_sync env)) path)), mock_checkAddress MOCK_FLAGGED_ADDRESSES]
      | None \<Rightarrow> [mock_checkAddress MOCK_FLAGGED_ADDRESSES])"

definition demo_dry_writer :: "'w denylist_writer" where
  "demo_dry_writer = \<lparr>dw_add = (\<lambda>address w. (Ret ''dry-run-no-op'', w)), dw_addWithSource = None, dw_remove = None, dw_removeWithSource = None\<rparr>"

definition soroban_url :: "('acct, 'tx, 'w) cli_env \<Rightarrow> string" where
  "soroban_url env = or_default (ce_getenv env ''SOROBAN_RPC_URL'') ''https://soroban-testnet.stellar.org''"

definition demo_writer :: "('acct, 'tx, 'w) cli_env \<Rightarrow> keypair \<Rightarrow> thrown + 'w denylist_writer" where
  "demo_writer env kp =
     (case (nonempty (ce_getenv env ''DENYLIST_CONTRACT_ID''), nonempty (ce_getenv env ''SERVER_SECRET'')) of
        (Some contractId, Some secret) \<Rightarrow>
          createRpcDenylistWriter (ce_sdk env (soroban_url env)) \<lparr>we_retry = se_retry (ce_sync env), we_nowIso = ce_nowIso env\<rparr>
            \<lparr>wo_networkPassphrase = or_default (ce_getenv env ''NETWORK_PASSPHRASE'') TESTNET, wo_contractId = contractId,
             wo_sourceKeypair = Some (KeypairKey kp), wo_signer = None, wo_feeSource = None, wo_auditLogger = None,
             wo_maxRetries = None, wo_backoff = default_backoff, wo_logError = (\<lambda>_ _ _ w. w)\<rparr>
      | _ \<Rightarrow> Ret demo_dry_writer)"

text \<open>\<open>nan\<close> stands for a start ledger that is not a number, which the RPC node is handed as it is.\<close>

definition demo_source :: "int \<Rightarrow> bool \<Rightarrow> (string \<Rightarrow> thrown + string) \<Rightarrow> ('acct, 'tx, 'w) cli_env \<Rightarrow> thrown + (rpc_source \<times> webhook_sender option) option" where
  "demo_source nan noop_global protocol_of env =
     (case nonempty (ce_getenv env ''DENYLIST_CONTRACT_ID'') of
        None \<Rightarrow> Ret None
      | Some contractId \<Rightarrow>
          js_bind (new_rpc_source noop_global \<lparr>rs_rpcUrl = Some (soroban_url env), rs_rpcUrls = None, rs_has_metrics = False,
              rs_contractIds = [contractId], rs_topics = None, rs_eventType = None,
              rs_startLedger = map_option (\<lambda>s. or_default (parse_int s) nan) (nonempty (ce_getenv env ''HORIZON_START_LEDGER'')),
              rs_timeoutMs = None, rs_native = False\<rparr>) (\<lambda>eventSource.
          case nonempty (ce_getenv env ''WEBHOOK_URL'') of
            None \<Rightarrow> Ret (Some (eventSource, None))
          | Some url \<Rightarrow> js_bind (new_webhook_sender protocol_of (listen_webhook url)) (\<lambda>sender. Ret (Some (eventSource, Some sender)))))"

text \<open>Loading: the key pair, the providers, the writer, the listener, in this order.\<close>

definition demo_load ::
  "int \<Rightarrow> bool \<Rightarrow> (string \<Rightarrow> thrown + string) \<Rightarrow> keypair \<Rightarrow> ('acct, 'tx, 'w) cli_env \<Rightarrow> thrown + 'w demo_parts" where
  "demo_load nan noop_global protocol_of random env =
     js_bind (case nonempty (ce_getenv env ''SERVER_SECRET'') of Some s \<Rightarrow> ce_fromSecret env s | None \<Rightarrow> Ret random) (\<lambda>kp.
     js_bind (new_demo_registry (demo_providers env)) (\<lambda>providers.
     js_bind (demo_writer env kp) (\<lambda>writer.
     js_bind (demo_source nan noop_global protocol_of env) (\<lambda>source.
       Ret \<lparr>dp_providers = providers, dp_writer = writer, dp_source = source\<rparr>))))"

section \<open>The routes\<close>

text \<open>An answer of a handler: status and body.\<close>

type_synonym demo_answer = "int \<times> json"

definition error_answer :: "int \<Rightarrow> string \<Rightarrow> thrown \<Rightarrow> demo_answer" where
  "error_answer status code err = (status, JObj ((''error'', JStr code)
     # (if is_error err then [(''detail'', JStr (thrown_message err))] else [])))"

definition check_json :: "(rat \<Rightarrow> string) \<Rightarrow> check_result \<Rightarrow> json" where
  "check_json showNumber r = JObj ([(''flagged'', JBool (cr_flagged r)), (''source'', JStr (cr_source r))]
     @ (case cr_score r of None \<Rightarrow> [] | Some s \<Rightarrow> [(''score'', JNum (showNumber s))]))"

text \<open>The query parameter, when it is a string.\<close>

definition sanctions_check :: "(rat \<Rightarrow> string) \<Rightarrow> 'w provider \<Rightarrow> string option \<Rightarrow> 'w \<Rightarrow> demo_answer \<times> 'w" where
  "sanctions_check showNumber check address w =
     (case nonempty address of
        None \<Rightarrow> ((400, JObj [(''error'', JStr ''missing ?address= query param'')]), w)
      | Some a \<Rightarrow>
          (case check a w of
             (Throw err, w) \<Rightarrow> (error_answer 500 ''provider_error'' err, w)
           | (Ret result, w) \<Rightarrow> ((200, check_json showNumber result), w)))"

datatype sync_answer = Sync_Answer demo_answer | Sync_Result sync_result int

text \<open>
  \<open>dryRun\<close> is the default, any other value of the body is used for its truth. The sync of other addresses than
  strings is described for a program without a global \<open>maxDurationMs\<close>.
\<close>

inductive sanctions_sync ::
  "(string \<Rightarrow> int option option) \<Rightarrow> ('w \<Rightarrow> int) \<Rightarrow> 'w sync_env \<Rightarrow> 'w provider \<Rightarrow> 'w denylist_writer \<Rightarrow> json option \<Rightarrow> bool \<Rightarrow> 'w
     \<Rightarrow> sync_answer \<times> 'w \<Rightarrow> bool"
  for globals clock env provider writer addresses dryRun w where
  no_array: "(\<And>j js. addresses \<noteq> Some (JArr (j # js))) \<Longrightarrow>
     sanctions_sync globals clock env provider writer addresses dryRun w
       (Sync_Answer (400, JObj [(''error'', JStr ''body must include a non-empty addresses array'')]), w)"
| not_strings: "addresses = Some (JArr (j # js)) \<Longrightarrow> all_strings (j # js) = None \<Longrightarrow> globals ''maxDurationMs'' = None \<Longrightarrow>
     sanctions_sync globals clock env provider writer addresses dryRun w
       (Sync_Answer (error_answer 500 ''sync_error'' (reference_error ''maxDurationMs'')), w)"
| sync_fails: "addresses = Some (JArr (j # js)) \<Longrightarrow> all_strings (j # js) = Some xs \<Longrightarrow>
     syncSanctionsToDenylist globals env (cli_options provider xs writer dryRun None False None) [] w (Throw err, w') \<Longrightarrow>
     sanctions_sync globals clock env provider writer addresses dryRun w (Sync_Answer (error_answer 500 ''sync_error'' err), w')"
| sync_done: "addresses = Some (JArr (j # js)) \<Longrightarrow> all_strings (j # js) = Some xs \<Longrightarrow>
     syncSanctionsToDenylist globals env (cli_options provider xs writer dryRun None False None) [] w (Ret r, w') \<Longrightarrow>
     sanctions_sync globals clock env provider writer addresses dryRun w (Sync_Result r (clock w' - clock w), w')"

text \<open>The commands the admin routes give the listener; \<open>start\<close> is not awaited.\<close>

datatype listener_command = Start_Listener | Stop_Listener

definition admin_listener :: "bool \<Rightarrow> listener_command \<Rightarrow> demo_answer \<times> listener_command list" where
  "admin_listener configured c =
     (if \<not> configured then
        ((503, JObj [(''error'', JStr (case c of
            Start_Listener \<Rightarrow> ''HorizonListener not configured (missing DENYLIST_CONTRACT_ID)''
          | Stop_Listener \<Rightarrow> ''HorizonListener not configured''))]), [])
      else ((200, JObj [(''status'', JStr (case c of Start_Listener \<Rightarrow> ''started'' | Stop_Listener \<Rightarrow> ''stopped''))]), [c]))"

text \<open>The handler of an event: a failing webhook is only logged, and an event without a webhook only printed.\<close>

definition demo_onEvent :: "'w webhook_env \<Rightarrow> webhook_sender option \<Rightarrow> raw_event \<Rightarrow> 'w \<Rightarrow> (thrown + unit) \<times> 'w" where
  "demo_onEvent wenv sender event w = (Ret (), snd (listen_handler wenv sender event w))"

section \<open>The verdict\<close>

text \<open>Providers that answer an address and change nothing.\<close>

definition answering :: "'w provider list \<Rightarrow> string \<Rightarrow> 'w \<Rightarrow> bool" where
  "answering ps address w \<longleftrightarrow> list_all (\<lambda>p. \<exists>x. p address w = (Ret x, w)) ps"

lemma demo_check_answering:
  "answering ps address w \<Longrightarrow> \<exists>x. demo_checkAddress ps address w = (Ret x, w)
    \<and> (cr_flagged x \<longleftrightarrow> (\<exists>y. Ret y \<in> set (map (\<lambda>p. fst (p address w)) ps) \<and> cr_flagged y))"
proof (induction ps)
  case (Cons p ps)
  then obtain x where x: "p address w = (Ret x, w)" by (auto simp: answering_def)
  obtain y where "demo_checkAddress ps address w = (Ret y, w)"
    "cr_flagged y \<longleftrightarrow> (\<exists>z. Ret z \<in> set (map (\<lambda>p. fst (p address w)) ps) \<and> cr_flagged z)"
    using Cons by (auto simp: answering_def)
  with x show ?case by (auto split: if_splits)
qed (simp add: unscored_def)

lemma ask_all_answering:
  "answering (map rp_provider rs) address w \<Longrightarrow> ask_all rs address w = (map (\<lambda>r. fst (rp_provider r address w)) rs, w)"
  by (induction rs) (auto simp: answering_def)

text \<open>
  The demo's registry is the package's under any-flag-wins, as long as its providers answer: on the same providers both
  give the same verdict. They part when a provider fails: the demo fails with it, also when a later provider would flag
  the address, while the package goes by the others.
\<close>

theorem demo_registry_agrees:
  assumes "rg_policy r = AnyFlagWins" and "map rp_provider (map snd (rg_providers r)) = ps" and "ps \<noteq> []"
    and "answering ps address w"
  shows "\<exists>x y. demo_checkAddress ps address w = (Ret x, w) \<and> registry_checkAddress r address w = (Ret y, w)
    \<and> cr_flagged x = cr_flagged y"
proof -
  let ?answers = "map (\<lambda>p. fst (p address w)) ps"
  have asked: "ask_all (map snd (rg_providers r)) address w = (?answers, w)"
    using ask_all_answering [of "map snd (rg_providers r)" address w] assms(2,4) by (auto simp: comp_def)
  have "length ?answers = length (rg_providers r)" "?answers \<noteq> []" using assms(2,3) by auto
  note any = any_flag_wins [OF assms(1) this]
  have no_throw: "Throw e \<notin> set ?answers" for e using assms(4) by (force simp: answering_def list_all_iff)
  have "\<exists>res. resolve_answers r ?answers = Ret res"
  proof (cases "resolve_answers r ?answers")
    case (Inl e)
    with any have "\<forall>a \<in> set ?answers. \<exists>e. a = Throw e" by simp
    with assms(3,4) show ?thesis by (cases ps) (auto simp: answering_def)
  qed simp
  then obtain res where res: "resolve_answers r ?answers = Ret res" ..
  moreover have "rg_providers r \<noteq> []" using assms(2,3) by auto
  ultimately have "registry_checkAddress r address w =
      (Ret \<lparr>cr_flagged = rr_flagged res, cr_source = rr_source res, cr_score = rr_score res\<rparr>, w)"
    by (simp add: registry_checkAddress_def registry_checkAddressDetailed_def asked)
  moreover have "rr_flagged res \<longleftrightarrow> (\<exists>y. Ret y \<in> set ?answers \<and> cr_flagged y)" using any res no_throw by auto
  ultimately show ?thesis using demo_check_answering [OF assms(4)] by auto
qed

theorem demo_registry_agrees_witness:
  "\<exists>x y. demo_checkAddress [csv_checkAddress [(''GA'', [''ofac''])], mock_checkAddress []] ''GA'' () = (Ret x, ())
    \<and> registry_checkAddress (file_registry AnyFlagWins [(''GA'', [''ofac''])] []) ''GA'' () = (Ret y, ()) \<and> cr_flagged x = cr_flagged y"
  by (rule demo_registry_agrees)
    (auto simp: file_registry_def new_registry_def answering_def csv_checkAddress_def mock_checkAddress_def split: option.split)

text \<open>A provider that fails before any flagged the address decides: the check route answers 500 and not a clean verdict.\<close>

theorem demo_check_fails_closed:
  assumes "demo_checkAddress ps a w = (Throw err, w')" and "a \<noteq> []"
  shows "sanctions_check showNumber (demo_checkAddress (ps @ qs)) (Some a) w = (error_answer 500 ''provider_error'' err, w')"
proof -
  have "demo_checkAddress (ps @ qs) a w = (Throw err, w')"
    using assms(1) by (induction ps arbitrary: w) (auto split: prod.splits sum.splits if_splits)
  with assms(2) show ?thesis by (simp add: sanctions_check_def nonempty_def)
qed

theorem demo_check_fails_closed_witness:
  "sanctions_check (\<lambda>_. []) (demo_checkAddress ([\<lambda>a w. (Throw (mk_error ''down''), w)] @ [mock_checkAddress MOCK_FLAGGED_ADDRESSES])) (Some ''GA'') ()
    = (error_answer 500 ''provider_error'' (mk_error ''down''), ())"
  by (rule demo_check_fails_closed) simp_all

section \<open>As shipped\<close>

text \<open>The sync route never syncs: it answers 400 or 500 and changes nothing.\<close>

theorem demo_never_syncs:
  assumes "sanctions_sync (\<lambda>_. None) clock env provider writer addresses dryRun w (out, w')"
  shows "w' = w \<and> (out = Sync_Answer (400, JObj [(''error'', JStr ''body must include a non-empty addresses array'')])
    \<or> out = Sync_Answer (error_answer 500 ''sync_error'' (reference_error ''maxDurationMs'')))"
  using assms by cases (auto simp: sync_unbound)

theorem demo_never_syncs_witness:
  "sanctions_sync (\<lambda>_. None) (\<lambda>w. 0) example_env (mock_checkAddress []) demo_dry_writer (Some (JArr [JStr ''GA''])) True 0
    (Sync_Answer (error_answer 500 ''sync_error'' (reference_error ''maxDurationMs'')), 0)
   \<and> Sync_Answer (error_answer 500 ''sync_error'' (reference_error ''maxDurationMs''))
       \<noteq> Sync_Answer (400, JObj [(''error'', JStr ''body must include a non-empty addresses array'')])"
proof -
  have run: "sanctions_sync (\<lambda>_. None) (\<lambda>w. 0) example_env (mock_checkAddress []) demo_dry_writer (Some (JArr [JStr ''GA''])) True 0
    (Sync_Answer (error_answer 500 ''sync_error'' (reference_error ''maxDurationMs'')), 0)"
    by (rule sync_fails [where xs = "[''GA'']"]) (auto simp: sync_unbound)
  with demo_never_syncs [OF run] show ?thesis by (simp add: error_answer_def)
qed

text \<open>With a contract configured the server does not come up: loading the module throws while it constructs the listener.\<close>

theorem demo_dies_with_contract:
  assumes "ce_getenv env ''DENYLIST_CONTRACT_ID'' = Some contractId" and "contractId \<noteq> []" and "ce_getenv env ''SOROBAN_RPC_URL'' \<noteq> Some []"
  shows "\<exists>e. demo_load nan False protocol_of random env = Throw e"
proof -
  have "soroban_url env \<noteq> []" using assms(3) by (cases "ce_getenv env ''SOROBAN_RPC_URL''") (auto simp: soroban_url_def)
  then have "demo_source nan False protocol_of env = Throw (reference_error ''NoopMetricsRegistry'')"
    using assms(1,2) by (simp add: demo_source_def nonempty_def new_rpc_source_def rpc_urls_def)
  then have "demo_load nan False protocol_of random env \<noteq> Ret parts" for parts
    by (auto simp: demo_load_def js_bind_Ret_iff)
  then show ?thesis by (cases "demo_load nan False protocol_of random env") auto
qed

theorem demo_dies_with_contract_witness:
  "\<exists>e. demo_load 0 False (\<lambda>_. Ret ''https:'') (KP ''S'') (cli_example\<lparr>ce_getenv := \<lambda>n. if n = ''DENYLIST_CONTRACT_ID'' then Some ''CD'' else None\<rparr>) = Throw e"
  by (rule demo_dies_with_contract [where contractId = "''CD''"]) simp_all

end
