(* ===== verification/ExpressApp.thy ===== *)
theory ExpressApp
  imports Router Backoff
begin

text \<open>
  \<open>sep10-auth/examples/express-app/app.ts\<close>: an application that issues challenges for one of several home domains and has a
  route behind the Express adapter. Express itself, which hands what a handler throws to its error handler and runs the
  handlers of a route in order, is written into the routes.
\<close>

section \<open>The application\<close>

record app_options =
  xo_serverKeypair :: "keypair option"
  xo_homeDomain :: "string option"
  xo_homeDomains :: "string list option"
  xo_webAuthDomain :: "string option"
  xo_networkPassphrase :: "string option"

record express_app =
  xa_serverKeypair :: keypair
  xa_homeDomains :: "string list"
  xa_webAuthDomain :: string
  xa_networkPassphrase :: string

text \<open>The options of the middleware, which is given no revocation store and no way of its own to read a token.\<close>

definition app_middleware_options :: "express_app \<Rightarrow> 'w auth_options" where
  "app_middleware_options app =
     \<lparr>ao_verify = \<lparr>vo_serverAccountId = kp_publicKey (xa_serverKeypair app), vo_networkPassphrase = Some (xa_networkPassphrase app),
        vo_homeDomains = Many (xa_homeDomains app), vo_webAuthDomain = One (xa_webAuthDomain app), vo_expectedMemo = None,
        vo_clockSkewToleranceSec = None, vo_accountLoader = None\<rparr>,
      ao_revocationStore = None, ao_maxTokenLength = None, ao_getToken = None\<rparr>"

text \<open>
  \<open>random\<close> is a fresh key pair. Without a home domain the web auth domain is undefined, which the middleware refuses as
  it does the empty domain that stands for it here.
\<close>

definition createExpressApp :: "'w verify_env \<Rightarrow> keypair \<Rightarrow> string \<Rightarrow> app_options \<Rightarrow> thrown + express_app" where
  "createExpressApp env random testnet options =
     (let homeDomains = or_default (xo_homeDomains options) [or_default (xo_homeDomain options) ''example.com''];
          app = \<lparr>xa_serverKeypair = or_default (xo_serverKeypair options) random, xa_homeDomains = homeDomains,
            xa_webAuthDomain = or_default (xo_webAuthDomain options) (case homeDomains of [] \<Rightarrow> [] | d # _ \<Rightarrow> d),
            xa_networkPassphrase = or_default (xo_networkPassphrase options) testnet\<rparr>
      in js_bind (assertSep10MiddlewareOptions (ve_isEd25519 env) (app_middleware_options app :: 'w auth_options)) (\<lambda>_. Ret app))"

section \<open>The routes\<close>

definition app_error :: "string \<Rightarrow> handled" where
  "app_error what = json_answer 400 (JObj [(''error'', JStr what)])"

definition quoted_parameter :: "string \<Rightarrow> string" where
  "quoted_parameter name = [CHR 0x22] @ name @ [CHR 0x22] @ '' query parameter''"

definition challenge_options :: "express_app \<Rightarrow> string \<Rightarrow> generate_options" where
  "challenge_options app homeDomain =
     \<lparr>go_homeDomain = Some homeDomain, go_webAuthDomain = Some (xa_webAuthDomain app),
      go_networkPassphrase = Some (xa_networkPassphrase app), go_timeoutSec = None, go_timeoutSeconds = None, go_memo = None,
      go_clientDomain = None, go_clientSigningKey = None\<rparr>"

definition challenge_answer :: "generated_challenge \<Rightarrow> handled" where
  "challenge_answer c = json_answer 200 (JObj [(''transaction'', JStr (gc_transactionXDR c)),
     (''network_passphrase'', JStr (gc_networkPassphrase c))])"

definition string_value :: "query_value \<Rightarrow> string option" where
  "string_value v = (case v of QString s \<Rightarrow> Some s | _ \<Rightarrow> None)"

definition challenge_route :: "'w challenge_env \<Rightarrow> express_app \<Rightarrow> query_value \<Rightarrow> query_value \<Rightarrow> 'w \<Rightarrow> handled \<times> 'w" where
  "challenge_route env app address home_domain w =
     (case string_value address of
        None \<Rightarrow> (app_error (''missing required '' @ quoted_parameter ''address''), w)
      | Some clientAddress \<Rightarrow>
          if clientAddress = [] then (app_error (''missing required '' @ quoted_parameter ''address''), w)
          else
            (case resolveHomeDomain (string_value home_domain) (Many (xa_homeDomains app)) of
               Throw error \<Rightarrow>
                 (if (case error of Exn name _ _ \<Rightarrow> name = ''UnknownHomeDomainError'' | _ \<Rightarrow> False)
                  then app_error (''unknown '' @ quoted_parameter ''home_domain'') else NextError error, w)
             | Ret resolvedHomeDomain \<Rightarrow>
                 (case generateChallenge env clientAddress (xa_serverKeypair app) (challenge_options app resolvedHomeDomain) w of
                    (Throw e, w) \<Rightarrow> (app_error (''invalid '' @ quoted_parameter ''address''), w)
                  | (Ret challenge, w) \<Rightarrow> (challenge_answer challenge, w))))"

definition protected_route :: "'w verify_env \<Rightarrow> express_app \<Rightarrow> auth_request \<Rightarrow> 'w \<Rightarrow> handled \<times> 'w" where
  "protected_route env app req w =
     (case express_authenticate env (app_middleware_options app) req w of
        ((Next, account), w) \<Rightarrow>
          (json_answer 200 (JObj (case account of None \<Rightarrow> [] | Some (address, jti) \<Rightarrow> [(''address'', JStr address)])), w)
      | ((h, _), w) \<Rightarrow> (h, w))"

section \<open>Challenges\<close>

lemma created_domains:
  assumes "createExpressApp env random testnet options = Ret app"
  shows "xa_homeDomains app \<noteq> []"
  using assms by (auto simp: createExpressApp_def Let_def js_bind_Ret_iff assertSep10MiddlewareOptions_def assert_domains_def
    app_middleware_options_def split: if_splits)

text \<open>
  A running application answers every request for a challenge, with 400 or with a challenge and no error of its own; a challenge
  is for one of the served domains, the requested one or, when none is requested, the first.
\<close>

theorem challenge_route_sound:
  assumes "createExpressApp venv random testnet options = Ret app"
    and "challenge_route env app address home_domain w = (h, w')"
  shows "(\<exists>message. h = app_error message) \<or> (\<exists>a d c. address = QString a \<and> a \<noteq> [] \<and> d \<in> set (xa_homeDomains app)
    \<and> (string_value home_domain = Some d \<or> string_value home_domain \<in> {None, Some []} \<and> d = hd (xa_homeDomains app))
    \<and> generateChallenge env a (xa_serverKeypair app) (challenge_options app d) w = (Ret c, w') \<and> h = challenge_answer c)"
  using assms(2) created_domains [OF assms(1)]
  by (auto simp: challenge_route_def resolveHomeDomain_def Let_def string_value_def unknown_home_domain_error_def
    split: query_value.splits option.splits sum.splits prod.splits if_splits) (metis hd_in_set)

text \<open>
  What the application issues is what its middleware checks for: a challenge is built for a home domain, a web auth domain
  and a network that the verification behind the protected route accepts, by the server account it expects.
\<close>

theorem challenge_matches_verifier:
  assumes "createExpressApp venv random testnet options = Ret app"
    and "challenge_route env app address home_domain w = (challenge_answer c, w')"
  shows "\<exists>a d t. d \<in> set (as_array (vo_homeDomains (ao_verify (app_middleware_options app))))
    \<and> xa_webAuthDomain app \<in> set (as_array (vo_webAuthDomain (ao_verify (app_middleware_options app))))
    \<and> kp_publicKey (xa_serverKeypair app) = vo_serverAccountId (ao_verify (app_middleware_options app))
    \<and> Some (gc_networkPassphrase c) = vo_networkPassphrase (ao_verify (app_middleware_options app))
    \<and> fst (ce_build env (request_of env a (xa_serverKeypair app) (challenge_options app d) t) w) = Ret (gc_transactionXDR c)"
proof -
  have "challenge_answer c \<noteq> app_error m" for m
    by (simp add: app_error_def challenge_answer_def json_answer_def)
  then obtain a d c1 where d: "d \<in> set (xa_homeDomains app)"
    and gen: "generateChallenge env a (xa_serverKeypair app) (challenge_options app d) w = (Ret c1, w')"
    and "challenge_answer c = challenge_answer c1"
    using challenge_route_sound [OF assms] by blast
  then have same: "gc_transactionXDR c1 = gc_transactionXDR c" "gc_networkPassphrase c1 = gc_networkPassphrase c"
    by (simp_all add: challenge_answer_def json_answer_def)
  obtain t where "check_challenge env a (xa_serverKeypair app) (challenge_options app d)
      = Ret (request_of env a (xa_serverKeypair app) (challenge_options app d) t)"
    using gen check_challenge_ok by (fastforce simp: generateChallenge_def split: sum.splits)
  with gen have "fst (ce_build env (request_of env a (xa_serverKeypair app) (challenge_options app d) t) w) = Ret (gc_transactionXDR c)"
    "gc_networkPassphrase c = xa_networkPassphrase app"
    using same by (auto simp: generateChallenge_def request_of_def challenge_options_def Let_def split: sum.splits prod.splits)
  with d show ?thesis by (auto simp: app_middleware_options_def)
qed

section \<open>The protected route\<close>

text \<open>
  And yet nobody gets through: whatever challenge the bearer token is, the protected route answers 401, since the Express
  adapter of the package rejects every request.
\<close>

theorem protected_never_opens:
  "\<exists>resp. fst (protected_route env app req w) = Respond resp \<and> hr_status resp = 401"
  using express_rejects [of env "app_middleware_options app" req w]
  by (auto simp: protected_route_def split: prod.split)

definition served_app :: express_app where
  "served_app = \<lparr>xa_serverKeypair = \<lparr>kp_canSign = True, kp_publicKey = ''GS''\<rparr>, xa_homeDomains = [''a.org'', ''b.org''],
     xa_webAuthDomain = ''a.org'', xa_networkPassphrase = ''net''\<rparr>"

definition served_options :: app_options where
  "served_options = \<lparr>xo_serverKeypair = Some \<lparr>kp_canSign = True, kp_publicKey = ''GS''\<rparr>, xo_homeDomain = None,
     xo_homeDomains = Some [''a.org'', ''b.org''], xo_webAuthDomain = None, xo_networkPassphrase = Some ''net''\<rparr>"

lemma served_app_created: "createExpressApp example_verify_env random testnet served_options = Ret served_app"
  by (simp add: createExpressApp_def served_options_def served_app_def assertSep10MiddlewareOptions_def assert_domains_def
    app_middleware_options_def assertBareDomain_def bare_examples example_verify_env_def Let_def)

lemma served_challenge:
  "challenge_route example_challenge_env served_app (QString ''GA'') (QString ''b.org'') 0
    = (challenge_answer \<lparr>gc_transactionXDR = ''GA'', gc_networkPassphrase = ''net'', gc_expiresAt = 900007\<rparr>, 1)"
proof -
  let ?o = "challenge_options served_app ''b.org''"
  have "acceptable example_challenge_env ''GA'' (xa_serverKeypair served_app) ?o 900"
    by (simp add: acceptable_def example_challenge_env_def challenge_options_def served_app_def isValidClientAddress_def
      isValidStellarAddress_def home_of_def web_auth_of_def challenge_timeout_def not_bare_iff is_ws_def)
  then have "check_challenge example_challenge_env ''GA'' (xa_serverKeypair served_app) ?o
      = Ret (request_of example_challenge_env ''GA'' (xa_serverKeypair served_app) ?o 900)"
    using check_challenge_ok by metis
  moreover have "ce_build example_challenge_env req w = (Ret (cr_clientAddress req), w + 1)"
    "ce_now example_challenge_env w = (7, w)" for req w
    by (simp_all add: example_challenge_env_def)
  ultimately have "generateChallenge example_challenge_env ''GA'' (xa_serverKeypair served_app) ?o 0
      = (Ret \<lparr>gc_transactionXDR = ''GA'', gc_networkPassphrase = ''net'', gc_expiresAt = 900007\<rparr>, 1)"
    by (simp add: generateChallenge_def request_of_def date_ms_def) (simp add: challenge_options_def served_app_def)
  moreover have "resolveHomeDomain (Some ''b.org'') (Many (xa_homeDomains served_app)) = Ret ''b.org''"
    by (simp add: resolveHomeDomain_def served_app_def)
  ultimately show ?thesis by (simp add: challenge_route_def string_value_def)
qed

theorem challenge_matches_verifier_witness:
  "\<exists>a d t. d \<in> set (as_array (vo_homeDomains (ao_verify (app_middleware_options served_app))))
    \<and> fst (ce_build example_challenge_env (request_of example_challenge_env a (xa_serverKeypair served_app)
        (challenge_options served_app d) t) 0) = Ret ''GA''"
  using challenge_matches_verifier [OF served_app_created served_challenge] by auto

theorem challenge_route_sound_witness:
  "\<exists>a d c. QString ''GA'' = QString a \<and> d = ''b.org''
    \<and> generateChallenge example_challenge_env a (xa_serverKeypair served_app) (challenge_options served_app d) 0 = (Ret c, 1)"
  using challenge_route_sound [OF served_app_created served_challenge]
  by (auto simp: string_value_def app_error_def challenge_answer_def json_answer_def)

end
