(* ===== verification/AdapterMetrics.thy ===== *)
theory AdapterMetrics
  imports Expositions
begin

text \<open>
  \<open>sanctions-oracle/src/metrics.ts\<close> and \<open>horizon-listener/src/metrics.ts\<close>: the registries of the two packages over the
  generic one, the listener's with the gauge of its ledger lag. The no-op registries discard everything and expose nothing.
\<close>

section \<open>The registries\<close>

definition SANCTIONS_PHASES :: "string list" where
  "SANCTIONS_PHASES = [''address_check'', ''denylist_write'']"

definition new_sanctions_metrics :: "string option \<Rightarrow> rat list option \<Rightarrow> int option \<Rightarrow> metrics_config" where
  "new_sanctions_metrics pfx histogramBuckets maxSeries =
     new_metrics_config (or_default pfx ''sanctions_oracle'') SANCTIONS_PHASES histogramBuckets maxSeries"

definition LISTENER_PHASES :: "string list" where
  "LISTENER_PHASES = [''rpc_poll'', ''event_relay'', ''webhook'', ''rpc_failover'']"

text \<open>The registry of the listener: the generic one, its own copy of the prefix, and the lag.\<close>

record listener_metrics =
  lm_config :: metrics_config
  lm_state :: metrics
  lm_gaugePrefix :: string
  lm_ledgerLag :: rat

definition new_listener_metrics :: "string option \<Rightarrow> rat list option \<Rightarrow> int option \<Rightarrow> listener_metrics" where
  "new_listener_metrics pfx histogramBuckets maxSeries =
     (let p = or_default pfx ''horizon_listener'' in
      \<lparr>lm_config = new_metrics_config p LISTENER_PHASES histogramBuckets maxSeries, lm_state = metrics_init,
       lm_gaugePrefix = p, lm_ledgerLag = 0\<rparr>)"

definition setLedgerLag :: "rat \<Rightarrow> listener_metrics \<Rightarrow> listener_metrics" where
  "setLedgerLag lag m = m\<lparr>lm_ledgerLag := lag\<rparr>"

definition getLedgerLag :: "listener_metrics \<Rightarrow> rat" where
  "getLedgerLag m = lm_ledgerLag m"

definition lag_name :: "listener_metrics \<Rightarrow> string" where
  "lag_name m = lm_gaugePrefix m @ ''_ledger_lag''"

definition listener_expose :: "(rat \<Rightarrow> string) \<Rightarrow> listener_metrics \<Rightarrow> string" where
  "listener_expose num m =
     metrics_expose num (lm_config m) (lm_state m)
     @ ''# HELP '' @ lag_name m @ '' Latest ledger minus last processed ledger'' @ [newline]
     @ ''# TYPE '' @ lag_name m @ '' gauge'' @ [newline] @ lag_name m @ '' '' @ num (lm_ledgerLag m) @ [newline]"

definition noop_getLedgerLag :: rat where
  "noop_getLedgerLag = 0"

text \<open>What a listener does with its registry.\<close>

datatype metric_event =
    Count string metric_outcome
  | Observe string rat
  | Gauge_Set string rat
  | Lag rat

fun record_event :: "metric_event \<Rightarrow> listener_metrics \<Rightarrow> listener_metrics" where
  "record_event (Count phase outcome) m = m\<lparr>lm_state := counter_inc (lm_config m) phase outcome (lm_state m)\<rparr>"
| "record_event (Observe phase d) m = m\<lparr>lm_state := histogram_observe (lm_config m) phase d (lm_state m)\<rparr>"
| "record_event (Gauge_Set phase v) m = m\<lparr>lm_state := gauge_set (lm_config m) phase v (lm_state m)\<rparr>"
| "record_event (Lag lag) m = setLedgerLag lag m"

fun last_lag :: "rat \<Rightarrow> metric_event list \<Rightarrow> rat" where
  "last_lag lag [] = lag"
| "last_lag lag (Lag l # es) = last_lag l es"
| "last_lag lag (e # es) = last_lag lag es"

lemma record_events:
  "lm_config (fold record_event es m) = lm_config m"
  "lm_gaugePrefix (fold record_event es m) = lm_gaugePrefix m"
  "lm_ledgerLag (fold record_event es m) = last_lag (lm_ledgerLag m) es"
proof -
  have "lm_config (fold record_event es m) = lm_config m \<and> lm_gaugePrefix (fold record_event es m) = lm_gaugePrefix m
    \<and> lm_ledgerLag (fold record_event es m) = last_lag (lm_ledgerLag m) es"
  proof (induction es arbitrary: m)
    case (Cons e es)
    then show ?case by (cases e) (simp_all add: setLedgerLag_def)
  qed simp
  then show "lm_config (fold record_event es m) = lm_config m"
    "lm_gaugePrefix (fold record_event es m) = lm_gaugePrefix m"
    "lm_ledgerLag (fold record_event es m) = last_lag (lm_ledgerLag m) es" by simp_all
qed

section \<open>The lag is scraped\<close>

lemma split_on_append: "split_on d (s @ d # t) = split_on d s @ split_on d t"
proof (induction s)
  case (Cons c s)
  then show ?case
    using split_on_nonempty [of d s] by (cases "split_on d s") auto
qed simp

lemma split_on_line: "d \<notin> set l \<Longrightarrow> l \<in> set (split_on d (s @ d # l @ [d]))"
  using split_on_append [of d s "l @ [d]"] split_on_append_Cons [of d l "[]"] by simp

lemma trim_clean: "s \<noteq> [] \<Longrightarrow> \<not> is_ws (hd s) \<Longrightarrow> \<not> is_ws (last s) \<Longrightarrow> trim s = s"
  by (simp add: trim_def trim_left_def trim_right_def dropWhile_eq_self_iff [THEN iffD2] hd_rev)

lemma name_start_not_ws: "name_start c \<Longrightarrow> \<not> is_ws c"
  by (auto simp: name_start_def is_ws_def Let_def)

definition plain_number :: "string \<Rightarrow> bool" where
  "plain_number s \<longleftrightarrow> s \<noteq> [] \<and> list_all (\<lambda>c. \<not> is_ws c) s"

lemma lag_line_sample:
  assumes "getMetricName p = Some p" and "plain_number n"
  shows "trim (p @ ''_ledger_lag '' @ n) = p @ ''_ledger_lag '' @ n" and "is_sample (p @ ''_ledger_lag '' @ n)"
    and "newline \<notin> set (p @ ''_ledger_lag '' @ n)"
proof -
  obtain c cs where p: "p = c # cs" and c: "name_start c" and cs: "takeWhile name_char cs = cs"
    using assms(1) by (cases p) (auto split: if_splits)
  have n: "n \<noteq> []" "\<not> is_ws (last n)" "newline \<notin> set n"
    using assms(2) by (auto simp: plain_number_def list_all_iff is_ws_def)
  show "trim (p @ ''_ledger_lag '' @ n) = p @ ''_ledger_lag '' @ n"
    using n name_start_not_ws [OF c] by (intro trim_clean) (simp_all add: p)
  have "c \<noteq> CHR 0x23" using c by (auto simp: name_start_def Let_def)
  then show "is_sample (p @ ''_ledger_lag '' @ n)"
    using c by (simp add: is_sample_def match_header_def p)
  have "\<not> name_char newline" by (simp add: name_char_def name_start_def is_digit_def)
  then have "newline \<notin> set cs" using cs by (metis takeWhile_eq_all_conv)
  moreover have "c \<noteq> newline" using c by (auto simp: name_start_def Let_def)
  ultimately show "newline \<notin> set (p @ ''_ledger_lag '' @ n)" using n by (simp add: p)
qed

text \<open>
  A scrape shows the current lag. Whatever the listener recorded before, and whichever expositions of other packages are
  combined with its own, the combined text has a line with the lag of the last update.
\<close>

theorem lag_is_scraped:
  assumes "getMetricName (or_default pfx ''horizon_listener'') = Some (or_default pfx ''horizon_listener'')"
    and "m = fold record_event es (new_listener_metrics pfx buckets cap)" and "plain_number (num (last_lag 0 es))"
  shows "or_default pfx ''horizon_listener'' @ ''_ledger_lag '' @ num (last_lag 0 es)
    \<in> set (combined_lines localeCompare (before @ listener_expose num m # after))"
proof -
  let ?p = "or_default pfx ''horizon_listener''" and ?l = "or_default pfx ''horizon_listener'' @ ''_ledger_lag '' @ num (last_lag 0 es)"
  note line = lag_line_sample [OF assms(1,3)]
  have m: "lm_gaugePrefix m = ?p" "lm_ledgerLag m = last_lag 0 es"
    by (simp_all add: assms(2) record_events new_listener_metrics_def Let_def)
  have "listener_expose num m = (metrics_expose num (lm_config m) (lm_state m)
      @ ''# HELP '' @ lag_name m @ '' Latest ledger minus last processed ledger'' @ [newline] @ ''# TYPE '' @ lag_name m @ '' gauge'')
      @ newline # ?l @ [newline]"
    by (simp add: listener_expose_def lag_name_def m)
  then have "?l \<in> set (split_on newline (listener_expose num m))"
    using split_on_line [OF line(3)] by metis
  then have "?l \<in> set (input_samples (before @ listener_expose num m # after))"
    using line(1,2) by (force simp: input_samples_def)
  then have "?l \<in># mset (filter is_sample (combined_lines localeCompare (before @ listener_expose num m # after)))"
    by (simp only: combine_keeps_samples set_mset_mset)
  then show ?thesis by simp
qed

theorem lag_is_scraped_witness:
  "''horizon_listener_ledger_lag 7'' \<in> set (combined_lines (\<lambda>a b. 0)
     [metrics_expose (\<lambda>_. ''7'') (new_sanctions_metrics None None None) metrics_init,
      listener_expose (\<lambda>_. ''7'') (fold record_event [Lag 3, Count ''rpc_poll'' Success, Lag 7] (new_listener_metrics None None None))])"
  using lag_is_scraped [of None "fold record_event [Lag 3, Count ''rpc_poll'' Success, Lag 7] (new_listener_metrics None None None)"
      "[Lag 3, Count ''rpc_poll'' Success, Lag 7]" None None "\<lambda>_. ''7''" "\<lambda>a b. 0"
      "[metrics_expose (\<lambda>_. ''7'') (new_sanctions_metrics None None None) metrics_init]" "[]"]
  by (simp add: or_default_def plain_number_def is_ws_def name_start_def name_char_def)

end
