(* ===== verification/EventStream.thy ===== *)
theory EventStream
  imports Listener
begin

text \<open>
  \<open>HorizonListener.events()\<close> of \<open>horizon-listener/src/listener.ts\<close>: the asynchronous generator that hands the events of a
  listener to a \<open>for await\<close> loop. The generator, its consumer, the listener that calls the handler, and the loop
  \<open>start\<close> interleave; each step is one uninterrupted run of the program. The promise that a handler call returns is named
  by a number, in order of the calls.
\<close>

section \<open>The generator\<close>

text \<open>
  Where the generator stands: not yet asked, awaiting a wake-up, suspended at the yield, awaiting the loop in its
  \<open>finally\<close> with what it will end with, or ended. It ends with \<open>None\<close> when it returns.
\<close>

datatype stream_phase = Unstarted | Waiting | At_Yield | Closing "thrown option" | Ended "thrown option"

record stream =
  xs_phase :: stream_phase
  xs_queue :: "(nat \<times> raw_event) list"
  xs_ack :: "nat option"
  xs_wake :: bool
  xs_woken :: bool
  xs_done :: bool
  xs_failure :: "thrown option"
  xs_closed :: bool
  xs_aborted :: bool
  xs_accepted :: "raw_event list"
  xs_yielded :: "raw_event list"
  xs_acked :: "nat list"
  xs_stops :: nat

definition stream_init :: stream where
  "stream_init = \<lparr>xs_phase = Unstarted, xs_queue = [], xs_ack = None, xs_wake = False, xs_woken = False, xs_done = False,
     xs_failure = None, xs_closed = False, xs_aborted = False, xs_accepted = [], xs_yielded = [], xs_acked = [], xs_stops = 0\<rparr>"

definition stream_notify :: "stream \<Rightarrow> stream" where
  "stream_notify s = (if xs_wake s then s\<lparr>xs_wake := False, xs_woken := True\<rparr> else s)"

text \<open>The handler: the event is queued with its acknowledgement, unless the consumer is gone.\<close>

definition stream_handler :: "raw_event \<Rightarrow> stream \<Rightarrow> stream" where
  "stream_handler event s =
     (if xs_closed s \<or> xs_aborted s then s
      else stream_notify (s\<lparr>xs_queue := xs_queue s @ [(length (xs_accepted s), event)], xs_accepted := xs_accepted s @ [event]\<rparr>))"

definition stream_settle :: "thrown option \<Rightarrow> stream \<Rightarrow> stream" where
  "stream_settle err s = stream_notify (s\<lparr>xs_failure := err, xs_done := True\<rparr>)"

definition acks :: "nat option \<Rightarrow> nat list" where
  "acks a = (case a of None \<Rightarrow> [] | Some i \<Rightarrow> [i])"

definition stream_finally :: "thrown option \<Rightarrow> stream \<Rightarrow> stream" where
  "stream_finally result s =
     s\<lparr>xs_closed := True, xs_stops := Suc (xs_stops s), xs_acked := xs_acked s @ acks (xs_ack s) @ map fst (xs_queue s),
       xs_queue := [], xs_phase := Closing result\<rparr>"

text \<open>From the inner loop on: yield the oldest event, or end, or wait.\<close>

definition stream_pull :: "stream \<Rightarrow> stream" where
  "stream_pull s =
     (case xs_queue s of
        (i, event) # rest \<Rightarrow>
          s\<lparr>xs_queue := rest, xs_ack := Some i, xs_yielded := xs_yielded s @ [event], xs_phase := At_Yield\<rparr>
      | [] \<Rightarrow>
          if xs_done s then stream_finally (xs_failure s) s
          else s\<lparr>xs_phase := Waiting, xs_wake := True, xs_woken := False\<rparr>)"

definition stream_resume :: "stream \<Rightarrow> stream" where
  "stream_resume s = stream_pull (s\<lparr>xs_acked := xs_acked s @ acks (xs_ack s), xs_ack := None\<rparr>)"

text \<open>
  The steps: the listener calls the handler, the consumer asks for the next event or breaks out of its loop, the awaited
  wake-up arrives, \<open>start\<close> settles with its failure if any, the signal is aborted, and \<open>await loop\<close> returns.
\<close>

datatype stream_event =
    Call_Handler raw_event
  | Next_Item
  | Break_Out
  | Wake_Up
  | Settle "thrown option"
  | Abort_Signal
  | Loop_Awaited

fun stream_step :: "stream_event \<Rightarrow> stream \<Rightarrow> stream option" where
  "stream_step (Call_Handler e) s =
     (case xs_phase s of Unstarted \<Rightarrow> None | Ended _ \<Rightarrow> None | _ \<Rightarrow> Some (stream_handler e s))"
| "stream_step Next_Item s =
     (case xs_phase s of
        Unstarted \<Rightarrow> Some (stream_pull s)
      | At_Yield \<Rightarrow> Some (stream_resume s)
      | Ended _ \<Rightarrow> Some s
      | _ \<Rightarrow> None)"
| "stream_step Break_Out s =
     (case xs_phase s of
        Unstarted \<Rightarrow> Some (s\<lparr>xs_phase := Ended None\<rparr>)
      | At_Yield \<Rightarrow> Some (stream_finally None s)
      | Ended _ \<Rightarrow> Some s
      | _ \<Rightarrow> None)"
| "stream_step Wake_Up s = (if xs_phase s = Waiting \<and> xs_woken s then Some (stream_pull s) else None)"
| "stream_step (Settle err) s =
     (if xs_done s then None else case xs_phase s of Unstarted \<Rightarrow> None | Ended _ \<Rightarrow> None | _ \<Rightarrow> Some (stream_settle err s))"
| "stream_step Abort_Signal s = Some (s\<lparr>xs_aborted := True\<rparr>)"
| "stream_step Loop_Awaited s =
     (case xs_phase s of Closing r \<Rightarrow> if xs_done s then Some (s\<lparr>xs_phase := Ended r\<rparr>) else None | _ \<Rightarrow> None)"

fun stream_run :: "stream_event list \<Rightarrow> stream \<Rightarrow> stream option" where
  "stream_run [] s = Some s"
| "stream_run (e # es) s = (case stream_step e s of None \<Rightarrow> None | Some s \<Rightarrow> stream_run es s)"

section \<open>The invariant\<close>

text \<open>The promises resolved while the consumer is at work: those of the events it has come back from.\<close>

definition consumed :: "stream \<Rightarrow> nat" where
  "consumed s = (if xs_phase s = At_Yield then length (xs_yielded s) - 1 else length (xs_yielded s))"

definition open_inv :: "stream \<Rightarrow> bool" where
  "open_inv s \<longleftrightarrow> xs_accepted s = xs_yielded s @ map snd (xs_queue s)
     \<and> map fst (xs_queue s) = [length (xs_yielded s)..<length (xs_accepted s)]
     \<and> xs_acked s = [0..<consumed s]
     \<and> (xs_phase s = At_Yield \<longrightarrow> xs_yielded s \<noteq> [] \<and> xs_ack s = Some (length (xs_yielded s) - 1))
     \<and> (xs_phase s \<noteq> At_Yield \<longrightarrow> xs_ack s = None)
     \<and> (xs_phase s = Waiting \<longrightarrow> xs_wake s \<noteq> xs_woken s \<and> (xs_queue s \<noteq> [] \<or> xs_done s \<longrightarrow> xs_woken s))
     \<and> (\<forall>r. xs_phase s = Ended r \<longrightarrow> r = None \<and> xs_accepted s = [])
     \<and> (\<forall>r. xs_phase s \<noteq> Closing r)
     \<and> (xs_phase s = Unstarted \<longrightarrow> xs_accepted s = [] \<and> \<not> xs_done s)
     \<and> (\<not> xs_done s \<longrightarrow> xs_failure s = None)"

definition closed_inv :: "stream \<Rightarrow> bool" where
  "closed_inv s \<longleftrightarrow> prefix (xs_yielded s) (xs_accepted s) \<and> xs_acked s = [0..<length (xs_accepted s)]
     \<and> (\<exists>r. xs_phase s \<in> {Closing r, Ended r} \<and> (r = None \<or> xs_done s \<and> r = xs_failure s))"

definition stream_inv :: "stream \<Rightarrow> bool" where
  "stream_inv s \<longleftrightarrow> (if xs_closed s then closed_inv s else open_inv s)"

lemma init_stream_inv: "stream_inv stream_init"
  by (simp add: stream_inv_def open_inv_def consumed_def stream_init_def)

lemma finally_inv:
  assumes "xs_accepted s = xs_yielded s @ map snd (xs_queue s)"
    and "map fst (xs_queue s) = [length (xs_yielded s)..<length (xs_accepted s)]"
    and "xs_acked s @ acks (xs_ack s) = [0..<length (xs_yielded s)]" and "r = None \<or> xs_done s \<and> r = xs_failure s"
  shows "stream_inv (stream_finally r s)"
proof -
  have "length (xs_yielded s) \<le> length (xs_accepted s)" by (simp add: assms(1))
  then have "xs_acked s @ acks (xs_ack s) @ map fst (xs_queue s) = [0..<length (xs_accepted s)]"
    using assms(2,3) upt_add_eq_append [of 0 "length (xs_yielded s)" "length (xs_accepted s) - length (xs_yielded s)"]
    by simp
  then show ?thesis
    using assms(1,4) by (auto simp: stream_inv_def closed_inv_def stream_finally_def)
qed

lemma pull_inv:
  assumes "xs_accepted s = xs_yielded s @ map snd (xs_queue s)"
    and "map fst (xs_queue s) = [length (xs_yielded s)..<length (xs_accepted s)]"
    and "xs_acked s = [0..<length (xs_yielded s)]" and "xs_ack s = None"
    and "\<not> xs_closed s" and "\<not> xs_done s \<longrightarrow> xs_failure s = None"
  shows "stream_inv (stream_pull s)"
proof (cases "xs_queue s")
  case Nil
  then show ?thesis
    using finally_inv [of s "xs_failure s"] assms
    by (auto simp: stream_pull_def stream_inv_def open_inv_def consumed_def acks_def)
next
  case (Cons x rest)
  obtain i e where x: "x = (i, e)" by fastforce
  have less: "length (xs_yielded s) < length (xs_accepted s)" using assms(1) Cons by simp
  then have "i = length (xs_yielded s)" "map fst rest = [Suc (length (xs_yielded s))..<length (xs_accepted s)]"
    using assms(2) Cons x upt_conv_Cons [OF less] by simp_all
  then show ?thesis
    using assms Cons x by (auto simp: stream_pull_def stream_inv_def open_inv_def consumed_def)
qed

lemma yielded_acks:
  "open_inv s \<Longrightarrow> xs_acked s @ acks (xs_ack s) = [0..<length (xs_yielded s)]"
  by (cases "xs_phase s = At_Yield"; cases "xs_yielded s" rule: rev_cases) (auto simp: open_inv_def consumed_def acks_def)

lemma resume_inv: "open_inv s \<Longrightarrow> \<not> xs_closed s \<Longrightarrow> stream_inv (stream_resume s)"
  unfolding stream_resume_def by (rule pull_inv) (simp_all add: yielded_acks, simp_all add: open_inv_def)

lemma break_inv: "open_inv s \<Longrightarrow> stream_inv (stream_finally None s)"
  by (rule finally_inv) (simp_all add: yielded_acks, simp_all add: open_inv_def)

lemma wake_inv:
  assumes "open_inv s" and "\<not> xs_closed s" and "xs_phase s \<noteq> At_Yield"
  shows "stream_inv (stream_pull s)"
  using assms by (intro pull_inv) (simp_all add: open_inv_def consumed_def)

lemma handler_inv:
  assumes "open_inv s" and "\<not> xs_closed s" and "xs_phase s \<in> {Waiting, At_Yield}"
  shows "stream_inv (stream_handler e s)"
  using assms by (auto simp: stream_handler_def stream_notify_def stream_inv_def open_inv_def consumed_def)

lemma settle_inv:
  assumes "stream_inv s" and "xs_phase s \<noteq> Unstarted" and "\<And>r. xs_phase s \<noteq> Ended r" and "\<not> xs_done s"
  shows "stream_inv (stream_settle err s)"
  using assms by (auto simp: stream_settle_def stream_notify_def stream_inv_def open_inv_def closed_inv_def consumed_def)

lemma step_inv:
  assumes "stream_inv s" and "stream_step e s = Some s'"
  shows "stream_inv s'"
proof -
  consider (settle) err where "e = Settle err" | (closed) "xs_closed s" "\<And>err. e \<noteq> Settle err"
    | (running) "\<not> xs_closed s" "\<And>err. e \<noteq> Settle err" by blast
  then show ?thesis
  proof cases
    case settle
    then have "s' = stream_settle err s" "xs_phase s \<noteq> Unstarted" "\<And>r. xs_phase s \<noteq> Ended r" "\<not> xs_done s"
      using assms(2) by (auto split: stream_phase.splits if_splits)
    then show ?thesis using settle_inv [OF assms(1)] by simp
  next
    case closed
    then have "closed_inv s" using assms(1) by (simp add: stream_inv_def)
    then show ?thesis
      using assms(2) closed
      by (cases e) (auto simp: stream_handler_def stream_inv_def closed_inv_def split: stream_phase.splits if_splits)
  next
    case running
    then have inv: "open_inv s" using assms(1) by (simp add: stream_inv_def)
    note inv_rules = wake_inv [OF inv running(1)] resume_inv [OF inv running(1)] handler_inv [OF inv running(1)]
    have unasked: "stream_inv (s\<lparr>xs_phase := Ended None\<rparr>)" if "xs_phase s = Unstarted"
      using inv running(1) that by (auto simp: stream_inv_def open_inv_def consumed_def)
    have aborted: "stream_inv (s\<lparr>xs_aborted := True\<rparr>)"
      using inv running(1) by (auto simp: stream_inv_def open_inv_def consumed_def)
    have awaited: "xs_phase s \<noteq> Closing r" for r using inv by (simp add: open_inv_def)
    show ?thesis
      using assms running(2) inv_rules unasked aborted awaited break_inv [OF inv]
      by (cases e; cases "xs_phase s") (simp_all split: if_splits, auto)
  qed
qed

lemma run_inv: "stream_inv s \<Longrightarrow> stream_run es s = Some s' \<Longrightarrow> stream_inv s'"
  by (induction es arbitrary: s) (auto split: option.splits intro: step_inv)

lemmas reached_inv = run_inv [OF init_stream_inv]

section \<open>What the consumer gets\<close>

text \<open>
  C27. The consumer gets every event once and in order, with backpressure. While it has not left, the events the handler took are
  those it got followed by the queue, and the listener's handler call for an event returns only once the consumer has come back
  for the next one. When it has left, it got an initial part of them, and no handler call is left hanging.
\<close>

theorem stream_delivers:
  assumes "stream_run es stream_init = Some s"
  shows "prefix (xs_yielded s) (xs_accepted s)
    \<and> xs_acked s = [0..<(if xs_closed s then length (xs_accepted s) else consumed s)]
    \<and> (\<not> xs_closed s \<longrightarrow> xs_accepted s = xs_yielded s @ map snd (xs_queue s))"
  using reached_inv [OF assms] by (auto simp: stream_inv_def open_inv_def closed_inv_def split: if_splits)

text \<open>
  No wake-up is lost: a generator that waits while an event is queued or the loop has ended will be woken, and then
  yields the oldest event or ends.
\<close>

theorem stream_no_lost_wakeup:
  assumes "stream_run es stream_init = Some s" and "xs_phase s = Waiting" and "xs_queue s \<noteq> [] \<or> xs_done s"
  shows "\<exists>s'. stream_step Wake_Up s = Some s' \<and> (case xs_queue s of
      [] \<Rightarrow> xs_phase s' = Closing (xs_failure s)
    | (i, e) # rest \<Rightarrow> xs_phase s' = At_Yield \<and> xs_yielded s' = xs_yielded s @ [e])"
proof -
  have "xs_woken s"
    using reached_inv [OF assms(1)] assms(2,3) by (auto simp: stream_inv_def open_inv_def closed_inv_def split: if_splits)
  with assms(2,3) show ?thesis by (auto simp: stream_pull_def stream_finally_def split: list.split)
qed

section \<open>As shipped\<close>

text \<open>
  The listener calls \<open>onEvent\<close> and never the handler the generator installs: the consumer gets no event at all, and
  waits until the loop settles, with whose failure its iteration fails.
\<close>

theorem stream_as_shipped:
  assumes "stream_run es stream_init = Some s" and "\<And>e. Call_Handler e \<notin> set es"
  shows "xs_yielded s = [] \<and> (\<forall>err. xs_phase s = Ended (Some err) \<longrightarrow> Settle (Some err) \<in> set es)"
proof -
  have step: "xs_accepted s' = xs_accepted s \<and> (xs_failure s' = xs_failure s \<or> Settle (xs_failure s') = e)"
    if "stream_step e s = Some s'" "\<And>x. e \<noteq> Call_Handler x" for e s s'
    using that by (cases e)
      (auto simp: stream_pull_def stream_resume_def stream_finally_def stream_settle_def stream_notify_def
        split: stream_phase.splits list.splits if_splits)
  have run: "xs_accepted s' = xs_accepted s \<and> (xs_failure s' = xs_failure s \<or> Settle (xs_failure s') \<in> set es)"
    if "stream_run es s = Some s'" "\<And>x. Call_Handler x \<notin> set es" for es s s'
    using that
  proof (induction es arbitrary: s)
    case (Cons e es)
    then obtain s1 where "stream_step e s = Some s1" "stream_run es s1 = Some s'" by (auto split: option.splits)
    with step [of e s s1] Cons.IH [of s1] Cons.prems(2) show ?case by (metis list.set_intros)
  qed simp
  have "xs_accepted s = []" "xs_failure s = None \<or> Settle (xs_failure s) \<in> set es"
    using run [OF assms] by (simp_all add: stream_init_def)
  then show ?thesis
    using reached_inv [OF assms(1)] by (auto simp: stream_inv_def open_inv_def closed_inv_def split: if_splits)
qed

section \<open>Examples\<close>

definition stream_example_event :: "string \<Rightarrow> raw_event" where
  "stream_example_event i = \<lparr>ev_id = i, ev_contractId = [], ev_ledger = 0, ev_topic = [], ev_value = JNull\<rparr>"

abbreviation two_events :: "stream_event list" where
  "two_events \<equiv> [Next_Item, Call_Handler (stream_example_event ''1''), Call_Handler (stream_example_event ''2''), Wake_Up, Next_Item, Break_Out]"

definition after_two_events :: stream where
  "after_two_events = the (stream_run two_events stream_init)"

lemmas stream_defs = stream_init_def stream_pull_def stream_resume_def stream_handler_def stream_notify_def stream_settle_def
  stream_finally_def acks_def

lemma two_events_run: "stream_run two_events stream_init = Some after_two_events"
  by (simp add: after_two_events_def stream_defs)

theorem stream_delivers_witness:
  "xs_yielded after_two_events = [stream_example_event ''1'', stream_example_event ''2''] \<and> xs_acked after_two_events = [0, 1]"
proof
  show "xs_yielded after_two_events = [stream_example_event ''1'', stream_example_event ''2'']"
    by (simp add: after_two_events_def stream_defs)
  have "xs_closed after_two_events" "length (xs_accepted after_two_events) = 2"
    by (simp_all add: after_two_events_def stream_defs)
  then show "xs_acked after_two_events = [0, 1]"
    using stream_delivers [OF two_events_run] by (simp add: upt_rec)
qed

theorem stream_no_lost_wakeup_witness:
  "\<exists>s s'. stream_run [Next_Item, Call_Handler (stream_example_event ''1'')] stream_init = Some s
    \<and> stream_step Wake_Up s = Some s' \<and> xs_yielded s' = [stream_example_event ''1'']"
proof -
  let ?run = "[Next_Item, Call_Handler (stream_example_event ''1'')]"
  obtain s where s: "stream_run ?run stream_init = Some s" "xs_phase s = Waiting" "xs_queue s = [(0, stream_example_event ''1'')]"
      "xs_yielded s = []"
    by (simp add: stream_defs)
  then obtain s' where "stream_step Wake_Up s = Some s'" "xs_yielded s' = [stream_example_event ''1'']"
    using stream_no_lost_wakeup [OF s(1,2)] by (auto simp del: stream_step.simps)
  with s(1) show ?thesis by blast
qed

theorem stream_as_shipped_witness:
  "\<exists>s. stream_run [Next_Item, Settle (Some (mk_error ''down'')), Wake_Up, Loop_Awaited] stream_init = Some s
    \<and> xs_phase s = Ended (Some (mk_error ''down'')) \<and> xs_yielded s = []"
proof -
  obtain s where s: "stream_run [Next_Item, Settle (Some (mk_error ''down'')), Wake_Up, Loop_Awaited] stream_init = Some s"
      "xs_phase s = Ended (Some (mk_error ''down''))"
    by (simp add: stream_defs)
  then show ?thesis using stream_as_shipped [OF s(1)] by auto
qed

end
