(* ===== verification/RepoScripts.thy ===== *)
theory RepoScripts
  imports Cli WebForm
begin

text \<open>
  The repository's checks in \<open>scripts\<close>: the benchmark gate (\<open>validate-benchmark.js\<close>), the licence headers
  (\<open>check-license-headers.js\<close>) and the labels of issues (\<open>apply-package-labels.js\<close>). Files and the requests to GitHub are
  parameters; the log lines are left out.
\<close>

section \<open>The benchmark gate\<close>

text \<open>\<open>argValue\<close>: the word after the first occurrence of the flag.\<close>

definition argValue :: "string list \<Rightarrow> string \<Rightarrow> string option \<Rightarrow> string option" where
  "argValue argv flag defaultValue =
     (case dropWhile (\<lambda>w. w \<noteq> flag) argv of _ # v # _ \<Rightarrow> Some v | _ \<Rightarrow> defaultValue)"

definition result_marker :: string where
  "result_marker = ''BENCHMARK_RESULT_JSON=''"

text \<open>Trimming a line removes the carriage return the program splits at.\<close>

definition parseBenchmarkResult :: "string \<Rightarrow> thrown + json" where
  "parseBenchmarkResult logContent =
     (case find (prefix result_marker) (map trim (split_on (CHR 0x0A) logContent)) of
        None \<Rightarrow> Throw (mk_error ''Missing BENCHMARK_RESULT_JSON marker in benchmark log output.'')
      | Some line \<Rightarrow> json_parse (drop (length result_marker) line))"

record 'w script_env =
  sc_read :: "string \<Rightarrow> 'w \<Rightarrow> thrown + string"
  sc_write :: "string \<Rightarrow> string \<Rightarrow> 'w \<Rightarrow> (thrown + unit) \<times> 'w"
  sc_resolve :: "string \<Rightarrow> string"
  sc_nowIso :: "'w \<Rightarrow> string"
  sc_fixed1 :: "rat \<Rightarrow> string"
  sc_showNumber :: "rat \<Rightarrow> string"
  sc_number_text :: "string \<Rightarrow> string"

text \<open>Strict equality of two members; \<open>None\<close> is undefined, objects are never the same.\<close>

definition strict_equal :: "(string \<Rightarrow> string) \<Rightarrow> json option \<Rightarrow> json option \<Rightarrow> bool" where
  "strict_equal num a b = (case (a, b) of
     (Some (JNum s), Some (JNum t)) \<Rightarrow> num s = num t
   | (Some (JArr _), _) \<Rightarrow> False
   | (Some (JObj _), _) \<Rightarrow> False
   | _ \<Rightarrow> a = b)"

text \<open>\<open>Number(v)\<close>; \<open>None\<close> is NaN. Throughput numbers are finite or NaN, exact rationals instead of doubles.\<close>

definition number_of :: "(string \<Rightarrow> string) \<Rightarrow> json option \<Rightarrow> rat option" where
  "number_of num v = (case v of
     None \<Rightarrow> None
   | Some JNull \<Rightarrow> Some 0
   | Some (JBool b) \<Rightarrow> Some (if b then 1 else 0)
   | Some j \<Rightarrow> js_number (js_String num j))"

definition allowed_floor :: "rat option \<Rightarrow> rat option \<Rightarrow> rat option" where
  "allowed_floor baselineOps thresholdPercent =
     Option.bind baselineOps (\<lambda>b. map_option (\<lambda>t. b * (1 - t / 100)) thresholdPercent)"

definition js_less :: "rat option \<Rightarrow> rat option \<Rightarrow> bool" where
  "js_less a b = (case (a, b) of (Some x, Some y) \<Rightarrow> x < y | _ \<Rightarrow> False)"

definition fixed_text :: "'w script_env \<Rightarrow> rat option \<Rightarrow> string" where
  "fixed_text env v = (case v of None \<Rightarrow> ''NaN'' | Some r \<Rightarrow> sc_fixed1 env r)"

definition change_text :: "'w script_env \<Rightarrow> rat option \<Rightarrow> rat option \<Rightarrow> string" where
  "change_text env actualOps baselineOps = (case (actualOps, baselineOps) of
     (Some a, Some b) \<Rightarrow>
       if b = 0 then (if a = 0 then ''NaN'' else if 0 < a then ''Infinity'' else ''-Infinity'')
       else sc_fixed1 env ((a - b) / b * 100)
   | _ \<Rightarrow> ''NaN'')"

definition writeSummary :: "'w script_env \<Rightarrow> string option \<Rightarrow> string list \<Rightarrow> 'w \<Rightarrow> (thrown + unit) \<times> 'w" where
  "writeSummary env summaryPath lines w =
     (case summaryPath of
        None \<Rightarrow> (Ret (), w)
      | Some p \<Rightarrow> if p = [] then (Ret (), w) else sc_write env p (join [CHR 0x0A] lines @ [CHR 0x0A]) w)"

definition regression_error :: "'w script_env \<Rightarrow> rat option \<Rightarrow> rat option \<Rightarrow> thrown" where
  "regression_error env actualOps allowedFloor = mk_error (''Throughput regression detected: '' @ fixed_text env actualOps
     @ '' < '' @ fixed_text env allowedFloor @ '' ops/sec'')"

definition benchmark_summary :: "'w script_env \<Rightarrow> rat option \<Rightarrow> rat option \<Rightarrow> rat option \<Rightarrow> 'w \<Rightarrow> string list" where
  "benchmark_summary env baselineOps actualOps thresholdPercent w =
     [''## SEP-10 Challenge Throughput Benchmark'', ''Benchmark completed on: '' @ sc_nowIso env w,
      ''- Baseline ops/sec: '' @ fixed_text env baselineOps, ''- Current ops/sec: '' @ fixed_text env actualOps,
      ''- Allowed regression threshold: '' @ (case thresholdPercent of None \<Rightarrow> ''NaN'' | Some t \<Rightarrow> sc_showNumber env t) @ ''%'',
      ''- Allowed floor: '' @ fixed_text env (allowed_floor baselineOps thresholdPercent) @ '' ops/sec'',
      ''- Change vs baseline: '' @ change_text env actualOps baselineOps @ ''%'']"

text \<open>The comparison at the end of \<open>main\<close>, with the summary it writes.\<close>

definition benchmark_verdict ::
  "'w script_env \<Rightarrow> string option \<Rightarrow> rat option \<Rightarrow> rat option \<Rightarrow> rat option \<Rightarrow> 'w \<Rightarrow> (thrown + unit) \<times> 'w" where
  "benchmark_verdict env summaryFile baselineOps actualOps thresholdPercent w =
     (let allowedFloor = allowed_floor baselineOps thresholdPercent;
          summary = benchmark_summary env baselineOps actualOps thresholdPercent w
      in if js_less actualOps allowedFloor then
           (case writeSummary env summaryFile (summary @ [[], '':x: Throughput regression detected. Current ops/sec ('' @ fixed_text env actualOps
                @ '') is below allowed floor ('' @ fixed_text env allowedFloor @ '').'']) w of
              (Throw e, w) \<Rightarrow> (Throw e, w)
            | (Ret _, w) \<Rightarrow> (Throw (regression_error env actualOps allowedFloor), w))
         else writeSummary env summaryFile (summary @ [[], '':white_check_mark: Throughput is within the accepted range.'']) w)"

text \<open>The two files, and what they say: the two members named \<open>benchmark\<close> and the two throughputs.\<close>

definition benchmark_numbers :: "'w script_env \<Rightarrow> string \<Rightarrow> string \<Rightarrow> 'w \<Rightarrow> thrown + rat option \<times> rat option" where
  "benchmark_numbers env logFile baselineFile w =
     js_bind (js_bind (sc_read env (sc_resolve env logFile) w) parseBenchmarkResult) (\<lambda>result.
     js_bind (js_bind (sc_read env (sc_resolve env baselineFile) w) json_parse) (\<lambda>baseline.
     js_bind (get_prop baseline ''benchmark'') (\<lambda>b.
     js_bind (get_prop result ''benchmark'') (\<lambda>r.
       if \<not> strict_equal (sc_number_text env) b r then
         Throw (mk_error (''Benchmark mismatch: baseline='' @ (case b of None \<Rightarrow> ''undefined'' | Some j \<Rightarrow> js_String (sc_number_text env) j)
           @ '' result='' @ (case r of None \<Rightarrow> ''undefined'' | Some j \<Rightarrow> js_String (sc_number_text env) j)))
       else
         js_bind (get_prop baseline ''opsPerSecond'') (\<lambda>baselineOps.
         js_bind (get_prop result ''opsPerSecond'') (\<lambda>actualOps.
           Ret (number_of (sc_number_text env) baselineOps, number_of (sc_number_text env) actualOps)))))))"

definition usage_error :: thrown where
  "usage_error = mk_error (''Usage: node scripts/validate-benchmark.js --log-file <path> --baseline-file <path> ''
     @ ''[--threshold-percent 20] [--summary-file <path>]'')"

definition validate_benchmark :: "'w script_env \<Rightarrow> string list \<Rightarrow> 'w \<Rightarrow> (thrown + unit) \<times> 'w" where
  "validate_benchmark env argv w =
     (case (argValue argv ''--log-file'' None, argValue argv ''--baseline-file'' None) of
        (Some logFile, Some baselineFile) \<Rightarrow>
          if logFile = [] \<or> baselineFile = [] then (Throw usage_error, w)
          else
            (case benchmark_numbers env logFile baselineFile w of
               Throw e \<Rightarrow> (Throw e, w)
             | Ret (baselineOps, actualOps) \<Rightarrow>
                 benchmark_verdict env (argValue argv ''--summary-file'' None) baselineOps actualOps
                   (js_number (the (argValue argv ''--threshold-percent'' (Some ''20'')))) w)
      | _ \<Rightarrow> (Throw usage_error, w))"

text \<open>
  The gate fails open. With the two files read and no summary asked for, the check passes exactly unless all three numbers are
  numbers and the throughput is below the floor: a baseline without a throughput, or a threshold that is not a number,
  lets every result through.
\<close>

theorem benchmark_gate_iff:
  assumes "argValue argv ''--log-file'' None = Some l" and "argValue argv ''--baseline-file'' None = Some b" and "l \<noteq> []" and "b \<noteq> []"
    and "benchmark_numbers env l b w = Ret (baselineOps, actualOps)" and "argValue argv ''--summary-file'' None = None"
    and "argValue argv ''--threshold-percent'' (Some ''20'') = Some t"
  shows "fst (validate_benchmark env argv w) = Ret () \<longleftrightarrow>
    \<not> (\<exists>x y p. baselineOps = Some x \<and> actualOps = Some y \<and> js_number t = Some p \<and> y < x * (1 - p / 100))"
  using assms
  by (auto simp: validate_benchmark_def benchmark_verdict_def writeSummary_def js_less_def allowed_floor_def Let_def bind_eq_Some_conv
    split: option.splits)

definition script_example :: "(string \<Rightarrow> string option) script_env" where
  "script_example = \<lparr>sc_read = (\<lambda>p w. case w p of None \<Rightarrow> Throw (mk_error ''ENOENT'') | Some t \<Rightarrow> Ret t),
     sc_write = (\<lambda>p t w. (Ret (), w(p \<mapsto> t))), sc_resolve = (\<lambda>p. p), sc_nowIso = (\<lambda>w. []), sc_fixed1 = (\<lambda>r. []), sc_showNumber = (\<lambda>r. []),
     sc_number_text = (\<lambda>t. t)\<rparr>"

definition nameless_benchmark :: json where
  "nameless_benchmark = JObj [(''benchmark'', JStr ''b'')]"

theorem benchmark_gate_iff_witness:
  "fst (validate_benchmark script_example [''--log-file'', ''l'', ''--baseline-file'', ''b'']
      [''l'' \<mapsto> result_marker @ stringify nameless_benchmark, ''b'' \<mapsto> stringify nameless_benchmark]) = Ret ()"
proof -
  let ?argv = "[''--log-file'', ''l'', ''--baseline-file'', ''b'']"
  let ?w = "[''l'' \<mapsto> result_marker @ stringify nameless_benchmark, ''b'' \<mapsto> stringify nameless_benchmark]"
  have ok: "json_ok nameless_benchmark" by (simp add: nameless_benchmark_def)
  have "CHR 0x0A \<notin> set (result_marker @ stringify nameless_benchmark)"
    using stringify_no_newline [OF ok] by (simp add: result_marker_def)
  moreover have "trim (result_marker @ stringify nameless_benchmark) = result_marker @ stringify nameless_benchmark"
    by (simp add: trim_def trim_left_def trim_right_def result_marker_def nameless_benchmark_def is_ws_def)
  ultimately have read: "parseBenchmarkResult (result_marker @ stringify nameless_benchmark) = Ret nameless_benchmark"
    using json_parse_stringify [OF ok] by (simp add: parseBenchmarkResult_def split_on_notin)
  have numbers: "benchmark_numbers script_example ''l'' ''b'' ?w = Ret (None, None)"
    by (simp add: benchmark_numbers_def script_example_def read json_parse_stringify [OF ok])
      (simp add: nameless_benchmark_def get_prop_def strict_equal_def number_of_def)
  show ?thesis
    using benchmark_gate_iff [of ?argv "''l''" "''b''" script_example ?w None None "''20''"] numbers
    by (simp add: argValue_def)
qed

section \<open>Licence headers\<close>

datatype source_tree = Source_File string | Source_Dir "(string \<times> source_tree) list"

text \<open>The test of \<open>/\.(ts|js|tsx|jsx)$/\<close>.\<close>

definition is_source_name :: "string \<Rightarrow> bool" where
  "is_source_name file \<longleftrightarrow> list_ex (\<lambda>ext. suffix ext file) [''.ts'', ''.js'', ''.tsx'', ''.jsx'']"

text \<open>A directory that does not exist, and one that is a file by itself, are not entered.\<close>

fun getAllSourceFiles :: "string \<Rightarrow> (string \<times> source_tree) list \<Rightarrow> (string \<times> string) list" where
  "getAllSourceFiles dir [] = []"
| "getAllSourceFiles dir ((name, Source_File content) # rest) =
     (if is_source_name name then [(dir @ CHR ''/'' # name, content)] else []) @ getAllSourceFiles dir rest"
| "getAllSourceFiles dir ((name, Source_Dir entries) # rest) =
     getAllSourceFiles (dir @ CHR ''/'' # name) entries @ getAllSourceFiles dir rest"

text \<open>\<open>/Copyright \(c\) \d{4} stellar-compliance-kit/i\<close> at the start of a text.\<close>

definition copyright_here :: "string \<Rightarrow> bool" where
  "copyright_here s \<longleftrightarrow> prefix ''copyright (c) '' (to_lower s)
     \<and> length (drop 14 s) \<ge> 4 \<and> list_all is_digit (take 4 (drop 14 s))
     \<and> prefix '' stellar-compliance-kit'' (to_lower (drop 18 s))"

fun has_copyright :: "string \<Rightarrow> bool" where
  "has_copyright [] = copyright_here []"
| "has_copyright (c # cs) = (copyright_here (c # cs) \<or> has_copyright cs)"

definition has_header :: "string \<Rightarrow> bool" where
  "has_header content \<longleftrightarrow> has_copyright content \<and> str_includes ''spdx-license-identifier: mit'' (to_lower content)"

definition TARGET_DIRS :: "string list" where
  "TARGET_DIRS = [''logger/src'', ''tracing-types/src'', ''sep10-auth/src'', ''sanctions-oracle/src'', ''horizon-listener/src'',
     ''backoff/src'', ''metrics/src'', ''tracing/src'']"

text \<open>The paths reported as missing a header, and the exit code.\<close>

definition check_license_headers :: "(string \<Rightarrow> (string \<times> source_tree) list) \<Rightarrow> string list \<times> int" where
  "check_license_headers read_dir =
     (let missing = map fst (filter (\<lambda>(path, content). \<not> has_header content)
        (concat (map (\<lambda>dir. getAllSourceFiles dir (read_dir dir)) TARGET_DIRS)))
      in (missing, if missing \<noteq> [] then 1 else 0))"

text \<open>A file at some depth of a directory, by its path.\<close>

inductive file_below :: "string \<Rightarrow> (string \<times> source_tree) list \<Rightarrow> string \<Rightarrow> string \<Rightarrow> string \<Rightarrow> bool" where
  here: "(name, Source_File content) \<in> set entries \<Longrightarrow> file_below dir entries (dir @ CHR ''/'' # name) name content"
| deeper: "(sub, Source_Dir inner) \<in> set entries \<Longrightarrow> file_below (dir @ CHR ''/'' # sub) inner path name content \<Longrightarrow>
     file_below dir entries path name content"

lemma below_Cons: "file_below dir rest path name content \<Longrightarrow> file_below dir (e # rest) path name content"
  by (induction rule: file_below.cases) (auto intro: file_below.intros)

lemma all_source_files:
  "(path, content) \<in> set (getAllSourceFiles dir entries) \<longleftrightarrow>
     (\<exists>name. file_below dir entries path name content \<and> is_source_name name)"
proof
  show "(path, content) \<in> set (getAllSourceFiles dir entries) \<Longrightarrow>
      \<exists>name. file_below dir entries path name content \<and> is_source_name name"
  proof (induction dir entries rule: getAllSourceFiles.induct)
    case (2 dir name c rest)
    have "file_below dir ((name, Source_File c) # rest) (dir @ CHR ''/'' # name) name c" by (rule here) simp
    with 2 show ?case by (auto split: if_splits intro: below_Cons)
  next
    case (3 dir sub inner rest)
    have "file_below dir ((sub, Source_Dir inner) # rest) path name content"
      if "file_below (dir @ CHR ''/'' # sub) inner path name content" for name
      by (rule deeper [OF _ that]) simp
    with 3 show ?case by (auto intro: below_Cons)
  qed simp
  have found: "file_below dir entries path name content \<Longrightarrow> is_source_name name \<Longrightarrow>
      (path, content) \<in> set (getAllSourceFiles dir entries)" for name
  proof (induction rule: file_below.induct)
    case (here name content entries dir)
    then show ?case by (induction dir entries rule: getAllSourceFiles.induct) auto
  next
    case (deeper sub inner entries dir path name content)
    then show ?case by (induction dir entries rule: getAllSourceFiles.induct) auto
  qed
  show "\<exists>name. file_below dir entries path name content \<and> is_source_name name \<Longrightarrow>
      (path, content) \<in> set (getAllSourceFiles dir entries)"
    using found by blast
qed

text \<open>
  The check exits with 0 exactly when every source name at any depth of the listed directories has both lines of the header; the
  other directories, \<open>shared/src\<close> among them, are not looked at.
\<close>

theorem license_check_iff:
  "snd (check_license_headers read_dir) = 0 \<longleftrightarrow>
    (\<forall>dir \<in> set TARGET_DIRS. \<forall>path name content. file_below dir (read_dir dir) path name content \<and> is_source_name name \<longrightarrow> has_header content)"
proof -
  have "snd (check_license_headers read_dir) = 0 \<longleftrightarrow>
      (\<forall>dir \<in> set TARGET_DIRS. \<forall>(path, content) \<in> set (getAllSourceFiles dir (read_dir dir)). has_header content)"
    by (auto simp: check_license_headers_def Let_def filter_empty_conv)
  also have "\<dots> \<longleftrightarrow> (\<forall>dir \<in> set TARGET_DIRS. \<forall>path content. (path, content) \<in> set (getAllSourceFiles dir (read_dir dir)) \<longrightarrow> has_header content)"
    by auto
  finally show ?thesis unfolding all_source_files by blast
qed

section \<open>Labels\<close>

record issue =
  is_number :: int
  is_title :: string
  is_body :: "string option"
  is_pull_request :: bool

definition package_names :: "(string list \<times> string) list" where
  "package_names = [([''sep10-auth'', ''sep-10'', ''sep 10''], ''package: sep10-auth''),
     ([''sanctions-oracle'', ''sanctions oracle''], ''package: sanctions-oracle''),
     ([''horizon-listener'', ''horizon listener''], ''package: horizon-listener'')]"

definition label_of :: "issue \<Rightarrow> string option" where
  "label_of i =
     (if is_pull_request i then None
      else
        (let text = to_lower (is_title i @ [CHR 0x0A] @ (case is_body i of None \<Rightarrow> [] | Some b \<Rightarrow> b)) in
         map_option snd (find (\<lambda>(names, label). list_ex (\<lambda>n. str_includes n text) names) package_names)))"

definition label_requests :: "issue list \<Rightarrow> (int \<times> string) list" where
  "label_requests issues = List.map_filter (\<lambda>i. map_option (Pair (is_number i)) (label_of i)) issues"

text \<open>An issue gets one label at most, that of the first package it mentions in this order, whatever else it mentions.\<close>

lemma first_package_wins:
  "\<not> is_pull_request i \<Longrightarrow> is_body i = Some b \<Longrightarrow> str_includes ''sep10-auth'' (to_lower (is_title i @ [CHR 0x0A] @ b)) \<Longrightarrow>
     label_of i = Some ''package: sep10-auth''"
  by (simp add: label_of_def package_names_def)

end
