(* ===== verification/Spec2Isabelle.thy ===== *)
theory Spec2Isabelle
  imports Expositions CircuitBreaker Registry Csv RateLimited Tracing Cli RateLimiter Middleware Login MultiWebhook Forwarder
    Sep45 RestProvider Logger Gated DlqCommand BrowserLogin DemoSanctions ExpressApp AdapterMetrics EventStream
    RepoScripts
begin

text \<open>
  A verification library of the compliance adapters: TypeScript packages that keep an on-chain denylist in step with
  sanctions watchlists (\<open>sanctions-oracle\<close>), authenticate Stellar accounts with SEP-10 and SEP-45 (\<open>sep10-auth\<close>),
  forward contract events to webhooks (\<open>horizon-listener\<close>), and share addresses, semaphores, backoff, metrics,
  tracing and logging. Each theory models one or a few source files; its definitions have the names of the
  functions and types they translate where Isabelle allows it.

  How the program is modelled. Data are records and datatypes with the fields of the source. A function that may
  throw returns \<open>thrown + 'a\<close>, \<open>Throw e\<close> or \<open>Ret a\<close>; one that acts on the outside (network, files, Redis, clock,
  random source) passes a world \<open>'w\<close> along, and everything outside \<open>src/\<close> (the Stellar SDK, fetch, node's crypto and fs,
  Redis, Express, OpenTelemetry) is a parameter, on which a theorem assumes only what it states. Times are integers of
  milliseconds, other numbers of JavaScript are rationals where the program computes with fractions; a \<open>Map\<close> and an object
  are association lists in order of insertion; a character is one of the first 256 code points, \<open>CHR 0xFE\<close> stands
  for the byte order mark, \<open>CHR 0x85\<close> for the ellipsis and \<open>CHR 0x97\<close> for the dash of messages. A name the
  source uses without declaring or importing it is looked up as a global, which is a parameter (unbound: a
  ReferenceError); an import its module does not export is \<open>undefined\<close>; an undeclared member reads as \<open>undefined\<close>. Both
  make some shipped paths fail on every call, which the theorems say.

  Shared ground.
  \<open>JsPrelude\<close>: results, thrown values, strings, numbers as text, insertion-ordered maps and their rewriting
  (\<open>map_simps\<close>). \<open>Json\<close>: \<open>JSON.parse\<close> and \<open>JSON.stringify\<close> with their round trip; the parser's fuel is the length of the text,
  and each call consumes a character. \<open>Uri\<close>, \<open>WebForm\<close>: percent and form encoding, fetch responses.
  \<open>Address\<close> (\<open>shared/src/index.ts\<close>), \<open>Backoff\<close> (\<open>backoff\<close>, \<open>sanctions-oracle/src/retry.ts\<close>), \<open>Gate\<close> and \<open>Semaphore\<close>
  (\<open>shared/src/semaphore.ts\<close>), \<open>Metrics\<close> and \<open>Expositions\<close> (\<open>metrics\<close>, \<open>shared/src/metrics.ts\<close>),
  \<open>AdapterMetrics\<close> (\<open>metrics.ts\<close> of the packages), \<open>Tracing\<close> (\<open>tracing\<close>),
  \<open>Logger\<close> (\<open>logger\<close>: children merge their bindings, a chain of loggers emits exactly from its highest level on, JSON
  lines parse back).

  Screening (\<open>sanctions-oracle/src\<close>). A provider is a function of the locale \<open>sanctions_provider\<close>: the answer depends on
  the account, not on the spelling of its address. \<open>Providers\<close> (mock), \<open>Csv\<close>, \<open>RestProvider\<close> (with the Chainalysis
  example), and the wrappers \<open>RateLimited\<close>, \<open>CircuitBreaker\<close> and \<open>Registry\<close> (\<open>ProviderRegistry.ts\<close>) interpret it. \<open>Checkpoint\<close>
  (\<open>checkpoint.ts\<close>) has the locales \<open>checkpoint_store\<close> and \<open>atomic_files\<close>; \<open>Cache\<close> is the result cache of \<open>sync.ts\<close>, with
  coalescing. \<open>Sync\<close> models \<open>syncSanctionsToDenylist\<close> as a relation: the check phase runs sequentially or as any
  interleaving of the concurrent workers (\<open>conc_step\<close>), then the write and removal loops run; \<open>SyncProofs\<close> carries the
  invariants, \<open>SyncTheorems\<close> the safety and accounting theorems, and \<open>SyncSchedules\<close> independence of the schedule, the
  non-termination after an expired deadline, and that as shipped every call throws. \<open>Writer\<close> is the RPC writer with signer and
  audit log; \<open>Cli\<close> the command line (\<open>parseArgs\<close>, \<open>runCli\<close>).

  Authentication (\<open>sep10-auth/src\<close>). \<open>Challenge\<close>, \<open>Verify\<close>, \<open>Jwt\<close>, \<open>Errors\<close>, \<open>Revocation\<close> (locale
  \<open>revocation_store\<close>, for the in-memory and the Redis store), \<open>RateLimiter\<close> (locale \<open>rate_limit_store\<close>, refinement of a limiter
  that keeps its whole log), \<open>Middleware\<close> (\<open>middleware.ts\<close>, \<open>fastify.ts\<close>), \<open>Router\<close>, \<open>Client\<close>; \<open>Login\<close> composes client, router,
  challenge, verification and token issuer into one login. \<open>Sep45\<close> is the contract-account variant: soundness of its
  verification and the round trip with its generator.

  Event forwarding (\<open>horizon-listener/src\<close>). \<open>Events\<close> (the types of \<open>eventSource.ts\<close>), \<open>DeadLetter\<close> (locales
  \<open>dead_letter_queue\<close> and \<open>reliable_files\<close>), \<open>Webhook\<close> (signing, retries, batching), \<open>MultiWebhook\<close>, \<open>Decode\<close>,
  \<open>EventSources\<close> (RPC and Horizon), \<open>Listener\<close> (the polling loop: pages are split into lanes that workers process; a run has
  as fuel the number of polls and ends or is cut off with the same invariant), \<open>EventStream\<close> (the asynchronous iterator
  \<open>events()\<close>: an invariant over every interleaving of generator, consumer and listener), and \<open>Forwarder\<close> (\<open>factory.ts\<close>).

  The command line of the repository (\<open>bin/compliance-adapters.js\<close>). \<open>Commands\<close>: flags, choice of a command, \<open>sync-sanctions\<close>
  and \<open>listen\<close>; \<open>DlqCommand\<close>: \<open>dlq replay\<close>, with the proof that its fallback agrees with the package and what a replay leaves on
  disk.

  Examples, as programs over the packages. \<open>Gated\<close> (\<open>examples/sep10-sanctions-gate\<close>) is a route behind authentication and a
  sanctions provider. \<open>DemoAuth\<close> and \<open>DemoSanctions\<close> (\<open>examples/full-stack-demo/server.js\<close>) model the demo server: its
  fixed-window limiter with its exact bound, revocation, the authentication routes and the admin gate; what is constructed on
  loading and the sanctions routes, with a registry that interprets \<open>sanctions_provider\<close>. \<open>BrowserLogin\<close>
  (\<open>examples/sep10-browser-login\<close>) is the wallet login and the page around it, with the invariant of the page, and is composed
  with the demo server. \<open>ExpressApp\<close> (\<open>sep10-auth/examples/express-app\<close>) issues challenges that its own middleware
  would accept and a protected route that never opens. \<open>RepoScripts\<close> (\<open>scripts\<close>) models the benchmark gate, the check of
  licence headers and the choice of issue labels.

  The lemma groups follow the theories: invariants of stateful parts by induction over their steps or operations
  (semaphore, slots, breaker, cache, batching, rate store, lanes), functional specifications of parsers and
  printers with round trips (CSV, arguments, JSON, tokens, checkpoints, dead letters), safety theorems that say what a
  positive outcome rests on (writes, removals, verification, tokens, SEP-45, client), and error theorems about the paths
  that fail as shipped.

  Not modelled. Log lines, spans and metrics inside the other components, apart from the circuit breaker's metrics.
  Re-exports (\<open>index.ts\<close> and \<open>tracing.ts\<close> of the packages). The demo's metrics route, which hands on what prom-client
  prints. The shutdown example, the start-up scripts of the examples, the benchmarks, and the scripts for coverage, changelog and
  the creation of labels: they start, measure or report what the models above describe.
\<close>

end
